(* ===== verification/Tc_Prelude.thy ===== *)
theory Tc_Prelude
  imports Main "HOL-Library.Char_ord" "HOL-Library.List_Lexorder" "HOL-Library.Sublist"
begin

text \<open>
  The shared vocabulary of the development: Rust's \<open>str\<close> operations on byte strings, \<open>Vec\<close> and
  \<open>BTreeMap\<close> operations on lists, the \<open>Result\<close> plumbing, and the generic facts the component
  theories use.

  A Rust \<open>String\<close> is a sequence of UTF-8 bytes and so is a HOL \<open>string\<close> (a \<open>char\<close> is a byte), so
  \<open>str::len\<close>, byte indexing, comparison and every operation on ASCII patterns are the list
  operations. Where the code iterates over \<open>chars()\<close> the model groups the bytes of each scalar
  value with \<open>utf8_chars\<close>.
\<close>

section \<open>Results\<close>

text \<open>\<open>Result\<close> is a sum with the error on the left; \<open>rbind\<close> is the \<open>?\<close> operator.\<close>

type_synonym ('e, 'a) result = "'e + 'a"

definition rbind :: "('e, 'a) result \<Rightarrow> ('a \<Rightarrow> ('e, 'b) result) \<Rightarrow> ('e, 'b) result" where
  "rbind m f = (case m of Inl e \<Rightarrow> Inl e | Inr x \<Rightarrow> f x)"

definition ok_or :: "'a option \<Rightarrow> 'e \<Rightarrow> ('e, 'a) result" where
  "ok_or x e = (case x of None \<Rightarrow> Inl e | Some v \<Rightarrow> Inr v)"

definition map_err :: "('e \<Rightarrow> 'f) \<Rightarrow> ('e, 'a) result \<Rightarrow> ('f, 'a) result" where
  "map_err f m = (case m of Inl e \<Rightarrow> Inl (f e) | Inr x \<Rightarrow> Inr x)"

definition is_ok :: "('e, 'a) result \<Rightarrow> bool" where
  "is_ok m = (case m of Inl _ \<Rightarrow> False | Inr _ \<Rightarrow> True)"

text \<open>\<open>for x in xs { f(x)?; }\<close>: the first error stops the loop.\<close>

fun try_all :: "('a \<Rightarrow> ('e, unit) result) \<Rightarrow> 'a list \<Rightarrow> ('e, unit) result" where
  "try_all f [] = Inr ()"
| "try_all f (x # xs) = (case f x of Inl e \<Rightarrow> Inl e | Inr _ \<Rightarrow> try_all f xs)"

text \<open>\<open>iter.map(f).collect::<Result<Vec<_>, _>>()\<close>.\<close>

fun try_map :: "('a \<Rightarrow> ('e, 'b) result) \<Rightarrow> 'a list \<Rightarrow> ('e, 'b list) result" where
  "try_map f [] = Inr []"
| "try_map f (x # xs) =
     (case f x of
        Inl e \<Rightarrow> Inl e
      | Inr y \<Rightarrow> (case try_map f xs of Inl e \<Rightarrow> Inl e | Inr ys \<Rightarrow> Inr (y # ys)))"

text \<open>A loop that threads a state and stops at the first error.\<close>

fun try_fold :: "('s \<Rightarrow> 'a \<Rightarrow> ('e, 's) result) \<Rightarrow> 's \<Rightarrow> 'a list \<Rightarrow> ('e, 's) result" where
  "try_fold f s [] = Inr s"
| "try_fold f s (x # xs) = (case f s x of Inl e \<Rightarrow> Inl e | Inr s' \<Rightarrow> try_fold f s' xs)"

section \<open>Strings\<close>

definition starts_with :: "string \<Rightarrow> string \<Rightarrow> bool" where
  "starts_with s p = prefix p s"

definition ends_with_char :: "string \<Rightarrow> char \<Rightarrow> bool" where
  "ends_with_char s c = (s \<noteq> [] \<and> last s = c)"

definition strip_prefix :: "string \<Rightarrow> string \<Rightarrow> string option" where
  "strip_prefix s p = (if prefix p s then Some (drop (length p) s) else None)"

definition contains_char :: "string \<Rightarrow> char \<Rightarrow> bool" where
  "contains_char s c = (c \<in> set s)"

fun split_once :: "string \<Rightarrow> char \<Rightarrow> (string \<times> string) option" where
  "split_once [] c = None"
| "split_once (x # xs) c =
     (if x = c then Some ([], xs)
      else map_option (\<lambda>(a, b). (x # a, b)) (split_once xs c))"

definition rsplit_once :: "string \<Rightarrow> char \<Rightarrow> (string \<times> string) option" where
  "rsplit_once s c = map_option (\<lambda>(a, b). (rev b, rev a)) (split_once (rev s) c)"

text \<open>\<open>str::split(c)\<close>: the pieces between the separators, at least one piece.\<close>

fun split_char :: "string \<Rightarrow> char \<Rightarrow> string list" where
  "split_char [] c = [[]]"
| "split_char (x # xs) c =
     (if x = c then [] # split_char xs c
      else (case split_char xs c of [] \<Rightarrow> [[x]] | p # ps \<Rightarrow> (x # p) # ps))"

definition trim_start_char :: "char \<Rightarrow> string \<Rightarrow> string" where
  "trim_start_char c s = dropWhile (\<lambda>x. x = c) s"

definition trim_matches_char :: "char \<Rightarrow> string \<Rightarrow> string" where
  "trim_matches_char c s = rev (dropWhile (\<lambda>x. x = c) (rev (dropWhile (\<lambda>x. x = c) s)))"

text \<open>\<open>str::contains(&str)\<close> for a non-empty pattern.\<close>

fun contains_str :: "string \<Rightarrow> string \<Rightarrow> bool" where
  "contains_str [] p = (p = [])"
| "contains_str (x # xs) p = (prefix p (x # xs) \<or> contains_str xs p)"

definition is_utf8_continuation :: "char \<Rightarrow> bool" where
  "is_utf8_continuation c = (128 \<le> (of_char c :: nat) \<and> (of_char c :: nat) < 192)"

text \<open>The scalar values of a UTF-8 string, each as its bytes.\<close>

fun utf8_chars :: "string \<Rightarrow> string list" where
  "utf8_chars [] = []"
| "utf8_chars (x # xs) =
     (case utf8_chars xs of
        [] \<Rightarrow> [[x]]
      | p # ps \<Rightarrow>
          (if p \<noteq> [] \<and> is_utf8_continuation (hd p) then (x # p) # ps else [x] # p # ps))"

definition is_ascii_digit :: "char \<Rightarrow> bool" where
  "is_ascii_digit c = (CHR ''0'' \<le> c \<and> c \<le> CHR ''9'')"

definition is_ascii_lower :: "char \<Rightarrow> bool" where
  "is_ascii_lower c = (CHR ''a'' \<le> c \<and> c \<le> CHR ''z'')"

definition is_ascii_upper :: "char \<Rightarrow> bool" where
  "is_ascii_upper c = (CHR ''A'' \<le> c \<and> c \<le> CHR ''Z'')"

definition is_ascii_alphanumeric :: "char \<Rightarrow> bool" where
  "is_ascii_alphanumeric c = (is_ascii_digit c \<or> is_ascii_lower c \<or> is_ascii_upper c)"

definition ascii_upper_char :: "char \<Rightarrow> char" where
  "ascii_upper_char c = (if is_ascii_lower c then char_of ((of_char c :: nat) - 32) else c)"

definition ascii_lower_char :: "char \<Rightarrow> char" where
  "ascii_lower_char c = (if is_ascii_upper c then char_of ((of_char c :: nat) + 32) else c)"

definition to_ascii_uppercase :: "string \<Rightarrow> string" where
  "to_ascii_uppercase s = map ascii_upper_char s"

text \<open>The characters with the Unicode property White\_Space, as UTF-8.\<close>

definition WHITE_SPACE :: "string list" where
  "WHITE_SPACE =
     map (\<lambda>c. [c]) [CHR 0x09, CHR 0x0A, CHR 0x0B, CHR 0x0C, CHR 0x0D, CHR '' ''] @
     [[CHR 0xC2, CHR 0x85], [CHR 0xC2, CHR 0xA0], [CHR 0xE1, CHR 0x9A, CHR 0x80]] @
     map (\<lambda>c. [CHR 0xE2, CHR 0x80, c])
       [CHR 0x80, CHR 0x81, CHR 0x82, CHR 0x83, CHR 0x84, CHR 0x85, CHR 0x86, CHR 0x87, CHR 0x88, CHR 0x89, CHR 0x8A,
        CHR 0xA8, CHR 0xA9, CHR 0xAF] @
     [[CHR 0xE2, CHR 0x81, CHR 0x9F], [CHR 0xE3, CHR 0x80, CHR 0x80]]"

definition is_whitespace :: "string \<Rightarrow> bool" where
  "is_whitespace c = (c \<in> set WHITE_SPACE)"

section \<open>Decimal numbers\<close>

definition digit_char :: "nat \<Rightarrow> char" where
  "digit_char d = char_of (48 + d)"

text \<open>\<open>to_string\<close> of an unsigned integer.\<close>

fun show_nat :: "nat \<Rightarrow> string" where
  "show_nat n = (if n < 10 then [digit_char n] else show_nat (n div 10) @ [digit_char (n mod 10)])"

declare show_nat.simps [simp del]

definition show_int :: "int \<Rightarrow> string" where
  "show_int i = (if i < 0 then CHR ''-'' # show_nat (nat (- i)) else show_nat (nat i))"

definition digit_value :: "char \<Rightarrow> nat option" where
  "digit_value c = (if is_ascii_digit c then Some ((of_char c :: nat) - 48) else None)"

text \<open>The digit loop of \<open>u64::from_str\<close> with its overflow check.\<close>

fun parse_digits :: "nat \<Rightarrow> nat \<Rightarrow> string \<Rightarrow> nat option" where
  "parse_digits bound acc [] = Some acc"
| "parse_digits bound acc (c # cs) =
     (case digit_value c of
        None \<Rightarrow> None
      | Some d \<Rightarrow> (if acc * 10 + d < bound then parse_digits bound (acc * 10 + d) cs else None))"

text \<open>\<open>str::parse::<u64>\<close>: an optional plus sign, then at least one digit, below \<open>2 ^ 64\<close>.\<close>

definition parse_u64 :: "string \<Rightarrow> nat option" where
  "parse_u64 s =
     (case s of
        [] \<Rightarrow> None
      | c # cs \<Rightarrow>
          (if c = CHR ''+'' then (if cs = [] then None else parse_digits (2 ^ 64) 0 cs)
           else parse_digits (2 ^ 64) 0 (c # cs)))"

section \<open>Lists and ordered maps\<close>

text \<open>\<open>Vec::dedup\<close> removes consecutive repetitions.\<close>

fun dedup :: "'a list \<Rightarrow> 'a list" where
  "dedup [] = []"
| "dedup [x] = [x]"
| "dedup (x # y # ys) = (if x = y then dedup (y # ys) else x # dedup (y # ys))"

text \<open>\<open>BTreeMap\<close> as an association list in key order.\<close>

type_synonym ('k, 'v) btree = "('k \<times> 'v) list"

fun bm_insert :: "'k::linorder \<Rightarrow> 'v \<Rightarrow> ('k, 'v) btree \<Rightarrow> ('k, 'v) btree" where
  "bm_insert k v [] = [(k, v)]"
| "bm_insert k v ((k', v') # m) =
     (if k < k' then (k, v) # (k', v') # m
      else if k = k' then (k, v) # m
      else (k', v') # bm_insert k v m)"

definition bm_wf :: "('k::linorder, 'v) btree \<Rightarrow> bool" where
  "bm_wf m = sorted_wrt (<) (map fst m)"

section \<open>Facts\<close>

named_theorems result_simps "unfolding of the result combinators"

lemma rbind_simps [simp, result_simps]:
  "rbind (Inl e) f = Inl e"
  "rbind (Inr x) f = f x"
  by (simp_all add: rbind_def)

lemma rbind_eq_Inr [simp]: "rbind m f = Inr y \<longleftrightarrow> (\<exists>x. m = Inr x \<and> f x = Inr y)"
  by (cases m) (auto simp: rbind_def)

lemma rbind_eq_Inl [simp]:
  "rbind m f = Inl e \<longleftrightarrow> m = Inl e \<or> (\<exists>x. m = Inr x \<and> f x = Inl e)"
  by (cases m) (auto simp: rbind_def)

lemma ok_or_simps [simp, result_simps]:
  "ok_or None e = Inl e"
  "ok_or (Some x) e = Inr x"
  by (simp_all add: ok_or_def)

lemma ok_or_eq_Inr [simp]: "ok_or x e = Inr y \<longleftrightarrow> x = Some y"
  by (cases x) auto

lemma ok_or_eq_Inl [simp]: "ok_or x e = Inl e' \<longleftrightarrow> x = None \<and> e = e'"
  by (cases x) auto

lemma map_err_simps [simp, result_simps]:
  "map_err f (Inl e) = Inl (f e)"
  "map_err f (Inr x) = Inr x"
  by (simp_all add: map_err_def)

lemma map_err_eq_Inr [simp]: "map_err f m = Inr y \<longleftrightarrow> m = Inr y"
  by (cases m) auto

lemma is_ok_simps [simp, result_simps]:
  "is_ok (Inl e) = False"
  "is_ok (Inr x) = True"
  by (simp_all add: is_ok_def)

lemma is_ok_iff: "is_ok m \<longleftrightarrow> (\<exists>x. m = Inr x)"
  by (cases m) auto

lemma try_all_ok: "try_all f xs = Inr u \<longleftrightarrow> (\<forall>x \<in> set xs. is_ok (f x))"
  by (induction xs) (auto split: sum.splits)

lemma is_ok_try_all: "is_ok (try_all f xs) \<longleftrightarrow> (\<forall>x \<in> set xs. is_ok (f x))"
  by (induction xs) (auto split: sum.splits)

lemma try_all_Inl: "try_all f xs = Inl e \<Longrightarrow> \<exists>x \<in> set xs. f x = Inl e"
  by (induction xs) (auto split: sum.splits)

lemma try_map_Inr_length: "try_map f xs = Inr ys \<Longrightarrow> length ys = length xs"
  by (induction xs arbitrary: ys) (auto split: sum.splits)

lemma try_map_Inr_nth:
  "try_map f xs = Inr ys \<Longrightarrow> i < length xs \<Longrightarrow> f (xs ! i) = Inr (ys ! i)"
  by (induction xs arbitrary: ys i) (auto split: sum.splits simp: nth_Cons split: nat.splits)

lemma try_map_Inr_set: "try_map f xs = Inr ys \<Longrightarrow> y \<in> set ys \<Longrightarrow> \<exists>x \<in> set xs. f x = Inr y"
  by (induction xs arbitrary: ys) (auto split: sum.splits)

lemma try_map_related:
  assumes "try_map f xs = Inr ys" and "\<And>x y. f x = Inr y \<Longrightarrow> g y = k x"
  shows "map g ys = map k xs"
  using assms by (induction xs arbitrary: ys) (auto split: sum.splits)

lemma set_map_filter: "set (List.map_filter f xs) = {y. \<exists>x \<in> set xs. f x = Some y}"
  by (auto simp: map_filter_def) force

lemma try_map_Inl: "try_map f xs = Inl e \<Longrightarrow> \<exists>x \<in> set xs. f x = Inl e"
  by (induction xs) (auto split: sum.splits)

lemma try_fold_Inl: "try_fold f s xs = Inl e \<Longrightarrow> \<exists>s'. \<exists>x \<in> set xs. f s' x = Inl e"
  by (induction xs arbitrary: s) (auto split: sum.splits, metis)

text \<open>The run of a loop up to one of its elements, at it, and after it.\<close>

lemma try_fold_split:
  assumes "try_fold f s xs = Inr s'" and "x \<in> set xs"
  shows "\<exists>ys zs s1 s2. xs = ys @ x # zs \<and> try_fold f s ys = Inr s1 \<and> f s1 x = Inr s2 \<and> try_fold f s2 zs = Inr s'"
  using assms
proof (induction xs arbitrary: s)
  case Nil
  then show ?case by simp
next
  case (Cons y xs)
  then obtain t where t: "f s y = Inr t" "try_fold f t xs = Inr s'" by (auto split: sum.splits)
  show ?case
  proof (cases "x = y")
    case True
    with t show ?thesis by (intro exI [of _ "[]"] exI [of _ xs] exI [of _ s] exI [of _ t]) simp
  next
    case False
    with Cons t obtain ys zs s1 s2 where "xs = ys @ x # zs" "try_fold f t ys = Inr s1" "f s1 x = Inr s2"
      "try_fold f s2 zs = Inr s'" by fastforce
    with t show ?thesis
      by (intro exI [of _ "y # ys"] exI [of _ zs] exI [of _ s1] exI [of _ s2]) simp
  qed
qed

text \<open>A property every step keeps is kept by the whole loop.\<close>

lemma try_fold_invariant:
  assumes "try_fold f s xs = Inr s'" and "P s"
    and "\<And>s x s'. x \<in> set xs \<Longrightarrow> P s \<Longrightarrow> f s x = Inr s' \<Longrightarrow> P s'"
  shows "P s'"
  using assms
proof (induction xs arbitrary: s)
  case Nil
  then show ?case by simp
next
  case (Cons x xs)
  then obtain t where "f s x = Inr t" and rest: "try_fold f t xs = Inr s'"
    by (auto split: sum.splits)
  with Cons.prems have "P t" by auto
  with rest show ?case
    using Cons.prems(3) by (intro Cons.IH [of t]) auto
qed

subsection \<open>Strings\<close>

named_theorems string_simps "characterisations of the string operations"

lemma starts_with_iff [string_simps]: "starts_with s p \<longleftrightarrow> (\<exists>r. s = p @ r)"
  by (simp add: starts_with_def prefix_def)

lemma starts_with_refl [simp]: "starts_with s s"
  by (simp add: starts_with_def)

lemma starts_with_trans: "starts_with a b \<Longrightarrow> starts_with b c \<Longrightarrow> starts_with a c"
  by (auto simp: starts_with_def)

lemma strip_prefix_Some_iff [string_simps]: "strip_prefix s p = Some r \<longleftrightarrow> s = p @ r"
  by (auto simp: strip_prefix_def prefix_def)

lemma strip_prefix_append [simp]: "strip_prefix (p @ r) p = Some r"
  by (simp add: strip_prefix_def)

lemma strip_prefix_None_iff [string_simps]: "strip_prefix s p = None \<longleftrightarrow> (\<forall>r. s \<noteq> p @ r)"
  by (auto simp: strip_prefix_def prefix_def)

lemma ends_with_char_iff [string_simps]: "ends_with_char s c \<longleftrightarrow> (\<exists>r. s = r @ [c])"
  unfolding ends_with_char_def by (cases s rule: rev_cases) auto

lemma split_once_Some_iff [string_simps]:
  "split_once s c = Some (a, b) \<longleftrightarrow> s = a @ c # b \<and> c \<notin> set a"
proof (induction s arbitrary: a)
  case Nil
  then show ?case by simp
next
  case (Cons x xs)
  show ?case
    by (cases a) (auto simp: Cons.IH)
qed

lemma split_once_None_iff [string_simps]: "split_once s c = None \<longleftrightarrow> c \<notin> set s"
  by (induction s) auto

lemma split_once_append [simp]: "c \<notin> set a \<Longrightarrow> split_once (a @ c # b) c = Some (a, b)"
  by (simp add: split_once_Some_iff)

lemma rsplit_once_Some_iff [string_simps]:
  "rsplit_once s c = Some (a, b) \<longleftrightarrow> s = a @ c # b \<and> c \<notin> set b"
proof -
  have "rsplit_once s c = Some (a, b) \<longleftrightarrow> split_once (rev s) c = Some (rev b, rev a)"
    by (auto simp: rsplit_once_def)
  also have "\<dots> \<longleftrightarrow> rev s = rev b @ c # rev a \<and> c \<notin> set b"
    by (simp add: split_once_Some_iff)
  also have "rev s = rev b @ c # rev a \<longleftrightarrow> s = a @ c # b"
    by (metis append.assoc append_Cons append_Nil rev.simps(2) rev_append rev_rev_ident)
  finally show ?thesis .
qed

lemma rsplit_once_None_iff [string_simps]: "rsplit_once s c = None \<longleftrightarrow> c \<notin> set s"
  by (simp add: rsplit_once_def split_once_None_iff)

lemma rsplit_once_append [simp]: "c \<notin> set b \<Longrightarrow> rsplit_once (a @ c # b) c = Some (a, b)"
  by (simp add: rsplit_once_Some_iff)

lemma contains_char_iff [string_simps]: "contains_char s c \<longleftrightarrow> c \<in> set s"
  by (simp add: contains_char_def)

lemma contains_str_iff: "contains_str s p \<longleftrightarrow> (\<exists>a b. s = a @ p @ b)"
proof (induction s)
  case Nil
  then show ?case by auto
next
  case (Cons x xs)
  show ?case
  proof
    assume "contains_str (x # xs) p"
    then consider "prefix p (x # xs)" | "contains_str xs p" by auto
    then show "\<exists>a b. x # xs = a @ p @ b"
    proof cases
      case 1
      then show ?thesis by (metis append_Nil prefix_def)
    next
      case 2
      with Cons.IH obtain a b where "xs = a @ p @ b" by auto
      then have "x # xs = (x # a) @ p @ b" by simp
      then show ?thesis by blast
    qed
  next
    assume "\<exists>a b. x # xs = a @ p @ b"
    then obtain a b where eq: "x # xs = a @ p @ b" by auto
    show "contains_str (x # xs) p"
    proof (cases a)
      case Nil
      with eq have "prefix p (x # xs)" by (simp add: prefix_def)
      then show ?thesis by simp
    next
      case (Cons y ys)
      with eq have "xs = ys @ p @ b" by simp
      with Cons.IH show ?thesis by auto
    qed
  qed
qed

lemma concat_utf8_chars [simp]: "concat (utf8_chars s) = s"
  by (induction s) (auto split: list.splits)

lemma utf8_chars_ascii:
  "(\<And>c. c \<in> set s \<Longrightarrow> \<not> is_utf8_continuation c) \<Longrightarrow> utf8_chars s = map (\<lambda>c. [c]) s"
  by (induction s) (auto split: list.splits)

subsection \<open>Decimal numbers\<close>

lemma digit_value_digit_char [simp]: "d < 10 \<Longrightarrow> digit_value (digit_char d) = Some d"
  by (auto simp: digit_value_def digit_char_def is_ascii_digit_def less_eq_char_def)

lemma digit_char_neq_plus [simp]: "d < 10 \<Longrightarrow> digit_char d \<noteq> CHR ''+''"
proof
  assume "d < 10" and "digit_char d = CHR ''+''"
  then have "(of_char (digit_char d) :: nat) = of_char (CHR ''+'')" by simp
  with \<open>d < 10\<close> show False by (simp add: digit_char_def)
qed

lemma parse_digits_append:
  "parse_digits bound acc (s @ [c]) =
     (case parse_digits bound acc s of
        None \<Rightarrow> None
      | Some n \<Rightarrow> (case digit_value c of
          None \<Rightarrow> None
        | Some d \<Rightarrow> (if n * 10 + d < bound then Some (n * 10 + d) else None)))"
  by (induction s arbitrary: acc) (auto split: option.splits)

lemma parse_digits_show_nat: "n < bound \<Longrightarrow> parse_digits bound 0 (show_nat n) = Some n"
proof (induction n rule: show_nat.induct)
  case (1 n)
  show ?case
  proof (cases "n < 10")
    case True
    with "1.prems" show ?thesis by (simp add: show_nat.simps [of n])
  next
    case False
    with "1.prems" have "n div 10 < bound"
      using div_le_dividend le_less_trans by blast
    with "1.IH" False have "parse_digits bound 0 (show_nat (n div 10)) = Some (n div 10)"
      by simp
    with False "1.prems" show ?thesis
      by (simp add: show_nat.simps [of n] parse_digits_append)
  qed
qed

lemma show_nat_neq_Nil [simp]: "show_nat n \<noteq> []"
  by (simp add: show_nat.simps [of n])

lemma set_show_nat: "set (show_nat n) \<subseteq> digit_char ` {..<10}"
proof (induction n rule: show_nat.induct)
  case (1 n)
  then show ?case by (auto simp: show_nat.simps [of n])
qed

lemma is_ascii_digit_digit_char: "d < 10 \<Longrightarrow> is_ascii_digit (digit_char d)"
  by (simp add: is_ascii_digit_def digit_char_def less_eq_char_def)

lemma show_nat_digits: "c \<in> set (show_nat n) \<Longrightarrow> is_ascii_digit c"
  using set_show_nat [of n] is_ascii_digit_digit_char by fastforce

lemma parse_u64_show_nat:
  assumes "n < 2 ^ 64"
  shows "parse_u64 (show_nat n) = Some n"
proof -
  obtain c cs where s: "show_nat n = c # cs" by (cases "show_nat n") auto
  then have "c \<in> digit_char ` {..<10}" using set_show_nat [of n] by auto
  then have "c \<noteq> CHR ''+''" by auto
  with s assms parse_digits_show_nat [of n "2 ^ 64"] show ?thesis
    by (simp add: parse_u64_def)
qed

lemma parse_digits_bound: "parse_digits bound acc s = Some n \<Longrightarrow> acc < bound \<Longrightarrow> n < bound"
  by (induction s arbitrary: acc) (auto split: option.splits if_splits)

lemma parse_u64_bound: "parse_u64 s = Some n \<Longrightarrow> n < 2 ^ 64"
  by (auto simp: parse_u64_def simp del: parse_digits.simps split: list.splits if_splits
      dest!: parse_digits_bound)

lemma show_nat_inject: "show_nat m = show_nat n \<Longrightarrow> m = n"
proof -
  assume "show_nat m = show_nat n"
  then have "parse_digits (Suc (m + n)) 0 (show_nat m) = parse_digits (Suc (m + n)) 0 (show_nat n)"
    by simp
  then show ?thesis by (simp add: parse_digits_show_nat)
qed

subsection \<open>Lists and ordered maps\<close>

lemma set_dedup [simp]: "set (dedup xs) = set xs"
  by (induction xs rule: dedup.induct) auto

lemma dedup_Nil_iff [simp]: "dedup xs = [] \<longleftrightarrow> xs = []"
  by (induction xs rule: dedup.induct) auto

lemma sorted_dedup: "sorted xs \<Longrightarrow> sorted_wrt (<) (dedup xs)"
  by (induction xs rule: dedup.induct) (auto simp: order.strict_iff_order)

lemma distinct_sorted_dedup: "sorted xs \<Longrightarrow> distinct (dedup xs)"
  using sorted_dedup [of xs] by (simp add: strict_sorted_iff)

lemma length_dedup_le: "length (dedup xs) \<le> length xs"
  by (induction xs rule: dedup.induct) auto

lemma dedup_id: "distinct xs \<Longrightarrow> dedup xs = xs"
  by (induction xs rule: dedup.induct) auto

lemma fst_set_bm_insert: "fst ` set (bm_insert k v m) = insert k (fst ` set m)"
  by (induction k v m rule: bm_insert.induct) auto

lemma bm_wf_Cons [simp]: "bm_wf ((k, v) # m) \<longleftrightarrow> (\<forall>x \<in> fst ` set m. k < x) \<and> bm_wf m"
  by (auto simp: bm_wf_def)

lemma bm_wf_Nil [simp]: "bm_wf []"
  by (simp add: bm_wf_def)

lemma bm_wf_insert [simp]: "bm_wf m \<Longrightarrow> bm_wf (bm_insert k v m)"
proof (induction k v m rule: bm_insert.induct)
  case (1 k v)
  then show ?case by simp
next
  case (2 k v k' v' m)
  then show ?case
    by (auto simp: fst_set_bm_insert simp del: image_iff intro: less_trans)
qed

lemma map_of_bm_insert: "map_of (bm_insert k v m) = (map_of m)(k \<mapsto> v)"
  by (induction k v m rule: bm_insert.induct) (simp_all add: fun_eq_iff)

lemma bm_wf_distinct: "bm_wf m \<Longrightarrow> distinct (map fst m)"
  by (simp add: bm_wf_def strict_sorted_iff)

text \<open>Two ordered maps with the same entries are the same list: \<open>BTreeMap\<close> equality.\<close>

lemma bm_wf_rebuild:
  assumes "bm_wf m"
  shows "map (\<lambda>k. (k, the (map_of m k))) (map fst m) = m"
proof -
  have "distinct (map fst m)" using assms by (rule bm_wf_distinct)
  then have "(fst e, the (map_of m (fst e))) = e" if "e \<in> set m" for e
    using that by (cases e) simp
  then show ?thesis by (simp add: map_idI)
qed

lemma bm_wf_ext:
  assumes "bm_wf m" and "bm_wf m'" and "map_of m = map_of m'"
  shows "m = m'"
proof -
  from assms have keys: "set (map fst m) = set (map fst m')"
    by (metis dom_map_of_conv_image_fst set_map)
  with assms(1,2) have "map fst m = map fst m'"
    by (simp only: bm_wf_def strict_sorted_equal)
  with assms show ?thesis
    using bm_wf_rebuild by metis
qed

section \<open>Lists and relations\<close>

lemma find_SomeD: "find P xs = Some x \<Longrightarrow> x \<in> set xs \<and> P x"
  by (induction xs) (auto split: if_splits)

lemma find_snoc: "find P xs = None \<Longrightarrow> find P (xs @ [y]) = (if P y then Some y else None)"
  by (induction xs) (auto split: if_splits)

lemma find_append: "find P xs = Some x \<Longrightarrow> find P (xs @ ys) = Some x"
  by (induction xs) auto

lemma find_map_same:
  assumes "find P xs = Some x" and "\<And>y. P (f y) \<longleftrightarrow> P y"
  shows "find P (map f xs) = Some (f x)"
  using assms(1)
proof (induction xs)
  case (Cons y ys)
  then show ?case by (cases "P y") (simp_all add: assms(2))
qed simp

lemma acyclic_new_source:
  assumes "acyclic r" and "h \<notin> Range r" and "h \<notin> P"
  shows "acyclic (r \<union> {h} \<times> P)"
proof (rule acyclicI, rule allI, rule notI)
  fix x
  have path: "(a, b) \<in> (r \<union> {h} \<times> P)\<^sup>+ \<Longrightarrow> b \<noteq> h \<and> (a = h \<or> (a, b) \<in> r\<^sup>+)" for a b
    by (induction rule: trancl_induct) (use assms(2,3) in \<open>auto intro: trancl_into_trancl\<close>)
  assume "(x, x) \<in> (r \<union> {h} \<times> P)\<^sup>+"
  with path [of x x] assms(1) show False by (auto simp: acyclic_def)
qed

lemma rbind_cong:
  assumes "m = m'" and "\<And>x. m' = Inr x \<Longrightarrow> f x = f' x"
  shows "rbind m f = rbind m' f'"
  using assms by (cases m') auto

end
