(* ===== verification/Json.thy ===== *)
theory Json
  imports Complex_Main Tc_Prelude
begin

text \<open>
  The JSON values of \<open>serde_json::Value\<close> and the accessors the node uses. A number is one of the
  three cases of \<open>serde_json::Number\<close>; a finite binary64 is represented by its value, which is what
  its equality compares. An object is the entry list of a \<open>BTreeMap\<close>, in key order.
\<close>

datatype number = PosInt nat | NegInt int | Float rat

datatype json =
    JNull
  | JBool bool
  | JNumber number
  | JString string
  | JArray "json list"
  | JObject "(string \<times> json) list"

fun as_object :: "json \<Rightarrow> (string \<times> json) list option" where
  "as_object (JObject m) = Some m"
| "as_object _ = None"

fun as_array :: "json \<Rightarrow> json list option" where
  "as_array (JArray xs) = Some xs"
| "as_array _ = None"

fun as_str :: "json \<Rightarrow> string option" where
  "as_str (JString s) = Some s"
| "as_str _ = None"

fun as_bool :: "json \<Rightarrow> bool option" where
  "as_bool (JBool b) = Some b"
| "as_bool _ = None"

fun as_i64 :: "json \<Rightarrow> int option" where
  "as_i64 (JNumber (PosInt n)) = (if n < 2 ^ 63 then Some (int n) else None)"
| "as_i64 (JNumber (NegInt i)) = Some i"
| "as_i64 _ = None"

fun as_u64 :: "json \<Rightarrow> nat option" where
  "as_u64 (JNumber (PosInt n)) = Some n"
| "as_u64 _ = None"

definition is_object :: "json \<Rightarrow> bool" where
  "is_object v = (as_object v \<noteq> None)"

definition obj_get :: "(string \<times> json) list \<Rightarrow> string \<Rightarrow> json option" where
  "obj_get m k = map_of m k"

text \<open>\<open>obj.get(k).and_then(f)\<close>.\<close>

definition obj_get_as :: "(json \<Rightarrow> 'a option) \<Rightarrow> (string \<times> json) list \<Rightarrow> string \<Rightarrow> 'a option" where
  "obj_get_as f m k = Option.bind (obj_get m k) f"

lemma as_object_Some_iff [simp]: "as_object v = Some m \<longleftrightarrow> v = JObject m"
  by (cases v) auto

lemma as_array_Some_iff [simp]: "as_array v = Some m \<longleftrightarrow> v = JArray m"
  by (cases v) auto

lemma as_str_Some_iff [simp]: "as_str v = Some m \<longleftrightarrow> v = JString m"
  by (cases v) auto

lemma as_bool_Some_iff [simp]: "as_bool v = Some m \<longleftrightarrow> v = JBool m"
  by (cases v) auto

end
