(* ===== verification/Externals.thy ===== *)
theory Externals
  imports Json "HOL-Library.Word"
begin

text \<open>
  The code the node calls but does not contain: published crates. Each is a field of one record
  that the definitions take as an argument, so that a theorem about a definition holds for every
  behaviour of these crates, and what a theorem needs of one of them is a named law below.

    \<^item> \<open>keccak256\<close>: \<open>Keccak256::digest\<close> of the \<open>sha3\<close> crate;
    \<^item> \<open>hex_crate_encode\<close>: \<open>hex::encode\<close> of the \<open>hex\<close> crate;
    \<^item> \<open>uri_parse\<close>: \<open>UriStr::new\<close> of the \<open>iri-string\<close> crate, with the accessors of the parsed value;
    \<^item> \<open>did_valid\<close>: whether \<open>DIDBuf::try_from\<close> of the \<open>ssi\<close> crate accepts a string;
    \<^item> \<open>blake3\<close>: the digest of \<open>Blake3_256\<close> of the \<open>multihash-codetable\<close> crate;
    \<^item> \<open>cid_display\<close>, \<open>cid_parse\<close>: printing and parsing of a \<open>Cid\<close>;
    \<^item> \<open>cbor_epoch\<close>, \<open>cbor_op\<close>: \<open>serde_ipld_dagcbor::to_vec\<close> on the records of
      \<open>events/mod.rs\<close>, \<open>None\<close> for its encoding error;
    \<^item> \<open>offset_of_seconds\<close>: \<open>OffsetDateTime::from_unix_timestamp_nanos((s * 1e9) as i128).ok()\<close>;
    \<^item> \<open>ucan_signature_ok\<close>, \<open>ucan_time_ok\<close>: \<open>verify_signature\<close> and \<open>validate_time\<close> of \<open>ssi::ucan\<close>, the
      first on the encoded token, the second on its \<open>nbf\<close>, its \<open>exp\<close> and the clock;
    \<^item> \<open>cacao_signature_ok\<close>: the EIP-191 signature check behind \<open>Cacao::verify\<close>, on the encoded token;
    \<^item> \<open>aes_encrypt\<close>, \<open>aes_decrypt\<close>, \<open>gcm_nonce\<close>: AES-256-GCM of the \<open>aes-gcm\<close> crate and the nonce
      its generator draws for a plaintext;
    \<^item> \<open>storage_create_ok\<close>, \<open>save_keypair_ok\<close>: whether the block store and the key store, on disk or
      in S3, accept a new space, given by its text;
    \<^item> \<open>json_string_list\<close>: \<open>serde_json::from_str\<close> to a list of strings;
    \<^item> \<open>like_fold\<close>: how the database backend compares characters in \<open>LIKE\<close>, the identity for
      PostgreSQL and ASCII lower-casing for the default of SQLite.

  \<open>column_key\<close> is not a crate: it is the column encryption key of the node's configuration.
  Times are nanoseconds since the epoch.
\<close>

type_synonym byte = "8 word"

text \<open>A \<open>Multihash<64>\<close>: its code and its digest; a \<open>Cid\<close>: a codec and a multihash.\<close>

datatype hash = Hash (multihash_code: nat) (digest: string)

datatype cid = Cid (codec: nat) (cid_hash: hash)

text \<open>The CBOR records of \<open>events/mod.rs\<close>: \<open>OneOrMany\<close>, and the \<open>Op\<close> of \<open>hash_inv\<close>.\<close>

datatype OneOrMany = One cid | Many "cid list"

datatype Op =
    OpKvWrite string cid "(string \<times> string) list"
  | OpKvDelete string "(int \<times> cid \<times> int) option"

text \<open>A parsed URI: \<open>scheme_str\<close>, \<open>authority_str\<close>, \<open>path_str\<close>, \<open>query_str\<close>, \<open>fragment\<close>, \<open>is_normalized\<close>.\<close>

record uri =
  uri_scheme :: string
  uri_authority :: "string option"
  uri_path :: string
  uri_query :: "string option"
  uri_fragment :: "string option"
  uri_normalized :: bool

record externals =
  keccak256 :: "string \<Rightarrow> byte list"
  hex_crate_encode :: "byte list \<Rightarrow> string"
  uri_parse :: "string \<Rightarrow> uri option"
  did_valid :: "string \<Rightarrow> bool"
  blake3 :: "string \<Rightarrow> string"
  cid_display :: "cid \<Rightarrow> string"
  cid_parse :: "string \<Rightarrow> cid option"
  cbor_epoch :: "cid list \<Rightarrow> OneOrMany list \<Rightarrow> string option"
  cbor_op :: "Op \<Rightarrow> string option"
  offset_of_seconds :: "rat \<Rightarrow> int option"
  ucan_signature_ok :: "string \<Rightarrow> bool"
  ucan_time_ok :: "rat option \<Rightarrow> rat \<Rightarrow> int \<Rightarrow> bool"
  cacao_signature_ok :: "string \<Rightarrow> bool"
  aes_encrypt :: "string \<Rightarrow> string \<Rightarrow> string \<Rightarrow> string"
  aes_decrypt :: "string \<Rightarrow> string \<Rightarrow> string \<Rightarrow> string option"
  gcm_nonce :: "string \<Rightarrow> string"
  storage_create_ok :: "string \<Rightarrow> bool"
  save_keypair_ok :: "string \<Rightarrow> bool"
  json_string_list :: "string \<Rightarrow> string list option"
  like_fold :: "char \<Rightarrow> char"
  column_key :: "string option"

text \<open>The lower-case hexadecimal digit of a nibble and the two digits of a byte.\<close>

definition hex_digit :: "nat \<Rightarrow> char" where
  "hex_digit d = ''0123456789abcdef'' ! d"

definition hex_pair :: "byte \<Rightarrow> string" where
  "hex_pair b = [hex_digit (unat b div 16), hex_digit (unat b mod 16)]"

definition hex_string :: "byte list \<Rightarrow> string" where
  "hex_string bs = concat (map hex_pair bs)"

text \<open>The documented behaviour of \<open>hex::encode\<close>: lower-case digits, two per byte, high nibble first.\<close>

definition hex_law :: "externals \<Rightarrow> bool" where
  "hex_law X \<longleftrightarrow> (\<forall>bs. hex_crate_encode X bs = hex_string bs)"

text \<open>
  The documented behaviour of the URI parser (RFC 3986, section 3): the text of a URI is the
  concatenation of its components, and no component contains the delimiter that ends it.
\<close>

definition uri_text :: "uri \<Rightarrow> string" where
  "uri_text u =
     uri_scheme u @ '':'' @
     (case uri_authority u of None \<Rightarrow> [] | Some a \<Rightarrow> ''//'' @ a) @
     uri_path u @
     (case uri_query u of None \<Rightarrow> [] | Some q \<Rightarrow> ''?'' @ q) @
     (case uri_fragment u of None \<Rightarrow> [] | Some f \<Rightarrow> ''#'' @ f)"

definition uri_delimited :: "uri \<Rightarrow> bool" where
  "uri_delimited u \<longleftrightarrow>
     CHR '':'' \<notin> set (uri_scheme u) \<and>
     (case uri_authority u of
        None \<Rightarrow> \<not> starts_with (uri_path u) ''//''
      | Some a \<Rightarrow> set a \<inter> set ''/?#'' = {} \<and> (uri_path u = [] \<or> hd (uri_path u) = CHR ''/'')) \<and>
     set (uri_path u) \<inter> set ''?#'' = {} \<and>
     (case uri_query u of None \<Rightarrow> True | Some q \<Rightarrow> CHR ''#'' \<notin> set q)"

definition uri_law :: "externals \<Rightarrow> bool" where
  "uri_law X \<longleftrightarrow> (\<forall>s u. uri_parse X s = Some u \<longrightarrow> uri_text u = s \<and> uri_delimited u)"

lemma length_hex_string [simp]: "length (hex_string bs) = 2 * length bs"
  by (induction bs) (simp_all add: hex_string_def hex_pair_def)

lemma hex_string_Cons: "hex_string (b # bs) = hex_pair b @ hex_string bs"
  by (simp add: hex_string_def)

lemma hex_digit_chars: "n < 16 \<Longrightarrow> hex_digit n \<in> set ''0123456789abcdef''"
  unfolding hex_digit_def by (rule nth_mem) simp

lemma hex_digit_inject: "m < 16 \<Longrightarrow> n < 16 \<Longrightarrow> hex_digit m = hex_digit n \<longleftrightarrow> m = n"
  unfolding hex_digit_def by (rule nth_eq_iff_index_eq) simp_all

lemma set_hex_string: "set (hex_string bs) \<subseteq> set ''0123456789abcdef''"
proof (induction bs)
  case Nil
  then show ?case by (simp add: hex_string_def)
next
  case (Cons b bs)
  have "unat b < 256" using unsigned_less [of b] by simp
  then have "unat b div 16 < 16" and "unat b mod 16 < 16" by simp_all
  then have "set (hex_pair b) \<subseteq> set ''0123456789abcdef''"
    unfolding hex_pair_def using hex_digit_chars by auto
  with Cons.IH show ?case by (simp only: hex_string_Cons set_append Un_subset_iff)
qed


section \<open>Uniqueness of the decomposition of a URI\<close>

lemma optional_tail_inject:
  fixes c :: char
  assumes "c \<notin> set a" and "c \<notin> set b"
    and "a @ (case x of None \<Rightarrow> [] | Some q \<Rightarrow> [c] @ q) = b @ (case y of None \<Rightarrow> [] | Some q \<Rightarrow> [c] @ q)"
  shows "a = b \<and> x = y"
proof -
  have "split_once (z @ (case w of None \<Rightarrow> [] | Some q \<Rightarrow> [c] @ q)) c = map_option (Pair z) w"
    if "c \<notin> set z" for z and w :: "string option"
    using that by (cases w) (auto simp: split_once_None_iff split_once_Some_iff)
  with assms have "map_option (Pair a) x = map_option (Pair b) y" by metis
  with assms show ?thesis by (cases x; cases y) auto
qed

lemma authority_path_inject:
  assumes "uri_delimited u" and "uri_delimited v"
    and "(case uri_authority u of None \<Rightarrow> [] | Some a \<Rightarrow> ''//'' @ a) @ uri_path u =
         (case uri_authority v of None \<Rightarrow> [] | Some a \<Rightarrow> ''//'' @ a) @ uri_path v"
  shows "uri_authority u = uri_authority v \<and> uri_path u = uri_path v"
proof -
  have tw: "takeWhile (\<lambda>c. c \<noteq> CHR ''/'') (a @ p) = a"
    if "set a \<inter> set ''/?#'' = {}" and "p = [] \<or> hd p = CHR ''/''" for a p
  proof -
    have "\<forall>c \<in> set a. c \<noteq> CHR ''/''" using that(1) by auto
    then show ?thesis using that(2) by (cases p) (auto simp: takeWhile_append)
  qed
  show ?thesis
  proof (cases "uri_authority u"; cases "uri_authority v")
    fix a b
    assume ab: "uri_authority u = Some a" "uri_authority v = Some b"
    with assms have eq: "a @ uri_path u = b @ uri_path v" by simp
    have "a = b"
      using tw [of a "uri_path u"] tw [of b "uri_path v"] assms(1,2) ab eq
      by (auto simp: uri_delimited_def)
    with ab eq show ?thesis by simp
  next
    fix b
    assume "uri_authority u = None" "uri_authority v = Some b"
    with assms have "uri_path u = ''//'' @ b @ uri_path v" "\<not> starts_with (uri_path u) ''//''"
      by (simp_all add: uri_delimited_def)
    then show ?thesis by (auto simp: starts_with_iff)
  next
    fix b
    assume "uri_authority v = None" "uri_authority u = Some b"
    with assms have "uri_path v = ''//'' @ b @ uri_path u" "\<not> starts_with (uri_path v) ''//''"
      by (simp_all add: uri_delimited_def)
    then show ?thesis by (auto simp: starts_with_iff)
  qed (use assms in simp)
qed

lemma uri_text_inject:
  assumes "uri_delimited u" and "uri_delimited v" and "uri_text u = uri_text v"
  shows "uri_scheme u = uri_scheme v \<and> uri_authority u = uri_authority v \<and> uri_path u = uri_path v \<and>
    uri_query u = uri_query v \<and> uri_fragment u = uri_fragment v"
proof -
  let ?ap = "\<lambda>w. (case uri_authority w of None \<Rightarrow> [] | Some a \<Rightarrow> ''//'' @ a) @ uri_path w"
  let ?q = "\<lambda>w. ?ap w @ (case uri_query w of None \<Rightarrow> [] | Some q \<Rightarrow> [CHR ''?''] @ q)"
  let ?f = "\<lambda>w. ?q w @ (case uri_fragment w of None \<Rightarrow> [] | Some f \<Rightarrow> [CHR ''#''] @ f)"
  have shape: "uri_text w = uri_scheme w @ CHR '':'' # ?f w" for w
    by (simp add: uri_text_def)
  have "split_once (uri_text w) (CHR '':'') = Some (uri_scheme w, ?f w)" if "uri_delimited w" for w
    unfolding shape using that by (intro split_once_append) (simp add: uri_delimited_def)
  with assms have scheme: "uri_scheme u = uri_scheme v" and f: "?f u = ?f v"
    by (metis option.inject prod.inject)+
  have no_hash: "CHR ''#'' \<notin> set (?q w)" and no_quest: "CHR ''?'' \<notin> set (?ap w)" if "uri_delimited w" for w
    using that by (auto simp: uri_delimited_def split: option.splits)
  have q: "?q u = ?q v \<and> uri_fragment u = uri_fragment v"
    by (rule optional_tail_inject [OF no_hash [OF assms(1)] no_hash [OF assms(2)] f])
  then have ap: "?ap u = ?ap v \<and> uri_query u = uri_query v"
    using optional_tail_inject [OF no_quest [OF assms(1)] no_quest [OF assms(2)]] by blast
  then have "uri_authority u = uri_authority v \<and> uri_path u = uri_path v"
    using authority_path_inject [OF assms(1,2)] by blast
  with scheme q ap show ?thesis by simp
qed

end
