(* ===== verification/Identity.thy ===== *)
theory Identity
  imports Externals
begin

text \<open>
  Principals: the DID canonicalisation of \<open>tinycloud-auth/src/identity.rs\<close>, with the EIP-55
  address checksum of \<open>dependencies/siwe/src/lib.rs\<close> that it calls. Every comparison of
  principals in the node (delegation roots, invokers, revokers, account queries) goes through
  \<open>did_principal_matches\<close>.
\<close>

unbundle bit_operations_syntax

section \<open>EIP-55 addresses\<close>

definition check_byte :: "byte list \<Rightarrow> nat \<Rightarrow> bool" where
  "check_byte hash i \<longleftrightarrow> hash ! (i div 2) AND (if even i then 128 else 8) \<noteq> 0"

text \<open>One character of the address, at its position.\<close>

definition eip55_char :: "byte list \<Rightarrow> nat \<Rightarrow> char \<Rightarrow> char" where
  "eip55_char hash i c =
     (if CHR ''0'' \<le> c \<and> c \<le> CHR ''9'' then c
      else if CHR ''a'' \<le> c \<and> c \<le> CHR ''f'' then
        (if check_byte hash i then ascii_upper_char c else c)
      else if CHR ''A'' \<le> c \<and> c \<le> CHR ''F'' then
        (if \<not> check_byte hash i then ascii_lower_char c else c)
      else c)"

definition encode_eip55 :: "externals \<Rightarrow> byte list \<Rightarrow> string" where
  "encode_eip55 X addr =
     (let addr_str = hex_crate_encode X addr;
          hash = keccak256 X (map ascii_lower_char addr_str)
      in map (\<lambda>(i, c). eip55_char hash i c) (enumerate 0 addr_str))"

section \<open>DIDs\<close>

record PkhDid =
  chain_id :: nat
  address :: string

datatype IdentityError =
    InvalidAddressPrefix
  | InvalidAddressLength nat
  | InvalidAddressChar nat string
  | InvalidChainId
  | InvalidPkhDid
  | InvalidDid

text \<open>A Rust \<open>char\<close> is the byte string of one scalar value.\<close>

definition hex_nibble :: "nat \<Rightarrow> string \<Rightarrow> (IdentityError, byte) result" where
  "hex_nibble index c =
     (case c of
        [b] \<Rightarrow>
          (if CHR ''0'' \<le> b \<and> b \<le> CHR ''9'' then Inr (of_char b - 48)
           else if CHR ''a'' \<le> b \<and> b \<le> CHR ''f'' then Inr (of_char b - 97 + 10)
           else if CHR ''A'' \<le> b \<and> b \<le> CHR ''F'' then Inr (of_char b - 65 + 10)
           else Inl (InvalidAddressChar index c))
      | _ \<Rightarrow> Inl (InvalidAddressChar index c))"

text \<open>The loop \<open>for byte in &mut bytes\<close> over the enumerated characters.\<close>

fun address_bytes :: "nat \<Rightarrow> nat \<Rightarrow> string list \<Rightarrow> (IdentityError, byte list) result" where
  "address_bytes 0 i cs = Inr []"
| "address_bytes (Suc n) i (hi # lo # cs) =
     rbind (hex_nibble i hi) (\<lambda>h.
     rbind (hex_nibble (i + 1) lo) (\<lambda>l.
     rbind (address_bytes n (i + 2) cs) (\<lambda>bs.
       Inr ((push_bit 4 h OR l) # bs))))"
| "address_bytes (Suc n) i _ = Inl InvalidPkhDid"

definition canonicalize_eip155_address :: "externals \<Rightarrow> string \<Rightarrow> (IdentityError, string) result" where
  "canonicalize_eip155_address X addr =
     rbind (ok_or (strip_prefix addr ''0x'') InvalidAddressPrefix) (\<lambda>raw.
     if length raw \<noteq> 40 then Inl (InvalidAddressLength (length raw))
     else
       rbind (address_bytes 20 0 (utf8_chars raw)) (\<lambda>bytes.
       Inr (''0x'' @ encode_eip55 X bytes)))"

definition parse_pkh_did :: "externals \<Rightarrow> string \<Rightarrow> (IdentityError, PkhDid option) result" where
  "parse_pkh_did X did =
     (case strip_prefix did ''did:pkh:eip155:'' of
        None \<Rightarrow> Inr None
      | Some rest \<Rightarrow>
          rbind (ok_or (split_once rest (CHR '':'')) InvalidPkhDid) (\<lambda>(cid, addr).
          if contains_char addr (CHR '':'') then Inl InvalidPkhDid
          else
            rbind
              (ok_or (case parse_u64 cid of
                        Some n \<Rightarrow> (if n > 0 then Some n else None)
                      | None \<Rightarrow> None) InvalidChainId) (\<lambda>n.
            rbind (canonicalize_eip155_address X addr) (\<lambda>a.
            Inr (Some \<lparr>chain_id = n, address = a\<rparr>)))))"

definition canonicalize_did :: "externals \<Rightarrow> string \<Rightarrow> (IdentityError, string) result" where
  "canonicalize_did X did =
     rbind (parse_pkh_did X did) (\<lambda>pkh.
     case pkh of
       Some p \<Rightarrow> Inr (''did:pkh:eip155:'' @ show_nat (chain_id p) @ '':'' @ address p)
     | None \<Rightarrow>
         (if (case strip_prefix did ''did:'' of
                Some rest \<Rightarrow> split_once rest (CHR '':'') \<noteq> None
              | None \<Rightarrow> False)
          then Inr did
          else Inl InvalidDid))"

definition canonicalize_did_url :: "externals \<Rightarrow> string \<Rightarrow> (IdentityError, string) result" where
  "canonicalize_did_url X did_url =
     (case split_once did_url (CHR ''#'') of
        Some (did, fragment) \<Rightarrow>
          rbind (canonicalize_did X did) (\<lambda>d. Inr (d @ ''#'' @ fragment))
      | None \<Rightarrow> canonicalize_did X did_url)"

definition principal_did :: "externals \<Rightarrow> string \<Rightarrow> (IdentityError, string) result" where
  "principal_did X did_url =
     (let did = (case split_once did_url (CHR ''#'') of Some (d, _) \<Rightarrow> d | None \<Rightarrow> did_url)
      in canonicalize_did X did)"

definition canonicalize_principal :: "externals \<Rightarrow> string \<Rightarrow> (IdentityError, string) result" where
  "canonicalize_principal X p = (if starts_with p ''did:'' then canonicalize_did X p else Inr p)"

definition did_principal_matches :: "externals \<Rightarrow> string \<Rightarrow> string \<Rightarrow> bool" where
  "did_principal_matches X actual expected =
     (case (principal_did X actual, principal_did X expected) of
        (Inr a, Inr b) \<Rightarrow> a = b
      | _ \<Rightarrow> actual = expected)"

text \<open>\<open>strip_fragment\<close> of \<open>tinycloud-core/src/util.rs\<close>: the principal a stored DID names.\<close>

definition strip_fragment :: "externals \<Rightarrow> string \<Rightarrow> string" where
  "strip_fragment X did =
     (case principal_did X did of Inr d \<Rightarrow> d | Inl _ \<Rightarrow> hd (split_char did (CHR ''#'')))"

section \<open>Hexadecimal digits\<close>

lemma hex_nibble_table:
  "\<forall>b :: char.
     (case hex_nibble 0 [b] of
        Inr w \<Rightarrow> unat w < 16 \<and> ascii_lower_char b = hex_digit (unat w)
      | Inl _ \<Rightarrow> ascii_lower_char b \<notin> set ''0123456789abcdef'')"
  by code_simp

lemma hex_nibble_iff:
  "hex_nibble i c = Inr w \<longleftrightarrow>
     (\<exists>b. c = [b] \<and> unat w < 16 \<and> ascii_lower_char b = hex_digit (unat w))"
proof -
  have index: "hex_nibble i [b] = Inr w \<longleftrightarrow> hex_nibble 0 [b] = Inr w" for b
    by (simp add: hex_nibble_def)
  have "hex_nibble 0 [b] = Inr w \<longleftrightarrow> unat w < 16 \<and> ascii_lower_char b = hex_digit (unat w)" for b
  proof (cases "hex_nibble 0 [b]")
    case (Inl e)
    with hex_nibble_table [rule_format, of b] have "ascii_lower_char b \<notin> set ''0123456789abcdef''"
      by simp
    with Inl hex_digit_chars [of "unat w"] show ?thesis by auto
  next
    case (Inr v)
    with hex_nibble_table [rule_format, of b]
    have "unat v < 16" "ascii_lower_char b = hex_digit (unat v)" by simp_all
    with Inr show ?thesis
      using hex_digit_inject [of "unat v" "unat w"] by (auto simp: word_unat_eq_iff)
  qed
  moreover have "\<exists>b. c = [b]" if "hex_nibble i c = Inr w"
    using that by (auto simp: hex_nibble_def split: list.splits)
  ultimately show ?thesis
    using index by blast
qed

lemma nibbles_table:
  "\<forall>h \<in> set [0..<16]. \<forall>l \<in> set [0..<16].
     unat (push_bit 4 (of_nat h :: byte) OR of_nat l) = 16 * h + l"
  by code_simp

lemma unat_nibbles:
  assumes "unat (h :: byte) < 16" and "unat (l :: byte) < 16"
  shows "unat (push_bit 4 h OR l) = 16 * unat h + unat l"
proof -
  have "unat (push_bit 4 (of_nat (unat h) :: byte) OR of_nat (unat l)) = 16 * unat h + unat l"
    using nibbles_table assms by (metis atLeastLessThan_iff set_upt zero_le)
  then show ?thesis by simp
qed

lemma hex_pair_nibbles:
  assumes "unat (h :: byte) < 16" and "unat (l :: byte) < 16"
  shows "hex_pair (push_bit 4 h OR l) = [hex_digit (unat h), hex_digit (unat l)]"
  using assms by (simp add: hex_pair_def unat_nibbles)

lemma byte_nibbles:
  "\<exists>h l. b = push_bit 4 h OR l \<and> unat (h :: byte) < 16 \<and> unat (l :: byte) < 16"
proof -
  have bound: "unat b < 256" using unsigned_less [of b] by simp
  define h :: byte where "h = of_nat (unat b div 16)"
  define l :: byte where "l = of_nat (unat b mod 16)"
  have "unat h = unat b div 16" and "unat l = unat b mod 16"
    using bound by (simp_all add: h_def l_def unat_of_nat)
  with bound have "unat h < 16" and "unat l < 16" and "unat (push_bit 4 h OR l) = unat b"
    by (simp_all add: unat_nibbles)
  then show ?thesis by (metis unsigned_word_eqI)
qed


lemma address_bytes_iff:
  "length s = 2 * n \<Longrightarrow>
     address_bytes n i (map (\<lambda>c. [c]) s) = Inr bs \<longleftrightarrow>
     length bs = n \<and> map ascii_lower_char s = hex_string bs"
proof (induction n arbitrary: i s bs)
  case 0
  then show ?case by (auto simp: hex_string_def)
next
  case (Suc n)
  then obtain x y t where s: "s = x # y # t" and len: "length t = 2 * n"
    by (auto simp: length_Suc_conv numeral_2_eq_2 Suc_length_conv)
  note IH = Suc.IH [OF len]
  show ?case
  proof
    assume "address_bytes (Suc n) i (map (\<lambda>c. [c]) s) = Inr bs"
    then show "length bs = Suc n \<and> map ascii_lower_char s = hex_string bs"
      by (auto simp: s hex_nibble_iff IH hex_string_Cons hex_pair_nibbles)
  next
    assume rhs: "length bs = Suc n \<and> map ascii_lower_char s = hex_string bs"
    then obtain b bs' where bs: "bs = b # bs'" and "length bs' = n"
      by (auto simp: length_Suc_conv)
    obtain h l where b: "b = push_bit 4 h OR l" "unat h < 16" "unat l < 16"
      using byte_nibbles by blast
    with rhs bs have "ascii_lower_char x = hex_digit (unat h)" "ascii_lower_char y = hex_digit (unat l)"
      "map ascii_lower_char t = hex_string bs'"
      by (simp_all add: s hex_string_Cons hex_pair_nibbles)
    with b bs \<open>length bs' = n\<close> show "address_bytes (Suc n) i (map (\<lambda>c. [c]) s) = Inr bs"
      by (simp add: s IH hex_nibble_iff) blast
  qed
qed

text \<open>The bytes of a valid address are 40 one-byte characters.\<close>

lemma address_bytes_singletons:
  "address_bytes n i cs = Inr bs \<Longrightarrow> \<exists>s. take (2 * n) cs = map (\<lambda>c. [c]) s \<and> length s = 2 * n"
proof (induction n i cs arbitrary: bs rule: address_bytes.induct)
  case (2 n i hi lo cs)
  then obtain s where "take (2 * n) cs = map (\<lambda>c. [c]) s" "length s = 2 * n"
    by auto
  moreover from "2.prems" obtain x y where "hi = [x]" "lo = [y]"
    by (auto simp: hex_nibble_iff)
  ultimately show ?case
    by (intro exI [of _ "x # y # s"]) simp
qed auto

lemma utf8_chars_nonempty: "p \<in> set (utf8_chars s) \<Longrightarrow> p \<noteq> []"
  by (induction s arbitrary: p) (auto split: list.splits if_splits)

lemma utf8_chars_singletons:
  assumes "address_bytes n i (utf8_chars raw) = Inr bs" and "length raw = 2 * n"
  shows "utf8_chars raw = map (\<lambda>c. [c]) raw"
proof -
  obtain s where s: "take (2 * n) (utf8_chars raw) = map (\<lambda>c. [c]) s" "length s = 2 * n"
    using address_bytes_singletons [OF assms(1)] by blast
  have sing: "concat (map (\<lambda>c. [c]) t) = t" for t :: string
    by (induction t) auto
  have split: "raw = s @ concat (drop (2 * n) (utf8_chars raw))"
    by (metis append_take_drop_id concat_append concat_utf8_chars s(1) sing)
  with s(2) assms(2) have "concat (drop (2 * n) (utf8_chars raw)) = []"
    by (metis add_cancel_left_right length_0_conv length_append)
  then have "drop (2 * n) (utf8_chars raw) = []"
    using utf8_chars_nonempty by (metis concat_eq_Nil_conv in_set_dropD last_in_set)
  with s split show ?thesis
    by (metis append_Nil2 append_take_drop_id concat.simps(1))
qed

lemma hex_chars_ascii:
  assumes hex: "ascii_lower_char c \<in> set ''0123456789abcdef''"
  shows "\<not> is_utf8_continuation c \<and> c \<noteq> CHR '':'' \<and> c \<noteq> CHR ''#''"
proof (intro conjI notI)
  assume cont: "is_utf8_continuation c"
  then have "ascii_lower_char c = c"
    by (simp add: is_utf8_continuation_def ascii_lower_char_def is_ascii_upper_def less_eq_char_def)
  with hex cont show False by (auto simp: is_utf8_continuation_def)
qed (use hex in \<open>simp_all add: ascii_lower_char_def is_ascii_upper_def less_eq_char_def\<close>)

lemma hex_text_chars:
  assumes "map ascii_lower_char s = hex_string bs" and "c \<in> set s"
  shows "\<not> is_utf8_continuation c" and "c \<noteq> CHR '':''" and "c \<noteq> CHR ''#''"
proof -
  have "ascii_lower_char c \<in> set (hex_string bs)"
    using assms by (metis image_eqI list.set_map)
  then have "ascii_lower_char c \<in> set ''0123456789abcdef''"
    using set_hex_string by blast
  then show "\<not> is_utf8_continuation c" and "c \<noteq> CHR '':''" and "c \<noteq> CHR ''#''"
    using hex_chars_ascii by blast+
qed

lemma canonicalize_eip155_address_iff:
  "canonicalize_eip155_address X a = Inr c \<longleftrightarrow>
     (\<exists>s bs. a = ''0x'' @ s \<and> length bs = 20 \<and> map ascii_lower_char s = hex_string bs \<and>
        c = ''0x'' @ encode_eip55 X bs)"
proof
  assume "canonicalize_eip155_address X a = Inr c"
  then obtain s bs where a: "a = ''0x'' @ s" and len: "length s = 40"
    and bs: "address_bytes 20 0 (utf8_chars s) = Inr bs" and c: "c = ''0x'' @ encode_eip55 X bs"
    by (auto simp: canonicalize_eip155_address_def strip_prefix_Some_iff split: if_splits)
  with utf8_chars_singletons [of 20 0 s bs] address_bytes_iff [of s 20 0 bs]
  show "\<exists>s bs. a = ''0x'' @ s \<and> length bs = 20 \<and> map ascii_lower_char s = hex_string bs \<and>
        c = ''0x'' @ encode_eip55 X bs"
    by auto
next
  assume "\<exists>s bs. a = ''0x'' @ s \<and> length bs = 20 \<and> map ascii_lower_char s = hex_string bs \<and>
        c = ''0x'' @ encode_eip55 X bs"
  then obtain s bs where *: "a = ''0x'' @ s" "length bs = 20" "map ascii_lower_char s = hex_string bs"
        "c = ''0x'' @ encode_eip55 X bs"
    by blast
  have "length (map ascii_lower_char s) = 40"
    unfolding *(3) by (simp add: *(2))
  then have len: "length s = 40" by simp
  have "utf8_chars s = map (\<lambda>c. [c]) s"
    using hex_text_chars(1) [OF *(3)] by (intro utf8_chars_ascii)
  with * len address_bytes_iff [of s 20 0 bs] show "canonicalize_eip155_address X a = Inr c"
    by (simp add: canonicalize_eip155_address_def strip_prefix_def)
qed


section \<open>Canonical principals\<close>

lemma hex_case_table:
  "\<forall>c \<in> set ''0123456789abcdef''. ascii_lower_char c = c \<and> ascii_lower_char (ascii_upper_char c) = c"
  by code_simp

lemma eip55_char_lower: "c \<in> set ''0123456789abcdef'' \<Longrightarrow> ascii_lower_char (eip55_char h i c) = c"
proof -
  assume "c \<in> set ''0123456789abcdef''"
  then have "ascii_lower_char c = c" and "ascii_lower_char (ascii_upper_char c) = c"
    using hex_case_table by blast+
  then show ?thesis by (simp add: eip55_char_def)
qed

lemma encode_eip55_lower:
  assumes "hex_law X"
  shows "map ascii_lower_char (encode_eip55 X bs) = hex_string bs"
proof -
  have "map ascii_lower_char (map (\<lambda>(i, c). eip55_char h i c) (enumerate n s)) = s"
    if "set s \<subseteq> set ''0123456789abcdef''" for h n and s :: string
    using that by (induction s arbitrary: n) (auto simp: eip55_char_lower)
  then show ?thesis
    using assms set_hex_string by (simp add: encode_eip55_def hex_law_def Let_def)
qed

text \<open>The two shapes of a canonical DID.\<close>

lemma canonicalize_did_cases:
  assumes "canonicalize_did X d = Inr c"
  obtains (pkh) n bs where "0 < n" "n < 2 ^ 64" "length bs = 20"
      "c = ''did:pkh:eip155:'' @ show_nat n @ '':'' @ ''0x'' @ encode_eip55 X bs"
    | (other) "c = d" "strip_prefix d ''did:pkh:eip155:'' = None"
proof (cases "strip_prefix d ''did:pkh:eip155:''")
  case None
  with assms other show ?thesis
    by (auto simp: canonicalize_did_def parse_pkh_did_def split: if_splits)
next
  case (Some rest)
  with assms obtain p where p: "parse_pkh_did X d = Inr (Some p)"
    and c: "c = ''did:pkh:eip155:'' @ show_nat (chain_id p) @ '':'' @ address p"
    by (auto simp: canonicalize_did_def parse_pkh_did_def split: if_splits option.splits)
  from p Some obtain a where "0 < chain_id p" "chain_id p < 2 ^ 64"
    "canonicalize_eip155_address X a = Inr (address p)"
    by (auto simp: parse_pkh_did_def split: if_splits option.splits prod.splits dest: parse_u64_bound)
  with c pkh show ?thesis
    unfolding canonicalize_eip155_address_iff by auto
qed

lemma show_nat_no_colon: "CHR '':'' \<notin> set (show_nat n)"
  using show_nat_digits [of "CHR '':''" n] by (auto simp: is_ascii_digit_def less_eq_char_def)

lemma show_nat_no_hash: "CHR ''#'' \<notin> set (show_nat n)"
  using show_nat_digits [of "CHR ''#''" n] by (auto simp: is_ascii_digit_def less_eq_char_def)

lemma canonicalize_did_pkh:
  assumes "hex_law X" and "0 < n" and "n < 2 ^ 64" and "length bs = 20"
  shows "canonicalize_did X (''did:pkh:eip155:'' @ show_nat n @ '':'' @ ''0x'' @ encode_eip55 X bs) =
    Inr (''did:pkh:eip155:'' @ show_nat n @ '':'' @ ''0x'' @ encode_eip55 X bs)"
proof -
  let ?e = "encode_eip55 X bs"
  have lower: "map ascii_lower_char ?e = hex_string bs"
    using assms(1) by (rule encode_eip55_lower)
  then have addr: "canonicalize_eip155_address X (''0x'' @ ?e) = Inr (''0x'' @ ?e)"
    using assms(4) by (auto simp: canonicalize_eip155_address_iff)
  have "CHR '':'' \<notin> set ?e"
    using hex_text_chars(2) [OF lower] by blast
  then have "\<not> contains_char (''0x'' @ ?e) (CHR '':'')"
    by (simp add: contains_char_iff)
  moreover have "split_once (show_nat n @ '':'' @ ''0x'' @ ?e) (CHR '':'') = Some (show_nat n, ''0x'' @ ?e)"
    using split_once_append [OF show_nat_no_colon, of n "''0x'' @ ?e"] by simp
  ultimately show ?thesis
    using addr assms(2,3) parse_u64_show_nat [of n]
    by (simp add: canonicalize_did_def parse_pkh_did_def strip_prefix_def)
qed

lemma canonicalize_did_fixpoint:
  assumes "hex_law X" and "canonicalize_did X d = Inr c"
  shows "canonicalize_did X c = Inr c"
  using assms(2)
proof (cases rule: canonicalize_did_cases)
  case (pkh n bs)
  with assms(1) canonicalize_did_pkh show ?thesis by simp
next
  case other
  with assms(2) show ?thesis by simp
qed

text \<open>A canonical DID of a DID without fragment has no fragment.\<close>

lemma canonicalize_did_no_hash:
  assumes "hex_law X" and "canonicalize_did X d = Inr c" and "CHR ''#'' \<notin> set d"
  shows "CHR ''#'' \<notin> set c"
  using assms(2)
proof (cases rule: canonicalize_did_cases)
  case (pkh n bs)
  with hex_text_chars(3) [OF encode_eip55_lower [OF assms(1), of bs]] show_nat_no_hash [of n]
  show ?thesis by auto
next
  case other
  with assms(3) show ?thesis by simp
qed

end
