(* ===== verification/Resource_Id.thy ===== *)
theory Resource_Id
  imports Identity "HOL-Library.Product_Lexorder"
begin

text \<open>
  Spaces and resources: \<open>tinycloud-auth/src/resource.rs\<close>. A space is named by the DID that
  owns it and a name; a resource is a service of a space with an optional path, query and
  fragment. The theory has the parser and the printer of both and \<open>extends\<close>, the check that a
  resource lies within another one.
\<close>

section \<open>Data\<close>

type_synonym Name = string
type_synonym Service = string
type_synonym Path = string

datatype SpaceId = SpaceId (base_did: string) (space_name: Name)

datatype ResourceId =
  ResourceId (res_space: SpaceId) (res_service: Service) (res_path: "Path option")
    (res_query: "string option") (res_fragment: "string option")

datatype ResourceCheckError = IncorrectSpace | IncorrectService | IncorrectFragment | DoesNotExtendPath

datatype KRIParseError =
    IncorrectForm
  | InvalidName
  | InvalidService
  | InvalidPath
  | UriStringParse
  | DidParse
  | IdentityFailure IdentityError

text \<open>The derived order of \<open>SpaceId\<close>: the owner first, then the name.\<close>

instantiation SpaceId :: linorder
begin

definition less_eq_SpaceId :: "SpaceId \<Rightarrow> SpaceId \<Rightarrow> bool" where
  "less_eq_SpaceId a b \<longleftrightarrow> (base_did a, space_name a) \<le> (base_did b, space_name b)"

definition less_SpaceId :: "SpaceId \<Rightarrow> SpaceId \<Rightarrow> bool" where
  "less_SpaceId a b \<longleftrightarrow> (base_did a, space_name a) < (base_did b, space_name b)"

instance
  by standard (auto simp: less_eq_SpaceId_def less_SpaceId_def SpaceId.expand)

end

section \<open>Operations\<close>

definition suffix_of :: "SpaceId \<Rightarrow> string" where
  "suffix_of s = drop 4 (base_did s)"

definition to_resource ::
  "SpaceId \<Rightarrow> Service \<Rightarrow> Path option \<Rightarrow> string option \<Rightarrow> string option \<Rightarrow> ResourceId" where
  "to_resource s service path query fragment = ResourceId s service path query fragment"

text \<open>The path condition of \<open>extends\<close>: it holds when the extension is refused.\<close>

definition path_escapes :: "Path option \<Rightarrow> Path option \<Rightarrow> bool" where
  "path_escapes self base =
     (case (self, base) of
        (Some s, Some b) \<Rightarrow>
          \<not> starts_with s b \<or>
          \<not> (ends_with_char b (CHR ''/'') \<or> length s = length b \<or>
             (length b < length s \<and> s ! length b = CHR ''/''))
      | (Some _, None) \<Rightarrow> False
      | (None, None) \<Rightarrow> False
      | (None, Some _) \<Rightarrow> True)"

definition resource_id_extends :: "ResourceId \<Rightarrow> ResourceId \<Rightarrow> (ResourceCheckError, unit) result" where
  "resource_id_extends self base =
     (if res_space base \<noteq> res_space self then Inl IncorrectSpace
      else if res_service base \<noteq> res_service self then Inl IncorrectService
      else if res_fragment base \<noteq> res_fragment self then Inl IncorrectFragment
      else if path_escapes (res_path self) (res_path base) then Inl DoesNotExtendPath
      else Inr ())"

definition space_display :: "SpaceId \<Rightarrow> string" where
  "space_display s = ''tinycloud:'' @ suffix_of s @ '':'' @ space_name s"

definition resource_display :: "ResourceId \<Rightarrow> string" where
  "resource_display r =
     space_display (res_space r) @ ''/'' @ res_service r @
     (case res_path r of None \<Rightarrow> [] | Some p \<Rightarrow> ''/'' @ p) @
     (case res_query r of None \<Rightarrow> [] | Some q \<Rightarrow> ''?'' @ q) @
     (case res_fragment r of None \<Rightarrow> [] | Some f \<Rightarrow> ''#'' @ f)"

definition did_from_suffix :: "externals \<Rightarrow> string \<Rightarrow> (KRIParseError, string) result" where
  "did_from_suffix X suf =
     rbind (map_err IdentityFailure (canonicalize_did X (''did:'' @ suf))) (\<lambda>did.
     if did_valid X did then Inr did else Inl DidParse)"

text \<open>\<open>rsplit_once(':')\<close> with a non-empty name.\<close>

definition split_space_name :: "string \<Rightarrow> (string \<times> string) option" where
  "split_space_name s =
     (case rsplit_once s (CHR '':'') of
        None \<Rightarrow> None
      | Some (suf, name) \<Rightarrow> (if name = [] then None else Some (suf, name)))"

definition space_try_from :: "externals \<Rightarrow> uri \<Rightarrow> (KRIParseError, SpaceId) result" where
  "space_try_from X u =
     (if uri_scheme u \<noteq> ''tinycloud'' \<or> uri_authority u \<noteq> None \<or> uri_query u \<noteq> None \<or>
         uri_fragment u \<noteq> None \<or> ends_with_char (uri_path u) (CHR '':'') \<or>
         contains_char (uri_path u) (CHR ''/'') \<or> \<not> uri_normalized u
      then Inl IncorrectForm
      else (case split_space_name (uri_path u) of
              Some (suf, name) \<Rightarrow> rbind (did_from_suffix X suf) (\<lambda>did. Inr (SpaceId did name))
            | None \<Rightarrow> Inl IncorrectForm))"

definition space_from_str :: "externals \<Rightarrow> string \<Rightarrow> (KRIParseError, SpaceId) result" where
  "space_from_str X s = rbind (ok_or (uri_parse X s) UriStringParse) (space_try_from X)"

definition resource_try_from :: "externals \<Rightarrow> uri \<Rightarrow> (KRIParseError, ResourceId) result" where
  "resource_try_from X u =
     (if uri_scheme u \<noteq> ''tinycloud'' \<or> uri_authority u \<noteq> None \<or>
         \<not> contains_char (uri_path u) (CHR ''/'') \<or> \<not> uri_normalized u
      then Inl IncorrectForm
      else
        (case split_once (uri_path u) (CHR ''/'') of
           None \<Rightarrow> Inl IncorrectForm
         | Some (space, path) \<Rightarrow>
             (case split_space_name space of
                None \<Rightarrow> Inl IncorrectForm
              | Some (suf, name) \<Rightarrow>
                  (let (service, p) =
                         (case split_once path (CHR ''/'') of
                            None \<Rightarrow> (path, None)
                          | Some (service, p) \<Rightarrow> (service, Some p))
                   in rbind (did_from_suffix X suf) (\<lambda>did.
                      Inr (to_resource (SpaceId did name) service p (uri_query u) (uri_fragment u)))))))"

definition resource_from_str :: "externals \<Rightarrow> string \<Rightarrow> (KRIParseError, ResourceId) result" where
  "resource_from_str X s = rbind (ok_or (uri_parse X s) UriStringParse) (resource_try_from X)"

section \<open>Containment\<close>

text \<open>The path relation in terms of path segments.\<close>

lemma path_escapes_iff:
  "\<not> path_escapes s b \<longleftrightarrow>
     (case b of
        None \<Rightarrow> True
      | Some bp \<Rightarrow>
          (\<exists>sp. s = Some sp \<and>
             (sp = bp \<or> ends_with_char bp (CHR ''/'') \<and> starts_with sp bp \<or>
              starts_with sp (bp @ ''/''))))"
proof (cases "\<exists>sp bp. s = Some sp \<and> b = Some bp")
  case True
  then obtain sp bp where sb: "s = Some sp" "b = Some bp" by blast
  have "starts_with sp bp \<and> length bp < length sp \<and> sp ! length bp = CHR ''/'' \<longleftrightarrow>
      starts_with sp (bp @ ''/'')"
    by (auto simp: starts_with_def prefix_def nth_append) (metis append_Nil2 hd_conv_nth hd_Cons_tl
      length_append length_greater_0_conv less_add_same_cancel1 list.sel(1) neq_Nil_conv nth_append_length)
  moreover have "starts_with sp bp \<and> length sp = length bp \<longleftrightarrow> sp = bp"
    by (auto simp: starts_with_def prefix_def)
  ultimately show ?thesis
    using sb by (auto simp: path_escapes_def)
next
  case False
  then show ?thesis
    by (auto simp: path_escapes_def split: option.splits)
qed

lemma path_escapes_refl [simp]: "\<not> path_escapes p p"
  by (cases p) (simp_all add: path_escapes_iff)

lemma path_escapes_trans:
  assumes "\<not> path_escapes a b" and "\<not> path_escapes b c"
  shows "\<not> path_escapes a c"
proof (cases c)
  case None
  then show ?thesis by (simp add: path_escapes_iff)
next
  case (Some cp)
  with assms obtain bp ap where b: "b = Some bp" and a: "a = Some ap"
    by (auto simp: path_escapes_iff)
  from assms Some b a
  have ab: "ap = bp \<or> ends_with_char bp (CHR ''/'') \<and> starts_with ap bp \<or> starts_with ap (bp @ ''/'')"
    and bc: "bp = cp \<or> ends_with_char cp (CHR ''/'') \<and> starts_with bp cp \<or> starts_with bp (cp @ ''/'')"
    by (auto simp: path_escapes_iff)
  have sab: "starts_with ap bp" using ab by (auto simp: string_simps)
  from bc have "ap = cp \<or> ends_with_char cp (CHR ''/'') \<and> starts_with ap cp \<or> starts_with ap (cp @ ''/'')"
    using ab sab starts_with_trans by blast
  with Some a show ?thesis by (simp add: path_escapes_iff)
qed

lemma resource_id_extends_ok [simp]:
  "is_ok (resource_id_extends a b) \<longleftrightarrow>
     res_space a = res_space b \<and> res_service a = res_service b \<and>
     res_fragment a = res_fragment b \<and> \<not> path_escapes (res_path a) (res_path b)"
  by (auto simp: resource_id_extends_def)

lemma resource_id_extends_refl: "is_ok (resource_id_extends r r)"
  by simp

lemma resource_id_extends_trans:
  "is_ok (resource_id_extends a b) \<Longrightarrow> is_ok (resource_id_extends b c) \<Longrightarrow> is_ok (resource_id_extends a c)"
  using path_escapes_trans by auto


section \<open>Printing and parsing\<close>

lemma canonicalize_did_prefix:
  assumes "canonicalize_did X d = Inr c"
  shows "\<exists>r. c = ''did:'' @ r"
  using assms
proof (cases rule: canonicalize_did_cases)
  case (pkh n bs)
  then show ?thesis by simp
next
  case other
  with assms show ?thesis
    by (auto simp: canonicalize_did_def parse_pkh_did_def strip_prefix_Some_iff split: if_splits option.splits)
qed

text \<open>What the owner part of a canonical space identifier cannot contain.\<close>

lemma canonical_suffix:
  assumes "hex_law X" and "canonicalize_did X (''did:'' @ suf) = Inr (''did:'' @ r)"
  shows "r \<noteq> [] \<and> set r \<subseteq> set suf \<union> set ''pkhei15:'' \<union> {c. is_ascii_digit c} \<union> {c. ascii_lower_char c \<in> set ''0123456789abcdefx''}"
  using assms(2)
proof (cases rule: canonicalize_did_cases)
  case (pkh n bs)
  let ?e = "encode_eip55 X bs"
  have "set ?e \<subseteq> {c. ascii_lower_char c \<in> set ''0123456789abcdefx''}"
  proof
    fix c assume "c \<in> set ?e"
    then have "ascii_lower_char c \<in> set (map ascii_lower_char ?e)" by simp
    also have "\<dots> \<subseteq> set ''0123456789abcdef''"
      using encode_eip55_lower [OF assms(1)] set_hex_string by metis
    finally show "c \<in> {c. ascii_lower_char c \<in> set ''0123456789abcdefx''}" by auto
  qed
  moreover have "ascii_lower_char (CHR ''0'') = CHR ''0''" "ascii_lower_char (CHR ''x'') = CHR ''x''"
    by (simp_all add: ascii_lower_char_def is_ascii_upper_def less_eq_char_def)
  ultimately show ?thesis
    using pkh show_nat_digits [of _ n] by auto
next
  case other
  then have "r = suf" by simp
  moreover have "suf \<noteq> []"
    using assms(2) other
    by (auto simp: canonicalize_did_def parse_pkh_did_def strip_prefix_def split: if_splits option.splits)
  ultimately show ?thesis by auto
qed

lemma delimiters_not_canonical:
  "\<not> is_ascii_digit c \<and> ascii_lower_char c \<notin> set ''0123456789abcdefx'' \<and> c \<notin> set ''pkhei15:''"
  if "c \<in> set ''/?#''" for c
  using that by (auto simp: is_ascii_digit_def ascii_lower_char_def is_ascii_upper_def less_eq_char_def)

lemma canonical_suffix_delimiters:
  assumes "hex_law X" and "canonicalize_did X (''did:'' @ suf) = Inr (''did:'' @ r)"
    and "c \<in> set ''/?#''" and "c \<notin> set suf"
  shows "c \<notin> set r"
  using canonical_suffix [OF assms(1,2)] delimiters_not_canonical [OF assms(3)] assms(4) by blast


definition resource_parts ::
  "externals \<Rightarrow> uri \<Rightarrow> ResourceId \<Rightarrow> string \<Rightarrow> bool" where
  "resource_parts X u r suf \<longleftrightarrow>
     uri_scheme u = ''tinycloud'' \<and> uri_authority u = None \<and> uri_normalized u \<and>
     uri_path u = suf @ '':'' @ space_name (res_space r) @ ''/'' @ res_service r @
       (case res_path r of None \<Rightarrow> [] | Some p \<Rightarrow> ''/'' @ p) \<and>
     CHR ''/'' \<notin> set suf \<and> CHR ''/'' \<notin> set (space_name (res_space r)) \<and>
     CHR '':'' \<notin> set (space_name (res_space r)) \<and> space_name (res_space r) \<noteq> [] \<and>
     CHR ''/'' \<notin> set (res_service r) \<and>
     canonicalize_did X (''did:'' @ suf) = Inr (base_did (res_space r)) \<and>
     did_valid X (base_did (res_space r)) \<and>
     uri_query u = res_query r \<and> uri_fragment u = res_fragment r"

lemma split_space_name_Some_iff:
  "split_space_name s = Some (suf, name) \<longleftrightarrow> s = suf @ CHR '':'' # name \<and> CHR '':'' \<notin> set name \<and> name \<noteq> []"
proof -
  have "split_space_name s = Some (suf, name) \<longleftrightarrow> rsplit_once s (CHR '':'') = Some (suf, name) \<and> name \<noteq> []"
    by (auto simp: split_space_name_def split: option.splits if_splits)
  then show ?thesis by (auto simp: rsplit_once_Some_iff)
qed

lemma service_path_split:
  "(case split_once t (CHR ''/'') of None \<Rightarrow> (t, None) | Some (service, p) \<Rightarrow> (service, Some p)) = (s, p) \<longleftrightarrow>
     t = s @ (case p of None \<Rightarrow> [] | Some q \<Rightarrow> ''/'' @ q) \<and> CHR ''/'' \<notin> set s"
proof (cases "split_once t (CHR ''/'')")
  case None
  then have "CHR ''/'' \<notin> set t" by (simp add: split_once_None_iff)
  with None show ?thesis by (cases p) auto
next
  case (Some a)
  then obtain x y where a: "a = (x, y)" and t: "t = x @ CHR ''/'' # y" "CHR ''/'' \<notin> set x"
    by (cases a) (auto simp: split_once_Some_iff)
  have "split_once t (CHR ''/'') = Some (s, q) \<longleftrightarrow> t = s @ CHR ''/'' # q \<and> CHR ''/'' \<notin> set s" for q
    by (rule split_once_Some_iff)
  with Some a t show ?thesis by (cases p) auto
qed

lemma did_from_suffix_ok:
  "did_from_suffix X suf = Inr d \<longleftrightarrow> canonicalize_did X (''did:'' @ suf) = Inr d \<and> did_valid X d"
  by (auto simp: did_from_suffix_def split: if_splits)

lemma resource_try_from_iff:
  "resource_try_from X u = Inr r \<longleftrightarrow> (\<exists>suf. resource_parts X u r suf)"
proof
  assume ok: "resource_try_from X u = Inr r"
  then obtain space rest where sp: "split_once (uri_path u) (CHR ''/'') = Some (space, rest)"
    by (auto simp: resource_try_from_def split: if_splits option.splits)
  with ok obtain suf name where sn: "split_space_name space = Some (suf, name)"
    by (auto simp: resource_try_from_def split: if_splits option.splits)
  obtain service p where svc:
    "(case split_once rest (CHR ''/'') of None \<Rightarrow> (rest, None) | Some (service, p) \<Rightarrow> (service, Some p)) = (service, p)"
    by (cases "case split_once rest (CHR ''/'') of None \<Rightarrow> (rest, None) | Some (service, p) \<Rightarrow> (service, Some p)")
  from ok sp sn svc obtain did where "did_from_suffix X suf = Inr did"
    and "r = ResourceId (SpaceId did name) service p (uri_query u) (uri_fragment u)"
    and "uri_scheme u = ''tinycloud''" "uri_authority u = None" "uri_normalized u"
    by (auto simp: resource_try_from_def to_resource_def split: if_splits)
  with sp sn svc show "\<exists>suf. resource_parts X u r suf"
    by (intro exI [of _ suf])
      (auto simp: resource_parts_def split_once_Some_iff split_space_name_Some_iff service_path_split
        did_from_suffix_ok)
next
  assume "\<exists>suf. resource_parts X u r suf"
  then obtain suf where parts: "resource_parts X u r suf" by blast
  let ?name = "space_name (res_space r)"
  let ?rest = "res_service r @ (case res_path r of None \<Rightarrow> [] | Some p \<Rightarrow> ''/'' @ p)"
  have "split_once (uri_path u) (CHR ''/'') = Some (suf @ '':'' @ ?name, ?rest)"
    using parts by (auto simp: resource_parts_def split_once_Some_iff)
  moreover have "split_space_name (suf @ '':'' @ ?name) = Some (suf, ?name)"
    using parts by (auto simp: resource_parts_def split_space_name_Some_iff)
  moreover have "(case split_once ?rest (CHR ''/'') of None \<Rightarrow> (?rest, None)
      | Some (service, p) \<Rightarrow> (service, Some p)) = (res_service r, res_path r)"
    using parts by (simp add: service_path_split resource_parts_def)
  moreover have "did_from_suffix X suf = Inr (base_did (res_space r))"
    using parts by (simp add: did_from_suffix_ok resource_parts_def)
  ultimately show "resource_try_from X u = Inr r"
    using parts by (simp add: resource_try_from_def resource_parts_def to_resource_def contains_char_iff)
qed

lemma resource_reparse:
  assumes "hex_law X" and "uri_law X"
    and "resource_from_str X s = Inr r"
    and "uri_parse X (resource_display r) = Some v" and "uri_normalized v"
  shows "resource_from_str X (resource_display r) = Inr r"
proof -
  from assms(3) obtain u where u: "uri_parse X s = Some u" and "resource_try_from X u = Inr r"
    by (auto simp: resource_from_str_def)
  then obtain suf where parts: "resource_parts X u r suf"
    by (auto simp: resource_try_from_iff)
  have du: "uri_delimited u" and dv: "uri_delimited v" and text_v: "uri_text v = resource_display r"
    using assms(2,4) u by (auto simp: uri_law_def)
  obtain t where base: "base_did (res_space r) = ''did:'' @ t"
    using canonicalize_did_prefix [of X "''did:'' @ suf" "base_did (res_space r)"] parts
    by (auto simp: resource_parts_def)
  have canon: "canonicalize_did X (''did:'' @ suf) = Inr (''did:'' @ t)"
    using parts base by (simp add: resource_parts_def)
  have t: "t \<noteq> []" "set t \<inter> set ''/?#'' = {}"
  proof -
    show "t \<noteq> []" using canonical_suffix [OF assms(1) canon] by blast
    have "set suf \<inter> set ''/?#'' = {}"
      using parts du by (auto simp: resource_parts_def uri_delimited_def)
    then show "set t \<inter> set ''/?#'' = {}"
      using canonical_suffix_delimiters [OF assms(1) canon] by blast
  qed
  define w where "w = u\<lparr>uri_path := t @ '':'' @ space_name (res_space r) @ ''/'' @ res_service r @
      (case res_path r of None \<Rightarrow> [] | Some p \<Rightarrow> ''/'' @ p)\<rparr>"
  have "uri_delimited w"
    using du parts t by (cases t) (auto simp: uri_delimited_def w_def resource_parts_def starts_with_iff)
  moreover have "uri_text w = resource_display r"
    using parts base
    by (simp add: uri_text_def w_def resource_parts_def resource_display_def space_display_def suffix_of_def)
  ultimately have "uri_scheme v = uri_scheme w \<and> uri_authority v = uri_authority w \<and> uri_path v = uri_path w \<and>
      uri_query v = uri_query w \<and> uri_fragment v = uri_fragment w"
    using uri_text_inject [OF dv] text_v by simp
  with parts t base canon assms(5) canonicalize_did_fixpoint [OF assms(1) canon]
  have "resource_parts X v r t"
    by (auto simp: resource_parts_def w_def)
  with assms(4) show ?thesis
    by (auto simp: resource_from_str_def resource_try_from_iff)
qed

end
