(* ===== verification/Capability_Registry.thy ===== *)
theory Capability_Registry
  imports Tc_Prelude
begin

text \<open>
  The action registry: \<open>tinycloud-core/src/policy_capability/generated.rs\<close> (the same text as the
  copy in \<open>tinycloud-auth\<close>) and the matching of actions in
  \<open>tinycloud-auth/src/policy_capability.rs\<close>. \<open>ability_matches\<close> is the only comparison of
  abilities on the paths that authorise delegations and invocations.
\<close>

section \<open>The registry\<close>

definition accepted_actions :: "string \<Rightarrow> string list option" where
  "accepted_actions service =
     (if service = ''tinycloud.capabilities'' then Some [''tinycloud.capabilities/read'']
      else if service = ''tinycloud.delegation'' then
        Some [''tinycloud.delegation/list'', ''tinycloud.delegation/status'']
      else if service = ''tinycloud.duckdb'' then
        Some [''tinycloud.duckdb/*'', ''tinycloud.duckdb/admin'', ''tinycloud.duckdb/export'',
              ''tinycloud.duckdb/import'', ''tinycloud.duckdb/read'', ''tinycloud.duckdb/select'',
              ''tinycloud.duckdb/write'']
      else if service = ''tinycloud.encryption'' then
        Some [''tinycloud.encryption/decrypt'', ''tinycloud.encryption/network.create'',
              ''tinycloud.encryption/network.revoke'']
      else if service = ''tinycloud.hooks'' then
        Some [''tinycloud.hooks/list'', ''tinycloud.hooks/register'', ''tinycloud.hooks/subscribe'',
              ''tinycloud.hooks/unregister'']
      else if service = ''tinycloud.kv'' then
        Some [''tinycloud.kv/del'', ''tinycloud.kv/delete'', ''tinycloud.kv/get'',
              ''tinycloud.kv/list'', ''tinycloud.kv/metadata'', ''tinycloud.kv/put'']
      else if service = ''tinycloud.space'' then
        Some [''tinycloud.space/create'', ''tinycloud.space/host'', ''tinycloud.space/info'',
              ''tinycloud.space/list'']
      else if service = ''tinycloud.sql'' then
        Some [''tinycloud.sql/*'', ''tinycloud.sql/admin'', ''tinycloud.sql/read'',
              ''tinycloud.sql/schema'', ''tinycloud.sql/select'', ''tinycloud.sql/write'']
      else if service = ''tinycloud.vfs'' then
        Some [''tinycloud.vfs/delete'', ''tinycloud.vfs/get'', ''tinycloud.vfs/list'',
              ''tinycloud.vfs/metadata'', ''tinycloud.vfs/put'']
      else None)"

definition resolve_alias :: "string \<Rightarrow> string" where
  "resolve_alias action =
     (if action = ''tinycloud.duckdb/select'' then ''tinycloud.duckdb/read''
      else if action = ''tinycloud.kv/delete'' then ''tinycloud.kv/del''
      else if action = ''tinycloud.sql/select'' then ''tinycloud.sql/read''
      else action)"

definition implied_actions :: "string \<Rightarrow> string list" where
  "implied_actions action =
     (if action = ''tinycloud.duckdb/*'' then
        [''tinycloud.duckdb/admin'', ''tinycloud.duckdb/export'', ''tinycloud.duckdb/import'',
         ''tinycloud.duckdb/read'', ''tinycloud.duckdb/write'']
      else if action = ''tinycloud.sql/*'' then
        [''tinycloud.sql/admin'', ''tinycloud.sql/read'', ''tinycloud.sql/schema'',
         ''tinycloud.sql/write'']
      else if action = ''tinycloud.sql/admin'' then [''tinycloud.sql/schema'']
      else [])"

section \<open>Matching\<close>

text \<open>The \<open>while let Some(action) = stack.pop()\<close> loop; the head of the list is the top of the stack.\<close>

definition implying :: "string set" where
  "implying = {''tinycloud.duckdb/*'', ''tinycloud.sql/*'', ''tinycloud.sql/admin''}"

lemma implied_actions_Nil: "a \<notin> implying \<Longrightarrow> implied_actions a = []"
  by (simp add: implying_def implied_actions_def)

lemma finite_implying [simp]: "finite implying"
  by (simp add: implying_def)

function expand_loop :: "string set \<Rightarrow> string list \<Rightarrow> string set" where
  "expand_loop out [] = out"
| "expand_loop out (action # stack) =
     (if resolve_alias action \<in> out then expand_loop out stack
      else expand_loop (insert (resolve_alias action) out)
             (rev (implied_actions (resolve_alias action)) @ stack))"
  by pat_completeness auto

termination
proof (relation "measures [\<lambda>(out, stack). card (implying - out), \<lambda>(out, stack). length stack]")
  fix out stack and a :: string
  assume new: "resolve_alias a \<notin> out"
  let ?c = "resolve_alias a"
  show "((insert ?c out, rev (implied_actions ?c) @ stack), (out, a # stack))
    \<in> measures [\<lambda>(out, stack). card (implying - out), \<lambda>(out, stack). length stack]"
  proof (cases "?c \<in> implying")
    case True
    with new have "implying - insert ?c out \<subset> implying - out" by auto
    then have "card (implying - insert ?c out) < card (implying - out)"
      by (intro psubset_card_mono) simp_all
    then show ?thesis by simp
  next
    case False
    then have "implying - insert ?c out = implying - out" by auto
    with False show ?thesis by (simp add: implied_actions_Nil)
  qed
qed simp_all

definition expand_actions :: "string list \<Rightarrow> string set" where
  "expand_actions actions = expand_loop {} (rev actions)"

definition ability_matches :: "string \<Rightarrow> string \<Rightarrow> bool" where
  "ability_matches held required \<longleftrightarrow> resolve_alias required \<in> expand_actions [held]"

section \<open>What the worklist computes\<close>

text \<open>
  The reference notion: the actions a held action stands for are its canonical name and, again
  and again, the canonical names of what the registry says those imply.
\<close>

inductive entails :: "string \<Rightarrow> string \<Rightarrow> bool" where
  self: "entails a (resolve_alias a)"
| implied: "entails a b \<Longrightarrow> c \<in> set (implied_actions b) \<Longrightarrow> entails a (resolve_alias c)"

lemma resolve_alias_idem [simp]: "resolve_alias (resolve_alias a) = resolve_alias a"
  by (simp add: resolve_alias_def)

lemma entails_resolve [simp]: "entails (resolve_alias a) b \<longleftrightarrow> entails a b"
proof
  assume "entails (resolve_alias a) b"
  then show "entails a b"
    by (induction "resolve_alias a" b rule: entails.induct) (auto intro: entails.intros)
next
  assume "entails a b"
  then show "entails (resolve_alias a) b"
  proof (induction rule: entails.induct)
    case (self a)
    show ?case using entails.self [of "resolve_alias a"] by simp
  next
    case (implied a b c)
    then show ?case by (blast intro: entails.implied)
  qed
qed

lemma entails_trans: "entails b c \<Longrightarrow> entails a (resolve_alias b) \<Longrightarrow> entails a c"
  by (induction rule: entails.induct) (auto intro: entails.intros)

lemma entails_unfold:
  "entails a x \<longleftrightarrow> x = resolve_alias a \<or> (\<exists>c \<in> set (implied_actions (resolve_alias a)). entails c x)"
proof
  assume "entails a x"
  then show "x = resolve_alias a \<or> (\<exists>c \<in> set (implied_actions (resolve_alias a)). entails c x)"
    by (induction rule: entails.induct) (auto intro: entails.intros)
next
  assume "x = resolve_alias a \<or> (\<exists>c \<in> set (implied_actions (resolve_alias a)). entails c x)"
  then show "entails a x"
    by (auto intro: entails.intros entails_trans)
qed

definition closed_upto :: "string set \<Rightarrow> string list \<Rightarrow> bool" where
  "closed_upto out stack \<longleftrightarrow>
     (\<forall>b \<in> out. resolve_alias b = b \<and>
        (\<forall>c \<in> set (implied_actions b). resolve_alias c \<in> out \<or> c \<in> set stack))"

lemma expand_loop_closure:
  "closed_upto out stack \<Longrightarrow> expand_loop out stack = {x. \<exists>a \<in> out \<union> set stack. entails a x}"
proof (induction out stack rule: expand_loop.induct)
  case (1 out)
  have "x \<in> out" if "entails a x" and "a \<in> out" for a x
    using that
  proof (induction rule: entails.induct)
    case (self a)
    with 1 show ?case by (auto simp: closed_upto_def)
  next
    case (implied a b c)
    with 1 show ?case by (auto simp: closed_upto_def)
  qed
  moreover have "entails a a" if "a \<in> out" for a
    using that 1 entails.self [of a] by (simp add: closed_upto_def)
  ultimately show ?case by auto
next
  case (2 out action stack)
  let ?c = "resolve_alias action"
  show ?case
  proof (cases "?c \<in> out")
    case True
    then have "closed_upto out stack"
      using 2(3) by (auto simp: closed_upto_def)
    with 2(1) True have "expand_loop out (action # stack) = {x. \<exists>a \<in> out \<union> set stack. entails a x}"
      by simp
    also have "\<dots> = {x. \<exists>a \<in> out \<union> set (action # stack). entails a x}"
      using True by (auto intro: bexI [of _ ?c])
    finally show ?thesis .
  next
    case False
    then have "closed_upto (insert ?c out) (rev (implied_actions ?c) @ stack)"
      using 2(3) by (auto simp: closed_upto_def)
    with 2(2) False have "expand_loop out (action # stack) =
        {x. \<exists>a \<in> insert ?c out \<union> set (rev (implied_actions ?c) @ stack). entails a x}"
      by simp
    also have "\<dots> = {x. \<exists>a \<in> out \<union> set (action # stack). entails a x}"
      using entails_unfold [of action] by auto
    finally show ?thesis .
  qed
qed

lemma expand_actions_entails: "expand_actions actions = {x. \<exists>a \<in> set actions. entails a x}"
  by (simp add: expand_actions_def expand_loop_closure closed_upto_def)

lemma ability_matches_entails: "ability_matches held required \<longleftrightarrow> entails held (resolve_alias required)"
  by (simp add: ability_matches_def expand_actions_entails)

lemma ability_matches_refl [simp]: "ability_matches a a"
  by (simp add: ability_matches_entails entails.self)

lemma ability_matches_trans:
  "ability_matches a b \<Longrightarrow> ability_matches b c \<Longrightarrow> ability_matches a c"
  unfolding ability_matches_entails by (rule entails_trans)

text \<open>The registry's implications are canonical and already transitively closed.\<close>

lemma implied_actions_canonical: "b \<in> set (implied_actions a) \<Longrightarrow> resolve_alias b = b"
  by (auto simp: implied_actions_def resolve_alias_def split: if_splits)

lemma implied_actions_closed:
  "b \<in> set (implied_actions a) \<Longrightarrow> c \<in> set (implied_actions b) \<Longrightarrow> c \<in> set (implied_actions a)"
  by (auto simp: implied_actions_def split: if_splits)

lemma entails_iff: "entails a x \<longleftrightarrow> x = resolve_alias a \<or> x \<in> set (implied_actions (resolve_alias a))"
proof
  assume "entails a x"
  then show "x = resolve_alias a \<or> x \<in> set (implied_actions (resolve_alias a))"
    by (induction rule: entails.induct)
      (auto dest: implied_actions_closed simp: implied_actions_canonical)
next
  assume "x = resolve_alias a \<or> x \<in> set (implied_actions (resolve_alias a))"
  then show "entails a x"
    by (metis entails.self entails.implied implied_actions_canonical)
qed

lemma ability_matches_iff:
  "ability_matches h r \<longleftrightarrow>
     resolve_alias r = resolve_alias h \<or> resolve_alias r \<in> set (implied_actions (resolve_alias h))"
  by (simp add: ability_matches_entails entails_iff)

end
