(* ===== verification/Resource_Type.thy ===== *)
theory Resource_Type
  imports Resource_Id Capability_Registry
begin

text \<open>
  The resources a capability names: \<open>tinycloud-core/src/types/resource.rs\<close>, a TinyCloud resource or
  any other URI, with the encryption network identifiers of
  \<open>tinycloud-core/src/encryption_network/network_id.rs\<close> that its containment check singles out.
  The containment relations of the authorisation layer share one contract, the locale below.
\<close>

section \<open>Encryption network identifiers\<close>

record NetworkId =
  owner_did :: string
  network_name :: string

datatype NetworkIdError =
    MissingPrefix
  | EmptyOwnerDid
  | EmptyName
  | MissingSeparator
  | NetworkInvalidName
  | InvalidPrincipal IdentityError

definition NETWORK_ID_PREFIX :: string where
  "NETWORK_ID_PREFIX = ''urn:tinycloud:encryption:''"

definition network_id_new :: "externals \<Rightarrow> string \<Rightarrow> string \<Rightarrow> (NetworkIdError, NetworkId) result" where
  "network_id_new X owner name =
     (if owner = [] then Inl EmptyOwnerDid
      else if name = [] then Inl EmptyName
      else if contains_char name (CHR '':'') \<or> contains_char name (CHR ''/'') then Inl NetworkInvalidName
      else rbind (map_err InvalidPrincipal (canonicalize_principal X owner)) (\<lambda>o'.
           Inr \<lparr>owner_did = o', network_name = name\<rparr>))"

definition network_id_display :: "NetworkId \<Rightarrow> string" where
  "network_id_display n = NETWORK_ID_PREFIX @ owner_did n @ '':'' @ network_name n"

definition network_id_from_str :: "externals \<Rightarrow> string \<Rightarrow> (NetworkIdError, NetworkId) result" where
  "network_id_from_str X s =
     rbind (ok_or (strip_prefix s NETWORK_ID_PREFIX) MissingPrefix) (\<lambda>rest.
     rbind (ok_or (rsplit_once rest (CHR '':'')) MissingSeparator) (\<lambda>(owner, name).
     network_id_new X owner name))"

section \<open>Resources\<close>

datatype Resource = TinyCloud ResourceId | Other string

definition ENCRYPTION_NETWORK_PREFIX :: string where
  "ENCRYPTION_NETWORK_PREFIX = ''urn:tinycloud:encryption:''"

fun space_of :: "Resource \<Rightarrow> SpaceId option" where
  "space_of (TinyCloud r) = Some (res_space r)"
| "space_of (Other _) = None"

fun tinycloud_resource :: "Resource \<Rightarrow> ResourceId option" where
  "tinycloud_resource (TinyCloud r) = Some r"
| "tinycloud_resource (Other _) = None"

fun resource_extends :: "externals \<Rightarrow> Resource \<Rightarrow> Resource \<Rightarrow> bool" where
  "resource_extends X (TinyCloud a) (TinyCloud b) = is_ok (resource_id_extends a b)"
| "resource_extends X (Other a) (Other b) =
     (case (network_id_from_str X a, network_id_from_str X b) of
        (Inr na, Inr nb) \<Rightarrow> na = nb
      | (Inr _, Inl _) \<Rightarrow> False
      | (Inl _, Inr _) \<Rightarrow> False
      | (Inl _, Inl _) \<Rightarrow>
          (if starts_with a ENCRYPTION_NETWORK_PREFIX \<or> starts_with b ENCRYPTION_NETWORK_PREFIX
           then False
           else starts_with a b))"
| "resource_extends X _ _ = False"

text \<open>\<open>From<&UriStr>\<close>: a URI is its text with its parsed components.\<close>

definition resource_of_uri :: "externals \<Rightarrow> string \<Rightarrow> uri \<Rightarrow> Resource" where
  "resource_of_uri X text u = (case resource_try_from X u of Inr r \<Rightarrow> TinyCloud r | Inl _ \<Rightarrow> Other text)"

definition resource_type_from_str :: "externals \<Rightarrow> string \<Rightarrow> (KRIParseError, Resource) result" where
  "resource_type_from_str X s =
     (case resource_from_str X s of
        Inr r \<Rightarrow> Inr (TinyCloud r)
      | Inl UriStringParse \<Rightarrow> Inl UriStringParse
      | Inl _ \<Rightarrow> (case uri_parse X s of Some _ \<Rightarrow> Inr (Other s) | None \<Rightarrow> Inl UriStringParse))"

fun resource_type_display :: "Resource \<Rightarrow> string" where
  "resource_type_display (TinyCloud r) = resource_display r"
| "resource_type_display (Other s) = s"

section \<open>The containment contract\<close>

text \<open>
  A containment relation says that a child lies within a parent. What the authorisation layer needs
  of one is that it composes: then every link of a delegation chain being checked against the
  next is enough for the first to be within the last.
\<close>

locale containment =
  fixes contained :: "'a \<Rightarrow> 'a \<Rightarrow> bool"
  assumes contained_trans: "contained a b \<Longrightarrow> contained b c \<Longrightarrow> contained a c"
begin

lemma chain_within: "successively contained (x # xs) \<Longrightarrow> y \<in> set xs \<Longrightarrow> contained x y"
proof (induction xs arbitrary: x)
  case Nil
  then show ?case by simp
next
  case (Cons z zs)
  then have "contained x z" and rest: "successively contained (z # zs)"
    by auto
  with Cons.IH [OF rest] Cons.prems(2) show ?case
    using contained_trans by auto
qed

end

text \<open>Containments of the parts of a capability combine to one of the whole.\<close>

locale containment_pair = a: containment contained1 + b: containment contained2
  for contained1 :: "'a \<Rightarrow> 'a \<Rightarrow> bool" and contained2 :: "'b \<Rightarrow> 'b \<Rightarrow> bool"
begin

lemma pair_trans:
  "contained1 (fst p) (fst q) \<and> contained2 (snd p) (snd q) \<Longrightarrow>
   contained1 (fst q) (fst r) \<and> contained2 (snd q) (snd r) \<Longrightarrow>
   contained1 (fst p) (fst r) \<and> contained2 (snd p) (snd r)"
  using a.contained_trans b.contained_trans by blast

end

sublocale containment_pair \<subseteq> both: containment "\<lambda>p q. contained1 (fst p) (fst q) \<and> contained2 (snd p) (snd q)"
  by unfold_locales (rule pair_trans)

interpretation ability: containment "\<lambda>required held. ability_matches held required"
  by unfold_locales (rule ability_matches_trans)

lemma resource_extends_trans:
  "resource_extends X a b \<Longrightarrow> resource_extends X b c \<Longrightarrow> resource_extends X a c"
proof (cases a; cases b; cases c)
  fix s t u
  assume "resource_extends X a b" "resource_extends X b c" and abc: "a = Other s" "b = Other t" "c = Other u"
  then show "resource_extends X a c"
    by (cases "network_id_from_str X s"; cases "network_id_from_str X t"; cases "network_id_from_str X u")
      (auto split: if_splits dest: starts_with_trans)
qed (auto dest: path_escapes_trans)

interpretation resource: containment "resource_extends X" for X
  by unfold_locales (rule resource_extends_trans)

text \<open>A capability is within another when its resource is and its ability is covered.\<close>

definition cap_within :: "externals \<Rightarrow> Resource \<times> string \<Rightarrow> Resource \<times> string \<Rightarrow> bool" where
  "cap_within X child parent \<longleftrightarrow>
     resource_extends X (fst child) (fst parent) \<and> ability_matches (snd parent) (snd child)"

interpretation capability: containment_pair "resource_extends X" "\<lambda>required held. ability_matches held required" for X
  by unfold_locales

lemma cap_within_chain:
  assumes "successively (cap_within X) (x # xs)" and "y \<in> set xs"
  shows "cap_within X x y"
  using capability.both.chain_within [of X x xs y] assms by (simp add: cap_within_def [abs_def])

lemma cap_within_trans: "cap_within X a b \<Longrightarrow> cap_within X b c \<Longrightarrow> cap_within X a c"
  using capability.both.contained_trans [of X a b c] by (simp add: cap_within_def)

lemma resource_extends_space: "resource_extends X a b \<Longrightarrow> space_of a = space_of b"
  by (cases a; cases b) (auto split: sum.splits if_splits)

lemma resource_extends_refl_TinyCloud [simp]: "resource_extends X (TinyCloud r) (TinyCloud r)"
  by simp

end
