(* ===== verification/Sql_Caveat.thy ===== *)
theory Sql_Caveat
  imports Json Resource_Type
begin

text \<open>
  The constrained-statement caveat of the SQL service:
  \<open>tinycloud-core/src/policy_capability/sql_caveat.rs\<close>, with the rejection codes of
  \<open>policy_capability/mod.rs\<close>. A caveat lists the statements a grant may run and the parameters
  it fixes; \<open>sql_contains\<close> decides whether a delegated caveat is no weaker than its parent's.
\<close>

section \<open>Data\<close>

datatype RejectionCode =
    PolicyCapabilityMalformedService
  | PolicyCapabilityMalformedSpace
  | PolicyCapabilityMalformedPath
  | PolicyCapabilityMalformedActionShortname
  | PolicyCapabilityMalformedAction
  | PolicyCapabilityEmptyActions
  | PolicyCapabilityMalformedCaveats
  | PolicyCapabilityUnknownKey
  | PolicyCapabilityMalformed
  | ContainmentServiceMismatch
  | ContainmentSpaceMismatch
  | ContainmentPathMismatch
  | ContainmentActionNotSubset
  | ContainmentCaveatRequired
  | ContainmentSqlFixedParamDropped
  | ContainmentSqlFixedParamMismatch
  | ContainmentSqlStatementAdded
  | SqlNonReadonlyNotPermitted
  | SqlWriteBlocked

record FixedParam =
  fp_index :: int
  fp_value :: json

record ConstrainedStatement =
  stmt_name :: string
  stmt_sql :: string
  fixed_params :: "FixedParam list"

record SqlConstrainedStatementCaveat =
  read_only :: bool
  statements :: "ConstrainedStatement list"

section \<open>Parsing\<close>

abbreviation malformed_caveats :: RejectionCode where
  "malformed_caveats \<equiv> PolicyCapabilityMalformedCaveats"

definition parse_fixed_param :: "json \<Rightarrow> (RejectionCode, FixedParam) result" where
  "parse_fixed_param fp =
     rbind (ok_or (as_object fp) malformed_caveats) (\<lambda>fpo.
     rbind (ok_or (obj_get_as as_i64 fpo ''index'') malformed_caveats) (\<lambda>index.
     rbind (ok_or (obj_get fpo ''value'') malformed_caveats) (\<lambda>v.
     Inr \<lparr>fp_index = index, fp_value = v\<rparr>)))"

definition parse_statement :: "json \<Rightarrow> (RejectionCode, ConstrainedStatement) result" where
  "parse_statement s =
     rbind (ok_or (as_object s) malformed_caveats) (\<lambda>so.
     rbind (ok_or (obj_get_as as_str so ''name'') malformed_caveats) (\<lambda>name.
     rbind (ok_or (obj_get_as as_str so ''sql'') malformed_caveats) (\<lambda>sql.
     rbind
       (case obj_get so ''fixedParams'' of
          None \<Rightarrow> Inr []
        | Some v \<Rightarrow>
            rbind (ok_or (as_array v) malformed_caveats) (\<lambda>arr. try_map parse_fixed_param arr)) (\<lambda>fixed.
     Inr \<lparr>stmt_name = name, stmt_sql = sql, fixed_params = fixed\<rparr>))))"

definition sql_caveat_parse :: "json \<Rightarrow> (RejectionCode, SqlConstrainedStatementCaveat) result" where
  "sql_caveat_parse v =
     rbind (ok_or (as_object v) malformed_caveats) (\<lambda>obj.
     rbind (ok_or (obj_get_as as_str obj ''mode'') malformed_caveats) (\<lambda>mode.
     if mode \<noteq> ''constrained-statements'' then Inl malformed_caveats
     else
       rbind (ok_or (obj_get obj ''readOnly'') malformed_caveats) (\<lambda>ro_value.
       rbind (ok_or (as_bool ro_value) malformed_caveats) (\<lambda>ro.
       rbind (ok_or (obj_get_as as_array obj ''statements'') malformed_caveats) (\<lambda>arr.
       rbind (try_map parse_statement arr) (\<lambda>stmts.
       Inr \<lparr>read_only = ro, statements = stmts\<rparr>))))))"

section \<open>Containment\<close>

definition fixed_param_kept :: "ConstrainedStatement \<Rightarrow> FixedParam \<Rightarrow> (RejectionCode, unit) result" where
  "fixed_param_kept req_stmt ap =
     (case find (\<lambda>rp. fp_index rp = fp_index ap) (fixed_params req_stmt) of
        None \<Rightarrow> Inl ContainmentSqlFixedParamDropped
      | Some rp \<Rightarrow>
          (if fp_value rp \<noteq> fp_value ap then Inl ContainmentSqlFixedParamMismatch else Inr ()))"

definition statement_contained ::
  "SqlConstrainedStatementCaveat \<Rightarrow> ConstrainedStatement \<Rightarrow> (RejectionCode, unit) result" where
  "statement_contained auth req_stmt =
     (case find (\<lambda>s. stmt_name s = stmt_name req_stmt) (statements auth) of
        None \<Rightarrow> Inl ContainmentSqlStatementAdded
      | Some auth_stmt \<Rightarrow>
          (if stmt_sql auth_stmt \<noteq> stmt_sql req_stmt then Inl ContainmentSqlStatementAdded
           else try_all (fixed_param_kept req_stmt) (fixed_params auth_stmt)))"

definition sql_contains ::
  "SqlConstrainedStatementCaveat \<Rightarrow> SqlConstrainedStatementCaveat \<Rightarrow> (RejectionCode, unit) result" where
  "sql_contains auth req =
     (if \<not> read_only auth \<or> \<not> read_only req then Inl SqlNonReadonlyNotPermitted
      else try_all (statement_contained auth) (statements req))"

section \<open>Statement text\<close>

definition WRITE_KEYWORDS :: "string list" where
  "WRITE_KEYWORDS =
     [''INSERT'', ''UPDATE'', ''DELETE'', ''REPLACE'', ''MERGE'', ''CREATE'', ''DROP'', ''ALTER'',
      ''TRUNCATE'', ''ATTACH'', ''DETACH'', ''PRAGMA'', ''VACUUM'', ''ANALYZE'']"

text \<open>\<open>str::find\<close>: the index of the first occurrence.\<close>

fun find_str :: "string \<Rightarrow> string \<Rightarrow> nat option" where
  "find_str [] p = (if p = [] then Some 0 else None)"
| "find_str (x # xs) p = (if prefix p (x # xs) then Some 0 else map_option Suc (find_str xs p))"

definition word_byte :: "char \<Rightarrow> bool" where
  "word_byte c = (is_ascii_alphanumeric c \<or> c = CHR ''_'')"

lemma find_str_Some:
  "find_str s p = Some i \<Longrightarrow> i + length p \<le> length s \<and> prefix p (drop i s)"
proof (induction s arbitrary: i)
  case Nil
  then show ?case by (auto split: if_splits)
next
  case (Cons x xs)
  then show ?case
    by (auto split: if_splits dest: prefix_length_le)
qed

lemma contains_word_advance:
  assumes "find_str (drop start h) n = Some i" and "n \<noteq> []"
  shows "length h - (start + i + length n) < length h - start"
proof -
  have "i + length n \<le> length h - start" "0 < length n"
    using find_str_Some [OF assms(1)] assms(2) by simp_all
  then show ?thesis by linarith
qed

text \<open>
  The \<open>while let Some(idx) = haystack[start..].find(needle)\<close> loop. An empty needle, which no
  caller passes, would not advance; the loop is cut there.
\<close>

function contains_word_from :: "string \<Rightarrow> string \<Rightarrow> nat \<Rightarrow> bool" where
  "contains_word_from haystack needle start =
     (case find_str (drop start haystack) needle of
        None \<Rightarrow> False
      | Some idx \<Rightarrow>
          (let pos = start + idx;
               before = (pos = 0 \<or> \<not> word_byte (haystack ! (pos - 1)));
               e = pos + length needle;
               after = (e = length haystack \<or> \<not> word_byte (haystack ! e))
           in if before \<and> after then True
              else if needle = [] then False
              else contains_word_from haystack needle (pos + length needle)))"
  by pat_completeness auto

termination
  by (relation "measure (\<lambda>(h, n, s). length h - s)") (simp_all add: contains_word_advance)

declare contains_word_from.simps [simp del]

definition contains_word :: "string \<Rightarrow> string \<Rightarrow> bool" where
  "contains_word haystack needle = contains_word_from haystack needle 0"

definition contains_write_keyword :: "string \<Rightarrow> bool" where
  "contains_write_keyword sql = list_ex (contains_word (to_ascii_uppercase sql)) WRITE_KEYWORDS"

definition looks_like_escape :: "string \<Rightarrow> bool" where
  "looks_like_escape v \<longleftrightarrow>
     contains_char v (CHR 0x22) \<or> contains_char v (CHR 0x27) \<or> contains_char v (CHR '';'') \<or>
     contains_str v ''--'' \<or> contains_str (to_ascii_uppercase v) '' OR 1=1'' \<or>
     contains_str v ''/*'' \<or> contains_str v ''*/''"

section \<open>Containment composes\<close>

lemma find_Some_iff_ex: "find P xs \<noteq> None \<longleftrightarrow> (\<exists>x \<in> set xs. P x)"
  by (induction xs) auto

lemma sql_contains_ok:
  "is_ok (sql_contains auth req) \<longleftrightarrow>
     read_only auth \<and> read_only req \<and>
     (\<forall>r \<in> set (statements req). is_ok (statement_contained auth r))"
  by (cases "read_only auth"; cases "read_only req") (simp_all add: sql_contains_def is_ok_try_all)

lemma statement_contained_ok:
  "is_ok (statement_contained auth r) \<longleftrightarrow>
     (\<exists>a. find (\<lambda>s. stmt_name s = stmt_name r) (statements auth) = Some a \<and>
        stmt_sql a = stmt_sql r \<and>
        (\<forall>ap \<in> set (fixed_params a).
           \<exists>rp. find (\<lambda>p. fp_index p = fp_index ap) (fixed_params r) = Some rp \<and> fp_value rp = fp_value ap))"
proof (cases "find (\<lambda>s. stmt_name s = stmt_name r) (statements auth)")
  case None
  then show ?thesis by (simp add: statement_contained_def)
next
  case (Some a)
  have "is_ok (fixed_param_kept r ap) \<longleftrightarrow>
      (\<exists>rp. find (\<lambda>p. fp_index p = fp_index ap) (fixed_params r) = Some rp \<and> fp_value rp = fp_value ap)" for ap
    by (simp add: fixed_param_kept_def split: option.split)
  then have "is_ok (try_all (fixed_param_kept r) (fixed_params a)) \<longleftrightarrow>
      (\<forall>ap \<in> set (fixed_params a).
         \<exists>rp. find (\<lambda>p. fp_index p = fp_index ap) (fixed_params r) = Some rp \<and> fp_value rp = fp_value ap)"
    by (simp add: is_ok_try_all)
  with Some show ?thesis by (simp add: statement_contained_def)
qed

lemma sql_contains_trans:
  assumes "is_ok (sql_contains a b)" and "is_ok (sql_contains b c)"
  shows "is_ok (sql_contains a c)"
proof -
  have "is_ok (statement_contained a r)" if r: "r \<in> set (statements c)" for r
  proof -
    from assms(2) r obtain m where m: "find (\<lambda>s. stmt_name s = stmt_name r) (statements b) = Some m"
      and msql: "stmt_sql m = stmt_sql r"
      and mpar: "\<forall>ap \<in> set (fixed_params m). \<exists>rp. find (\<lambda>p. fp_index p = fp_index ap) (fixed_params r) = Some rp \<and>
        fp_value rp = fp_value ap"
      by (auto simp: sql_contains_ok statement_contained_ok)
    from find_SomeD [OF m] have min: "m \<in> set (statements b)" and name: "stmt_name m = stmt_name r" by auto
    from assms(1) min obtain x where x: "find (\<lambda>s. stmt_name s = stmt_name m) (statements a) = Some x"
      and xsql: "stmt_sql x = stmt_sql m"
      and xpar: "\<forall>ap \<in> set (fixed_params x). \<exists>rp. find (\<lambda>p. fp_index p = fp_index ap) (fixed_params m) = Some rp \<and>
        fp_value rp = fp_value ap"
      by (auto simp: sql_contains_ok statement_contained_ok)
    have "\<exists>rp. find (\<lambda>p. fp_index p = fp_index ap) (fixed_params r) = Some rp \<and> fp_value rp = fp_value ap"
      if ap: "ap \<in> set (fixed_params x)" for ap
    proof -
      obtain mp where mp: "find (\<lambda>p. fp_index p = fp_index ap) (fixed_params m) = Some mp"
        and val: "fp_value mp = fp_value ap"
        using bspec [OF xpar ap] by (elim exE conjE)
      from find_SomeD [OF mp] have "mp \<in> set (fixed_params m)" "fp_index mp = fp_index ap" by auto
      with mpar val show ?thesis by metis
    qed
    moreover have "find (\<lambda>s. stmt_name s = stmt_name r) (statements a) = Some x"
      using x unfolding name .
    moreover have "stmt_sql x = stmt_sql r"
      using xsql msql by (rule trans)
    ultimately show ?thesis
      unfolding statement_contained_ok by blast
  qed
  with assms show ?thesis by (auto simp: sql_contains_ok)
qed

interpretation sql_caveats: containment "\<lambda>req auth. is_ok (sql_contains auth req)"
  by unfold_locales (rule sql_contains_trans)

end
