(* ===== verification/Events.thy ===== *)
theory Events
  imports Sql_Caveat
begin

text \<open>
  The tokens and the events made of them: \<open>tinycloud-core/src/hash.rs\<close>, \<open>util.rs\<close> (the conversion of
  a UCAN or a SIWE CACAO to the capabilities, principals and proofs the node reads), the time
  window of a CACAO in \<open>dependencies/cacao/src/siwe_cacao.rs\<close>, and \<open>events/mod.rs\<close> (the events of a
  transaction, the versioned operations and the hash of an epoch).
\<close>

section \<open>Hashes\<close>

definition hash_bytes :: "externals \<Rightarrow> string \<Rightarrow> hash" where
  "hash_bytes X bytes = Hash 30 (blake3 X bytes)"

definition to_cid :: "hash \<Rightarrow> nat \<Rightarrow> cid" where
  "to_cid h c = Cid c h"

definition RAW_CODEC :: nat where "RAW_CODEC = 85"
definition CBOR_CODEC :: nat where "CBOR_CODEC = 113"

section \<open>Tokens\<close>

type_synonym time = int
type_synonym Ability = string
type_synonym Caveats = "(string \<times> json) list"
type_synonym Facts = "(string \<times> json) list"
type_synonym Metadata = "(string \<times> string) list"

text \<open>\<open>Duration::seconds(1)\<close> in the nanoseconds of a time.\<close>

definition SECOND :: int where
  "SECOND = 1000000000"

text \<open>\<open>OffsetDateTime::unix_timestamp\<close>.\<close>

definition unix_timestamp :: "time \<Rightarrow> int" where
  "unix_timestamp t = t div 1000000000"

text \<open>\<open>f64 as i64\<close>: towards zero, within the range of the type.\<close>

definition rat_as_i64 :: "rat \<Rightarrow> int" where
  "rat_as_i64 q =
     (let i = (if q < 0 then - floor (- q) else floor q)
      in max (- 9223372036854775808) (min 9223372036854775807 i))"

text \<open>
  The payload of a UCAN with its encoded form. The attenuation maps a resource URI (its text and
  components) to abilities with their caveat lists.
\<close>

record ucan =
  u_raw :: string
  u_issuer :: string
  u_audience :: string
  u_attenuation :: "((string \<times> uri) \<times> (Ability \<times> json list) list) list"
  u_proof :: "cid list"
  u_expiration :: rat
  u_not_before :: "rat option"
  u_facts :: "json list option"
  u_nonce :: "string option"

text \<open>
  The payload of a SIWE CACAO. \<open>c_recap\<close> is the outcome of \<open>SiweCap::extract_and_verify\<close> on its
  message: the capability object, the abilities per resource, with the proof list.
\<close>

datatype SiweError = SiweError

record cacao =
  c_raw :: string
  c_iss :: string
  c_aud :: string
  c_exp :: "time option"
  c_nbf :: "time option"
  c_iat :: time
  c_message_ok :: bool
  c_recap :: "(SiweError, (((string \<times> uri) \<times> Ability list) list \<times> cid list) option) result"

datatype TinyCloudDelegation = DUcan ucan | DCacao cacao
type_synonym TinyCloudInvocation = ucan
datatype TinyCloudRevocation = RCacao cacao | RUcan ucan

definition cacao_valid_at :: "cacao \<Rightarrow> time \<Rightarrow> bool" where
  "cacao_valid_at c t \<longleftrightarrow>
     (case c_nbf c of None \<Rightarrow> True | Some nbf \<Rightarrow> nbf < t) \<and>
     (case c_exp c of None \<Rightarrow> True | Some e \<Rightarrow> e \<ge> t)"

section \<open>What the node reads of a token\<close>

record capability =
  cap_resource :: Resource
  cap_ability :: Ability
  cap_caveats :: Caveats

text \<open>The caveat list of one ability as a map from the index, printed, to the caveat.\<close>

definition caveat_map :: "json list \<Rightarrow> Caveats" where
  "caveat_map nbs = fold (\<lambda>(i, nb) m. bm_insert (show_nat i) nb m) (enumerate 0 nbs) []"

definition extract_ucan_caps ::
  "externals \<Rightarrow> ((string \<times> uri) \<times> (Ability \<times> json list) list) list \<Rightarrow> capability list" where
  "extract_ucan_caps X caps =
     concat (map (\<lambda>((text, u), abilities).
       map (\<lambda>(ability, nbs).
         \<lparr>cap_resource = resource_of_uri X text u, cap_ability = ability, cap_caveats = caveat_map nbs\<rparr>)
       abilities) caps)"

definition extract_siwe_cap ::
  "externals \<Rightarrow> ((string \<times> uri) \<times> Ability list) list \<times> cid list \<Rightarrow> capability list \<times> cid list" where
  "extract_siwe_cap X c =
     (concat (map (\<lambda>((text, u), abilities).
        map (\<lambda>ability.
          \<lparr>cap_resource = resource_of_uri X text u, cap_ability = ability, cap_caveats = []\<rparr>)
        abilities) (fst c)), snd c)"

datatype DelegationMode = Attenuable | Terminal

definition FACT_KEY :: string where
  "FACT_KEY = ''xyz.tinycloud.policy/delegationMode''"

fun mode_as_str :: "DelegationMode \<Rightarrow> string" where
  "mode_as_str Attenuable = ''attenuable''"
| "mode_as_str Terminal = ''terminal''"

definition fact_is_terminal :: "json \<Rightarrow> bool" where
  "fact_is_terminal f =
     (case as_object f of
        None \<Rightarrow> False
      | Some obj \<Rightarrow> obj_get_as as_str obj FACT_KEY = Some ''terminal'')"

definition read_delegation_mode_from_ucan_facts :: "json list option \<Rightarrow> DelegationMode" where
  "read_delegation_mode_from_ucan_facts facts =
     (case facts of
        None \<Rightarrow> Attenuable
      | Some fs \<Rightarrow> (if list_ex fact_is_terminal fs then Terminal else Attenuable))"

record DelegationInfo =
  di_capabilities :: "capability list"
  di_delegator :: string
  di_delegate :: string
  di_parents :: "cid list"
  di_delegation :: TinyCloudDelegation
  di_expiry :: "time option"
  di_not_before :: "time option"
  di_issued_at :: "time option"
  di_delegation_mode :: DelegationMode

datatype DelegationConvertError = SiweConversion | SiweCapError SiweError

definition delegation_info :: "externals \<Rightarrow> TinyCloudDelegation \<Rightarrow> (DelegationConvertError, DelegationInfo) result" where
  "delegation_info X d =
     (case d of
        DUcan u \<Rightarrow>
          Inr \<lparr>di_capabilities = extract_ucan_caps X (u_attenuation u),
               di_delegator = strip_fragment X (u_issuer u),
               di_delegate = strip_fragment X (u_audience u),
               di_parents = u_proof u,
               di_delegation = d,
               di_expiry = offset_of_seconds X (u_expiration u),
               di_not_before = Option.bind (u_not_before u) (offset_of_seconds X),
               di_issued_at = None,
               di_delegation_mode = read_delegation_mode_from_ucan_facts (u_facts u)\<rparr>
      | DCacao c \<Rightarrow>
          (if \<not> c_message_ok c then Inl SiweConversion
           else
             rbind (map_err SiweCapError (c_recap c)) (\<lambda>maybe_cap.
             let (capabilities, parents) =
                   (case maybe_cap of Some cap \<Rightarrow> extract_siwe_cap X cap | None \<Rightarrow> ([], []))
             in Inr \<lparr>di_capabilities = capabilities,
                     di_delegator = strip_fragment X (c_iss c),
                     di_delegate = strip_fragment X (c_aud c),
                     di_parents = parents,
                     di_delegation = d,
                     di_expiry = c_exp c,
                     di_not_before = c_nbf c,
                     di_issued_at = Some (c_iat c),
                     di_delegation_mode = Attenuable\<rparr>)))"

definition info_spaces :: "capability list \<Rightarrow> SpaceId list" where
  "info_spaces caps = List.map_filter (\<lambda>c. space_of (cap_resource c)) caps"

record InvocationInfo =
  ii_capabilities :: "capability list"
  ii_invoker :: string
  ii_parents :: "cid list"
  ii_invocation :: TinyCloudInvocation

definition invocation_info :: "externals \<Rightarrow> TinyCloudInvocation \<Rightarrow> InvocationInfo" where
  "invocation_info X i =
     \<lparr>ii_capabilities = extract_ucan_caps X (u_attenuation i),
      ii_invoker = strip_fragment X (u_issuer i),
      ii_parents = u_proof i,
      ii_invocation = i\<rparr>"

record RevocationInfo =
  ri_parents :: "cid list"
  ri_revoked :: cid
  ri_revoker :: string
  ri_revocation :: TinyCloudRevocation

datatype RevocationConvertError = InvalidTarget

text \<open>The first resource of the attenuation that is \<open>urn:cid:\<close> followed by a CID.\<close>

fun explicit_target :: "externals \<Rightarrow> string list \<Rightarrow> cid option" where
  "explicit_target X [] = None"
| "explicit_target X (s # ss) =
     (case Option.bind (strip_prefix s ''urn:cid:'') (cid_parse X) of
        Some c \<Rightarrow> Some c
      | None \<Rightarrow> explicit_target X ss)"

definition revocation_info :: "externals \<Rightarrow> TinyCloudRevocation \<Rightarrow> (RevocationConvertError, RevocationInfo) result" where
  "revocation_info X r =
     (case r of
        RCacao c \<Rightarrow>
          (case split_once (c_aud c) (CHR '':'') of
             Some (scheme, ps) \<Rightarrow>
               (if scheme = ''ucan'' then
                  rbind (ok_or (cid_parse X ps) InvalidTarget) (\<lambda>target.
                  Inr \<lparr>ri_parents = [], ri_revoked = target,
                       ri_revoker = strip_fragment X (c_iss c), ri_revocation = r\<rparr>)
                else Inl InvalidTarget)
           | None \<Rightarrow> Inl InvalidTarget)
      | RUcan u \<Rightarrow>
          rbind
            (ok_or
              (case explicit_target X (map (\<lambda>((text, _), _). text) (u_attenuation u)) of
                 Some c \<Rightarrow> Some c
               | None \<Rightarrow> (case u_proof u of [] \<Rightarrow> None | p # _ \<Rightarrow> Some p)) InvalidTarget) (\<lambda>target.
          Inr \<lparr>ri_parents = u_proof u, ri_revoked = target,
               ri_revoker = strip_fragment X (u_issuer u), ri_revocation = r\<rparr>))"

section \<open>Events\<close>

datatype Operation =
    KvWrite (op_space: SpaceId) (op_key: Path) hash Metadata
  | KvDelete (op_space: SpaceId) (op_key: Path) "(int \<times> hash \<times> int) option"

datatype VersionedOperation =
    VKvWrite (vop_space: SpaceId) (vop_key: Path) hash Metadata int (vop_epoch: hash) int
  | VKvDelete (vop_space: SpaceId) (vop_key: Path) "(int \<times> hash \<times> int) option" int (vop_epoch: hash) int

fun op_version :: "Operation \<Rightarrow> int \<Rightarrow> hash \<Rightarrow> int \<Rightarrow> VersionedOperation" where
  "op_version (KvWrite s k v m) sq ep es = VKvWrite s k v m sq ep es"
| "op_version (KvDelete s k ver) sq ep es = VKvDelete s k ver sq ep es"

text \<open>\<open>SerializedEvent\<close>: what was read of the token and the bytes it came in.\<close>

datatype Event =
    EInvocation "InvocationInfo \<times> string" "Operation list"
  | EDelegation "DelegationInfo \<times> string"
  | ERevocation "RevocationInfo \<times> string"

fun event_hash :: "externals \<Rightarrow> Event \<Rightarrow> hash" where
  "event_hash X (EDelegation d) = hash_bytes X (snd d)"
| "event_hash X (EInvocation i _) = hash_bytes X (snd i)"
| "event_hash X (ERevocation r) = hash_bytes X (snd r)"

datatype HashError = EncodeError

fun inv_op :: "SpaceId \<Rightarrow> Operation \<Rightarrow> Op option" where
  "inv_op sp (KvWrite s k v m) = (if s = sp then Some (OpKvWrite k (to_cid v CBOR_CODEC) m) else None)"
| "inv_op sp (KvDelete s k ver) =
     (if s = sp
      then Some (OpKvDelete k (map_option (\<lambda>(v, h, n). (v, to_cid h CBOR_CODEC, n)) ver))
      else None)"

definition hash_inv :: "externals \<Rightarrow> hash \<Rightarrow> SpaceId \<Rightarrow> Operation list \<Rightarrow> (HashError, OneOrMany) result" where
  "hash_inv X inv_hash sp ops =
     rbind
       (try_map (\<lambda>op. rbind (ok_or (cbor_op X op) EncodeError)
                        (\<lambda>bytes. Inr (to_cid (hash_bytes X bytes) CBOR_CODEC)))
         (List.map_filter (inv_op sp) ops)) (\<lambda>cids.
     Inr (if cids = [] then One (to_cid inv_hash RAW_CODEC)
          else Many (to_cid inv_hash RAW_CODEC # cids)))"

definition epoch_event :: "externals \<Rightarrow> SpaceId \<Rightarrow> hash \<times> Event \<Rightarrow> (HashError, OneOrMany) result" where
  "epoch_event X sp he =
     (case snd he of
        EInvocation _ ops \<Rightarrow> hash_inv X (fst he) sp ops
      | EDelegation _ \<Rightarrow> Inr (One (to_cid (fst he) RAW_CODEC))
      | ERevocation _ \<Rightarrow> Inr (One (to_cid (fst he) RAW_CODEC)))"

definition epoch_hash :: "externals \<Rightarrow> SpaceId \<Rightarrow> (hash \<times> Event) list \<Rightarrow> hash list \<Rightarrow> (HashError, hash) result" where
  "epoch_hash X sp events parents =
     rbind (try_map (epoch_event X sp) events) (\<lambda>evs.
     rbind (ok_or (cbor_epoch X (map (\<lambda>h. to_cid h CBOR_CODEC) parents) evs) EncodeError) (\<lambda>bytes.
     Inr (hash_bytes X bytes)))"

end
