(* ===== verification/Space_Db.thy ===== *)
theory Space_Db
  imports Events
begin

text \<open>
  The database of a node: the tables of \<open>tinycloud-core/src/models\<close> and \<open>relationships\<close> that the
  authority and the key-value paths read and write. A table is the list of its rows in the order in
  which a query without an \<open>ORDER BY\<close> returns them. An insert checks the primary key and the
  foreign keys the entities declare; a statement that fails is a \<open>DbErr\<close>, and since every
  operation runs in one transaction an error leaves the database unchanged: operations return
  either an error or the new database.
\<close>

section \<open>Rows\<close>

record delegation_row =
  d_id :: hash
  delegator :: string
  delegatee :: string
  d_expiry :: "time option"
  d_issued_at :: "time option"
  d_not_before :: "time option"
  d_facts :: "Facts option"
  d_serialization :: string

record ability_row =
  ab_resource :: Resource
  ab_ability :: Ability
  ab_delegation :: hash
  ab_caveats :: Caveats

record parent_row =
  pd_parent :: hash
  pd_child :: hash

record revocation_row =
  r_id :: hash
  revoker :: string
  revoked :: hash
  r_serialization :: string
  revoked_at :: "time option"

record invocation_row =
  i_id :: hash
  invoker :: string
  i_issued_at :: time
  i_facts :: "Facts option"
  i_serialization :: string

record invoked_ability_row =
  ia_invocation :: hash
  ia_resource :: Resource
  ia_ability :: Ability

record epoch_row =
  ep_seq :: int
  ep_id :: hash
  ep_space :: SpaceId

record epoch_order_row =
  eo_parent :: hash
  eo_child :: hash
  eo_space :: SpaceId

record event_order_row =
  ev_seq :: int
  ev_epoch :: hash
  ev_epoch_seq :: int
  ev_event :: hash
  ev_space :: SpaceId

record kv_write_row =
  kw_space :: SpaceId
  kw_key :: Path
  kw_invocation :: hash
  kw_seq :: int
  kw_epoch :: hash
  kw_epoch_seq :: int
  kw_value :: hash
  kw_metadata :: Metadata

record kv_delete_row =
  kd_invocation :: hash
  kd_space :: SpaceId
  kd_key :: Path
  kd_deleted :: hash

record hook_subscription_row =
  hs_id :: string
  hs_subscriber_did :: string
  hs_space_id :: string
  hs_target_service :: string
  hs_path_prefix :: "string option"
  hs_abilities_json :: "string option"
  hs_callback_url :: string
  hs_encrypted_secret :: string
  hs_secret_key_id :: string
  hs_active :: bool
  hs_created_at :: string

text \<open>The payload column holds the JSON text of this record; a timestamp column the RFC 3339 text.\<close>

record KvWebhookPayload =
  pl_event_type :: string
  pl_id :: string
  pl_space :: string
  pl_service :: string
  pl_ability :: string
  pl_path :: "string option"
  pl_actor :: string
  pl_epoch :: string
  pl_event_index :: nat
  pl_timestamp :: time

record hook_delivery_row =
  hd_id :: string
  hd_subscription_id :: string
  hd_event_id :: string
  hd_payload :: KvWebhookPayload
  hd_status :: string
  hd_attempts :: int
  hd_next_attempt_at :: "time option"
  hd_last_error :: "string option"
  hd_created_at :: time
  hd_delivered_at :: "time option"

record database =
  actors :: "string list"
  delegations :: "delegation_row list"
  abilities :: "ability_row list"
  parent_delegations :: "parent_row list"
  revocations :: "revocation_row list"
  invocations :: "invocation_row list"
  invoked_abilities :: "invoked_ability_row list"
  spaces :: "SpaceId list"
  epochs :: "epoch_row list"
  epoch_orders :: "epoch_order_row list"
  event_orders :: "event_order_row list"
  kv_writes :: "kv_write_row list"
  kv_deletes :: "kv_delete_row list"
  hook_subscriptions :: "hook_subscription_row list"
  hook_deliveries :: "hook_delivery_row list"

definition empty_db :: database where
  "empty_db = \<lparr>actors = [], delegations = [], abilities = [], parent_delegations = [],
     revocations = [], invocations = [], invoked_abilities = [], spaces = [], epochs = [],
     epoch_orders = [], event_orders = [], kv_writes = [], kv_deletes = [],
     hook_subscriptions = [], hook_deliveries = []\<rparr>"

section \<open>Inserting\<close>

datatype DbErr = UniqueViolation | ForeignKeyViolation | RecordNotInserted | DbCustom string

text \<open>\<open>insert(..).exec\<close>; \<open>fk\<close> says that the rows a new row refers to are there.\<close>

definition insert_row :: "('r \<Rightarrow> 'k) \<Rightarrow> ('r \<Rightarrow> bool) \<Rightarrow> 'r \<Rightarrow> 'r list \<Rightarrow> (DbErr, 'r list) result" where
  "insert_row key fk r t =
     (if \<not> fk r then Inl ForeignKeyViolation
      else if key r \<in> key ` set t then Inl UniqueViolation
      else Inr (t @ [r]))"

text \<open>\<open>insert_many(..).exec\<close>.\<close>

definition insert_rows :: "('r \<Rightarrow> 'k) \<Rightarrow> ('r \<Rightarrow> bool) \<Rightarrow> 'r list \<Rightarrow> 'r list \<Rightarrow> (DbErr, 'r list) result" where
  "insert_rows key fk rs t = try_fold (\<lambda>t r. insert_row key fk r t) t rs"

text \<open>
  \<open>insert(..).on_conflict(do_nothing).exec\<close>: \<open>None\<close> is the \<open>RecordNotInserted\<close> the callers match on.
\<close>

definition insert_or_ignore ::
  "('r \<Rightarrow> 'k) \<Rightarrow> ('r \<Rightarrow> bool) \<Rightarrow> 'r \<Rightarrow> 'r list \<Rightarrow> (DbErr, 'r list option) result" where
  "insert_or_ignore key fk r t =
     (if key r \<in> key ` set t then Inr None
      else if \<not> fk r then Inl ForeignKeyViolation
      else Inr (Some (t @ [r])))"

text \<open>\<open>insert_many(..).on_conflict(do_nothing).exec\<close>, with the rows that are really inserted.\<close>

fun insert_new_rows :: "('r \<Rightarrow> 'k) \<Rightarrow> 'r list \<Rightarrow> 'r list \<Rightarrow> 'r list" where
  "insert_new_rows key [] t = t"
| "insert_new_rows key (r # rs) t =
     insert_new_rows key rs (if key r \<in> key ` set t then t else t @ [r])"

section \<open>The insert contract\<close>

text \<open>What the operations rely on: a successful insert appends the row, and its key was free.\<close>

locale unique_table =
  fixes key :: "'r \<Rightarrow> 'k"
    and ins :: "'r \<Rightarrow> 'r list \<Rightarrow> ('e, 'r list) result"
  assumes ins_ok: "ins r t = Inr t' \<Longrightarrow> t' = t @ [r] \<and> key r \<notin> key ` set t"
begin

lemma many_appends: "try_fold (\<lambda>t r. ins r t) t rs = Inr t' \<Longrightarrow> t' = t @ rs"
proof (induction rs arbitrary: t)
  case Nil
  then show ?case by simp
next
  case (Cons r rs)
  then obtain u where "ins r t = Inr u" and "try_fold (\<lambda>t r. ins r t) u rs = Inr t'"
    by (auto split: sum.splits)
  with Cons.IH [of u] ins_ok [of r t u] show ?case by simp
qed

lemma many_unique:
  "try_fold (\<lambda>t r. ins r t) t rs = Inr t' \<Longrightarrow> distinct (map key t) \<Longrightarrow> distinct (map key t')"
proof (induction rs arbitrary: t)
  case Nil
  then show ?case by simp
next
  case (Cons r rs)
  then obtain u where u: "ins r t = Inr u" and rest: "try_fold (\<lambda>t r. ins r t) u rs = Inr t'"
    by (auto split: sum.splits)
  from u Cons.prems(2) have "distinct (map key u)"
    using ins_ok [of r t u] by auto
  with Cons.IH [OF rest] show ?case .
qed

end

interpretation table: unique_table key "insert_row key fk" for key fk
  by unfold_locales (auto simp: insert_row_def split: if_splits)

lemma insert_rows_appends: "insert_rows key fk rs t = Inr t' \<Longrightarrow> t' = t @ rs"
  unfolding insert_rows_def by (rule table.many_appends)

lemma insert_rows_unique:
  "insert_rows key fk rs t = Inr t' \<Longrightarrow> distinct (map key t) \<Longrightarrow> distinct (map key t')"
  unfolding insert_rows_def by (rule table.many_unique)

lemma insert_rows_fk: "insert_rows key fk rs t = Inr t' \<Longrightarrow> r \<in> set rs \<Longrightarrow> fk r"
  unfolding insert_rows_def
  by (induction rs arbitrary: t) (auto simp: insert_row_def split: sum.splits if_splits)

lemma insert_or_ignore_Some:
  "insert_or_ignore key fk r t = Inr (Some t') \<longleftrightarrow> key r \<notin> key ` set t \<and> fk r \<and> t' = t @ [r]"
  by (auto simp: insert_or_ignore_def)

lemma insert_or_ignore_None: "insert_or_ignore key fk r t = Inr None \<longleftrightarrow> key r \<in> key ` set t"
  by (auto simp: insert_or_ignore_def)

lemma insert_new_rows_id: "set (insert_new_rows id rs t) = set t \<union> set rs"
  by (induction rs arbitrary: t) auto

lemma distinct_insert_new_rows_id: "distinct t \<Longrightarrow> distinct (insert_new_rows id rs t)"
  by (induction rs arbitrary: t) auto

end
