(* ===== verification/Revocation_Chain.thy ===== *)
theory Revocation_Chain
  imports Space_Db
begin

text \<open>
  The walk over the proof graph: \<open>is_revoked\<close>, \<open>first_revoked_ancestor\<close> and
  \<open>ancestor_chain_ids_for_roots\<close> of \<open>tinycloud-core/src/models/revocation.rs\<close>. Every delegation,
  invocation and revocation runs it; the bound on the number of nodes makes it a worklist that
  either visits at most 64 distinct nodes or stops with an error.
\<close>

section \<open>The walk\<close>

definition MAX_CHAIN_TRAVERSAL_NODES :: nat where
  "MAX_CHAIN_TRAVERSAL_NODES = 64"

datatype ChainTraversalError = ChainDb DbErr | LimitExceeded

definition is_revoked :: "database \<Rightarrow> hash \<Rightarrow> bool" where
  "is_revoked db delegation_id \<longleftrightarrow>
     length (filter (\<lambda>r. revoked r = delegation_id) (revocations db)) > 0"

definition parent_links :: "database \<Rightarrow> hash \<Rightarrow> parent_row list" where
  "parent_links db child = filter (\<lambda>l. pd_child l = child) (parent_delegations db)"

text \<open>The inner \<open>for link in parents\<close>; the head of the frontier is the end of the \<open>Vec\<close>.\<close>

fun push_parents :: "hash list \<Rightarrow> hash list \<Rightarrow> parent_row list \<Rightarrow> (ChainTraversalError, hash list) result" where
  "push_parents visited frontier [] = Inr frontier"
| "push_parents visited frontier (link # links) =
     (if pd_parent link \<notin> set visited \<and> pd_parent link \<notin> set frontier then
        (if length visited + length frontier \<ge> MAX_CHAIN_TRAVERSAL_NODES then Inl LimitExceeded
         else push_parents visited (pd_parent link # frontier) links)
      else push_parents visited frontier links)"

text \<open>
  The \<open>while let Some(current) = frontier.pop()\<close> loop. A node enters \<open>visited\<close> and is pushed to
  \<open>ordered\<close> in the same iteration, so one list, newest first, is both.
\<close>

function chain_loop :: "database \<Rightarrow> hash list \<Rightarrow> hash list \<Rightarrow> (ChainTraversalError, hash list) result" where
  "chain_loop db visited [] = Inr (rev visited)"
| "chain_loop db visited (current # frontier) =
     (if current \<in> set visited then chain_loop db visited frontier
      else if length (current # visited) > MAX_CHAIN_TRAVERSAL_NODES then Inl LimitExceeded
      else
        (let remaining = MAX_CHAIN_TRAVERSAL_NODES - length (current # visited);
             parents = take (remaining + 1) (parent_links db current)
         in case push_parents (current # visited) frontier parents of
              Inl e \<Rightarrow> Inl e
            | Inr frontier' \<Rightarrow> chain_loop db (current # visited) frontier'))"
  by pat_completeness auto

termination
  by (relation "measures [\<lambda>(db, v, f). MAX_CHAIN_TRAVERSAL_NODES - length v, \<lambda>(db, v, f). length f]") auto

definition ancestor_chain_ids_for_roots :: "database \<Rightarrow> hash list \<Rightarrow> (ChainTraversalError, hash list) result" where
  "ancestor_chain_ids_for_roots db roots =
     (let frontier = dedup (sort_key digest roots)
      in if length frontier > MAX_CHAIN_TRAVERSAL_NODES then Inl LimitExceeded
         else chain_loop db [] (rev frontier))"

definition ancestor_chain_ids :: "database \<Rightarrow> hash \<Rightarrow> (ChainTraversalError, hash list) result" where
  "ancestor_chain_ids db start = ancestor_chain_ids_for_roots db [start]"

definition first_revoked_ancestor :: "database \<Rightarrow> hash \<Rightarrow> (ChainTraversalError, hash option) result" where
  "first_revoked_ancestor db start =
     rbind (ancestor_chain_ids db start) (\<lambda>ids. Inr (find (is_revoked db) (drop 1 ids)))"

section \<open>What a walk visits\<close>

text \<open>The proof graph: an edge from a node to each parent it cites.\<close>

definition parent_rel :: "database \<Rightarrow> (hash \<times> hash) set" where
  "parent_rel db = {(c, p). \<exists>l \<in> set (parent_delegations db). pd_child l = c \<and> pd_parent l = p}"

lemma is_revoked_iff: "is_revoked db h \<longleftrightarrow> (\<exists>r \<in> set (revocations db). revoked r = h)"
  by (auto simp: is_revoked_def filter_empty_conv)

lemma parent_rel_links: "(c, p) \<in> parent_rel db \<longleftrightarrow> p \<in> pd_parent ` set (parent_links db c)"
  by (auto simp: parent_rel_def parent_links_def)

lemma push_parents_ok:
  "push_parents v f ls = Inr f' \<Longrightarrow>
     set f \<subseteq> set f' \<and> set f' \<subseteq> set f \<union> pd_parent ` set ls \<and> pd_parent ` set ls \<subseteq> set v \<union> set f'"
proof (induction v f ls arbitrary: f' rule: push_parents.induct)
  case (1 v f)
  then show ?case by simp
next
  case (2 v f l ls)
  show ?case
  proof (cases "pd_parent l \<notin> set v \<and> pd_parent l \<notin> set f")
    case True
    with 2(3) have "push_parents v (pd_parent l # f) ls = Inr f'"
      and small: "\<not> length v + length f \<ge> MAX_CHAIN_TRAVERSAL_NODES"
      by (auto split: if_splits)
    with 2(1) [OF True small, of f'] show ?thesis by auto
  next
    case False
    with 2(2) [OF False, of f'] 2(3) show ?thesis by auto
  qed
qed

lemma chain_loop_prefix: "chain_loop db v f = Inr ids \<Longrightarrow> \<exists>s. ids = rev v @ s"
proof (induction db v f rule: chain_loop.induct)
  case (1 db v)
  then show ?case by auto
next
  case (2 db v c f)
  then show ?case
    by (fastforce simp: Let_def split: if_splits sum.splits)
qed

lemma chain_loop_bounded:
  "chain_loop db v f = Inr ids \<Longrightarrow> distinct v \<Longrightarrow> length v \<le> MAX_CHAIN_TRAVERSAL_NODES \<Longrightarrow>
     distinct ids \<and> length ids \<le> MAX_CHAIN_TRAVERSAL_NODES"
proof (induction db v f rule: chain_loop.induct)
  case (1 db v)
  then show ?case by auto
next
  case (2 db v c f)
  then show ?case
    by (auto simp: Let_def not_less split: if_splits sum.splits)
qed

text \<open>One iteration that visits a new node.\<close>

lemma chain_loop_visit:
  assumes "chain_loop db v (c # f) = Inr ids" and "c \<notin> set v"
  obtains f' where
    "push_parents (c # v) f (take (MAX_CHAIN_TRAVERSAL_NODES - length (c # v) + 1) (parent_links db c)) = Inr f'"
    "chain_loop db (c # v) f' = Inr ids"
    "\<not> length (c # v) > MAX_CHAIN_TRAVERSAL_NODES"
  using assms by (auto simp: Let_def split: if_splits sum.splits)

lemma chain_loop_covers: "chain_loop db v f = Inr ids \<Longrightarrow> set v \<union> set f \<subseteq> set ids"
proof (induction db v f rule: chain_loop.induct)
  case (1 db v)
  then show ?case by auto
next
  case (2 db v c f)
  show ?case
  proof (cases "c \<in> set v")
    case True
    with 2(1,3) show ?thesis by auto
  next
    case False
    from 2(3) False show ?thesis
    proof (rule chain_loop_visit)
      fix f'
      assume push: "push_parents (c # v) f
          (take (MAX_CHAIN_TRAVERSAL_NODES - length (c # v) + 1) (parent_links db c)) = Inr f'"
        and rest: "chain_loop db (c # v) f' = Inr ids"
        and small: "\<not> length (c # v) > MAX_CHAIN_TRAVERSAL_NODES"
      from 2(2) [OF False small refl refl push rest] push_parents_ok [OF push]
      show ?thesis by auto
    qed
  qed
qed

lemma Image_rtrancl_mono: "A \<subseteq> R\<^sup>* `` B \<Longrightarrow> R\<^sup>* `` A \<subseteq> R\<^sup>* `` B"
  by (auto intro: rtrancl_trans)

lemma pushed_parents:
  "pd_parent ` set (take n (parent_links db c)) \<subseteq> parent_rel db `` {c}"
  using set_take_subset [of n "parent_links db c"] parent_rel_links [of c _ db] by blast

lemma chain_loop_sound:
  "chain_loop db v f = Inr ids \<Longrightarrow> set ids \<subseteq> (parent_rel db)\<^sup>* `` (set v \<union> set f)"
proof (induction db v f rule: chain_loop.induct)
  case (1 db v)
  then show ?case by auto
next
  case (2 db v c f)
  show ?case
  proof (cases "c \<in> set v")
    case True
    with 2(1,3) show ?thesis by (auto simp: insert_absorb)
  next
    case False
    from 2(3) False show ?thesis
    proof (rule chain_loop_visit)
      fix f'
      assume push: "push_parents (c # v) f
          (take (MAX_CHAIN_TRAVERSAL_NODES - length (c # v) + 1) (parent_links db c)) = Inr f'"
        and rest: "chain_loop db (c # v) f' = Inr ids"
        and small: "\<not> length (c # v) > MAX_CHAIN_TRAVERSAL_NODES"
      have "set f' \<subseteq> set f \<union> parent_rel db `` {c}"
        using push_parents_ok [OF push] pushed_parents by blast
      then have "set (c # v) \<union> set f' \<subseteq> (parent_rel db)\<^sup>* `` (set v \<union> set (c # f))"
        by auto
      then have "(parent_rel db)\<^sup>* `` (set (c # v) \<union> set f') \<subseteq> (parent_rel db)\<^sup>* `` (set v \<union> set (c # f))"
        by (rule Image_rtrancl_mono)
      with 2(2) [OF False small refl refl push rest] show ?thesis by (rule subset_trans)
    qed
  qed
qed

text \<open>
  A node that the walk visits as the \<open>i\<close>-th contributes all its parents when it has at most
  \<open>64 - i\<close> of them: the query takes no more rows than that.
\<close>

definition links_fit :: "database \<Rightarrow> hash list \<Rightarrow> nat \<Rightarrow> bool" where
  "links_fit db ids n \<longleftrightarrow>
     (\<forall>i. n \<le> i \<and> i < length ids \<longrightarrow> length (parent_links db (ids ! i)) \<le> MAX_CHAIN_TRAVERSAL_NODES - i)"

lemma chain_loop_complete:
  "chain_loop db v f = Inr ids \<Longrightarrow> links_fit db ids (length v) \<Longrightarrow>
     parent_rel db `` (set ids - set v) \<subseteq> set ids"
proof (induction db v f rule: chain_loop.induct)
  case (1 db v)
  then show ?case by auto
next
  case (2 db v c f)
  show ?case
  proof (cases "c \<in> set v")
    case True
    with 2(1,3,4) show ?thesis by auto
  next
    case False
    from 2(3) False show ?thesis
    proof (rule chain_loop_visit)
      fix f'
      assume push: "push_parents (c # v) f
          (take (MAX_CHAIN_TRAVERSAL_NODES - length (c # v) + 1) (parent_links db c)) = Inr f'"
        and rest: "chain_loop db (c # v) f' = Inr ids"
        and small: "\<not> length (c # v) > MAX_CHAIN_TRAVERSAL_NODES"
      obtain s where ids: "ids = rev (c # v) @ s"
        using chain_loop_prefix [OF rest] by blast
      then have at: "ids ! length v = c" "length v < length ids"
        by (simp_all add: nth_append)
      with 2(4) have "length (parent_links db c) \<le> MAX_CHAIN_TRAVERSAL_NODES - length v"
        unfolding links_fit_def by blast
      with small have "take (MAX_CHAIN_TRAVERSAL_NODES - length (c # v) + 1) (parent_links db c) = parent_links db c"
        by simp
      with push_parents_ok [OF push] chain_loop_covers [OF rest]
      have "pd_parent ` set (parent_links db c) \<subseteq> set ids" by auto
      then have "parent_rel db `` {c} \<subseteq> set ids"
        using parent_rel_links by blast
      moreover have "links_fit db ids (length (c # v))"
        using 2(4) by (simp add: links_fit_def)
      then have "parent_rel db `` (set ids - set (c # v)) \<subseteq> set ids"
        by (rule 2(2) [OF False small refl refl push rest])
      ultimately show ?thesis by auto
    qed
  qed
qed


section \<open>The contract of the walk\<close>

lemma chain_ids_for_roots_unfold:
  "ancestor_chain_ids_for_roots db roots = Inr ids \<Longrightarrow>
     chain_loop db [] (rev (dedup (sort_key digest roots))) = Inr ids"
  by (simp add: ancestor_chain_ids_for_roots_def Let_def split: if_splits)

lemma chain_ids_bounded:
  "ancestor_chain_ids_for_roots db roots = Inr ids \<Longrightarrow>
     distinct ids \<and> length ids \<le> MAX_CHAIN_TRAVERSAL_NODES"
  by (drule chain_ids_for_roots_unfold, drule chain_loop_bounded) simp_all

lemma chain_ids_roots: "ancestor_chain_ids_for_roots db roots = Inr ids \<Longrightarrow> set roots \<subseteq> set ids"
  by (drule chain_ids_for_roots_unfold, drule chain_loop_covers) simp

lemma chain_ids_sound:
  "ancestor_chain_ids_for_roots db roots = Inr ids \<Longrightarrow> set ids \<subseteq> (parent_rel db)\<^sup>* `` set roots"
  by (drule chain_ids_for_roots_unfold, drule chain_loop_sound) simp

lemma chain_ids_exact:
  assumes "ancestor_chain_ids_for_roots db roots = Inr ids" and "links_fit db ids 0"
  shows "set ids = (parent_rel db)\<^sup>* `` set roots"
proof
  show "set ids \<subseteq> (parent_rel db)\<^sup>* `` set roots"
    using assms(1) by (rule chain_ids_sound)
  have closed: "parent_rel db `` set ids \<subseteq> set ids"
    using chain_loop_complete [OF chain_ids_for_roots_unfold [OF assms(1)]] assms(2) by simp
  have "(parent_rel db)\<^sup>* `` set ids \<subseteq> set ids"
    using Image_closed_trancl [OF closed] by simp
  with chain_ids_roots [OF assms(1)] show "(parent_rel db)\<^sup>* `` set roots \<subseteq> set ids"
    by blast
qed

lemma ancestor_chain_ids_hd:
  assumes "ancestor_chain_ids db start = Inr ids"
  shows "\<exists>rest. ids = start # rest"
proof -
  from assms have "chain_loop db [] [start] = Inr ids"
    using chain_ids_for_roots_unfold [of db "[start]" ids] by (simp add: ancestor_chain_ids_def)
  then show ?thesis
  proof (rule chain_loop_visit)
    fix f'
    assume "chain_loop db [start] f' = Inr ids"
    then show ?thesis using chain_loop_prefix by fastforce
  qed simp
qed

text \<open>
  What the callers rely on: the walk starts with the node it was asked for, and a scan of the rest
  for a marked node that finds none leaves no visited node marked.
\<close>

locale ancestor_scan =
  fixes walk :: "'h \<Rightarrow> ('e, 'h list) result"
    and marked :: "'h \<Rightarrow> bool"
  assumes walk_hd: "walk start = Inr ids \<Longrightarrow> \<exists>rest. ids = start # rest"
begin

lemma scan_clean:
  assumes "walk start = Inr ids" and "\<not> marked start" and "find marked (drop 1 ids) = None"
  shows "\<forall>h \<in> set ids. \<not> marked h"
  using walk_hd [OF assms(1)] assms(2,3) by (auto simp: find_None_iff)

lemma scan_start: "walk start = Inr ids \<Longrightarrow> start \<in> set ids"
  using walk_hd by fastforce

end

interpretation scan: ancestor_scan "ancestor_chain_ids db" "is_revoked db" for db
  by unfold_locales (rule ancestor_chain_ids_hd)

lemma first_revoked_ancestor_None:
  assumes "first_revoked_ancestor db start = Inr None" and "\<not> is_revoked db start"
  shows "\<exists>ids. ancestor_chain_ids db start = Inr ids \<and> (\<forall>h \<in> set ids. \<not> is_revoked db h)"
  using assms scan.scan_clean by (fastforce simp: first_revoked_ancestor_def)

lemma first_revoked_ancestor_Some:
  assumes "first_revoked_ancestor db start = Inr (Some h)"
  shows "is_revoked db h \<and> (start, h) \<in> (parent_rel db)\<^sup>*"
proof -
  from assms obtain ids where ids: "ancestor_chain_ids db start = Inr ids"
    and find: "find (is_revoked db) (drop 1 ids) = Some h"
    by (auto simp: first_revoked_ancestor_def)
  from find_SomeD [OF find] have "h \<in> set ids" "is_revoked db h"
    using set_drop_subset by fastforce+
  with chain_ids_sound [of db "[start]" ids] ids show ?thesis
    by (auto simp: ancestor_chain_ids_def)
qed

end
