(* ===== verification/Column_Encryption.thy ===== *)
theory Column_Encryption
  imports Externals
begin

text \<open>
  Application-level encryption of stored tokens: \<open>tinycloud-core/src/encryption.rs\<close>. A value is
  either the version byte 1, a 12-byte nonce and an AES-256-GCM ciphertext, or legacy plaintext.
\<close>

definition VERSION_ENCRYPTED :: char where
  "VERSION_ENCRYPTED = CHR 0x01"

datatype EncryptionError = Decrypt | TooShort

definition encrypt :: "externals \<Rightarrow> string \<Rightarrow> string \<Rightarrow> string" where
  "encrypt X key plaintext =
     (let nonce = gcm_nonce X plaintext
      in VERSION_ENCRYPTED # nonce @ aes_encrypt X key nonce plaintext)"

definition decrypt :: "externals \<Rightarrow> string \<Rightarrow> string \<Rightarrow> (EncryptionError, string) result" where
  "decrypt X key bytes =
     (if bytes = [] then Inr bytes
      else if hd bytes \<noteq> VERSION_ENCRYPTED then Inr bytes
      else if length bytes < 1 + 12 + 16 then Inl TooShort
      else ok_or (aes_decrypt X key (take 12 (drop 1 bytes)) (drop 13 bytes)) Decrypt)"

definition maybe_encrypt :: "externals \<Rightarrow> string option \<Rightarrow> string \<Rightarrow> string" where
  "maybe_encrypt X enc bytes = (case enc of Some key \<Rightarrow> encrypt X key bytes | None \<Rightarrow> bytes)"

definition maybe_decrypt :: "externals \<Rightarrow> string option \<Rightarrow> string \<Rightarrow> (EncryptionError, string) result" where
  "maybe_decrypt X enc bytes = (case enc of Some key \<Rightarrow> decrypt X key bytes | None \<Rightarrow> Inr bytes)"

text \<open>
  The documented behaviour of AES-256-GCM: decryption inverts encryption under the same key and
  nonce, a ciphertext carries a 16-byte tag, and a nonce has 12 bytes.
\<close>

definition aes_law :: "externals \<Rightarrow> bool" where
  "aes_law X \<longleftrightarrow>
     (\<forall>k n p. aes_decrypt X k n (aes_encrypt X k n p) = Some p \<and>
              length (aes_encrypt X k n p) = length p + 16) \<and>
     (\<forall>p. length (gcm_nonce X p) = 12)"

lemma decrypt_encrypt:
  assumes "aes_law X"
  shows "decrypt X key (encrypt X key p) = Inr p"
proof -
  have n: "length (gcm_nonce X p) = 12"
    using assms by (simp add: aes_law_def)
  have c: "length (aes_encrypt X key (gcm_nonce X p) p) = length p + 16"
    using assms by (simp add: aes_law_def)
  have "take 12 (drop 1 (encrypt X key p)) = gcm_nonce X p"
    using n by (simp add: encrypt_def Let_def)
  moreover have "drop 13 (encrypt X key p) = aes_encrypt X key (gcm_nonce X p) p"
    using n by (simp add: encrypt_def Let_def)
  moreover have "length (encrypt X key p) \<ge> 29" "hd (encrypt X key p) = VERSION_ENCRYPTED" "encrypt X key p \<noteq> []"
    using n c by (simp_all add: encrypt_def Let_def)
  ultimately show ?thesis
    using assms by (simp add: decrypt_def aes_law_def)
qed

end
