(* ===== verification/Authority.thy ===== *)
theory Authority
  imports Revocation_Chain Column_Encryption
begin

text \<open>
  What the delegation and the invocation checks share: who is the root authority of a resource, and
  when the caveats of a child are contained in those of its parent
  (\<open>models/delegation.rs\<close> and \<open>models/invocation.rs\<close>, which each have a copy).
\<close>

section \<open>Root authority\<close>

definition is_root_authority :: "externals \<Rightarrow> Resource \<Rightarrow> string \<Rightarrow> bool" where
  "is_root_authority X r actor =
     (if (case space_of r of Some s \<Rightarrow> did_principal_matches X (base_did s) actor | None \<Rightarrow> False)
      then True
      else (case r of
              Other uri \<Rightarrow>
                (case network_id_from_str X uri of
                   Inr network_id \<Rightarrow> did_principal_matches X (owner_did network_id) actor
                 | Inl _ \<Rightarrow> False)
            | TinyCloud _ \<Rightarrow> False))"

section \<open>Caveats\<close>

fun rejection_str :: "RejectionCode \<Rightarrow> string" where
  "rejection_str PolicyCapabilityMalformedService = ''policy-capability-malformed-service''"
| "rejection_str PolicyCapabilityMalformedSpace = ''policy-capability-malformed-space''"
| "rejection_str PolicyCapabilityMalformedPath = ''policy-capability-malformed-path''"
| "rejection_str PolicyCapabilityMalformedActionShortname = ''policy-capability-malformed-action-shortname''"
| "rejection_str PolicyCapabilityMalformedAction = ''policy-capability-malformed-action''"
| "rejection_str PolicyCapabilityEmptyActions = ''policy-capability-empty-actions''"
| "rejection_str PolicyCapabilityMalformedCaveats = ''policy-capability-malformed-caveats''"
| "rejection_str PolicyCapabilityUnknownKey = ''policy-capability-unknown-key''"
| "rejection_str PolicyCapabilityMalformed = ''policy-capability-malformed''"
| "rejection_str ContainmentServiceMismatch = ''containment-service-mismatch''"
| "rejection_str ContainmentSpaceMismatch = ''containment-space-mismatch''"
| "rejection_str ContainmentPathMismatch = ''containment-path-mismatch''"
| "rejection_str ContainmentActionNotSubset = ''containment-action-not-subset''"
| "rejection_str ContainmentCaveatRequired = ''containment-caveat-required''"
| "rejection_str ContainmentSqlFixedParamDropped = ''containment-sql-fixed-param-dropped''"
| "rejection_str ContainmentSqlFixedParamMismatch = ''containment-sql-fixed-param-mismatch''"
| "rejection_str ContainmentSqlStatementAdded = ''containment-sql-statement-added''"
| "rejection_str SqlNonReadonlyNotPermitted = ''sql-non-readonly-not-permitted''"
| "rejection_str SqlWriteBlocked = ''sql-write-blocked''"

text \<open>The first SQL caveat among the values of the map, direct or under \<open>constrained-statements\<close>.\<close>

fun extract_sql_caveat_values :: "json list \<Rightarrow> SqlConstrainedStatementCaveat option" where
  "extract_sql_caveat_values [] = None"
| "extract_sql_caveat_values (v # vs) =
     (case sql_caveat_parse v of
        Inr c \<Rightarrow> Some c
      | Inl _ \<Rightarrow>
          (case Option.bind (as_object v) (\<lambda>o'. obj_get o' ''constrained-statements'') of
             None \<Rightarrow> extract_sql_caveat_values vs
           | Some inner \<Rightarrow>
               (case sql_caveat_parse inner of
                  Inr c \<Rightarrow> Some c
                | Inl _ \<Rightarrow> extract_sql_caveat_values vs)))"

definition extract_sql_caveat :: "Caveats \<Rightarrow> SqlConstrainedStatementCaveat option" where
  "extract_sql_caveat caveats = extract_sql_caveat_values (map snd caveats)"

definition delegation_caveats_contain_child :: "Caveats \<Rightarrow> Caveats \<Rightarrow> (string, unit) result" where
  "delegation_caveats_contain_child parent child =
     (case (extract_sql_caveat parent, extract_sql_caveat child) of
        (Some p, Some c) \<Rightarrow> map_err rejection_str (sql_contains p c)
      | (Some _, None) \<Rightarrow> Inl ''containment-caveat-required''
      | (None, _) \<Rightarrow>
          (if parent = child then Inr ()
           else if parent = [] then Inr ()
           else Inl ''child-caveats-not-subset-of-parent''))"

definition invocation_caveats_contain_child :: "Caveats \<Rightarrow> Caveats \<Rightarrow> (string, unit) result" where
  "invocation_caveats_contain_child parent child =
     (case (extract_sql_caveat parent, extract_sql_caveat child) of
        (Some p, Some c) \<Rightarrow> map_err rejection_str (sql_contains p c)
      | (Some _, None) \<Rightarrow> Inl ''containment-caveat-required''
      | (None, _) \<Rightarrow>
          (if parent = child \<or> (parent = [] \<and> child = []) \<or> parent = [] then Inr ()
           else Inl ''invocation-caveats-not-subset-of-chain''))"

text \<open>The search for a supporting ability: the first success, or the last reason.\<close>

fun search_caveats :: "('p \<Rightarrow> (string, unit) result) \<Rightarrow> string option \<Rightarrow> 'p list \<Rightarrow> (string option, unit) result" where
  "search_caveats f last_reason [] = Inl last_reason"
| "search_caveats f last_reason (p # ps) =
     (case f p of Inr _ \<Rightarrow> Inr () | Inl reason \<Rightarrow> search_caveats f (Some reason) ps)"

section \<open>Facts\<close>

lemma search_caveats_ok: "search_caveats f l ps = Inr u \<longleftrightarrow> (\<exists>p \<in> set ps. is_ok (f p))"
  by (induction f l ps rule: search_caveats.induct) (auto split: sum.splits)

text \<open>The containment of caveats as one relation; both copies decide it.\<close>

definition caveats_contained :: "Caveats \<Rightarrow> Caveats \<Rightarrow> bool" where
  "caveats_contained child parent \<longleftrightarrow>
     (case extract_sql_caveat parent of
        Some p \<Rightarrow> (\<exists>c. extract_sql_caveat child = Some c \<and> is_ok (sql_contains p c))
      | None \<Rightarrow> parent = child \<or> parent = [])"

lemma is_ok_map_err [simp]: "is_ok (map_err f m) = is_ok m"
  by (cases m) auto

lemma delegation_caveats_ok: "is_ok (delegation_caveats_contain_child p c) \<longleftrightarrow> caveats_contained c p"
  by (auto simp: delegation_caveats_contain_child_def caveats_contained_def split: option.splits)

lemma invocation_caveats_ok: "is_ok (invocation_caveats_contain_child p c) \<longleftrightarrow> caveats_contained c p"
  by (auto simp: invocation_caveats_contain_child_def caveats_contained_def split: option.splits)

lemma extract_sql_caveat_Nil [simp]: "extract_sql_caveat [] = None"
  by (simp add: extract_sql_caveat_def)

lemma caveats_contained_trans:
  "caveats_contained a b \<Longrightarrow> caveats_contained b c \<Longrightarrow> caveats_contained a c"
  by (auto simp: caveats_contained_def split: option.splits dest: sql_contains_trans)

interpretation caveats: containment caveats_contained
  by unfold_locales (rule caveats_contained_trans)

text \<open>A capability with caveats is within another when resource, ability and caveats are.\<close>

definition grant_within ::
  "externals \<Rightarrow> (Resource \<times> Ability) \<times> Caveats \<Rightarrow> (Resource \<times> Ability) \<times> Caveats \<Rightarrow> bool" where
  "grant_within X child parent \<longleftrightarrow>
     cap_within X (fst child) (fst parent) \<and> caveats_contained (snd child) (snd parent)"

interpretation grants: containment_pair "cap_within X" caveats_contained for X
  by unfold_locales (rule cap_within_trans)

lemma grant_within_trans: "grant_within X a b \<Longrightarrow> grant_within X b c \<Longrightarrow> grant_within X a c"
  using grants.both.contained_trans [of X a b c] by (simp add: grant_within_def)

lemma grant_within_chain:
  "successively (grant_within X) (x # xs) \<Longrightarrow> y \<in> set xs \<Longrightarrow> grant_within X x y"
  using grants.both.chain_within [of X x xs y] by (simp add: grant_within_def [abs_def])

lemma grant_within_space: "grant_within X a b \<Longrightarrow> space_of (fst (fst a)) = space_of (fst (fst b))"
  by (auto simp: grant_within_def cap_within_def dest: resource_extends_space)

text \<open>Root authority is inherited by everything within the resource, of a space or a network.\<close>

lemma is_root_authority_extends:
  assumes "resource_extends X a b" and "is_root_authority X b actor"
  shows "is_root_authority X a actor"
proof (cases a; cases b)
  fix r s assume "a = TinyCloud r" "b = TinyCloud s"
  with assms show ?thesis by (auto simp: is_root_authority_def split: if_splits)
next
  fix s t assume ab: "a = Other s" "b = Other t"
  with assms(2) obtain n where "network_id_from_str X t = Inr n"
    and "did_principal_matches X (owner_did n) actor"
    by (auto simp: is_root_authority_def split: sum.splits)
  with assms(1) ab show ?thesis
    by (auto simp: is_root_authority_def split: sum.splits)
qed (use assms in simp_all)

end
