(* ===== verification/Delegation.thy ===== *)
theory Delegation
  imports Authority
begin

text \<open>
  Registering a delegation: \<open>tinycloud-core/src/models/delegation.rs\<close>. \<open>delegation_process\<close> verifies
  the token, validates that every capability is owned by the delegator or supported by a cited
  parent, and saves the delegation with its abilities and its parent links.
\<close>

section \<open>Verification\<close>

datatype DelegationError =
    DInvalidTime
  | DInvalidSignature
  | UnauthorizedDelegator string
  | UnauthorizedCapability Resource Ability
  | DMissingParents
  | ExpiryExceedsParent
  | NotBeforePrecedesParent
  | TerminalParentCannotRedelegate
  | ParentRevoked hash
  | AncestorRevoked hash hash
  | DChainTraversalLimitExceeded
  | DCaveatsNotContained string

datatype delegation_failure = DDb DbErr | InvalidDelegation DelegationError

definition delegation_verify :: "externals \<Rightarrow> time \<Rightarrow> TinyCloudDelegation \<Rightarrow> (delegation_failure, unit) result" where
  "delegation_verify X now d =
     (case d of
        DUcan u \<Rightarrow>
          (if \<not> ucan_signature_ok X (u_raw u) then Inl (InvalidDelegation DInvalidSignature)
           else if \<not> ucan_time_ok X (u_not_before u) (u_expiration u) now
           then Inl (InvalidDelegation DInvalidTime)
           else Inr ())
      | DCacao c \<Rightarrow>
          (if \<not> cacao_signature_ok X (c_raw c) then Inl (InvalidDelegation DInvalidSignature)
           else if \<not> cacao_valid_at c now then Inl (InvalidDelegation DInvalidTime)
           else Inr ()))"

section \<open>Validation\<close>

definition parent_is_terminal :: "delegation_row \<Rightarrow> bool" where
  "parent_is_terminal p =
     (case d_facts p of
        None \<Rightarrow> False
      | Some m \<Rightarrow>
          (case obj_get_as as_str m FACT_KEY of None \<Rightarrow> False | Some s \<Rightarrow> s = ''terminal''))"

definition ensure_parent_active :: "database \<Rightarrow> hash \<Rightarrow> (delegation_failure, unit) result" where
  "ensure_parent_active db parent_id =
     (if is_revoked db parent_id then Inl (InvalidDelegation (ParentRevoked parent_id))
      else
        (case first_revoked_ancestor db parent_id of
           Inl (ChainDb e) \<Rightarrow> Inl (DDb e)
         | Inl LimitExceeded \<Rightarrow> Inl (InvalidDelegation DChainTraversalLimitExceeded)
         | Inr (Some ancestor) \<Rightarrow> Inl (InvalidDelegation (AncestorRevoked ancestor parent_id))
         | Inr None \<Rightarrow> Inr ()))"

definition expiry_valid :: "time option \<Rightarrow> time option \<Rightarrow> bool" where
  "expiry_valid parent child =
     (case (parent, child) of
        (None, _) \<Rightarrow> True
      | (Some _, None) \<Rightarrow> False
      | (Some pe, Some de) \<Rightarrow> de \<le> pe)"

definition not_before_valid :: "time option \<Rightarrow> time option \<Rightarrow> bool" where
  "not_before_valid parent child =
     (case (parent, child) of
        (None, _) \<Rightarrow> True
      | (Some _, None) \<Rightarrow> False
      | (Some pnbf, Some dnbf) \<Rightarrow> dnbf \<ge> pnbf)"

definition abilities_of :: "database \<Rightarrow> hash \<Rightarrow> ability_row list" where
  "abilities_of db h = filter (\<lambda>a. ab_delegation a = h) (abilities db)"

definition authorize_delegated_cap ::
  "externals \<Rightarrow> ability_row list \<Rightarrow> capability \<Rightarrow> (delegation_failure, unit) result" where
  "authorize_delegated_cap X parent_abilities c =
     (let candidates = filter (\<lambda>pc. resource_extends X (cap_resource c) (ab_resource pc) \<and>
                                 ability_matches (ab_ability pc) (cap_ability c)) parent_abilities
      in if candidates = []
         then Inl (InvalidDelegation (UnauthorizedCapability (cap_resource c) (cap_ability c)))
         else
           (case search_caveats (\<lambda>pc. delegation_caveats_contain_child (ab_caveats pc) (cap_caveats c))
                   None candidates of
              Inr _ \<Rightarrow> Inr ()
            | Inl last_reason \<Rightarrow>
                Inl (InvalidDelegation (DCaveatsNotContained
                  (case last_reason of Some r \<Rightarrow> r | None \<Rightarrow> ''child-caveats-not-subset-of-parent'')))))"

definition delegation_validate :: "externals \<Rightarrow> database \<Rightarrow> DelegationInfo \<Rightarrow> (delegation_failure, unit) result" where
  "delegation_validate X db d =
     (let dependant_caps =
            filter (\<lambda>c. \<not> is_root_authority X (cap_resource c) (di_delegator d)) (di_capabilities d)
      in if dependant_caps = [] then Inr ()
         else if di_parents d = [] then Inl (InvalidDelegation DMissingParents)
         else
           (let all_parents =
                  filter (\<lambda>p. d_id p \<in> set (map cid_hash (di_parents d)) \<and> delegatee p = di_delegator d)
                    (delegations db)
            in if all_parents = [] then Inl (InvalidDelegation DMissingParents)
               else
                 rbind (try_all (\<lambda>p. ensure_parent_active db (d_id p)) all_parents) (\<lambda>_.
                 if list_ex parent_is_terminal all_parents
                 then Inl (InvalidDelegation TerminalParentCannotRedelegate)
                 else
                   (let parents =
                          filter (\<lambda>p. expiry_valid (d_expiry p) (di_expiry d) \<and>
                                      not_before_valid (d_not_before p) (di_not_before d)) all_parents
                    in if parents = [] \<and>
                          list_ex (\<lambda>p. \<not> expiry_valid (d_expiry p) (di_expiry d)) all_parents
                       then Inl (InvalidDelegation ExpiryExceedsParent)
                       else if parents = [] \<and>
                          list_ex (\<lambda>p. \<not> not_before_valid (d_not_before p) (di_not_before d)) all_parents
                       then Inl (InvalidDelegation NotBeforePrecedesParent)
                       else
                         try_all
                           (authorize_delegated_cap X (concat (map (\<lambda>p. abilities_of db (d_id p)) parents)))
                           dependant_caps))))"

section \<open>Saving\<close>

definition save_actors :: "string list \<Rightarrow> database \<Rightarrow> database" where
  "save_actors as db = db\<lparr>actors := insert_new_rows id as (actors db)\<rparr>"

definition mode_facts :: "DelegationMode \<Rightarrow> Facts option" where
  "mode_facts m =
     (case m of
        Attenuable \<Rightarrow> None
      | Terminal \<Rightarrow> Some (bm_insert FACT_KEY (JString (mode_as_str Terminal)) []))"

definition parent_fk :: "database \<Rightarrow> parent_row \<Rightarrow> bool" where
  "parent_fk db l \<longleftrightarrow> pd_parent l \<in> d_id ` set (delegations db)"

definition delegation_save ::
  "externals \<Rightarrow> database \<Rightarrow> DelegationInfo \<Rightarrow> string \<Rightarrow> (delegation_failure, hash \<times> database) result" where
  "delegation_save X db d serialization =
     (let db = save_actors [di_delegator d, di_delegate d] db;
          h = hash_bytes X serialization;
          row = \<lparr>d_id = h, delegator = di_delegator d, delegatee = di_delegate d,
                 d_expiry = di_expiry d, d_issued_at = di_issued_at d, d_not_before = di_not_before d,
                 d_facts = mode_facts (di_delegation_mode d),
                 d_serialization = maybe_encrypt X (column_key X) serialization\<rparr>
      in rbind (map_err DDb (insert_or_ignore d_id
                  (\<lambda>r. delegator r \<in> set (actors db) \<and> delegatee r \<in> set (actors db)) row (delegations db))) (\<lambda>ins.
         case ins of
           None \<Rightarrow> Inr (h, db)
         | Some ds \<Rightarrow>
             (let db = db\<lparr>delegations := ds\<rparr>
              in rbind (map_err DDb (insert_rows (\<lambda>a. (ab_resource a, ab_ability a, ab_delegation a))
                         (\<lambda>a. ab_delegation a \<in> d_id ` set (delegations db))
                         (map (\<lambda>c. \<lparr>ab_resource = cap_resource c, ab_ability = cap_ability c,
                                    ab_delegation = h, ab_caveats = cap_caveats c\<rparr>) (di_capabilities d))
                         (abilities db))) (\<lambda>abs.
                 let db = db\<lparr>abilities := abs\<rparr>
                 in rbind (map_err DDb (insert_rows (\<lambda>l. (pd_parent l, pd_child l)) (parent_fk db)
                            (map (\<lambda>p. \<lparr>pd_parent = cid_hash p, pd_child = h\<rparr>) (di_parents d))
                            (parent_delegations db))) (\<lambda>links.
                    Inr (h, db\<lparr>parent_delegations := links\<rparr>))))))"

definition delegation_process ::
  "externals \<Rightarrow> time \<Rightarrow> database \<Rightarrow> DelegationInfo \<times> string \<Rightarrow> (delegation_failure, hash \<times> database) result" where
  "delegation_process X now db delegation =
     rbind (delegation_verify X now (di_delegation (fst delegation))) (\<lambda>_.
     rbind (delegation_validate X db (fst delegation)) (\<lambda>_.
     delegation_save X db (fst delegation) (snd delegation)))"

section \<open>What validation establishes\<close>

lemma ensure_parent_active_ok:
  "is_ok (ensure_parent_active db h) \<longleftrightarrow> \<not> is_revoked db h \<and> first_revoked_ancestor db h = Inr None"
  by (auto simp: ensure_parent_active_def split: sum.splits option.splits ChainTraversalError.splits)

text \<open>A cited parent that supports a capability.\<close>

definition supports ::
  "externals \<Rightarrow> database \<Rightarrow> DelegationInfo \<Rightarrow> capability \<Rightarrow> delegation_row \<Rightarrow> ability_row \<Rightarrow> bool" where
  "supports X db d c p pc \<longleftrightarrow>
     p \<in> set (delegations db) \<and> d_id p \<in> cid_hash ` set (di_parents d) \<and>
     delegatee p = di_delegator d \<and> \<not> parent_is_terminal p \<and>
     expiry_valid (d_expiry p) (di_expiry d) \<and> not_before_valid (d_not_before p) (di_not_before d) \<and>
     pc \<in> set (abilities db) \<and> ab_delegation pc = d_id p \<and>
     grant_within X ((cap_resource c, cap_ability c), cap_caveats c)
       ((ab_resource pc, ab_ability pc), ab_caveats pc)"

lemma authorize_delegated_cap_ok:
  "is_ok (authorize_delegated_cap X pabs c) \<longleftrightarrow>
     (\<exists>pc \<in> set pabs. grant_within X ((cap_resource c, cap_ability c), cap_caveats c)
        ((ab_resource pc, ab_ability pc), ab_caveats pc))"
proof -
  let ?cand = "filter (\<lambda>pc. resource_extends X (cap_resource c) (ab_resource pc) \<and>
    ability_matches (ab_ability pc) (cap_ability c)) pabs"
  let ?search = "search_caveats (\<lambda>pc. delegation_caveats_contain_child (ab_caveats pc) (cap_caveats c)) None ?cand"
  have "is_ok (authorize_delegated_cap X pabs c) \<longleftrightarrow> ?search = Inr ()"
    by (auto simp: authorize_delegated_cap_def Let_def split: sum.splits)
  also have "\<dots> \<longleftrightarrow> (\<exists>pc \<in> set ?cand. caveats_contained (cap_caveats c) (ab_caveats pc))"
    by (simp only: search_caveats_ok delegation_caveats_ok)
  finally show ?thesis
    by (auto simp: grant_within_def cap_within_def)
qed

lemma delegation_validate_ok:
  assumes "delegation_validate X db d = Inr u" and "c \<in> set (di_capabilities d)"
    and "\<not> is_root_authority X (cap_resource c) (di_delegator d)"
  shows "\<exists>p pc. supports X db d c p pc \<and> \<not> is_revoked db (d_id p) \<and>
    first_revoked_ancestor db (d_id p) = Inr None"
proof -
  let ?deps = "filter (\<lambda>c. \<not> is_root_authority X (cap_resource c) (di_delegator d)) (di_capabilities d)"
  let ?all = "filter (\<lambda>p. d_id p \<in> set (map cid_hash (di_parents d)) \<and> delegatee p = di_delegator d) (delegations db)"
  let ?parents = "filter (\<lambda>p. expiry_valid (d_expiry p) (di_expiry d) \<and>
      not_before_valid (d_not_before p) (di_not_before d)) ?all"
  have deps: "c \<in> set ?deps" using assms by simp
  then have "?deps \<noteq> []" by force
  with assms(1) have active: "try_all (\<lambda>p. ensure_parent_active db (d_id p)) ?all = Inr ()"
    and terminal: "\<not> list_ex parent_is_terminal ?all"
    and auth: "try_all (authorize_delegated_cap X (concat (map (\<lambda>p. abilities_of db (d_id p)) ?parents))) ?deps = Inr ()"
    unfolding delegation_validate_def Let_def by (simp_all split: if_splits)
  from auth deps obtain pc where pc: "pc \<in> set (concat (map (\<lambda>p. abilities_of db (d_id p)) ?parents))"
    and within: "grant_within X ((cap_resource c, cap_ability c), cap_caveats c)
        ((ab_resource pc, ab_ability pc), ab_caveats pc)"
    unfolding try_all_ok authorize_delegated_cap_ok by blast
  from pc obtain p where p: "p \<in> set ?parents" and "pc \<in> set (abilities_of db (d_id p))" by auto
  then have "p \<in> set ?all" by simp
  with active have "\<not> is_revoked db (d_id p)" "first_revoked_ancestor db (d_id p) = Inr None"
    unfolding try_all_ok ensure_parent_active_ok by blast+
  moreover have "supports X db d c p pc"
    using p \<open>pc \<in> set (abilities_of db (d_id p))\<close> within terminal
    by (auto simp: supports_def abilities_of_def list_ex_iff)
  ultimately show ?thesis by blast
qed


section \<open>What saving changes\<close>

text \<open>The row, the abilities and the links of a delegation.\<close>

definition new_delegation_row :: "externals \<Rightarrow> DelegationInfo \<Rightarrow> string \<Rightarrow> delegation_row" where
  "new_delegation_row X d ser =
     \<lparr>d_id = hash_bytes X ser, delegator = di_delegator d, delegatee = di_delegate d,
      d_expiry = di_expiry d, d_issued_at = di_issued_at d, d_not_before = di_not_before d,
      d_facts = mode_facts (di_delegation_mode d),
      d_serialization = maybe_encrypt X (column_key X) ser\<rparr>"

definition new_abilities :: "hash \<Rightarrow> capability list \<Rightarrow> ability_row list" where
  "new_abilities h caps =
     map (\<lambda>c. \<lparr>ab_resource = cap_resource c, ab_ability = cap_ability c,
               ab_delegation = h, ab_caveats = cap_caveats c\<rparr>) caps"

definition new_links :: "hash \<Rightarrow> cid list \<Rightarrow> parent_row list" where
  "new_links h ps = map (\<lambda>p. \<lparr>pd_parent = cid_hash p, pd_child = h\<rparr>) ps"

lemma save_actors_tables [simp]:
  "delegations (save_actors as db) = delegations db"
  "abilities (save_actors as db) = abilities db"
  "parent_delegations (save_actors as db) = parent_delegations db"
  "revocations (save_actors as db) = revocations db"
  "set (actors (save_actors as db)) = set (actors db) \<union> set as"
  by (simp_all add: save_actors_def insert_new_rows_id)

lemma delegation_save_cases:
  assumes "delegation_save X db d ser = Inr (h, db')"
  obtains (known) "h = hash_bytes X ser" "h \<in> d_id ` set (delegations db)"
      "db' = save_actors [di_delegator d, di_delegate d] db"
    | (fresh) "h = hash_bytes X ser" "h \<notin> d_id ` set (delegations db)"
      "db' = (save_actors [di_delegator d, di_delegate d] db)
         \<lparr>delegations := delegations db @ [new_delegation_row X d ser],
          abilities := abilities db @ new_abilities h (di_capabilities d),
          parent_delegations := parent_delegations db @ new_links h (di_parents d)\<rparr>"
      "\<forall>p \<in> set (di_parents d). cid_hash p \<in> insert h (d_id ` set (delegations db))"
proof (cases "hash_bytes X ser \<in> d_id ` set (delegations db)")
  case True
  with assms known show ?thesis
    by (auto simp: delegation_save_def Let_def insert_or_ignore_def)
next
  case False
  let ?db1 = "(save_actors [di_delegator d, di_delegate d] db)
    \<lparr>delegations := delegations db @ [new_delegation_row X d ser]\<rparr>"
  let ?h = "hash_bytes X ser"
  from assms False obtain abs links where
    abs: "insert_rows (\<lambda>a. (ab_resource a, ab_ability a, ab_delegation a))
       (\<lambda>a. ab_delegation a \<in> d_id ` set (delegations ?db1)) (new_abilities ?h (di_capabilities d)) (abilities db) = Inr abs"
    and links: "insert_rows (\<lambda>l. (pd_parent l, pd_child l)) (parent_fk (?db1\<lparr>abilities := abs\<rparr>))
       (new_links ?h (di_parents d)) (parent_delegations db) = Inr links"
    and h: "h = ?h" and db': "db' = ?db1\<lparr>abilities := abs, parent_delegations := links\<rparr>"
    by (auto simp: delegation_save_def Let_def insert_or_ignore_def new_delegation_row_def
        new_abilities_def new_links_def split: if_splits)
  have "cid_hash p \<in> insert h (d_id ` set (delegations db))" if "p \<in> set (di_parents d)" for p
    using insert_rows_fk [OF links, of "\<lparr>pd_parent = cid_hash p, pd_child = ?h\<rparr>"] that h
    by (auto simp: parent_fk_def new_links_def new_delegation_row_def)
  with fresh False h db' insert_rows_appends [OF abs] insert_rows_appends [OF links]
  show ?thesis by simp
qed

section \<open>Grounded abilities\<close>

text \<open>
  An ability of a delegation is grounded when the delegator is the root authority of its resource, or
  when a parent the delegation cites grants an ability that contains it, the parent was given to
  the delegator, may be redelegated, is valid for at least as long, and its ability is grounded.
\<close>

inductive grounded :: "externals \<Rightarrow> database \<Rightarrow> hash \<Rightarrow> Resource \<Rightarrow> Ability \<Rightarrow> Caveats \<Rightarrow> bool" for X db where
  root: "d \<in> set (delegations db) \<Longrightarrow> is_root_authority X r (delegator d) \<Longrightarrow> grounded X db (d_id d) r a cv"
| derived: "d \<in> set (delegations db) \<Longrightarrow> p \<in> set (delegations db) \<Longrightarrow>
     (d_id d, d_id p) \<in> parent_rel db \<Longrightarrow> delegatee p = delegator d \<Longrightarrow> \<not> parent_is_terminal p \<Longrightarrow>
     expiry_valid (d_expiry p) (d_expiry d) \<Longrightarrow> not_before_valid (d_not_before p) (d_not_before d) \<Longrightarrow>
     pc \<in> set (abilities db) \<Longrightarrow> ab_delegation pc = d_id p \<Longrightarrow>
     grant_within X ((r, a), cv) ((ab_resource pc, ab_ability pc), ab_caveats pc) \<Longrightarrow>
     grounded X db (d_id p) (ab_resource pc) (ab_ability pc) (ab_caveats pc) \<Longrightarrow>
     grounded X db (d_id d) r a cv"

definition abilities_grounded :: "externals \<Rightarrow> database \<Rightarrow> bool" where
  "abilities_grounded X db \<longleftrightarrow>
     (\<forall>a \<in> set (abilities db). grounded X db (ab_delegation a) (ab_resource a) (ab_ability a) (ab_caveats a))"

text \<open>The tables that carry authority only grow.\<close>

definition authority_grows :: "database \<Rightarrow> database \<Rightarrow> bool" where
  "authority_grows db db' \<longleftrightarrow>
     set (delegations db) \<subseteq> set (delegations db') \<and>
     set (abilities db) \<subseteq> set (abilities db') \<and>
     set (parent_delegations db) \<subseteq> set (parent_delegations db') \<and>
     set (revocations db) \<subseteq> set (revocations db')"

lemma authority_grows_refl [simp]: "authority_grows db db"
  by (simp add: authority_grows_def)

lemma authority_grows_trans: "authority_grows a b \<Longrightarrow> authority_grows b c \<Longrightarrow> authority_grows a c"
  by (auto simp: authority_grows_def)

lemma parent_rel_mono: "authority_grows db db' \<Longrightarrow> parent_rel db \<subseteq> parent_rel db'"
  by (auto simp: authority_grows_def parent_rel_def)

lemma is_revoked_mono: "authority_grows db db' \<Longrightarrow> is_revoked db h \<Longrightarrow> is_revoked db' h"
  by (auto simp: authority_grows_def is_revoked_iff)

lemma grounded_mono:
  assumes "authority_grows db db'" and "grounded X db h r a cv"
  shows "grounded X db' h r a cv"
  using assms(2)
proof (induction rule: grounded.induct)
  case (root d r a cv)
  with assms(1) show ?case by (auto simp: authority_grows_def intro: grounded.root)
next
  case (derived d p pc r a cv)
  with assms(1) parent_rel_mono [OF assms(1)] show ?case
    by (intro grounded.derived [of d db' p pc]) (auto simp: authority_grows_def)
qed

lemma delegation_save_grows: "delegation_save X db d ser = Inr (h, db') \<Longrightarrow> authority_grows db db'"
  by (erule delegation_save_cases) (auto simp: authority_grows_def)

lemma delegation_process_ok:
  "delegation_process X now db (d, ser) = Inr (h, db') \<longleftrightarrow>
     delegation_verify X now (di_delegation d) = Inr () \<and> delegation_validate X db d = Inr () \<and>
     delegation_save X db d ser = Inr (h, db')"
  by (auto simp: delegation_process_def)

lemma delegation_process_grows: "delegation_process X now db (d, ser) = Inr (h, db') \<Longrightarrow> authority_grows db db'"
  by (auto simp: delegation_process_ok intro: delegation_save_grows)

lemma delegation_process_grounded:
  assumes "delegation_process X now db (d, ser) = Inr (h, db')" and "abilities_grounded X db"
  shows "abilities_grounded X db'"
proof -
  note grows = delegation_process_grows [OF assms(1)]
  have valid: "delegation_validate X db d = Inr ()" and save: "delegation_save X db d ser = Inr (h, db')"
    using assms(1) by (simp_all add: delegation_process_ok)
  from save show ?thesis
  proof (cases rule: delegation_save_cases)
    case known
    then show ?thesis
      using assms(2) grounded_mono [OF grows] by (auto simp: abilities_grounded_def)
  next
    case fresh
    let ?row = "new_delegation_row X d ser"
    have row: "?row \<in> set (delegations db')" "d_id ?row = h" "delegator ?row = di_delegator d"
      "d_expiry ?row = di_expiry d" "d_not_before ?row = di_not_before d"
      using fresh by (simp_all add: new_delegation_row_def)
    have new: "grounded X db' h (cap_resource c) (cap_ability c) (cap_caveats c)"
      if c: "c \<in> set (di_capabilities d)" for c
    proof (cases "is_root_authority X (cap_resource c) (di_delegator d)")
      case True
      with row show ?thesis using grounded.root [of ?row db' X] by metis
    next
      case False
      from delegation_validate_ok [OF valid c False] obtain p pc where sup: "supports X db d c p pc"
        by blast
      have "(d_id ?row, d_id p) \<in> parent_rel db'"
        using sup fresh row by (force simp: supports_def parent_rel_def new_links_def)
      moreover have "grounded X db' (d_id p) (ab_resource pc) (ab_ability pc) (ab_caveats pc)"
        using sup assms(2) grounded_mono [OF grows]
        by (auto simp: supports_def abilities_grounded_def)
      ultimately have "grounded X db' (d_id ?row) (cap_resource c) (cap_ability c) (cap_caveats c)"
        using sup row grows
        by (intro grounded.derived [of ?row db' p pc]) (auto simp: supports_def authority_grows_def)
      with row show ?thesis by simp
    qed
    show ?thesis
      unfolding abilities_grounded_def
    proof
      fix a assume "a \<in> set (abilities db')"
      with fresh consider "a \<in> set (abilities db)" | "a \<in> set (new_abilities h (di_capabilities d))" by auto
      then show "grounded X db' (ab_delegation a) (ab_resource a) (ab_ability a) (ab_caveats a)"
      proof cases
        case 1
        with assms(2) grounded_mono [OF grows] show ?thesis by (auto simp: abilities_grounded_def)
      next
        case 2
        with new show ?thesis by (auto simp: new_abilities_def)
      qed
    qed
  qed
qed

lemma expiry_valid_trans: "expiry_valid a b \<Longrightarrow> expiry_valid b c \<Longrightarrow> expiry_valid a c"
  by (auto simp: expiry_valid_def split: option.splits)

lemma not_before_valid_trans: "not_before_valid a b \<Longrightarrow> not_before_valid b c \<Longrightarrow> not_before_valid a c"
  by (auto simp: not_before_valid_def split: option.splits)

lemma expiry_valid_refl [simp]: "expiry_valid a a"
  by (auto simp: expiry_valid_def split: option.splits)

lemma not_before_valid_refl [simp]: "not_before_valid a a"
  by (auto simp: not_before_valid_def split: option.splits)

text \<open>A grounded ability leads, through the proof graph, to a delegation by the owner of its resource.\<close>

lemma grounded_owner:
  assumes "grounded X db h r a cv"
  shows "\<exists>root \<in> set (delegations db). (h, d_id root) \<in> (parent_rel db)\<^sup>* \<and> is_root_authority X r (delegator root)"
  using assms
proof (induction rule: grounded.induct)
  case (root d r a cv)
  then show ?case by blast
next
  case (derived d p pc r a cv)
  then obtain rt where "rt \<in> set (delegations db)" "(d_id p, d_id rt) \<in> (parent_rel db)\<^sup>*"
    "is_root_authority X (ab_resource pc) (delegator rt)" by blast
  moreover have "resource_extends X r (ab_resource pc)"
    using derived by (simp add: grant_within_def cap_within_def)
  ultimately show ?case
    using derived is_root_authority_extends by (meson converse_rtrancl_into_rtrancl)
qed

end
