(* ===== verification/Kv_Store.thy ===== *)
theory Kv_Store
  imports Space_Db
begin

text \<open>
  Reading the key-value tables: \<open>get_kv_entity\<close>, \<open>metadata_with_hash\<close>, \<open>get_kv\<close> and \<open>list_bounded\<close> of
  \<open>tinycloud-core/src/db.rs\<close>. A key has a write row per version; versions are ordered by sequence
  number, epoch and position in the epoch, and a delete row marks the write it deletes.
\<close>

section \<open>Versions\<close>

text \<open>
  The order of \<open>ORDER BY seq DESC, epoch DESC, epoch_seq DESC\<close>. Epoch identifiers are BLAKE3
  hashes, so the order of their stored bytes is the order of their digests.
\<close>

type_synonym version = "int \<times> string \<times> int"

definition kv_version :: "kv_write_row \<Rightarrow> version" where
  "kv_version w = (kw_seq w, digest (kw_epoch w), kw_epoch_seq w)"

definition kv_rows :: "database \<Rightarrow> SpaceId \<Rightarrow> Path \<Rightarrow> kv_write_row list" where
  "kv_rows db s k = filter (\<lambda>w. kw_key w = k \<and> kw_space w = s) (kv_writes db)"

definition latest_write :: "database \<Rightarrow> SpaceId \<Rightarrow> Path \<Rightarrow> kv_write_row option" where
  "latest_write db s k =
     (case rev (sort_key kv_version (kv_rows db s k)) of [] \<Rightarrow> None | w # _ \<Rightarrow> Some w)"

definition write_deleted :: "database \<Rightarrow> kv_write_row \<Rightarrow> bool" where
  "write_deleted db w \<longleftrightarrow>
     list_ex (\<lambda>d. kd_space d = kw_space w \<and> kd_key d = kw_key w \<and> kd_deleted d = kw_invocation w)
       (kv_deletes db)"

section \<open>Reading\<close>

definition get_kv_entity :: "database \<Rightarrow> SpaceId \<Rightarrow> Path \<Rightarrow> kv_write_row option" where
  "get_kv_entity db s k =
     (case latest_write db s k of
        None \<Rightarrow> None
      | Some w \<Rightarrow> (if write_deleted db w then None else Some w))"

definition metadata_with_hash :: "database \<Rightarrow> SpaceId \<Rightarrow> Path \<Rightarrow> (Metadata \<times> hash) option" where
  "metadata_with_hash db s k =
     (case get_kv_entity db s k of Some e \<Rightarrow> Some (kw_metadata e, kw_value e) | None \<Rightarrow> None)"

definition kv_metadata :: "database \<Rightarrow> SpaceId \<Rightarrow> Path \<Rightarrow> Metadata option" where
  "kv_metadata db s k = map_option fst (metadata_with_hash db s k)"

text \<open>\<open>store\<close> is the block store's \<open>read\<close>: the content of a space under a hash.\<close>

definition get_kv :: "database \<Rightarrow> (SpaceId \<Rightarrow> hash \<Rightarrow> string option) \<Rightarrow> SpaceId \<Rightarrow> Path \<Rightarrow>
    (Metadata \<times> hash \<times> string) option" where
  "get_kv db store s k =
     (case get_kv_entity db s k of
        None \<Rightarrow> None
      | Some e \<Rightarrow>
          (case store s (kw_value e) of
             None \<Rightarrow> None
           | Some c \<Rightarrow> Some (kw_metadata e, kw_value e, c)))"

definition newer_write :: "database \<Rightarrow> kv_write_row \<Rightarrow> bool" where
  "newer_write db w \<longleftrightarrow>
     list_ex (\<lambda>n. kw_space n = kw_space w \<and> kw_key n = kw_key w \<and>
       (kw_seq n > kw_seq w \<or>
        kw_seq n = kw_seq w \<and> digest (kw_epoch n) > digest (kw_epoch w) \<or>
        kw_seq n = kw_seq w \<and> kw_epoch n = kw_epoch w \<and> kw_epoch_seq n > kw_epoch_seq w))
       (kv_writes db)"

definition like_prefix :: "externals \<Rightarrow> Path \<Rightarrow> Path \<Rightarrow> bool" where
  "like_prefix X key pre = prefix (map (like_fold X) pre) (map (like_fold X) key)"

text \<open>
  \<open>ORDER BY key\<close> is taken as the order of the bytes, which is SQLite's; PostgreSQL orders by the collation
  of the database, which changes the order of a listing and where a limit cuts it.
\<close>

definition list_rows :: "externals \<Rightarrow> database \<Rightarrow> SpaceId \<Rightarrow> Path \<Rightarrow> Path list" where
  "list_rows X db s pre =
     sort (map kw_key (filter (\<lambda>w. like_prefix X (kw_key w) pre \<and> kw_space w = s \<and>
       \<not> write_deleted db w \<and> \<not> newer_write db w) (kv_writes db)))"

definition list_bounded :: "externals \<Rightarrow> database \<Rightarrow> SpaceId \<Rightarrow> Path \<Rightarrow> nat option \<Rightarrow> Path list \<times> bool" where
  "list_bounded X db s pre limit =
     (let rows = (case limit of
                    None \<Rightarrow> list_rows X db s pre
                  | Some n \<Rightarrow> take (n + 1) (list_rows X db s pre));
          truncated = (case limit of None \<Rightarrow> False | Some n \<Rightarrow> length rows > n)
      in (case limit of None \<Rightarrow> (rows, truncated) | Some n \<Rightarrow> (take n rows, truncated)))"

datatype KvPrecondition = DoesNotExist | Matches string

definition kv_precondition_matches :: "KvPrecondition \<Rightarrow> hash option \<Rightarrow> bool" where
  "kv_precondition_matches pre current =
     (case (pre, current) of
        (DoesNotExist, None) \<Rightarrow> True
      | (Matches expected, Some actual) \<Rightarrow> digest actual = expected
      | _ \<Rightarrow> False)"

section \<open>Latest writes\<close>

lemma set_kv_rows: "w \<in> set (kv_rows db s k) \<longleftrightarrow> w \<in> set (kv_writes db) \<and> kw_key w = k \<and> kw_space w = s"
  by (auto simp: kv_rows_def)

lemma latest_write_None: "latest_write db s k = None \<longleftrightarrow> kv_rows db s k = []"
proof -
  have "sort_key kv_version (kv_rows db s k) = [] \<longleftrightarrow> kv_rows db s k = []"
    by (metis set_empty set_sort)
  then show ?thesis by (auto simp: latest_write_def split: list.splits)
qed

lemma latest_write_Some:
  assumes "latest_write db s k = Some w"
  shows "w \<in> set (kv_writes db)" "kw_key w = k" "kw_space w = s"
    "\<And>v. v \<in> set (kv_rows db s k) \<Longrightarrow> kv_version v \<le> kv_version w"
proof -
  let ?xs = "sort_key kv_version (kv_rows db s k)"
  from assms obtain ys where "rev ?xs = w # ys"
    by (auto simp: latest_write_def split: list.splits)
  then have xs: "?xs = rev ys @ [w]" by (metis rev_eq_Cons_iff)
  then have "w \<in> set ?xs" by simp
  then show "w \<in> set (kv_writes db)" "kw_key w = k" "kw_space w = s"
    by (simp_all add: set_kv_rows)
  fix v assume "v \<in> set (kv_rows db s k)"
  then have "v \<in> set (rev ys @ [w])" using xs by (metis set_sort)
  moreover have "sorted (map kv_version (rev ys @ [w]))" using xs by (metis sorted_sort_key)
  ultimately show "kv_version v \<le> kv_version w"
    by (auto simp: sorted_append)
qed

text \<open>The versions of one key are all different: what makes "the latest write" well defined.\<close>

definition versions_unique :: "database \<Rightarrow> bool" where
  "versions_unique db \<longleftrightarrow>
     (\<forall>v \<in> set (kv_writes db). \<forall>w \<in> set (kv_writes db).
        kw_space v = kw_space w \<and> kw_key v = kw_key w \<and> kv_version v = kv_version w \<longrightarrow> v = w)"

lemma latest_write_eq:
  assumes "versions_unique db" and "w \<in> set (kv_rows db s k)"
    and "\<And>v. v \<in> set (kv_rows db s k) \<Longrightarrow> kv_version v \<le> kv_version w"
  shows "latest_write db s k = Some w"
proof -
  obtain v where v: "latest_write db s k = Some v"
    using assms(2) latest_write_None [of db s k] by (cases "latest_write db s k") auto
  note props = latest_write_Some [OF v]
  have "v \<in> set (kv_rows db s k)" using props by (simp add: set_kv_rows)
  with assms(3) props(4) [OF assms(2)] have "kv_version v = kv_version w" by (simp add: order.antisym)
  with assms(1,2) props have "v = w" by (auto simp: versions_unique_def set_kv_rows)
  with v show ?thesis by simp
qed


section \<open>Listing agrees with reading\<close>

definition blake3_epochs :: "database \<Rightarrow> bool" where
  "blake3_epochs db \<longleftrightarrow> (\<forall>w \<in> set (kv_writes db). multihash_code (kw_epoch w) = 30)"

lemma newer_write_iff:
  assumes "blake3_epochs db" and "w \<in> set (kv_writes db)"
  shows "newer_write db w \<longleftrightarrow>
    (\<exists>n \<in> set (kv_rows db (kw_space w) (kw_key w)). kv_version n > kv_version w)"
proof -
  have "kw_epoch n = kw_epoch w \<longleftrightarrow> digest (kw_epoch n) = digest (kw_epoch w)" if "n \<in> set (kv_writes db)" for n
    using assms that by (auto simp: blake3_epochs_def intro: hash.expand)
  then have "(kw_seq n > kw_seq w \<or> kw_seq n = kw_seq w \<and> digest (kw_epoch n) > digest (kw_epoch w) \<or>
      kw_seq n = kw_seq w \<and> kw_epoch n = kw_epoch w \<and> kw_epoch_seq n > kw_epoch_seq w) \<longleftrightarrow>
      kv_version n > kv_version w" if "n \<in> set (kv_writes db)" for n
    using that unfolding kv_version_def less_prod_simp by (metis order.order_iff_strict)
  then show ?thesis
    unfolding newer_write_def list_ex_iff by (auto simp: set_kv_rows)
qed

lemma live_write_iff:
  assumes "versions_unique db" and "blake3_epochs db" and "w \<in> set (kv_writes db)"
  shows "\<not> write_deleted db w \<and> \<not> newer_write db w \<longleftrightarrow> get_kv_entity db (kw_space w) (kw_key w) = Some w"
proof -
  let ?s = "kw_space w" and ?k = "kw_key w"
  have in_rows: "w \<in> set (kv_rows db ?s ?k)" using assms(3) by (simp add: set_kv_rows)
  have "\<not> newer_write db w \<longleftrightarrow> latest_write db ?s ?k = Some w"
  proof
    assume "\<not> newer_write db w"
    then have "kv_version v \<le> kv_version w" if "v \<in> set (kv_rows db ?s ?k)" for v
      using that newer_write_iff [OF assms(2,3)] by (auto simp: not_less)
    with assms(1) in_rows show "latest_write db ?s ?k = Some w" by (rule latest_write_eq)
  next
    assume "latest_write db ?s ?k = Some w"
    from latest_write_Some(4) [OF this] show "\<not> newer_write db w"
      using newer_write_iff [OF assms(2,3)] by (auto simp: not_less)
  qed
  then show ?thesis
    by (auto simp: get_kv_entity_def split: option.splits if_splits)
qed

lemma get_kv_entity_row:
  "get_kv_entity db s k = Some w \<Longrightarrow> w \<in> set (kv_writes db) \<and> kw_space w = s \<and> kw_key w = k"
  using latest_write_Some by (fastforce simp: get_kv_entity_def split: option.splits if_splits)

lemma list_rows_iff:
  assumes "versions_unique db" and "blake3_epochs db"
  shows "k \<in> set (list_rows X db s pre) \<longleftrightarrow> like_prefix X k pre \<and> get_kv_entity db s k \<noteq> None"
proof
  assume "k \<in> set (list_rows X db s pre)"
  then obtain w where "w \<in> set (kv_writes db)" "kw_key w = k" "kw_space w = s"
    "like_prefix X k pre" "\<not> write_deleted db w" "\<not> newer_write db w"
    by (auto simp: list_rows_def)
  with live_write_iff [OF assms, of w] show "like_prefix X k pre \<and> get_kv_entity db s k \<noteq> None"
    by auto
next
  assume "like_prefix X k pre \<and> get_kv_entity db s k \<noteq> None"
  then obtain w where like: "like_prefix X k pre" and w: "get_kv_entity db s k = Some w" by auto
  note row = get_kv_entity_row [OF w]
  with live_write_iff [OF assms, of w] w like show "k \<in> set (list_rows X db s pre)"
    by (auto simp: list_rows_def)
qed

end
