(* ===== verification/Write_Hooks.thy ===== *)
theory Write_Hooks
  imports Space_Db
begin

text \<open>
  Which subscriptions a write notifies: \<open>tinycloud-core/src/write_hooks.rs\<close>, and
  \<open>enqueue_kv_webhook_deliveries\<close> of \<open>models/invocation.rs\<close>, which queues one delivery per write and
  matching subscription.
\<close>

section \<open>Matching\<close>

definition normalize_prefix :: "string \<Rightarrow> string option" where
  "normalize_prefix pre =
     (let trimmed = trim_matches_char (CHR ''/'') pre in if trimmed = [] then None else Some trimmed)"

definition matches_prefix :: "string option \<Rightarrow> string \<Rightarrow> bool" where
  "matches_prefix pre path =
     (case Option.bind pre normalize_prefix of
        None \<Rightarrow> True
      | Some p \<Rightarrow> path = p \<or> starts_with path (p @ ''/''))"

definition subscription_abilities :: "externals \<Rightarrow> hook_subscription_row \<Rightarrow> string list option" where
  "subscription_abilities X s =
     (case hs_abilities_json s of Some j \<Rightarrow> json_string_list X j | None \<Rightarrow> Some [])"

definition subscription_matches_event :: "externals \<Rightarrow> hook_subscription_row \<Rightarrow> string \<Rightarrow> string \<Rightarrow> bool" where
  "subscription_matches_event X s path ability =
     (if \<not> matches_prefix (hs_path_prefix s) path then False
      else (case subscription_abilities X s of
              Some as \<Rightarrow> as = [] \<or> ability \<in> set as
            | None \<Rightarrow> False))"

definition hook_delivery_id :: "externals \<Rightarrow> string \<Rightarrow> string \<Rightarrow> string" where
  "hook_delivery_id X subscription_id event_id =
     cid_display X (to_cid (hash_bytes X (subscription_id @ '':'' @ event_id)) 85)"

section \<open>Queueing\<close>

definition HOOK_DELIVERY_STATUS_PENDING :: string where
  "HOOK_DELIVERY_STATUS_PENDING = ''pending''"

fun vop_ability :: "VersionedOperation \<Rightarrow> Ability" where
  "vop_ability (VKvWrite _ _ _ _ _ _ _) = ''tinycloud.kv/put''"
| "vop_ability (VKvDelete _ _ _ _ _ _) = ''tinycloud.kv/del''"

definition active_subscriptions :: "database \<Rightarrow> string \<Rightarrow> hook_subscription_row list" where
  "active_subscriptions db space_id =
     filter (\<lambda>s. hs_active s \<and> hs_space_id s = space_id \<and> hs_target_service s = ''kv'')
       (hook_subscriptions db)"

definition delivery_for ::
  "externals \<Rightarrow> string \<Rightarrow> time \<Rightarrow> VersionedOperation \<Rightarrow> nat \<Rightarrow> hook_subscription_row \<Rightarrow> hook_delivery_row" where
  "delivery_for X actor issued_at op index s =
     (let epoch_cid = cid_display X (to_cid (vop_epoch op) 85);
          event_id = epoch_cid @ '':'' @ show_nat index;
          sp = space_display (vop_space op)
      in \<lparr>hd_id = hook_delivery_id X (hs_id s) event_id,
          hd_subscription_id = hs_id s,
          hd_event_id = event_id,
          hd_payload = \<lparr>pl_event_type = ''write'', pl_id = event_id, pl_space = sp, pl_service = ''kv'',
             pl_ability = vop_ability op, pl_path = Some (vop_key op), pl_actor = actor,
             pl_epoch = epoch_cid, pl_event_index = index, pl_timestamp = issued_at\<rparr>,
          hd_status = HOOK_DELIVERY_STATUS_PENDING,
          hd_attempts = 0,
          hd_next_attempt_at = None,
          hd_last_error = None,
          hd_created_at = issued_at,
          hd_delivered_at = None\<rparr>)"

text \<open>
  One iteration of the loop. The subscriptions of a space are read once and cached in the code;
  the table does not change during the loop, so the model reads it each time. The index counts
  the operations per space.
\<close>

definition enqueue_one ::
  "externals \<Rightarrow> string \<Rightarrow> time \<Rightarrow> database \<times> (string \<Rightarrow> nat) \<Rightarrow> VersionedOperation \<Rightarrow>
   (DbErr, database \<times> (string \<Rightarrow> nat)) result" where
  "enqueue_one X actor issued_at st op =
     (let (db, idx) = st;
          space_id = space_display (vop_space op);
          subscriptions = active_subscriptions db space_id;
          idx' = idx(space_id := idx space_id + 1)
      in if subscriptions = [] then Inr (db, idx')
         else
           (let pending = map (delivery_for X actor issued_at op (idx space_id))
                  (filter (\<lambda>s. subscription_matches_event X s (vop_key op) (vop_ability op)) subscriptions);
                table = insert_new_rows hd_id pending (hook_deliveries db)
            in if pending = [] then Inr (db, idx')
               else if length table = length (hook_deliveries db) then Inl RecordNotInserted
               else Inr (db\<lparr>hook_deliveries := table\<rparr>, idx')))"

definition enqueue_kv_webhook_deliveries ::
  "externals \<Rightarrow> database \<Rightarrow> string \<Rightarrow> time \<Rightarrow> VersionedOperation list \<Rightarrow> (DbErr, database) result" where
  "enqueue_kv_webhook_deliveries X db actor issued_at parameters =
     rbind (try_fold (enqueue_one X actor issued_at) (db, \<lambda>_. 0) parameters) (\<lambda>st. Inr (fst st))"

section \<open>Facts\<close>

text \<open>Queueing touches no other table and adds deliveries that nobody has tried yet.\<close>

definition queued_delivery :: "hook_delivery_row \<Rightarrow> bool" where
  "queued_delivery d \<longleftrightarrow>
     hd_status d = HOOK_DELIVERY_STATUS_PENDING \<and> hd_attempts d = 0 \<and> hd_next_attempt_at d = None"

definition same_but_deliveries :: "database \<Rightarrow> database \<Rightarrow> bool" where
  "same_but_deliveries db db' \<longleftrightarrow>
     (\<exists>rs. list_all queued_delivery rs \<and>
        db' = db\<lparr>hook_deliveries := insert_new_rows hd_id rs (hook_deliveries db)\<rparr>)"

lemma insert_new_rows_append: "insert_new_rows key (rs @ rs') t = insert_new_rows key rs' (insert_new_rows key rs t)"
  by (induction key rs t rule: insert_new_rows.induct) auto

lemma same_but_deliveries_refl: "same_but_deliveries db db"
  unfolding same_but_deliveries_def by (rule exI [of _ "[]"]) simp

lemma same_but_deliveries_insert:
  assumes "same_but_deliveries db db'" and "list_all queued_delivery rs"
  shows "same_but_deliveries db (db'\<lparr>hook_deliveries := insert_new_rows hd_id rs (hook_deliveries db')\<rparr>)"
proof -
  from assms(1) obtain rs0 where "list_all queued_delivery rs0"
    and "db' = db\<lparr>hook_deliveries := insert_new_rows hd_id rs0 (hook_deliveries db)\<rparr>"
    by (auto simp: same_but_deliveries_def)
  with assms(2) show ?thesis
    unfolding same_but_deliveries_def by (intro exI [of _ "rs0 @ rs"]) (simp add: insert_new_rows_append)
qed

lemma delivery_for_queued: "queued_delivery (delivery_for X actor t op i s)"
  by (simp add: queued_delivery_def delivery_for_def Let_def)

lemma enqueue_frame:
  assumes "enqueue_kv_webhook_deliveries X db actor t ops = Inr db'"
  shows "same_but_deliveries db db'"
proof -
  from assms obtain st where fold: "try_fold (enqueue_one X actor t) (db, \<lambda>_. 0) ops = Inr st" and "db' = fst st"
    by (auto simp: enqueue_kv_webhook_deliveries_def)
  have "same_but_deliveries db (fst st)"
    using fold
  proof (rule try_fold_invariant [where P = "\<lambda>st. same_but_deliveries db (fst st)"])
    show "same_but_deliveries db (fst (db, \<lambda>_. 0 :: nat))" by (simp add: same_but_deliveries_refl)
  next
    fix s op s'
    assume "same_but_deliveries db (fst s)" and "enqueue_one X actor t s op = Inr s'"
    then show "same_but_deliveries db (fst s')"
      by (cases s) (auto simp: enqueue_one_def Let_def delivery_for_queued list_all_iff
          intro!: same_but_deliveries_insert split: if_splits)
  qed
  with \<open>db' = fst st\<close> show ?thesis by simp
qed

lemma set_insert_new_rows: "set (insert_new_rows key rs t) \<subseteq> set t \<union> set rs"
  by (induction key rs t rule: insert_new_rows.induct) auto

lemma insert_new_rows_keeps: "set t \<subseteq> set (insert_new_rows key rs t)"
  by (induction key rs t rule: insert_new_rows.induct) auto

lemma insert_new_rows_keys: "key ` set (insert_new_rows key rs t) = key ` set t \<union> key ` set rs"
  by (induction key rs t rule: insert_new_rows.induct) auto

end
