(* ===== verification/Invocation.thy ===== *)
theory Invocation
  imports Delegation Kv_Store Write_Hooks
begin

text \<open>
  Exercising capabilities: \<open>tinycloud-core/src/models/invocation.rs\<close>. \<open>invocation_process\<close> verifies the
  token, authorises every capability against the persisted delegations it cites, and records
  the invocation with its key-value writes and deletes.
\<close>

section \<open>Verification\<close>

datatype InvocationError =
    IInvalidTime
  | IInvalidSignature
  | UnauthorizedInvoker string
  | UnauthorizedAction Resource Ability
  | IMissingParents
  | MissingKvWrite Path
  | DelegationRevoked hash
  | DelegationAncestorRevoked hash hash
  | IChainTraversalLimitExceeded
  | ICaveatsNotContained string

datatype invocation_failure = IDb DbErr | InvalidInvocation InvocationError

definition verify_invocation :: "externals \<Rightarrow> time \<Rightarrow> TinyCloudInvocation \<Rightarrow> (invocation_failure, unit) result" where
  "verify_invocation X now i =
     (if \<not> ucan_signature_ok X (u_raw i) then Inl (InvalidInvocation IInvalidSignature)
      else if \<not> ucan_time_ok X (u_not_before i) (u_expiration i) now
      then Inl (InvalidInvocation IInvalidTime)
      else Inr ())"

section \<open>Validation\<close>

definition outside_window :: "time \<Rightarrow> delegation_row \<Rightarrow> bool" where
  "outside_window now p \<longleftrightarrow>
     (case d_expiry p of Some e \<Rightarrow> now \<ge> e | None \<Rightarrow> False) \<or>
     (case d_not_before p of Some nbf \<Rightarrow> now < nbf | None \<Rightarrow> False)"

definition within_window :: "time \<Rightarrow> delegation_row \<Rightarrow> bool" where
  "within_window now p \<longleftrightarrow>
     (case d_expiry p of Some e \<Rightarrow> now < e | None \<Rightarrow> True) \<and>
     (case d_not_before p of Some nbf \<Rightarrow> now \<ge> nbf | None \<Rightarrow> True)"

fun chain_failure :: "ChainTraversalError \<Rightarrow> invocation_failure" where
  "chain_failure (ChainDb e) = IDb e"
| "chain_failure LimitExceeded = InvalidInvocation IChainTraversalLimitExceeded"

text \<open>The checks of one cited parent: revocation of it and its ancestors, and the chain's window.\<close>

definition check_cited_parent ::
  "database \<Rightarrow> time \<Rightarrow> capability list \<Rightarrow> delegation_row \<Rightarrow> (invocation_failure, unit) result" where
  "check_cited_parent db now dependant_caps p =
     (if is_revoked db (d_id p) then Inl (InvalidInvocation (DelegationRevoked (d_id p)))
      else
        rbind (map_err chain_failure (first_revoked_ancestor db (d_id p))) (\<lambda>revoked_ancestor.
        case revoked_ancestor of
          Some ancestor \<Rightarrow> Inl (InvalidInvocation (DelegationAncestorRevoked ancestor (d_id p)))
        | None \<Rightarrow>
            rbind (map_err chain_failure (ancestor_chain_ids db (d_id p))) (\<lambda>chain_ids.
            let chain = filter (\<lambda>a. d_id a \<in> set chain_ids) (delegations db)
            in if length chain \<noteq> length chain_ids then Inl (InvalidInvocation IMissingParents)
               else if list_ex (outside_window now) chain then
                 (case dependant_caps of
                    c # _ \<Rightarrow> Inl (InvalidInvocation (UnauthorizedAction (cap_resource c) (cap_ability c)))
                  | [] \<Rightarrow> Inl (InvalidInvocation IMissingParents))
               else Inr ())))"

definition authorize_invoked_cap ::
  "externals \<Rightarrow> ability_row list \<Rightarrow> capability \<Rightarrow> (invocation_failure, unit) result" where
  "authorize_invoked_cap X parent_abilities c =
     (let candidates = filter (\<lambda>pc. resource_extends X (cap_resource c) (ab_resource pc) \<and>
                                 ability_matches (ab_ability pc) (cap_ability c)) parent_abilities
      in if candidates = []
         then Inl (InvalidInvocation (UnauthorizedAction (cap_resource c) (cap_ability c)))
         else
           (case search_caveats (\<lambda>pc. invocation_caveats_contain_child (ab_caveats pc) (cap_caveats c))
                   None candidates of
              Inr _ \<Rightarrow> Inr ()
            | Inl last_reason \<Rightarrow>
                Inl (InvalidInvocation (ICaveatsNotContained
                  (case last_reason of Some r \<Rightarrow> r | None \<Rightarrow> ''invocation-caveats-not-subset-of-chain'')))))"

definition invocation_validate ::
  "externals \<Rightarrow> database \<Rightarrow> time \<Rightarrow> InvocationInfo \<Rightarrow> (invocation_failure, unit) result" where
  "invocation_validate X db now i =
     (let dependant_caps =
            filter (\<lambda>c. \<not> is_root_authority X (cap_resource c) (ii_invoker i)) (ii_capabilities i)
      in if dependant_caps = [] then Inr ()
         else if ii_parents i = [] then Inl (InvalidInvocation IMissingParents)
         else
           (let parents = filter (\<lambda>p. d_id p \<in> set (map cid_hash (ii_parents i))) (delegations db)
            in if length parents \<noteq> length (ii_parents i) then Inl (InvalidInvocation IMissingParents)
               else if list_ex (\<lambda>p. \<not> did_principal_matches X (delegatee p) (ii_invoker i)) parents
               then Inl (InvalidInvocation (UnauthorizedInvoker (ii_invoker i)))
               else
                 rbind (try_all (check_cited_parent db now dependant_caps) parents) (\<lambda>_.
                 let valid_parents = filter (within_window now) parents
                 in try_all
                      (authorize_invoked_cap X (concat (map (\<lambda>p. abilities_of db (d_id p)) valid_parents)))
                      dependant_caps)))"

definition verify_and_authorize ::
  "externals \<Rightarrow> database \<Rightarrow> time \<Rightarrow> InvocationInfo \<Rightarrow> (invocation_failure, unit) result" where
  "verify_and_authorize X db now i =
     rbind (verify_invocation X now (ii_invocation i)) (\<lambda>_. invocation_validate X db now i)"

section \<open>Saving\<close>

definition kv_write_fk :: "database \<Rightarrow> kv_write_row \<Rightarrow> bool" where
  "kv_write_fk db w \<longleftrightarrow>
     kw_invocation w \<in> i_id ` set (invocations db) \<and>
     (kw_epoch w, kw_epoch_seq w, kw_space w) \<in>
       (\<lambda>e. (ev_epoch e, ev_epoch_seq e, ev_space e)) ` set (event_orders db)"

definition kv_delete_fk :: "database \<Rightarrow> kv_delete_row \<Rightarrow> bool" where
  "kv_delete_fk db d \<longleftrightarrow>
     kd_invocation d \<in> i_id ` set (invocations db) \<and>
     (kd_space d, kd_deleted d, kd_key d) \<in>
       (\<lambda>w. (kw_space w, kw_invocation w, kw_key w)) ` set (kv_writes db)"

text \<open>The write a delete marks: the one with the version given, or the latest.\<close>

definition deleted_write :: "database \<Rightarrow> SpaceId \<Rightarrow> Path \<Rightarrow> (int \<times> hash \<times> int) option \<Rightarrow> kv_write_row option" where
  "deleted_write db s k version =
     (case version of
        Some (sq, e, es) \<Rightarrow>
          find (\<lambda>w. kw_seq w = sq \<and> kw_epoch w = e \<and> kw_epoch_seq w = es) (kv_rows db s k)
      | None \<Rightarrow> latest_write db s k)"

fun save_operation :: "hash \<Rightarrow> database \<Rightarrow> VersionedOperation \<Rightarrow> (invocation_failure, database) result" where
  "save_operation h db (VKvWrite s k v m sq ep es) =
     rbind (map_err IDb (insert_row (\<lambda>w. (kw_space w, kw_key w, kw_invocation w)) (kv_write_fk db)
             \<lparr>kw_space = s, kw_key = k, kw_invocation = h, kw_seq = sq, kw_epoch = ep,
              kw_epoch_seq = es, kw_value = v, kw_metadata = m\<rparr> (kv_writes db)))
       (\<lambda>t. Inr (db\<lparr>kv_writes := t\<rparr>))"
| "save_operation h db (VKvDelete s k version _ _ _) =
     rbind (ok_or (deleted_write db s k version) (InvalidInvocation (MissingKvWrite k))) (\<lambda>w.
     rbind (map_err IDb (insert_row (\<lambda>d. (kd_invocation d, kd_space d)) (kv_delete_fk db)
             \<lparr>kd_invocation = h, kd_space = s, kd_key = k, kd_deleted = kw_invocation w\<rparr> (kv_deletes db)))
       (\<lambda>t. Inr (db\<lparr>kv_deletes := t\<rparr>)))"

definition invocation_save ::
  "externals \<Rightarrow> database \<Rightarrow> InvocationInfo \<Rightarrow> time \<Rightarrow> string \<Rightarrow> VersionedOperation list \<Rightarrow>
   (invocation_failure, hash \<times> database) result" where
  "invocation_save X db i issued_at serialization parameters =
     (let h = hash_bytes X serialization;
          db = save_actors [ii_invoker i] db;
          row = \<lparr>i_id = h, invoker = ii_invoker i, i_issued_at = issued_at, i_facts = None,
                 i_serialization = maybe_encrypt X (column_key X) serialization\<rparr>
      in rbind (map_err IDb (insert_or_ignore i_id (\<lambda>r. invoker r \<in> set (actors db)) row (invocations db))) (\<lambda>ins.
         case ins of
           None \<Rightarrow> Inr (h, db)
         | Some is \<Rightarrow>
             (let db = db\<lparr>invocations := is\<rparr>
              in rbind (map_err IDb (insert_rows (\<lambda>a. (ia_invocation a, ia_resource a, ia_ability a))
                         (\<lambda>a. ia_invocation a \<in> i_id ` set (invocations db))
                         (map (\<lambda>c. \<lparr>ia_invocation = h, ia_resource = cap_resource c, ia_ability = cap_ability c\<rparr>)
                            (ii_capabilities i)) (invoked_abilities db))) (\<lambda>ias.
                 let db = db\<lparr>invoked_abilities := ias\<rparr>
                 in rbind (map_err IDb (insert_rows (\<lambda>l. (pd_parent l, pd_child l)) (parent_fk db)
                            (map (\<lambda>p. \<lparr>pd_parent = cid_hash p, pd_child = h\<rparr>) (ii_parents i))
                            (parent_delegations db))) (\<lambda>links.
                    let db = db\<lparr>parent_delegations := links\<rparr>
                    in rbind (try_fold (save_operation h) db parameters) (\<lambda>db.
                       rbind (map_err IDb
                               (enqueue_kv_webhook_deliveries X db (ii_invoker i) issued_at parameters)) (\<lambda>db.
                       Inr (h, db))))))))"

definition invocation_process ::
  "externals \<Rightarrow> time \<Rightarrow> database \<Rightarrow> InvocationInfo \<times> string \<Rightarrow> VersionedOperation list \<Rightarrow>
   (invocation_failure, hash \<times> database) result" where
  "invocation_process X now db invocation ops =
     rbind (verify_invocation X now (ii_invocation (fst invocation))) (\<lambda>_.
     rbind (invocation_validate X db now (fst invocation)) (\<lambda>_.
     invocation_save X db (fst invocation) now (snd invocation) ops))"


section \<open>What validation establishes\<close>

lemma within_window_iff: "within_window now p \<longleftrightarrow> \<not> outside_window now p"
  by (auto simp: within_window_def outside_window_def split: option.splits)

lemma authorize_invoked_cap_ok:
  "is_ok (authorize_invoked_cap X pabs c) \<longleftrightarrow>
     (\<exists>pc \<in> set pabs. grant_within X ((cap_resource c, cap_ability c), cap_caveats c)
        ((ab_resource pc, ab_ability pc), ab_caveats pc))"
proof -
  let ?cand = "filter (\<lambda>pc. resource_extends X (cap_resource c) (ab_resource pc) \<and>
    ability_matches (ab_ability pc) (cap_ability c)) pabs"
  let ?search = "search_caveats (\<lambda>pc. invocation_caveats_contain_child (ab_caveats pc) (cap_caveats c)) None ?cand"
  have "is_ok (authorize_invoked_cap X pabs c) \<longleftrightarrow> ?search = Inr ()"
    by (auto simp: authorize_invoked_cap_def Let_def split: sum.splits)
  also have "\<dots> \<longleftrightarrow> (\<exists>pc \<in> set ?cand. caveats_contained (cap_caveats c) (ab_caveats pc))"
    by (simp only: search_caveats_ok invocation_caveats_ok)
  finally show ?thesis
    by (auto simp: grant_within_def cap_within_def)
qed

text \<open>A chain that is clean: walked within the bound, no node revoked, all its rows in their window.\<close>

definition chain_clean :: "database \<Rightarrow> time \<Rightarrow> hash \<Rightarrow> bool" where
  "chain_clean db now h \<longleftrightarrow>
     (\<exists>ids. ancestor_chain_ids db h = Inr ids \<and> (\<forall>a \<in> set ids. \<not> is_revoked db a) \<and>
        (\<forall>d \<in> set (delegations db). d_id d \<in> set ids \<longrightarrow> within_window now d))"

lemma check_cited_parent_ok:
  assumes "is_ok (check_cited_parent db now caps p)"
  shows "\<not> is_revoked db (d_id p) \<and> chain_clean db now (d_id p)"
proof -
  have clean: "\<not> is_revoked db (d_id p)"
    using assms by (auto simp: check_cited_parent_def)
  with assms have first: "first_revoked_ancestor db (d_id p) = Inr None"
    by (auto simp: check_cited_parent_def is_ok_iff split: option.splits)
  obtain ids where ids: "ancestor_chain_ids db (d_id p) = Inr ids" and "\<forall>h \<in> set ids. \<not> is_revoked db h"
    using first_revoked_ancestor_None [OF first clean] by blast
  moreover have "\<not> list_ex (outside_window now) (filter (\<lambda>a. d_id a \<in> set ids) (delegations db))"
    using assms clean first ids by (auto simp: check_cited_parent_def Let_def is_ok_iff split: if_splits list.splits)
  ultimately show ?thesis
    using clean by (auto simp: chain_clean_def list_ex_iff within_window_iff)
qed

text \<open>A cited delegation that authorises a capability of the invoker.\<close>

definition authorises ::
  "externals \<Rightarrow> database \<Rightarrow> time \<Rightarrow> InvocationInfo \<Rightarrow> capability \<Rightarrow> delegation_row \<Rightarrow> ability_row \<Rightarrow> bool" where
  "authorises X db now i c p pc \<longleftrightarrow>
     p \<in> set (delegations db) \<and> d_id p \<in> cid_hash ` set (ii_parents i) \<and>
     did_principal_matches X (delegatee p) (ii_invoker i) \<and> within_window now p \<and>
     chain_clean db now (d_id p) \<and>
     pc \<in> set (abilities db) \<and> ab_delegation pc = d_id p \<and>
     grant_within X ((cap_resource c, cap_ability c), cap_caveats c)
       ((ab_resource pc, ab_ability pc), ab_caveats pc)"

lemma invocation_validate_parents:
  assumes "invocation_validate X db now i = Inr u" and "c \<in> set (ii_capabilities i)"
    and "\<not> is_root_authority X (cap_resource c) (ii_invoker i)"
  defines "parents \<equiv> filter (\<lambda>p. d_id p \<in> set (map cid_hash (ii_parents i))) (delegations db)"
  shows "length parents = length (ii_parents i)"
    and "\<forall>p \<in> set parents. did_principal_matches X (delegatee p) (ii_invoker i) \<and>
           \<not> is_revoked db (d_id p) \<and> chain_clean db now (d_id p)"
    and "\<exists>p \<in> set parents. \<exists>pc. authorises X db now i c p pc"
proof -
  let ?deps = "filter (\<lambda>c. \<not> is_root_authority X (cap_resource c) (ii_invoker i)) (ii_capabilities i)"
  have deps: "c \<in> set ?deps" using assms by simp
  then have "?deps \<noteq> []" by force
  with assms(1) have len: "length parents = length (ii_parents i)"
    and inv: "\<not> list_ex (\<lambda>p. \<not> did_principal_matches X (delegatee p) (ii_invoker i)) parents"
    and chk: "try_all (check_cited_parent db now ?deps) parents = Inr ()"
    and auth: "try_all (authorize_invoked_cap X (concat (map (\<lambda>p. abilities_of db (d_id p))
        (filter (within_window now) parents)))) ?deps = Inr ()"
    unfolding invocation_validate_def Let_def parents_def by (simp_all split: if_splits)
  show "length parents = length (ii_parents i)" by (rule len)
  show all: "\<forall>p \<in> set parents. did_principal_matches X (delegatee p) (ii_invoker i) \<and>
           \<not> is_revoked db (d_id p) \<and> chain_clean db now (d_id p)"
    using inv chk check_cited_parent_ok unfolding try_all_ok list_ex_iff by blast
  from auth deps obtain pc where
    pc: "pc \<in> set (concat (map (\<lambda>p. abilities_of db (d_id p)) (filter (within_window now) parents)))"
    and grant: "grant_within X ((cap_resource c, cap_ability c), cap_caveats c)
        ((ab_resource pc, ab_ability pc), ab_caveats pc)"
    unfolding try_all_ok authorize_invoked_cap_ok by blast
  from pc obtain p where "p \<in> set parents" "within_window now p" "pc \<in> set (abilities_of db (d_id p))" by auto
  with all grant show "\<exists>p \<in> set parents. \<exists>pc. authorises X db now i c p pc"
    by (intro bexI [of _ p] exI [of _ pc]) (auto simp: authorises_def abilities_of_def parents_def)
qed

lemma grounded_within:
  assumes "grounded X db h r a cv" and "grant_within X ((r', a'), cv') ((r, a), cv)"
  shows "\<exists>root \<in> set (delegations db). (h, d_id root) \<in> (parent_rel db)\<^sup>* \<and> is_root_authority X r' (delegator root)"
  using grounded_owner [OF assms(1)] assms(2) is_root_authority_extends
  by (fastforce simp: grant_within_def cap_within_def)

text \<open>All cited delegations are there: there are as many rows as citations, and rows are unique.\<close>

lemma cited_all_present:
  assumes "distinct (map d_id ds)"
    and "length (filter (\<lambda>p. d_id p \<in> set cited) ds) = length cited"
  shows "set cited \<subseteq> d_id ` set ds"
proof -
  let ?rows = "filter (\<lambda>p. d_id p \<in> set cited) ds"
  have "distinct (map d_id ?rows)" using assms(1) by (simp add: distinct_map inj_on_def)
  then have "card (d_id ` set ?rows) = length cited"
    using assms(2) distinct_card by fastforce
  moreover have "card (set cited) \<le> length cited" by (rule card_length)
  moreover have "d_id ` set ?rows \<subseteq> set cited" by auto
  ultimately have "d_id ` set ?rows = set cited"
    by (metis List.finite_set card_seteq)
  then show ?thesis by auto
qed


section \<open>What saving changes\<close>

definition new_invocation_row :: "externals \<Rightarrow> InvocationInfo \<Rightarrow> time \<Rightarrow> string \<Rightarrow> invocation_row" where
  "new_invocation_row X i issued_at ser =
     \<lparr>i_id = hash_bytes X ser, invoker = ii_invoker i, i_issued_at = issued_at, i_facts = None,
      i_serialization = maybe_encrypt X (column_key X) ser\<rparr>"

definition new_invoked_abilities :: "hash \<Rightarrow> capability list \<Rightarrow> invoked_ability_row list" where
  "new_invoked_abilities h caps =
     map (\<lambda>c. \<lparr>ia_invocation = h, ia_resource = cap_resource c, ia_ability = cap_ability c\<rparr>) caps"

text \<open>The database when the operations of a new invocation start.\<close>

definition recorded :: "externals \<Rightarrow> database \<Rightarrow> InvocationInfo \<Rightarrow> time \<Rightarrow> string \<Rightarrow> database" where
  "recorded X db i issued_at ser =
     (save_actors [ii_invoker i] db)
       \<lparr>invocations := invocations db @ [new_invocation_row X i issued_at ser],
        invoked_abilities := invoked_abilities db @ new_invoked_abilities (hash_bytes X ser) (ii_capabilities i),
        parent_delegations := parent_delegations db @ new_links (hash_bytes X ser) (ii_parents i)\<rparr>"

lemma save_actors_invocations [simp]:
  "invocations (save_actors as db) = invocations db"
  "invoked_abilities (save_actors as db) = invoked_abilities db"
  "spaces (save_actors as db) = spaces db"
  "epochs (save_actors as db) = epochs db"
  "epoch_orders (save_actors as db) = epoch_orders db"
  "event_orders (save_actors as db) = event_orders db"
  "kv_writes (save_actors as db) = kv_writes db"
  "kv_deletes (save_actors as db) = kv_deletes db"
  "hook_subscriptions (save_actors as db) = hook_subscriptions db"
  "hook_deliveries (save_actors as db) = hook_deliveries db"
  by (simp_all add: save_actors_def)

lemma invocation_save_cases:
  assumes "invocation_save X db i t ser ops = Inr (h, db')"
  obtains (known) "h = hash_bytes X ser" "h \<in> i_id ` set (invocations db)"
      "db' = save_actors [ii_invoker i] db"
    | (fresh) db2 where "h = hash_bytes X ser" "h \<notin> i_id ` set (invocations db)"
      "try_fold (save_operation h) (recorded X db i t ser) ops = Inr db2"
      "same_but_deliveries db2 db'"
      "\<forall>p \<in> set (ii_parents i). cid_hash p \<in> d_id ` set (delegations db)"
proof (cases "hash_bytes X ser \<in> i_id ` set (invocations db)")
  case True
  with assms known show ?thesis
    by (auto simp: invocation_save_def Let_def insert_or_ignore_def)
next
  case False
  let ?h = "hash_bytes X ser"
  let ?db1 = "(save_actors [ii_invoker i] db)\<lparr>invocations := invocations db @ [new_invocation_row X i t ser]\<rparr>"
  from assms False obtain ias links db2 where
    ias: "insert_rows (\<lambda>a. (ia_invocation a, ia_resource a, ia_ability a))
       (\<lambda>a. ia_invocation a \<in> i_id ` set (invocations ?db1)) (new_invoked_abilities ?h (ii_capabilities i))
       (invoked_abilities db) = Inr ias"
    and links: "insert_rows (\<lambda>l. (pd_parent l, pd_child l)) (parent_fk (?db1\<lparr>invoked_abilities := ias\<rparr>))
       (new_links ?h (ii_parents i)) (parent_delegations db) = Inr links"
    and fold: "try_fold (save_operation ?h) (?db1\<lparr>invoked_abilities := ias, parent_delegations := links\<rparr>) ops = Inr db2"
    and enq: "enqueue_kv_webhook_deliveries X db2 (ii_invoker i) t ops = Inr db'"
    and h: "h = ?h"
    by (auto simp: invocation_save_def Let_def insert_or_ignore_def new_invocation_row_def
        new_invoked_abilities_def new_links_def split: if_splits)
  have "cid_hash p \<in> d_id ` set (delegations db)" if "p \<in> set (ii_parents i)" for p
    using insert_rows_fk [OF links, of "\<lparr>pd_parent = cid_hash p, pd_child = ?h\<rparr>"] that
    by (auto simp: parent_fk_def new_links_def)
  moreover have "recorded X db i t ser = ?db1\<lparr>invoked_abilities := ias, parent_delegations := links\<rparr>"
    using insert_rows_appends [OF ias] insert_rows_appends [OF links] by (simp add: recorded_def)
  ultimately show ?thesis
    using fresh [of db2] False h fold enqueue_frame [OF enq] by simp
qed

text \<open>Operations touch the key-value tables only.\<close>

definition same_but_kv :: "database \<Rightarrow> database \<Rightarrow> bool" where
  "same_but_kv db db' \<longleftrightarrow> (\<exists>w d. db' = db\<lparr>kv_writes := w, kv_deletes := d\<rparr>)"

lemma same_but_kv_refl: "same_but_kv db db"
  unfolding same_but_kv_def by (intro exI [of _ "kv_writes db"] exI [of _ "kv_deletes db"]) simp

lemma same_but_kv_update:
  assumes "same_but_kv db0 db"
  shows "same_but_kv db0 (db\<lparr>kv_writes := w\<rparr>)" and "same_but_kv db0 (db\<lparr>kv_deletes := d\<rparr>)"
proof -
  from assms obtain w0 d0 where db: "db = db0\<lparr>kv_writes := w0, kv_deletes := d0\<rparr>"
    by (auto simp: same_but_kv_def)
  show "same_but_kv db0 (db\<lparr>kv_writes := w\<rparr>)"
    unfolding same_but_kv_def by (intro exI [of _ w] exI [of _ d0]) (simp add: db)
  show "same_but_kv db0 (db\<lparr>kv_deletes := d\<rparr>)"
    unfolding same_but_kv_def by (intro exI [of _ w0] exI [of _ d]) (simp add: db)
qed

lemma save_operation_frame:
  assumes "save_operation h db op = Inr db'" and "same_but_kv db0 db"
  shows "same_but_kv db0 db'"
  using assms by (cases op) (auto intro: same_but_kv_update)

lemma save_operations_frame:
  assumes "try_fold (save_operation h) db ops = Inr db'"
  shows "same_but_kv db db'"
  using assms same_but_kv_refl save_operation_frame by (rule try_fold_invariant)

lemma invocation_save_grows:
  assumes "invocation_save X db i t ser ops = Inr (h, db')"
  shows "authority_grows db db' \<and> delegations db' = delegations db \<and> abilities db' = abilities db \<and>
    revocations db' = revocations db \<and> spaces db' = spaces db \<and> epochs db' = epochs db \<and>
    epoch_orders db' = epoch_orders db \<and> event_orders db' = event_orders db \<and>
    hook_subscriptions db' = hook_subscriptions db"
  using assms
proof (cases rule: invocation_save_cases)
  case known
  then show ?thesis by (simp add: authority_grows_def)
next
  case (fresh db2)
  then show ?thesis
    using save_operations_frame [OF fresh(3)]
    by (auto simp: same_but_kv_def same_but_deliveries_def authority_grows_def recorded_def)
qed

lemma invocation_process_ok:
  "invocation_process X now db (i, ser) ops = Inr (h, db') \<longleftrightarrow>
     verify_invocation X now (ii_invocation i) = Inr () \<and> invocation_validate X db now i = Inr () \<and>
     invocation_save X db i now ser ops = Inr (h, db')"
  by (auto simp: invocation_process_def)

end
