(* ===== verification/Revocation.thy ===== *)
theory Revocation
  imports Invocation
begin

text \<open>
  Revoking a delegation: \<open>control_proof_decision\<close>, \<open>revoker_is_authorized\<close> and \<open>process\<close> of
  \<open>tinycloud-core/src/models/revocation.rs\<close>, and \<open>delegation_status\<close> of \<open>db.rs\<close>, which uses the
  same proof rule.
\<close>

section \<open>Control proofs\<close>

datatype ControlProofDecision = DirectSigner string | PersistentPrincipal string | Denied

definition find_delegation :: "database \<Rightarrow> hash \<Rightarrow> delegation_row option" where
  "find_delegation db h = find (\<lambda>d. d_id d = h) (delegations db)"

definition is_control_ability :: "externals \<Rightarrow> hash \<Rightarrow> delegation_row \<Rightarrow> ability_row \<Rightarrow> bool" where
  "is_control_ability X target parent a =
     (case ab_resource a of
        Other resource \<Rightarrow> resource = ''urn:cid:'' @ cid_display X (to_cid target 85)
      | TinyCloud resource \<Rightarrow>
          res_service resource = ''delegation'' \<and>
          (case res_path resource of Some p \<Rightarrow> p = [] | None \<Rightarrow> True) \<and>
          res_query resource = None \<and> res_fragment resource = None \<and>
          base_did (res_space resource) = delegator parent)"

definition control_proof_decision ::
  "externals \<Rightarrow> database \<Rightarrow> time \<Rightarrow> string \<Rightarrow> cid list \<Rightarrow> string \<Rightarrow> hash \<Rightarrow> (DbErr, ControlProofDecision) result" where
  "control_proof_decision X db now signer proofs requested_action target =
     (case proofs of
        [] \<Rightarrow> Inr (DirectSigner signer)
      | [proof] \<Rightarrow>
          (case find_delegation db (cid_hash proof) of
             None \<Rightarrow> Inr Denied
           | Some parent \<Rightarrow>
               (if \<not> did_principal_matches X (delegatee parent) signer \<or>
                   (case d_expiry parent of Some e \<Rightarrow> now \<ge> e | None \<Rightarrow> False) \<or>
                   (case d_not_before parent of Some nbf \<Rightarrow> now < nbf | None \<Rightarrow> False)
                then Inr Denied
                else
                  (case ancestor_chain_ids db (cid_hash proof) of
                     Inl (ChainDb e) \<Rightarrow> Inl e
                   | Inl LimitExceeded \<Rightarrow> Inr Denied
                   | Inr nodes \<Rightarrow>
                       (if list_ex (is_revoked db) nodes then Inr Denied
                        else if \<not> list_ex (is_control_ability X target parent)
                             (filter (\<lambda>a. ab_delegation a = cid_hash proof \<and> ab_ability a = requested_action)
                               (abilities db))
                        then Inr Denied
                        else Inr (PersistentPrincipal (delegator parent))))))
      | _ \<Rightarrow> Inr Denied)"

fun decided_principal :: "ControlProofDecision \<Rightarrow> string option" where
  "decided_principal (DirectSigner p) = Some p"
| "decided_principal (PersistentPrincipal p) = Some p"
| "decided_principal Denied = None"

text \<open>The principal is the delegator, the delegatee or the owner of a space the delegation touches.\<close>

definition party_to :: "externals \<Rightarrow> database \<Rightarrow> delegation_row \<Rightarrow> string \<Rightarrow> bool" where
  "party_to X db d who =
     (if did_principal_matches X (delegator d) who then True
      else if did_principal_matches X (delegatee d) who then True
      else list_ex (\<lambda>row. case space_of (ab_resource row) of
                       Some s \<Rightarrow> did_principal_matches X (base_did s) who
                     | None \<Rightarrow> False) (abilities_of db (d_id d)))"

definition revoker_is_authorized ::
  "externals \<Rightarrow> database \<Rightarrow> time \<Rightarrow> delegation_row \<Rightarrow> string \<Rightarrow> cid list \<Rightarrow> (DbErr, bool) result" where
  "revoker_is_authorized X db now d signer proofs =
     rbind (control_proof_decision X db now signer proofs ''tinycloud.delegation/revoke'' (d_id d)) (\<lambda>decision.
     case decided_principal decision of
       None \<Rightarrow> Inr False
     | Some who \<Rightarrow> Inr (party_to X db d who))"

section \<open>Processing\<close>

datatype RevocationError = RInvalidTime | RInvalidSignature | UnauthorizedRevoker string | RMissingParents

datatype revocation_failure = RDb DbErr | InvalidRevocation RevocationError

definition revocation_verify :: "externals \<Rightarrow> time \<Rightarrow> TinyCloudRevocation \<Rightarrow> (revocation_failure, unit) result" where
  "revocation_verify X now r =
     (case r of
        RCacao c \<Rightarrow>
          (if \<not> cacao_signature_ok X (c_raw c) then Inl (InvalidRevocation RInvalidSignature)
           else if \<not> cacao_valid_at c now then Inl (InvalidRevocation RInvalidTime)
           else Inr ())
      | RUcan u \<Rightarrow>
          (if \<not> ucan_signature_ok X (u_raw u) then Inl (InvalidRevocation RInvalidSignature)
           else if \<not> ucan_time_ok X (u_not_before u) (u_expiration u) now
           then Inl (InvalidRevocation RInvalidTime)
           else Inr ()))"

definition revocation_fk :: "database \<Rightarrow> revocation_row \<Rightarrow> bool" where
  "revocation_fk db r \<longleftrightarrow> revoker r \<in> set (actors db) \<and> revoked r \<in> d_id ` set (delegations db)"

definition revocation_process ::
  "externals \<Rightarrow> time \<Rightarrow> database \<Rightarrow> RevocationInfo \<times> string \<Rightarrow> (revocation_failure, hash \<times> database) result" where
  "revocation_process X now db revocation =
     (let (r, serialization) = revocation
      in rbind (revocation_verify X now (ri_revocation r)) (\<lambda>_.
         let h = hash_bytes X serialization
         in rbind (ok_or (find_delegation db (cid_hash (ri_revoked r))) (InvalidRevocation RMissingParents)) (\<lambda>d.
            rbind (map_err RDb (revoker_is_authorized X db now d (ri_revoker r) (ri_parents r))) (\<lambda>ok.
            if \<not> ok then Inl (InvalidRevocation (UnauthorizedRevoker (ri_revoker r)))
            else
              rbind (map_err RDb (insert_or_ignore r_id (revocation_fk db)
                       \<lparr>r_id = h, revoker = ri_revoker r, revoked = d_id d,
                        r_serialization = serialization, revoked_at = Some now\<rparr> (revocations db))) (\<lambda>ins.
              case ins of
                None \<Rightarrow> Inr (h, db)
              | Some rs \<Rightarrow>
                  (let db = db\<lparr>revocations := rs\<rparr>
                   in rbind (map_err RDb (insert_rows (\<lambda>l. (pd_parent l, pd_child l)) (parent_fk db)
                              (map (\<lambda>p. \<lparr>pd_parent = cid_hash p, pd_child = h\<rparr>) (ri_parents r))
                              (parent_delegations db))) (\<lambda>links.
                      Inr (h, db\<lparr>parent_delegations := links\<rparr>))))))))"

section \<open>Status\<close>

datatype DelegationStatus = Active | Revoked | Expired | Unavailable

datatype status_failure = StatusDb DbErr

definition delegation_status ::
  "externals \<Rightarrow> database \<Rightarrow> time \<Rightarrow> hash \<Rightarrow> string \<Rightarrow> cid list \<Rightarrow> (status_failure, DelegationStatus option) result" where
  "delegation_status X db now target signer proofs =
     (if length proofs > 1 then Inr None
      else
        (case find_delegation db target of
           None \<Rightarrow> Inr None
         | Some d \<Rightarrow>
             (case ancestor_chain_ids_for_roots db (target # map cid_hash proofs) of
                Inl LimitExceeded \<Rightarrow> Inr (Some Unavailable)
              | Inl (ChainDb e) \<Rightarrow> Inl (StatusDb e)
              | Inr _ \<Rightarrow>
                  rbind (map_err StatusDb
                          (control_proof_decision X db now signer proofs ''tinycloud.delegation/status'' target)) (\<lambda>decision.
                  case decided_principal decision of
                    None \<Rightarrow> Inr None
                  | Some who \<Rightarrow>
                      (if \<not> party_to X db d who then Inr None
                       else if is_revoked db target then Inr (Some Revoked)
                       else
                         (case first_revoked_ancestor db target of
                            Inr (Some _) \<Rightarrow> Inr (Some Revoked)
                          | Inl LimitExceeded \<Rightarrow> Inr (Some Unavailable)
                          | Inl (ChainDb e) \<Rightarrow> Inl (StatusDb e)
                          | Inr None \<Rightarrow>
                              (if (case d_expiry d of Some e \<Rightarrow> now \<ge> e | None \<Rightarrow> False)
                               then Inr (Some Expired)
                               else if (case d_not_before d of Some nbf \<Rightarrow> now < nbf | None \<Rightarrow> False)
                               then Inr (Some Unavailable)
                               else Inr (Some Active))))))))"

section \<open>What a revocation changes\<close>

lemma find_delegation_Some: "find_delegation db h = Some d \<Longrightarrow> d \<in> set (delegations db) \<and> d_id d = h"
  using find_SomeD [of "\<lambda>d. d_id d = h" "delegations db" d] by (simp add: find_delegation_def)

lemma control_proof_cases:
  assumes "control_proof_decision X db now signer proofs action target = Inr dec" and "decided_principal dec = Some who"
  shows "(proofs = [] \<and> who = signer) \<or>
    (\<exists>proof_cid p ids. proofs = [proof_cid] \<and> p \<in> set (delegations db) \<and> d_id p = cid_hash proof_cid \<and>
       did_principal_matches X (delegatee p) signer \<and> within_window now p \<and>
       ancestor_chain_ids db (d_id p) = Inr ids \<and> (\<forall>a \<in> set ids. \<not> is_revoked db a) \<and>
       (\<exists>a \<in> set (abilities db). ab_delegation a = d_id p \<and> ab_ability a = action \<and> is_control_ability X target p a) \<and>
       who = delegator p)"
proof (cases proofs)
  case Nil
  with assms show ?thesis by (auto simp: control_proof_decision_def)
next
  case (Cons proof_cid rest)
  with assms have rest: "rest = []" by (cases rest) (auto simp: control_proof_decision_def)
  with assms Cons obtain p where p: "find_delegation db (cid_hash proof_cid) = Some p"
    by (auto simp: control_proof_decision_def split: option.splits)
  with assms Cons rest obtain ids where ids: "ancestor_chain_ids db (cid_hash proof_cid) = Inr ids"
    by (auto simp: control_proof_decision_def split: option.splits if_splits sum.splits ChainTraversalError.splits)
  have facts: "did_principal_matches X (delegatee p) signer \<and> \<not> outside_window now p \<and> \<not> list_ex (is_revoked db) ids \<and>
    list_ex (is_control_ability X target p) (filter (\<lambda>a. ab_delegation a = cid_hash proof_cid \<and> ab_ability a = action) (abilities db)) \<and>
    dec = PersistentPrincipal (delegator p)"
    using assms p ids unfolding Cons rest by (auto simp: control_proof_decision_def outside_window_def split: if_splits)
  then have "(\<exists>a \<in> set (abilities db). ab_delegation a = d_id p \<and> ab_ability a = action \<and> is_control_ability X target p a)"
    using find_delegation_Some [OF p] by (auto simp: list_ex_iff)
  with facts ids assms(2) find_delegation_Some [OF p] show ?thesis
    unfolding Cons rest by (intro disjI2 exI [of _ proof_cid] exI [of _ p] exI [of _ ids])
      (simp add: within_window_iff list_ex_iff)
qed

lemma revoker_is_authorized_cases:
  assumes "revoker_is_authorized X db now d signer proofs = Inr True"
  shows "(proofs = [] \<and> party_to X db d signer) \<or>
    (\<exists>proof_cid p ids. proofs = [proof_cid] \<and> p \<in> set (delegations db) \<and> d_id p = cid_hash proof_cid \<and>
       did_principal_matches X (delegatee p) signer \<and> within_window now p \<and>
       ancestor_chain_ids db (d_id p) = Inr ids \<and> (\<forall>a \<in> set ids. \<not> is_revoked db a) \<and>
       (\<exists>a \<in> set (abilities db). ab_delegation a = d_id p \<and> ab_ability a = ''tinycloud.delegation/revoke'' \<and>
          is_control_ability X (d_id d) p a) \<and>
       party_to X db d (delegator p))"
proof -
  from assms obtain dec who where
    "control_proof_decision X db now signer proofs ''tinycloud.delegation/revoke'' (d_id d) = Inr dec"
    "decided_principal dec = Some who" "party_to X db d who"
    by (auto simp: revoker_is_authorized_def split: option.splits)
  from control_proof_cases [OF this(1,2)] this(3) show ?thesis by blast
qed

lemma revocation_process_cases:
  assumes "revocation_process X now db (r, ser) = Inr (h, db')"
  obtains (known) d where "find_delegation db (cid_hash (ri_revoked r)) = Some d"
      "revoker_is_authorized X db now d (ri_revoker r) (ri_parents r) = Inr True"
      "h = hash_bytes X ser" "h \<in> r_id ` set (revocations db)" "db' = db"
    | (fresh) d where "find_delegation db (cid_hash (ri_revoked r)) = Some d"
      "revoker_is_authorized X db now d (ri_revoker r) (ri_parents r) = Inr True"
      "h = hash_bytes X ser" "h \<notin> r_id ` set (revocations db)" "ri_revoker r \<in> set (actors db)"
      "db' = db\<lparr>revocations := revocations db @ [\<lparr>r_id = h, revoker = ri_revoker r, revoked = d_id d,
                        r_serialization = ser, revoked_at = Some now\<rparr>],
          parent_delegations := parent_delegations db @ new_links h (ri_parents r)\<rparr>"
      "\<forall>p \<in> set (ri_parents r). cid_hash p \<in> d_id ` set (delegations db)"
proof -
  from assms obtain d where d: "find_delegation db (cid_hash (ri_revoked r)) = Some d"
    "revoker_is_authorized X db now d (ri_revoker r) (ri_parents r) = Inr True"
    by (auto simp: revocation_process_def Let_def split: if_splits)
  show ?thesis
  proof (cases "hash_bytes X ser \<in> r_id ` set (revocations db)")
    case True
    with assms d have "h = hash_bytes X ser" "db' = db"
      by (auto simp: revocation_process_def Let_def insert_or_ignore_def)
    with known [OF d] True show ?thesis by simp
  next
    case False
    let ?row = "\<lparr>r_id = hash_bytes X ser, revoker = ri_revoker r, revoked = d_id d,
                        r_serialization = ser, revoked_at = Some now\<rparr>"
    let ?db1 = "db\<lparr>revocations := revocations db @ [?row]\<rparr>"
    from assms False d obtain links where
      links: "insert_rows (\<lambda>l. (pd_parent l, pd_child l)) (parent_fk ?db1) (new_links h (ri_parents r))
        (parent_delegations db) = Inr links"
      and h: "h = hash_bytes X ser" and "ri_revoker r \<in> set (actors db)"
      and "db' = ?db1\<lparr>parent_delegations := links\<rparr>"
      by (auto simp: revocation_process_def Let_def insert_or_ignore_def new_links_def revocation_fk_def split: if_splits)
    moreover have "cid_hash p \<in> d_id ` set (delegations db)" if "p \<in> set (ri_parents r)" for p
      using insert_rows_fk [OF links, of "\<lparr>pd_parent = cid_hash p, pd_child = h\<rparr>"] that
      by (auto simp: parent_fk_def new_links_def)
    ultimately show ?thesis
      using fresh [OF d] False insert_rows_appends [OF links] by simp
  qed
qed

lemma revocation_process_grows:
  assumes "revocation_process X now db (r, ser) = Inr (h, db')"
  shows "authority_grows db db' \<and> delegations db' = delegations db \<and> abilities db' = abilities db \<and>
    spaces db' = spaces db \<and> epochs db' = epochs db \<and> epoch_orders db' = epoch_orders db \<and>
    event_orders db' = event_orders db \<and> kv_writes db' = kv_writes db \<and> kv_deletes db' = kv_deletes db \<and>
    invocations db' = invocations db"
  using assms by (cases rule: revocation_process_cases) (auto simp: authority_grows_def)

text \<open>
  The revokers that the comments of the source allow: the delegator, the owner of a space the
  delegation touches, and the delegatee of the delegation or of one of its ancestors.
\<close>

definition documented_revoker :: "externals \<Rightarrow> database \<Rightarrow> delegation_row \<Rightarrow> string \<Rightarrow> bool" where
  "documented_revoker X db d who \<longleftrightarrow>
     did_principal_matches X (delegator d) who \<or>
     (\<exists>row \<in> set (abilities_of db (d_id d)). \<exists>s. space_of (ab_resource row) = Some s \<and>
        did_principal_matches X (base_did s) who) \<or>
     (\<exists>a \<in> set (delegations db). (d_id d, d_id a) \<in> (parent_rel db)\<^sup>* \<and> did_principal_matches X (delegatee a) who)"

lemma party_documented: "party_to X db d who \<Longrightarrow> d \<in> set (delegations db) \<Longrightarrow> documented_revoker X db d who"
  unfolding party_to_def documented_revoker_def
  by (auto simp: list_ex_iff split: if_splits option.splits)

lemma revocation_process_only:
  assumes "revocation_process X now db (r, ser) = Inr (h, db')" and "g \<noteq> cid_hash (ri_revoked r)"
  shows "is_revoked db' g = is_revoked db g"
  using assms by (cases rule: revocation_process_cases) (auto simp: is_revoked_iff find_delegation_Some)

end
