(* ===== verification/Transact.thy ===== *)
theory Transact
  imports Revocation
begin

text \<open>
  A transaction: \<open>event_spaces\<close> and \<open>transact\<close> of \<open>tinycloud-core/src/db.rs\<close>. The events of a request
  are assigned to the spaces they concern, each space gets a new epoch that follows its current
  ones, and then every event is processed. A Rust \<open>HashMap\<close> is an association list; nothing in the
  result depends on its order beyond the order of rows.
\<close>

section \<open>Data\<close>

record Commit =
  commit_rev :: hash
  commit_seq :: int
  committed_events :: "hash list"
  consumed_epochs :: "hash list"

record TransactResult =
  commits :: "(SpaceId \<times> Commit) list"
  skipped_spaces :: "SpaceId list"
  delegation_cids :: "hash list"

text \<open>
  \<open>TxDecoding\<close> is the \<open>EncodingError\<close> of a stored token that does not decode; \<open>TxPanic\<close> is the \<open>unwrap\<close>
  on a missing order.
\<close>

datatype TxError =
    TxDb DbErr
  | TxEncoding HashError
  | TxInvalidDelegation DelegationError
  | TxInvalidInvocation InvocationError
  | TxInvalidRevocation RevocationError
  | SpaceNotFound
  | EpochInsert DbErr
  | StoreSetup
  | SecretsError
  | TxInvalidCid string
  | TxEncryption EncryptionError
  | TxDecoding
  | TxChainTraversalLimitExceeded
  | TxPanic

fun delegation_tx_error :: "delegation_failure \<Rightarrow> TxError" where
  "delegation_tx_error (InvalidDelegation e) = TxInvalidDelegation e"
| "delegation_tx_error (DDb e) = TxDb e"

fun invocation_tx_error :: "invocation_failure \<Rightarrow> TxError" where
  "invocation_tx_error (InvalidInvocation e) = TxInvalidInvocation e"
| "invocation_tx_error (IDb e) = TxDb e"

fun revocation_tx_error :: "revocation_failure \<Rightarrow> TxError" where
  "revocation_tx_error (InvalidRevocation e) = TxInvalidRevocation e"
| "revocation_tx_error (RDb e) = TxDb e"

section \<open>Spaces of the events\<close>

type_synonym space_events = "(SpaceId \<times> (hash \<times> Event) list) list"

text \<open>\<open>entry(space).or_default()\<close>, then a push unless an event with this hash is there.\<close>

fun add_event :: "hash \<times> Event \<Rightarrow> SpaceId \<Rightarrow> space_events \<Rightarrow> space_events" where
  "add_event e s [] = [(s, [e])]"
| "add_event e s ((s', es) # m) =
     (if s' = s then (s', if fst e \<in> fst ` set es then es else es @ [e]) # m
      else (s', es) # add_event e s m)"

definition revoked_target :: "Event \<Rightarrow> hash option" where
  "revoked_target e = (case e of ERevocation r \<Rightarrow> Some (cid_hash (ri_revoked (fst r))) | _ \<Rightarrow> None)"

fun spaces_of_event :: "database \<Rightarrow> Event list \<Rightarrow> Event \<Rightarrow> SpaceId list" where
  "spaces_of_event db evs (EDelegation d) = info_spaces (di_capabilities (fst d))"
| "spaces_of_event db evs (EInvocation i _) = info_spaces (ii_capabilities (fst i))"
| "spaces_of_event db evs (ERevocation r) =
     map ev_space
       (filter (\<lambda>row. ev_event row = cid_hash (ri_revoked (fst r)))
         (filter (\<lambda>row. ev_event row \<in> set (List.map_filter revoked_target evs)) (event_orders db)))"

definition event_spaces :: "database \<Rightarrow> (hash \<times> Event) list \<Rightarrow> space_events" where
  "event_spaces db ev =
     fold (\<lambda>e m. fold (add_event e) (spaces_of_event db (map snd ev) (snd e)) m) ev []"

text \<open>The spaces a delegation asks the node to host.\<close>

definition hosted_space :: "capability \<Rightarrow> SpaceId option" where
  "hosted_space c =
     (case cap_resource c of
        TinyCloud r \<Rightarrow>
          (if cap_ability c = ''tinycloud.space/host'' \<and> res_path r = None \<and>
              res_service r = ''space'' \<and> res_query r = None \<and> res_fragment r = None
           then Some (res_space r) else None)
      | Other _ \<Rightarrow> None)"

fun event_new_spaces :: "Event \<Rightarrow> SpaceId list" where
  "event_new_spaces (EDelegation d) = List.map_filter hosted_space (di_capabilities (fst d))"
| "event_new_spaces _ = []"

fun is_delegation :: "Event \<Rightarrow> bool" where
  "is_delegation (EDelegation _) = True"
| "is_delegation _ = False"

section \<open>Epochs\<close>

text \<open>
  \<open>max(seq) + 1\<close> over the events of the space, 0 when there are none. The number is an \<open>i64\<close> in the code; it
  grows by one with each transaction on the space, and is unbounded here.
\<close>

definition next_seq :: "database \<Rightarrow> SpaceId \<Rightarrow> int" where
  "next_seq db s =
     (case map ev_seq (filter (\<lambda>e. ev_space e = s) (event_orders db)) of
        [] \<Rightarrow> 0
      | x # xs \<Rightarrow> fold max xs x + 1)"

text \<open>The epochs of the space that are no epoch's parent.\<close>

definition most_recent :: "database \<Rightarrow> SpaceId \<Rightarrow> hash list" where
  "most_recent db s =
     map ep_id (filter (\<lambda>e. ep_space e = s \<and>
       \<not> list_ex (\<lambda>o'. eo_parent o' = ep_id e \<and> eo_space o' = ep_space e) (epoch_orders db)) (epochs db))"

record space_order =
  so_seq :: int
  so_epoch :: hash
  so_parents :: "hash list"
  so_index :: "(hash \<times> int) list"

definition order_of ::
  "externals \<Rightarrow> database \<Rightarrow> SpaceId \<times> (hash \<times> Event) list \<Rightarrow> (TxError, SpaceId \<times> space_order) result" where
  "order_of X db se =
     (let parents = most_recent db (fst se)
      in rbind (map_err TxEncoding (epoch_hash X (fst se) (snd se) parents)) (\<lambda>epoch.
         Inr (fst se, \<lparr>so_seq = next_seq db (fst se), so_epoch = epoch, so_parents = parents,
                       so_index = map (\<lambda>(i, e). (fst e, int i)) (enumerate 0 (snd se))\<rparr>)))"

definition epoch_fk :: "database \<Rightarrow> epoch_row \<Rightarrow> bool" where
  "epoch_fk db e \<longleftrightarrow> ep_space e \<in> set (spaces db)"

definition epoch_ids :: "database \<Rightarrow> (hash \<times> SpaceId) set" where
  "epoch_ids db = (\<lambda>e. (ep_id e, ep_space e)) ` set (epochs db)"

definition epoch_order_fk :: "database \<Rightarrow> epoch_order_row \<Rightarrow> bool" where
  "epoch_order_fk db o' \<longleftrightarrow>
     (eo_parent o', eo_space o') \<in> epoch_ids db \<and> (eo_child o', eo_space o') \<in> epoch_ids db \<and>
     eo_space o' \<in> set (spaces db)"

definition event_order_fk :: "database \<Rightarrow> event_order_row \<Rightarrow> bool" where
  "event_order_fk db e \<longleftrightarrow> (ev_epoch e, ev_space e) \<in> epoch_ids db \<and> ev_space e \<in> set (spaces db)"

definition save_epochs :: "database \<Rightarrow> (SpaceId \<times> space_order) list \<Rightarrow> (TxError, database) result" where
  "save_epochs db orders =
     rbind (map_err EpochInsert (insert_rows (\<lambda>e. (ep_id e, ep_space e)) (epoch_fk db)
             (map (\<lambda>(s, o'). \<lparr>ep_seq = so_seq o', ep_id = so_epoch o', ep_space = s\<rparr>) orders) (epochs db))) (\<lambda>eps.
     let db = db\<lparr>epochs := eps\<rparr>
     in rbind (map_err TxDb (insert_rows (\<lambda>o'. (eo_parent o', eo_child o', eo_space o')) (epoch_order_fk db)
                (concat (map (\<lambda>(s, o'). map (\<lambda>p. \<lparr>eo_parent = p, eo_child = so_epoch o', eo_space = s\<rparr>)
                   (so_parents o')) orders)) (epoch_orders db))) (\<lambda>eos.
        let db = db\<lparr>epoch_orders := eos\<rparr>
        in rbind (map_err TxDb (insert_rows (\<lambda>e. (ev_epoch e, ev_epoch_seq e, ev_space e)) (event_order_fk db)
                   (concat (map (\<lambda>(s, o'). map (\<lambda>(h, i). \<lparr>ev_seq = so_seq o', ev_epoch = so_epoch o',
                      ev_epoch_seq = i, ev_event = h, ev_space = s\<rparr>) (so_index o')) orders))
                   (event_orders db))) (\<lambda>evs.
           Inr (db\<lparr>event_orders := evs\<rparr>))))"

section \<open>Processing\<close>

text \<open>The version of an operation: its space's order and the event's place in it.\<close>

definition version_op :: "(SpaceId \<times> space_order) list \<Rightarrow> hash \<Rightarrow> Operation \<Rightarrow> (TxError, VersionedOperation) result" where
  "version_op orders h op =
     (case map_of orders (op_space op) of
        None \<Rightarrow> Inl TxPanic
      | Some o' \<Rightarrow>
          (case map_of (so_index o') h of
             None \<Rightarrow> Inl TxPanic
           | Some i \<Rightarrow> Inr (op_version op (so_seq o') (so_epoch o') i)))"

fun process_event ::
  "externals \<Rightarrow> time \<Rightarrow> (SpaceId \<times> space_order) list option \<Rightarrow> database \<times> hash list \<Rightarrow> hash \<times> Event \<Rightarrow>
   (TxError, database \<times> hash list) result" where
  "process_event X now orders (db, cids) (h, EDelegation d) =
     rbind (map_err delegation_tx_error (delegation_process X now db d)) (\<lambda>(cid, db). Inr (db, cids @ [cid]))"
| "process_event X now orders (db, cids) (h, EInvocation i ops) =
     rbind (case orders of None \<Rightarrow> Inr [] | Some os \<Rightarrow> try_map (version_op os h) ops) (\<lambda>vops.
     rbind (map_err invocation_tx_error (invocation_process X now db i vops)) (\<lambda>(_, db). Inr (db, cids)))"
| "process_event X now orders (db, cids) (h, ERevocation r) =
     rbind (map_err revocation_tx_error (revocation_process X now db r)) (\<lambda>(_, db). Inr (db, cids))"

definition setup_space :: "externals \<Rightarrow> SpaceId \<Rightarrow> (TxError, unit) result" where
  "setup_space X s =
     (if \<not> storage_create_ok X (space_display s) then Inl StoreSetup
      else if \<not> save_keypair_ok X (space_display s) then Inl SecretsError
      else Inr ())"

definition commit_of :: "space_order \<Rightarrow> Commit" where
  "commit_of o' = \<lparr>commit_rev = so_epoch o', commit_seq = so_seq o',
     committed_events = map fst (so_index o'), consumed_epochs = so_parents o'\<rparr>"

definition transact ::
  "externals \<Rightarrow> time \<Rightarrow> database \<Rightarrow> Event list \<Rightarrow> (TxError, TransactResult \<times> database) result" where
  "transact X now db events =
     (let event_hashes = map (\<lambda>e. (event_hash X e, e)) events;
          all_spaces = event_spaces db event_hashes;
          new_spaces = dedup (concat (map event_new_spaces events));
          db = db\<lparr>spaces := insert_new_rows id new_spaces (spaces db)\<rparr>;
          exists = (\<lambda>s. s \<in> set new_spaces \<or> s \<in> set (spaces db));
          delegation_only = list_all is_delegation events
      in if \<not> delegation_only \<and> list_ex (\<lambda>se. \<not> exists (fst se)) all_spaces then Inl SpaceNotFound
         else
           (let kept = (if delegation_only then filter (\<lambda>se. exists (fst se)) all_spaces else all_spaces);
                skipped = (if delegation_only
                           then map fst (filter (\<lambda>se. \<not> exists (fst se)) all_spaces) else [])
            in if kept \<noteq> [] then
                 rbind (try_map (order_of X db) kept) (\<lambda>orders.
                 rbind (save_epochs db orders) (\<lambda>db.
                 rbind (try_fold (process_event X now (Some orders)) (db, []) event_hashes) (\<lambda>(db, cids).
                 rbind (try_all (setup_space X) new_spaces) (\<lambda>_.
                 Inr (\<lparr>commits = map (\<lambda>(s, o'). (s, commit_of o')) orders,
                       skipped_spaces = skipped, delegation_cids = cids\<rparr>, db)))))
               else
                 rbind (try_fold (process_event X now None) (db, []) event_hashes) (\<lambda>(db, cids).
                 rbind (try_all (setup_space X) new_spaces) (\<lambda>_.
                 Inr (\<lparr>commits = [], skipped_spaces = skipped, delegation_cids = cids\<rparr>, db)))))"


section \<open>Invariants of transactions\<close>

text \<open>The tables a transaction writes before it processes its events.\<close>

definition prepared :: "database \<Rightarrow> database \<Rightarrow> bool" where
  "prepared db db1 \<longleftrightarrow>
     (\<exists>sp ep eo ev. db1 = db\<lparr>spaces := sp, epochs := ep, epoch_orders := eo, event_orders := ev\<rparr>)"

lemma save_epochs_ok:
  assumes "save_epochs db orders = Inr db1"
  shows "db1 = db\<lparr>
    epochs := epochs db @ map (\<lambda>(s, o'). \<lparr>ep_seq = so_seq o', ep_id = so_epoch o', ep_space = s\<rparr>) orders,
    epoch_orders := epoch_orders db @ concat (map (\<lambda>(s, o'). map (\<lambda>p. \<lparr>eo_parent = p, eo_child = so_epoch o', eo_space = s\<rparr>)
      (so_parents o')) orders),
    event_orders := event_orders db @ concat (map (\<lambda>(s, o'). map (\<lambda>(h, i). \<lparr>ev_seq = so_seq o', ev_epoch = so_epoch o',
      ev_epoch_seq = i, ev_event = h, ev_space = s\<rparr>) (so_index o')) orders)\<rparr>"
  using assms by (auto simp: save_epochs_def Let_def dest!: insert_rows_appends)

text \<open>The database with the new spaces, where the epochs are computed.\<close>

definition with_spaces :: "database \<Rightarrow> Event list \<Rightarrow> database" where
  "with_spaces db events =
     db\<lparr>spaces := insert_new_rows id (dedup (concat (map event_new_spaces events))) (spaces db)\<rparr>"

abbreviation hashed :: "externals \<Rightarrow> Event list \<Rightarrow> (hash \<times> Event) list" where
  "hashed X events \<equiv> map (\<lambda>e. (event_hash X e, e)) events"

text \<open>The two ways a transaction succeeds: with epochs, or with no space to put an event in.\<close>

lemma transact_cases:
  assumes "transact X now db events = Inr (r, db')"
  obtains (kept) kept orders db1 where
      "kept \<noteq> []" "\<exists>P. kept = filter P (event_spaces db (hashed X events))"
      "\<not> list_all is_delegation events \<longrightarrow> kept = event_spaces db (hashed X events)"
      "try_map (order_of X (with_spaces db events)) kept = Inr orders"
      "save_epochs (with_spaces db events) orders = Inr db1"
      "try_fold (process_event X now (Some orders)) (db1, []) (hashed X events) = Inr (db', delegation_cids r)"
      "commits r = map (\<lambda>(s, o'). (s, commit_of o')) orders"
    | (none) "\<not> list_all is_delegation events \<longrightarrow> event_spaces db (hashed X events) = []"
      "try_fold (process_event X now None) (with_spaces db events, []) (hashed X events) = Inr (db', delegation_cids r)"
      "commits r = []"
proof -
  let ?all = "event_spaces db (hashed X events)" and ?db0 = "with_spaces db events"
  let ?exists = "\<lambda>s. s \<in> set (dedup (concat (map event_new_spaces events))) \<or> s \<in> set (spaces ?db0)"
  let ?only = "list_all is_delegation events"
  define kept where "kept = (if ?only then filter (\<lambda>se. ?exists (fst se)) ?all else ?all)"
  have sub: "\<exists>P. kept = filter P ?all"
    unfolding kept_def by (cases ?only) (auto intro: exI [of _ "\<lambda>_. True"])
  have notonly: "\<not> ?only \<longrightarrow> kept = ?all" by (simp add: kept_def)
  have "(kept \<noteq> [] \<and> (\<exists>orders db1. try_map (order_of X ?db0) kept = Inr orders \<and> save_epochs ?db0 orders = Inr db1 \<and>
        try_fold (process_event X now (Some orders)) (db1, []) (hashed X events) = Inr (db', delegation_cids r) \<and>
        commits r = map (\<lambda>(s, o'). (s, commit_of o')) orders)) \<or>
      (kept = [] \<and> try_fold (process_event X now None) (?db0, []) (hashed X events) = Inr (db', delegation_cids r) \<and>
        commits r = [])"
    using assms unfolding transact_def Let_def with_spaces_def [symmetric] kept_def
    by (auto split: if_splits prod.splits)
  then show ?thesis
  proof (elim disjE conjE exE)
    fix orders db1
    assume "kept \<noteq> []" "try_map (order_of X ?db0) kept = Inr orders" "save_epochs ?db0 orders = Inr db1"
      "try_fold (process_event X now (Some orders)) (db1, []) (hashed X events) = Inr (db', delegation_cids r)"
      "commits r = map (\<lambda>(s, o'). (s, commit_of o')) orders"
    with sub notonly show thesis by (intro kept)
  next
    assume "kept = []"
      "try_fold (process_event X now None) (?db0, []) (hashed X events) = Inr (db', delegation_cids r)"
      "commits r = []"
    with notonly show thesis by (intro none) simp_all
  qed
qed

lemma with_spaces_prepared: "prepared db (with_spaces db events)"
  unfolding prepared_def with_spaces_def
  by (intro exI [of _ "insert_new_rows id (dedup (concat (map event_new_spaces events))) (spaces db)"]
      exI [of _ "epochs db"] exI [of _ "epoch_orders db"] exI [of _ "event_orders db"]) simp

lemma save_epochs_prepared: "save_epochs (with_spaces db events) orders = Inr db1 \<Longrightarrow> prepared db db1"
  using save_epochs_ok [of "with_spaces db events" orders db1] by (auto simp: prepared_def with_spaces_def)

lemma transact_run:
  assumes "transact X now db events = Inr (r, db')"
  obtains db1 orders cids where "prepared db db1"
    "try_fold (process_event X now orders) (db1, []) (hashed X events) = Inr (db', cids)"
  using assms
proof (cases rule: transact_cases)
  case (kept kept orders db1)
  with that save_epochs_prepared show ?thesis by blast
next
  case none
  with that with_spaces_prepared show ?thesis by blast
qed

text \<open>
  What it takes for a property of the database to hold after every transaction: the epoch tables do
  not matter to it, and each kind of event keeps it.
\<close>

locale event_invariant =
  fixes X :: externals and P :: "database \<Rightarrow> bool"
  assumes keep_prepared: "prepared db db1 \<Longrightarrow> P db \<Longrightarrow> P db1"
    and keep_delegation: "delegation_process X now db (d, ser) = Inr (h, db') \<Longrightarrow> P db \<Longrightarrow> P db'"
    and keep_invocation: "invocation_process X now db (i, ser) vops = Inr (h, db') \<Longrightarrow> P db \<Longrightarrow> P db'"
    and keep_revocation: "revocation_process X now db (rv, ser) = Inr (h, db') \<Longrightarrow> P db \<Longrightarrow> P db'"
begin

lemma process_event_keeps:
  assumes "process_event X now orders st e = Inr st'" and "P (fst st)"
  shows "P (fst st')"
proof -
  obtain db cids where st: "st = (db, cids)" by (cases st)
  obtain h ev where e: "e = (h, ev)" by (cases e)
  show ?thesis
  proof (cases ev)
    case (EInvocation i ops)
    obtain ii ser where "i = (ii, ser)" by (cases i)
    with assms st e EInvocation show ?thesis by (auto intro: keep_invocation)
  next
    case (EDelegation d)
    obtain di ser where "d = (di, ser)" by (cases d)
    with assms st e EDelegation show ?thesis by (auto intro: keep_delegation)
  next
    case (ERevocation r)
    obtain ri ser where "r = (ri, ser)" by (cases r)
    with assms st e ERevocation show ?thesis by (auto intro: keep_revocation)
  qed
qed

lemma process_events_keep:
  assumes "try_fold (process_event X now orders) st evs = Inr st'" and "P (fst st)"
  shows "P (fst st')"
  using assms process_event_keeps by (rule try_fold_invariant)

lemma transact_keeps:
  assumes "transact X now db events = Inr (r, db')" and "P db"
  shows "P db'"
  using assms(1)
proof (rule transact_run)
  fix db1 orders cids
  assume "prepared db db1"
    and run: "try_fold (process_event X now orders) (db1, []) (hashed X events) = Inr (db', cids)"
  then have "P db1" using assms(2) keep_prepared by blast
  with process_events_keep [OF run] show "P db'" by simp
qed

end

lemma prepared_grows: "prepared db db1 \<Longrightarrow> authority_grows db db1 \<and> delegations db1 = delegations db \<and>
    abilities db1 = abilities db \<and> parent_delegations db1 = parent_delegations db \<and>
    revocations db1 = revocations db \<and> invocations db1 = invocations db \<and>
    kv_writes db1 = kv_writes db \<and> kv_deletes db1 = kv_deletes db"
  by (auto simp: prepared_def authority_grows_def)

text \<open>Authority rows are never lost.\<close>

interpretation grow: event_invariant X "authority_grows db0" for X db0
proof
  fix db db1 assume "prepared db db1" "authority_grows db0 db"
  then show "authority_grows db0 db1" using prepared_grows authority_grows_trans by blast
next
  fix now db d ser h db' assume "delegation_process X now db (d, ser) = Inr (h, db')" "authority_grows db0 db"
  then show "authority_grows db0 db'" using delegation_process_grows authority_grows_trans by blast
next
  fix now db i ser vops h db'
  assume "invocation_process X now db (i, ser) vops = Inr (h, db')" "authority_grows db0 db"
  then show "authority_grows db0 db'"
    using invocation_save_grows authority_grows_trans by (blast dest: invocation_process_ok [THEN iffD1])
next
  fix now db rv ser h db'
  assume "revocation_process X now db (rv, ser) = Inr (h, db')" "authority_grows db0 db"
  then show "authority_grows db0 db'" using revocation_process_grows authority_grows_trans by blast
qed

text \<open>Every stored ability stays grounded.\<close>

lemma abilities_grounded_mono:
  "authority_grows db db' \<Longrightarrow> abilities db' = abilities db \<Longrightarrow> abilities_grounded X db \<Longrightarrow> abilities_grounded X db'"
  using grounded_mono by (auto simp: abilities_grounded_def)

interpretation ground: event_invariant X "abilities_grounded X" for X
proof
  fix db db1 assume "prepared db db1" "abilities_grounded X db"
  then show "abilities_grounded X db1" using prepared_grows abilities_grounded_mono by blast
next
  fix now db d ser h db' assume "delegation_process X now db (d, ser) = Inr (h, db')" "abilities_grounded X db"
  then show "abilities_grounded X db'" by (rule delegation_process_grounded)
next
  fix now db i ser vops h db'
  assume "invocation_process X now db (i, ser) vops = Inr (h, db')" "abilities_grounded X db"
  then show "abilities_grounded X db'"
    using invocation_save_grows abilities_grounded_mono by (blast dest: invocation_process_ok [THEN iffD1])
next
  fix now db rv ser h db'
  assume "revocation_process X now db (rv, ser) = Inr (h, db')" "abilities_grounded X db"
  then show "abilities_grounded X db'" using revocation_process_grows abilities_grounded_mono by blast
qed

text \<open>Identifiers are unique, and what is revoked or cited as a parent is a delegation.\<close>

definition ids_ok :: "database \<Rightarrow> bool" where
  "ids_ok db \<longleftrightarrow>
     distinct (map d_id (delegations db)) \<and>
     (\<forall>r \<in> set (revocations db). revoked r \<in> d_id ` set (delegations db)) \<and>
     (\<forall>l \<in> set (parent_delegations db). pd_parent l \<in> d_id ` set (delegations db)) \<and>
     (\<forall>a \<in> set (abilities db). ab_delegation a \<in> d_id ` set (delegations db))"

lemma delegation_process_ids:
  assumes "delegation_process X now db (d, ser) = Inr (h, db')" and "ids_ok db"
  shows "ids_ok db'"
proof -
  have "delegation_save X db d ser = Inr (h, db')"
    using assms(1) by (simp add: delegation_process_ok)
  then show ?thesis
  proof (cases rule: delegation_save_cases)
    case known
    with assms(2) show ?thesis by (simp add: ids_ok_def)
  next
    case fresh
    with assms(2) show ?thesis
      by (auto simp: ids_ok_def new_delegation_row_def new_abilities_def new_links_def)
  qed
qed

lemma invocation_process_ids:
  assumes "invocation_process X now db (i, ser) vops = Inr (h, db')" and "ids_ok db"
  shows "ids_ok db'"
proof -
  have save: "invocation_save X db i now ser vops = Inr (h, db')"
    using assms(1) by (simp add: invocation_process_ok)
  then show ?thesis
  proof (cases rule: invocation_save_cases)
    case known
    with assms(2) show ?thesis by (simp add: ids_ok_def)
  next
    case (fresh db2)
    with save_operations_frame [OF fresh(3)] assms(2) show ?thesis
      by (auto simp: ids_ok_def same_but_kv_def same_but_deliveries_def recorded_def new_links_def)
  qed
qed

lemma revocation_process_ids:
  assumes "revocation_process X now db (r, ser) = Inr (h, db')" and "ids_ok db"
  shows "ids_ok db'"
  using assms(1)
proof (cases rule: revocation_process_cases)
  case (known d)
  with assms(2) show ?thesis by simp
next
  case (fresh d)
  from find_delegation_Some [OF fresh(1)] have "d_id d \<in> d_id ` set (delegations db)" by blast
  with assms(2) fresh(6,7) show ?thesis
    by (auto simp: ids_ok_def new_links_def)
qed

interpretation ids: event_invariant X ids_ok for X
proof
  fix db db1 assume "prepared db db1" "ids_ok db"
  then show "ids_ok db1" using prepared_grows [of db db1] by (simp add: ids_ok_def)
qed (fact delegation_process_ids invocation_process_ids revocation_process_ids)+

section \<open>Reachable databases\<close>

text \<open>
  What changes the database of a node: transactions, and the handlers of write hooks, which edit
  subscriptions and deliveries only and are left arbitrary.
\<close>

inductive node_step :: "externals \<Rightarrow> database \<Rightarrow> database \<Rightarrow> bool" for X where
  tx: "transact X now db events = Inr (r, db') \<Longrightarrow> node_step X db db'"
| hooks: "node_step X db (db\<lparr>hook_subscriptions := s, hook_deliveries := d\<rparr>)"

definition reachable :: "externals \<Rightarrow> database \<Rightarrow> bool" where
  "reachable X db \<longleftrightarrow> (node_step X)\<^sup>*\<^sup>* empty_db db"

text \<open>Invariants of a transition system, and their use on the databases of a node.\<close>

locale transition_invariant =
  fixes init :: 's and step :: "'s \<Rightarrow> 's \<Rightarrow> bool" and holds :: "'s \<Rightarrow> bool"
  assumes holds_init: "holds init"
    and holds_step: "step s s' \<Longrightarrow> holds s \<Longrightarrow> holds s'"
begin

lemma holds_steps: "step\<^sup>*\<^sup>* s s' \<Longrightarrow> holds s \<Longrightarrow> holds s'"
  by (induction rule: rtranclp_induct) (auto intro: holds_step)

lemma holds_reachable: "step\<^sup>*\<^sup>* init s \<Longrightarrow> holds s"
  using holds_steps holds_init by blast

end

lemma hooks_grow: "authority_grows db (db\<lparr>hook_subscriptions := s, hook_deliveries := d\<rparr>)"
  by (simp add: authority_grows_def)

interpretation grounded_db: transition_invariant empty_db "node_step X" "abilities_grounded X" for X
proof
  show "abilities_grounded X empty_db" by (simp add: empty_db_def abilities_grounded_def)
next
  fix s s' assume "node_step X s s'" "abilities_grounded X s"
  then show "abilities_grounded X s'"
    by cases (auto intro: ground.transact_keeps abilities_grounded_mono [OF hooks_grow])
qed

interpretation ids_db: transition_invariant empty_db "node_step X" ids_ok for X
proof
  show "ids_ok empty_db" by (simp add: empty_db_def ids_ok_def)
next
  fix s s' assume "node_step X s s'" "ids_ok s"
  then show "ids_ok s'"
    by cases (use ids.transact_keeps in blast, simp add: ids_ok_def)
qed

interpretation grows_db: transition_invariant db0 "node_step X" "authority_grows db0" for X db0
proof
  fix s s' assume "node_step X s s'" "authority_grows db0 s"
  then show "authority_grows db0 s'"
    by cases (use grow.transact_keeps in blast, use hooks_grow authority_grows_trans in blast)
qed simp

lemma reachable_grounded: "reachable X db \<Longrightarrow> abilities_grounded X db"
  unfolding reachable_def by (rule grounded_db.holds_reachable)

lemma reachable_ids_ok: "reachable X db \<Longrightarrow> ids_ok db"
  unfolding reachable_def by (rule ids_db.holds_reachable)

lemma steps_grow: "(node_step X)\<^sup>*\<^sup>* db db' \<Longrightarrow> authority_grows db db'"
  by (rule grows_db.holds_reachable)

lemma reachable_tx:
  "reachable X db \<Longrightarrow> transact X now db events = Inr (r, db') \<Longrightarrow> reachable X db'"
  unfolding reachable_def by (rule rtranclp.rtrancl_into_rtrancl) (auto intro: node_step.tx)

end
