(* ===== verification/Kv_History.thy ===== *)
theory Kv_History
  imports Transact
begin

text \<open>
  The key-value store that clients see is a map from space and key to a value with metadata; the
  tables are a history of versions with deletion marks. This theory has the invariant of the
  history, which every transaction keeps, and the refinement: the operations of an invocation act
  on the tables as updates of the map.
\<close>

section \<open>The invariant of the history\<close>

definition write_key :: "kv_write_row \<Rightarrow> SpaceId \<times> Path \<times> hash" where
  "write_key w = (kw_space w, kw_key w, kw_invocation w)"

text \<open>The event that a write belongs to.\<close>

definition write_event :: "kv_write_row \<Rightarrow> event_order_row" where
  "write_event w = \<lparr>ev_seq = kw_seq w, ev_epoch = kw_epoch w, ev_epoch_seq = kw_epoch_seq w,
     ev_event = kw_invocation w, ev_space = kw_space w\<rparr>"

definition event_key :: "event_order_row \<Rightarrow> hash \<times> int \<times> SpaceId" where
  "event_key e = (ev_epoch e, ev_epoch_seq e, ev_space e)"

definition events_ok :: "event_order_row list \<Rightarrow> bool" where
  "events_ok evs \<longleftrightarrow> distinct (map event_key evs) \<and> (\<forall>e \<in> set evs. multihash_code (ev_epoch e) = 30)"

definition kv_ok :: "database \<Rightarrow> bool" where
  "kv_ok db \<longleftrightarrow> events_ok (event_orders db) \<and>
     distinct (map write_key (kv_writes db)) \<and>
     (\<forall>w \<in> set (kv_writes db). kw_invocation w \<in> i_id ` set (invocations db) \<and>
        write_event w \<in> set (event_orders db)) \<and>
     (\<forall>d \<in> set (kv_deletes db). (kd_space d, kd_key d, kd_deleted d) \<in> write_key ` set (kv_writes db))"

lemma distinct_map_eq: "distinct (map f xs) \<Longrightarrow> x \<in> set xs \<Longrightarrow> y \<in> set xs \<Longrightarrow> f x = f y \<Longrightarrow> x = y"
  by (auto simp: distinct_map inj_on_def)

lemma kv_ok_blake3: "kv_ok db \<Longrightarrow> blake3_epochs db"
  by (fastforce simp: kv_ok_def events_ok_def blake3_epochs_def write_event_def)

lemma kv_ok_versions_unique:
  assumes "kv_ok db"
  shows "versions_unique db"
  unfolding versions_unique_def
proof (intro ballI impI, elim conjE)
  fix v w assume vw: "v \<in> set (kv_writes db)" "w \<in> set (kv_writes db)"
    and same: "kw_space v = kw_space w" "kw_key v = kw_key w" "kv_version v = kv_version w"
  have "kw_epoch v = kw_epoch w"
    using kv_ok_blake3 [OF assms] vw same(3) by (auto simp: blake3_epochs_def kv_version_def intro: hash.expand)
  with same have "event_key (write_event v) = event_key (write_event w)"
    by (simp add: event_key_def write_event_def kv_version_def)
  moreover have "write_event v \<in> set (event_orders db)" "write_event w \<in> set (event_orders db)"
    and "distinct (map event_key (event_orders db))"
    using assms vw by (auto simp: kv_ok_def events_ok_def)
  ultimately have "write_event v = write_event w" by (metis distinct_map_eq)
  with same have "write_key v = write_key w" by (simp add: write_event_def write_key_def)
  with assms vw show "v = w" by (auto simp: kv_ok_def intro: distinct_map_eq)
qed

section \<open>Operations keep it\<close>

text \<open>An operation carries the version of its event.\<close>

fun versioned :: "event_order_row list \<Rightarrow> hash \<Rightarrow> VersionedOperation \<Rightarrow> bool" where
  "versioned evs h (VKvWrite s k v m sq ep es) \<longleftrightarrow>
     \<lparr>ev_seq = sq, ev_epoch = ep, ev_epoch_seq = es, ev_event = h, ev_space = s\<rparr> \<in> set evs"
| "versioned evs h (VKvDelete s k ver sq ep es) \<longleftrightarrow> True"

lemma insert_row_ok: "insert_row key fk r t = Inr t' \<longleftrightarrow> fk r \<and> key r \<notin> key ` set t \<and> t' = t @ [r]"
  by (auto simp: insert_row_def)

lemma save_write_ok:
  assumes "save_operation h db (VKvWrite s k v m sq ep es) = Inr db'"
  shows "(s, k, h) \<notin> write_key ` set (kv_writes db) \<and> h \<in> i_id ` set (invocations db) \<and>
    db' = db\<lparr>kv_writes := kv_writes db @ [\<lparr>kw_space = s, kw_key = k, kw_invocation = h, kw_seq = sq,
      kw_epoch = ep, kw_epoch_seq = es, kw_value = v, kw_metadata = m\<rparr>]\<rparr>"
  using assms by (auto simp: insert_row_ok write_key_def [abs_def] kv_write_fk_def)

lemma save_delete_ok:
  assumes "save_operation h db (VKvDelete s k ver sq ep es) = Inr db'"
  shows "\<exists>w. deleted_write db s k ver = Some w \<and> h \<in> i_id ` set (invocations db) \<and>
    (s, k, kw_invocation w) \<in> write_key ` set (kv_writes db) \<and>
    db' = db\<lparr>kv_deletes := kv_deletes db @ [\<lparr>kd_invocation = h, kd_space = s, kd_key = k,
      kd_deleted = kw_invocation w\<rparr>]\<rparr>"
  using assms by (force simp: insert_row_ok kv_delete_fk_def write_key_def)

lemma save_operation_kv_ok:
  assumes "save_operation h db op = Inr db'" and "kv_ok db" and "versioned (event_orders db) h op"
  shows "kv_ok db'"
proof (cases op)
  case (VKvWrite s k v m sq ep es)
  note ok = save_write_ok [OF assms(1) [unfolded VKvWrite]]
  show ?thesis
    using assms(2,3) VKvWrite ok by (auto simp: kv_ok_def write_key_def write_event_def)
next
  case (VKvDelete s k ver sq ep es)
  from save_delete_ok [OF assms(1) [unfolded VKvDelete]] assms(2) show ?thesis
    by (auto simp: kv_ok_def)
qed

lemma save_operations_kv_ok:
  assumes "try_fold (save_operation h) db ops = Inr db'" and "kv_ok db"
    and "\<forall>op \<in> set ops. versioned (event_orders db) h op"
  shows "kv_ok db'"
proof -
  have "kv_ok db' \<and> same_but_kv db db'"
    using assms(1)
  proof (rule try_fold_invariant)
    show "kv_ok db \<and> same_but_kv db db" using assms(2) same_but_kv_refl by simp
    fix s x s' assume x: "x \<in> set ops" and s: "kv_ok s \<and> same_but_kv db s" and step: "save_operation h s x = Inr s'"
    from s have "event_orders s = event_orders db" by (auto simp: same_but_kv_def)
    with x assms(3) have "versioned (event_orders s) h x" by simp
    with s step show "kv_ok s' \<and> same_but_kv db s'"
      using save_operation_kv_ok save_operation_frame by blast
  qed
  then show ?thesis by simp
qed

lemma kv_ok_more:
  assumes "kv_ok db" and "set (invocations db) \<subseteq> set (invocations db')"
    and "event_orders db' = event_orders db" "kv_writes db' = kv_writes db" "kv_deletes db' = kv_deletes db"
  shows "kv_ok db'"
  using assms image_mono [OF assms(2), of i_id] unfolding kv_ok_def by auto

lemma recorded_tables:
  "set (invocations (recorded X db i t ser)) = insert (new_invocation_row X i t ser) (set (invocations db))"
  "event_orders (recorded X db i t ser) = event_orders db"
  "kv_writes (recorded X db i t ser) = kv_writes db"
  "kv_deletes (recorded X db i t ser) = kv_deletes db"
  by (simp_all add: recorded_def)

lemma same_but_deliveries_tables:
  assumes "same_but_deliveries db db'"
  shows "invocations db' = invocations db" "event_orders db' = event_orders db"
    "kv_writes db' = kv_writes db" "kv_deletes db' = kv_deletes db"
  using assms by (auto simp: same_but_deliveries_def)

lemma invocation_save_kv_ok:
  assumes "invocation_save X db i t ser ops = Inr (h, db')" and "kv_ok db"
    and "\<forall>op \<in> set ops. versioned (event_orders db) (hash_bytes X ser) op"
  shows "kv_ok db'"
  using assms(1)
proof (cases rule: invocation_save_cases)
  case known
  with assms(2) show ?thesis by (auto intro: kv_ok_more)
next
  case (fresh db2)
  have "kv_ok (recorded X db i t ser)"
    using assms(2) by (rule kv_ok_more) (auto simp: recorded_tables)
  then have "kv_ok db2"
    using save_operations_kv_ok [OF fresh(3)] assms(3) fresh(1) by (simp add: recorded_tables)
  then show ?thesis
    using same_but_deliveries_tables [OF fresh(4)] by (auto intro: kv_ok_more)
qed


section \<open>Transactions keep it\<close>

text \<open>What the epochs of a transaction give its events.\<close>

definition order_events :: "(SpaceId \<times> space_order) list \<Rightarrow> event_order_row list" where
  "order_events orders = concat (map (\<lambda>(s, o'). map (\<lambda>(h, i). \<lparr>ev_seq = so_seq o', ev_epoch = so_epoch o',
      ev_epoch_seq = i, ev_event = h, ev_space = s\<rparr>) (so_index o')) orders)"

lemma order_of_ok:
  assumes "order_of X db se = Inr (s, o')"
  shows "s = fst se \<and> so_seq o' = next_seq db s \<and> so_parents o' = most_recent db s \<and>
    multihash_code (so_epoch o') = 30 \<and>
    so_index o' = map (\<lambda>(i, e). (fst e, int i)) (enumerate 0 (snd se))"
  using assms by (auto simp: order_of_def Let_def epoch_hash_def hash_bytes_def)

lemma orders_ok:
  assumes "try_map (order_of X db) kept = Inr orders" and "(s, o') \<in> set orders"
  shows "\<exists>se \<in> set kept. s = fst se \<and> so_seq o' = next_seq db s \<and> so_parents o' = most_recent db s \<and>
    multihash_code (so_epoch o') = 30 \<and>
    so_index o' = map (\<lambda>(i, e). (fst e, int i)) (enumerate 0 (snd se))"
  using try_map_Inr_set [OF assms] order_of_ok by blast

lemma version_op_versioned:
  assumes "version_op orders h op = Inr vop" and "set (order_events orders) \<subseteq> set evs"
  shows "versioned evs h vop"
proof -
  from assms(1) obtain o' i where "map_of orders (op_space op) = Some o'" "map_of (so_index o') h = Some i"
    and vop: "vop = op_version op (so_seq o') (so_epoch o') i"
    by (auto simp: version_op_def split: option.splits)
  then have "(op_space op, o') \<in> set orders" "(h, i) \<in> set (so_index o')"
    by (auto dest: map_of_SomeD)
  then have "\<lparr>ev_seq = so_seq o', ev_epoch = so_epoch o', ev_epoch_seq = i, ev_event = h,
      ev_space = op_space op\<rparr> \<in> set (order_events orders)"
    unfolding order_events_def by force
  with assms(2) vop show ?thesis by (cases op) auto
qed

lemma save_epochs_events:
  assumes "save_epochs db orders = Inr db1"
  shows "event_orders db1 = event_orders db @ order_events orders"
    and "distinct (map event_key (event_orders db)) \<Longrightarrow> distinct (map event_key (event_orders db1))"
proof -
  show "event_orders db1 = event_orders db @ order_events orders"
    using save_epochs_ok [OF assms] by (simp add: order_events_def)
  show "distinct (map event_key (event_orders db)) \<Longrightarrow> distinct (map event_key (event_orders db1))"
    using assms insert_rows_unique [of event_key]
    by (auto simp: save_epochs_def Let_def event_key_def [abs_def])
qed

text \<open>Processing an event keeps the order of events, and the invariant with it.\<close>

lemma process_event_kv_ok:
  assumes "process_event X now orders (db, cids) (h, ev) = Inr (db', cids')" and "kv_ok db"
    and "h = event_hash X ev"
    and "\<And>os. orders = Some os \<Longrightarrow> set (order_events os) \<subseteq> set (event_orders db)"
  shows "kv_ok db' \<and> event_orders db' = event_orders db"
proof (cases ev)
  case (EInvocation i ops)
  obtain ii ser where i: "i = (ii, ser)" by (cases i)
  from assms(1) obtain vops h' where
    vops: "(case orders of None \<Rightarrow> Inr [] | Some os \<Rightarrow> try_map (version_op os h) ops) = Inr vops"
    and proc: "invocation_process X now db (ii, ser) vops = Inr (h', db')"
    by (auto simp: EInvocation i)
  then have save: "invocation_save X db ii now ser vops = Inr (h', db')"
    by (simp add: invocation_process_ok)
  have "\<forall>op \<in> set vops. versioned (event_orders db) h op"
    using vops assms(4) try_map_Inr_set version_op_versioned by (fastforce split: option.splits)
  with assms(2,3) save show ?thesis
    using invocation_save_kv_ok [OF save] invocation_save_grows [OF save] by (simp add: EInvocation i)
next
  case (EDelegation d)
  obtain di ser where d: "d = (di, ser)" by (cases d)
  with assms(1) obtain h' where "delegation_save X db di ser = Inr (h', db')"
    by (auto simp: EDelegation delegation_process_ok)
  then show ?thesis
    by (cases rule: delegation_save_cases) (use assms(2) in \<open>auto intro: kv_ok_more\<close>)
next
  case (ERevocation r)
  obtain ri ser where r: "r = (ri, ser)" by (cases r)
  with assms(1) obtain h' where proc: "revocation_process X now db (ri, ser) = Inr (h', db')"
    by (auto simp: ERevocation)
  note tabs = revocation_process_grows [OF proc]
  from assms(2) have "kv_ok db'" by (rule kv_ok_more) (use tabs in simp_all)
  with tabs show ?thesis by simp
qed

lemma process_events_kv_ok:
  assumes "try_fold (process_event X now orders) (db, []) (hashed X events) = Inr (db', cids)" and "kv_ok db"
    and "\<And>os. orders = Some os \<Longrightarrow> set (order_events os) \<subseteq> set (event_orders db)"
  shows "kv_ok db'"
proof -
  have "kv_ok (fst (db', cids)) \<and> event_orders (fst (db', cids)) = event_orders db"
    using assms(1)
  proof (rule try_fold_invariant)
    show "kv_ok (fst (db, [])) \<and> event_orders (fst (db, [])) = event_orders db" using assms(2) by simp
    fix st x st' assume x: "x \<in> set (hashed X events)"
      and st: "kv_ok (fst st) \<and> event_orders (fst st) = event_orders db"
      and step: "process_event X now orders st x = Inr st'"
    obtain d c where stc: "st = (d, c)" by (cases st)
    obtain d' c' where stc': "st' = (d', c')" by (cases st')
    from x obtain ev where xe: "x = (event_hash X ev, ev)" by auto
    show "kv_ok (fst st') \<and> event_orders (fst st') = event_orders db"
      using process_event_kv_ok [OF step [unfolded stc stc' xe] _ refl] st assms(3) by (simp add: stc stc')
  qed
  then show ?thesis by simp
qed

lemma kv_ok_with_spaces: "kv_ok db \<Longrightarrow> kv_ok (with_spaces db events)"
  by (rule kv_ok_more) (simp_all add: with_spaces_def)

lemma save_epochs_kv_ok:
  assumes "try_map (order_of X db) kept = Inr orders" and "save_epochs db orders = Inr db1" and "kv_ok db"
  shows "kv_ok db1"
proof -
  have "\<forall>e \<in> set (order_events orders). multihash_code (ev_epoch e) = 30"
    using orders_ok [OF assms(1)] by (fastforce simp: order_events_def)
  then have "events_ok (event_orders db1)"
    using assms(3) save_epochs_events [OF assms(2)] by (auto simp: kv_ok_def events_ok_def)
  moreover have "set (event_orders db) \<subseteq> set (event_orders db1)"
    using save_epochs_events(1) [OF assms(2)] by simp
  moreover have "invocations db1 = invocations db" "kv_writes db1 = kv_writes db" "kv_deletes db1 = kv_deletes db"
    using save_epochs_ok [OF assms(2)] by simp_all
  ultimately show ?thesis
    using assms(3) by (auto simp: kv_ok_def)
qed

lemma transact_kv_ok:
  assumes "transact X now db events = Inr (r, db')" and "kv_ok db"
  shows "kv_ok db'"
  using assms(1)
proof (cases rule: transact_cases)
  case (kept kept orders db1)
  have "kv_ok db1"
    using kept(4,5) kv_ok_with_spaces [OF assms(2)] by (rule save_epochs_kv_ok)
  with kept(6) show ?thesis
    using save_epochs_events(1) [OF kept(5)] by (auto intro: process_events_kv_ok)
next
  case none
  with kv_ok_with_spaces [OF assms(2)] show ?thesis by (auto intro: process_events_kv_ok)
qed

interpretation kv_db: transition_invariant empty_db "node_step X" kv_ok for X
proof
  show "kv_ok empty_db" by (simp add: kv_ok_def events_ok_def empty_db_def)
next
  fix s s' assume "node_step X s s'" "kv_ok s"
  then show "kv_ok s'"
    by cases (auto intro: transact_kv_ok kv_ok_more)
qed

lemma reachable_kv_ok: "reachable X db \<Longrightarrow> kv_ok db"
  unfolding reachable_def by (rule kv_db.holds_reachable)


section \<open>The map that clients see\<close>

type_synonym kv_map = "SpaceId \<times> Path \<Rightarrow> (hash \<times> Metadata) option"

definition kv_view :: "database \<Rightarrow> kv_map" where
  "kv_view db = (\<lambda>(s, k). map_option (\<lambda>w. (kw_value w, kw_metadata w)) (get_kv_entity db s k))"

text \<open>The specification of an operation: an update of the map.\<close>

fun apply_op :: "Operation \<Rightarrow> kv_map \<Rightarrow> kv_map" where
  "apply_op (KvWrite s k v m) f = f((s, k) := Some (v, m))"
| "apply_op (KvDelete s k ver) f = f((s, k) := None)"

fun apply_vop :: "VersionedOperation \<Rightarrow> kv_map \<Rightarrow> kv_map" where
  "apply_vop (VKvWrite s k v m sq ep es) f = f((s, k) := Some (v, m))"
| "apply_vop (VKvDelete s k ver sq ep es) f = f((s, k) := None)"

text \<open>A delete of the current version, whichever it is.\<close>

fun deletes_current :: "Operation \<Rightarrow> bool" where
  "deletes_current (KvWrite s k v m) = True"
| "deletes_current (KvDelete s k ver) = (ver = None)"

fun vop_deletes_current :: "VersionedOperation \<Rightarrow> bool" where
  "vop_deletes_current (VKvWrite s k v m sq ep es) = True"
| "vop_deletes_current (VKvDelete s k ver sq ep es) = (ver = None)"

fun vop_seq :: "VersionedOperation \<Rightarrow> int" where
  "vop_seq (VKvWrite s k v m sq ep es) = sq"
| "vop_seq (VKvDelete s k ver sq ep es) = sq"

lemma get_kv_entity_cong:
  assumes "kv_rows db' s k = kv_rows db s k"
    and "\<And>w. w \<in> set (kv_rows db s k) \<Longrightarrow> write_deleted db' w = write_deleted db w"
  shows "get_kv_entity db' s k = get_kv_entity db s k"
proof -
  have eq: "latest_write db' s k = latest_write db s k" using assms(1) by (simp add: latest_write_def)
  show ?thesis
  proof (cases "latest_write db s k")
    case None
    with eq show ?thesis by (simp add: get_kv_entity_def)
  next
    case (Some w)
    then have "w \<in> set (kv_rows db s k)" using latest_write_Some(1-3) [OF Some] by (simp add: set_kv_rows)
    with assms(2) eq Some show ?thesis by (simp add: get_kv_entity_def)
  qed
qed

lemma kv_view_update:
  assumes "get_kv_entity db' s k = e"
    and "\<And>s' k'. (s', k') \<noteq> (s, k) \<Longrightarrow> get_kv_entity db' s' k' = get_kv_entity db s' k'"
  shows "kv_view db' = (kv_view db)((s, k) := map_option (\<lambda>w. (kw_value w, kw_metadata w)) e)"
proof
  fix sk :: "SpaceId \<times> Path"
  obtain s' k' where sk: "sk = (s', k')" by (cases sk)
  show "kv_view db' sk = ((kv_view db)((s, k) := map_option (\<lambda>w. (kw_value w, kw_metadata w)) e)) sk"
    using assms by (cases "(s', k') = (s, k)") (auto simp: sk kv_view_def)
qed

lemma kv_view_write:
  assumes "save_operation h db (VKvWrite s k v m sq ep es) = Inr db'" and "kv_ok db"
    and "versioned (event_orders db) h (VKvWrite s k v m sq ep es)"
    and "\<And>w. w \<in> set (kv_rows db s k) \<Longrightarrow> kw_seq w < sq"
  shows "kv_view db' = (kv_view db)((s, k) := Some (v, m))"
proof -
  let ?new = "\<lparr>kw_space = s, kw_key = k, kw_invocation = h, kw_seq = sq, kw_epoch = ep, kw_epoch_seq = es,
    kw_value = v, kw_metadata = m\<rparr>"
  have free: "(s, k, h) \<notin> write_key ` set (kv_writes db)"
    and db': "db' = db\<lparr>kv_writes := kv_writes db @ [?new]\<rparr>"
    using save_write_ok [OF assms(1)] by simp_all
  have "kv_ok db'" using assms(1-3) by (rule save_operation_kv_ok)
  then have unique: "versions_unique db'" by (rule kv_ok_versions_unique)
  have "latest_write db' s k = Some ?new"
  proof (rule latest_write_eq [OF unique])
    show "?new \<in> set (kv_rows db' s k)" by (simp add: db' set_kv_rows)
    fix w assume "w \<in> set (kv_rows db' s k)"
    then have "w = ?new \<or> kw_seq w < sq" using assms(4) by (auto simp: db' set_kv_rows)
    then show "kv_version w \<le> kv_version ?new" by (auto simp: kv_version_def less_eq_prod_simp)
  qed
  moreover have "\<not> write_deleted db' ?new"
    using assms(2) free by (fastforce simp: write_deleted_def list_ex_iff db' kv_ok_def)
  ultimately have new: "get_kv_entity db' s k = Some ?new" by (simp add: get_kv_entity_def)
  have other: "get_kv_entity db' s' k' = get_kv_entity db s' k'" if "(s', k') \<noteq> (s, k)" for s' k'
    by (rule get_kv_entity_cong) (use that in \<open>auto simp: db' kv_rows_def write_deleted_def\<close>)
  show ?thesis
    using kv_view_update [OF new other] by simp
qed

lemma kv_view_delete:
  assumes "save_operation h db (VKvDelete s k None sq ep es) = Inr db'"
  shows "kv_view db' = (kv_view db)((s, k) := None)"
proof -
  from save_delete_ok [OF assms] obtain w where w: "latest_write db s k = Some w"
    and db': "db' = db\<lparr>kv_deletes := kv_deletes db @ [\<lparr>kd_invocation = h, kd_space = s, kd_key = k,
      kd_deleted = kw_invocation w\<rparr>]\<rparr>"
    by (auto simp: deleted_write_def)
  have "latest_write db' s k = Some w" using w by (simp add: db' latest_write_def kv_rows_def)
  moreover have "write_deleted db' w"
    using latest_write_Some(2,3) [OF w] by (simp add: db' write_deleted_def)
  ultimately have gone: "get_kv_entity db' s k = None" by (simp add: get_kv_entity_def)
  have other: "get_kv_entity db' s' k' = get_kv_entity db s' k'" if "(s', k') \<noteq> (s, k)" for s' k'
    by (rule get_kv_entity_cong) (use that in \<open>auto simp: db' kv_rows_def write_deleted_def\<close>)
  show ?thesis
    using kv_view_update [OF gone other] by simp
qed

text \<open>Writes from before the invocation have smaller sequence numbers than the new ones.\<close>

definition older :: "(SpaceId \<Rightarrow> int) \<Rightarrow> hash \<Rightarrow> database \<Rightarrow> bool" where
  "older N h db \<longleftrightarrow> (\<forall>w \<in> set (kv_writes db). kw_invocation w = h \<or> kw_seq w < N (kw_space w))"

lemma save_operation_view:
  assumes "save_operation h db op = Inr db'" and "kv_ok db" and "versioned (event_orders db) h op"
    and "vop_deletes_current op" and "vop_seq op = N (vop_space op)" and "older N h db"
  shows "kv_view db' = apply_vop op (kv_view db) \<and> older N h db'"
proof (cases op)
  case (VKvWrite s k v m sq ep es)
  note ok = save_write_ok [OF assms(1) [unfolded VKvWrite]]
  have "kw_seq w < sq" if "w \<in> set (kv_rows db s k)" for w
    using that assms(5,6) ok VKvWrite by (force simp: older_def set_kv_rows write_key_def)
  then have "kv_view db' = (kv_view db)((s, k) := Some (v, m))"
    using assms(1-3) unfolding VKvWrite by (intro kv_view_write) auto
  moreover have "older N h db'" using assms(6) ok by (auto simp: older_def)
  ultimately show ?thesis by (simp add: VKvWrite)
next
  case (VKvDelete s k ver sq ep es)
  with assms(4) have ver: "ver = None" by simp
  from save_delete_ok [OF assms(1) [unfolded VKvDelete]] assms(6) have "older N h db'"
    by (auto simp: older_def)
  with kv_view_delete assms(1) ver show ?thesis by (auto simp: VKvDelete)
qed

lemma save_operations_view:
  assumes "try_fold (save_operation h) db vops = Inr db'" and "kv_ok db" and "older N h db"
    and "\<forall>op \<in> set vops. versioned (event_orders db) h op \<and> vop_deletes_current op \<and> vop_seq op = N (vop_space op)"
  shows "kv_view db' = fold apply_vop vops (kv_view db)"
  using assms
proof (induction vops arbitrary: db)
  case Nil
  then show ?case by simp
next
  case (Cons op vops)
  then obtain db1 where step: "save_operation h db op = Inr db1"
    and rest: "try_fold (save_operation h) db1 vops = Inr db'"
    by (auto split: sum.splits)
  have view: "kv_view db1 = apply_vop op (kv_view db)" "older N h db1"
    using save_operation_view [OF step] Cons.prems by auto
  have "kv_ok db1" using save_operation_kv_ok [OF step] Cons.prems by simp
  moreover have "event_orders db1 = event_orders db"
    using save_operation_frame [OF step same_but_kv_refl] by (auto simp: same_but_kv_def)
  ultimately show ?case
    using Cons.IH [OF rest] Cons.prems(4) view by simp
qed


section \<open>An invocation acts as updates of the map\<close>

lemma fold_max_ge: "(x::int) \<le> fold max xs x" "y \<in> set xs \<Longrightarrow> y \<le> fold max xs x"
proof -
  have *: "x \<le> fold max xs x \<and> (\<forall>y \<in> set xs. y \<le> fold max xs x)" for x
    by (induction xs arbitrary: x) (auto simp: max.coboundedI1 max_def split: if_splits, fastforce+)
  from * show "x \<le> fold max xs x" "y \<in> set xs \<Longrightarrow> y \<le> fold max xs x" by blast+
qed

lemma next_seq_greater:
  assumes "e \<in> set (event_orders db)"
  shows "ev_seq e < next_seq db (ev_space e)"
proof -
  let ?xs = "map ev_seq (filter (\<lambda>e'. ev_space e' = ev_space e) (event_orders db))"
  have mem: "ev_seq e \<in> set ?xs" using assms by auto
  show ?thesis
  proof (cases ?xs)
    case Nil
    with mem show ?thesis by simp
  next
    case (Cons x xs)
    with mem have "ev_seq e = x \<or> ev_seq e \<in> set xs" by simp
    then have "ev_seq e \<le> fold max xs x" using fold_max_ge by blast
    with Cons show ?thesis by (simp add: next_seq_def)
  qed
qed

lemma next_seq_with_spaces [simp]: "next_seq (with_spaces db events) = next_seq db"
  by (rule ext) (simp add: next_seq_def with_spaces_def)

lemma kv_ok_older:
  assumes "kv_ok db"
  shows "older (next_seq db) h db"
  unfolding older_def
proof
  fix w assume "w \<in> set (kv_writes db)"
  with assms have "write_event w \<in> set (event_orders db)" by (simp add: kv_ok_def)
  from next_seq_greater [OF this] show "kw_invocation w = h \<or> kw_seq w < next_seq db (kw_space w)"
    by (simp add: write_event_def)
qed

lemma apply_vop_version [simp]: "apply_vop (op_version op sq ep es) = apply_op op"
  by (cases op) auto

lemma version_ops:
  assumes "try_map (version_op orders h) ops = Inr vops"
    and "\<And>s o'. (s, o') \<in> set orders \<Longrightarrow> so_seq o' = N s"
  shows "fold apply_vop vops = fold apply_op ops \<and>
    (\<forall>vop \<in> set vops. vop_seq vop = N (vop_space vop)) \<and>
    (list_all deletes_current ops \<longrightarrow> list_all vop_deletes_current vops)"
  using assms(1)
proof (induction ops arbitrary: vops)
  case Nil
  then show ?case by simp
next
  case (Cons op ops)
  then obtain vop vops' where vop: "version_op orders h op = Inr vop"
    and rest: "try_map (version_op orders h) ops = Inr vops'" and vops: "vops = vop # vops'"
    by (auto split: sum.splits)
  from vop obtain o' i where o': "map_of orders (op_space op) = Some o'"
    and v: "vop = op_version op (so_seq o') (so_epoch o') i"
    by (auto simp: version_op_def split: option.splits)
  have "so_seq o' = N (op_space op)" using assms(2) map_of_SomeD [OF o'] .
  then have "vop_seq vop = N (vop_space vop)" "deletes_current op \<longrightarrow> vop_deletes_current vop"
    by (cases op; simp add: v)+
  with Cons.IH [OF rest] show ?case by (simp add: vops v)
qed

lemma kv_view_same_tables:
  "kv_writes db' = kv_writes db \<Longrightarrow> kv_deletes db' = kv_deletes db \<Longrightarrow> kv_view db' = kv_view db"
  unfolding kv_view_def by (auto simp: fun_eq_iff kv_rows_def write_deleted_def intro!: arg_cong [where f = "map_option _"] get_kv_entity_cong)

lemma keys_add_event: "fst ` set (add_event e s m) = insert s (fst ` set m)"
  by (induction e s m rule: add_event.induct) auto

lemma keys_add_events: "fst ` set (fold (add_event e) ss m) = set ss \<union> fst ` set m"
  by (induction ss arbitrary: m) (auto simp: keys_add_event)

lemma keys_event_spaces:
  "fst ` set (event_spaces db evs) = (\<Union>e \<in> set evs. set (spaces_of_event db (map snd evs) (snd e)))"
proof -
  have "fst ` set (fold (\<lambda>e m. fold (add_event e) (f e) m) es m) = (\<Union>e \<in> set es. set (f e)) \<union> fst ` set m"
    for f and es :: "(hash \<times> Event) list" and m
    by (induction es arbitrary: m) (auto simp: keys_add_events)
  then show ?thesis unfolding event_spaces_def by simp
qed

lemma invocation_save_refines:
  assumes "invocation_save X db i t ser vops = Inr (h, db')" and "kv_ok db"
    and "hash_bytes X ser \<notin> i_id ` set (invocations db)" and "older N (hash_bytes X ser) db"
    and "\<forall>op \<in> set vops. versioned (event_orders db) (hash_bytes X ser) op \<and> vop_deletes_current op \<and>
      vop_seq op = N (vop_space op)"
  shows "kv_view db' = fold apply_vop vops (kv_view db)"
  using assms(1)
proof (cases rule: invocation_save_cases)
  case known
  with assms(3) show ?thesis by simp
next
  case (fresh db2)
  have "kv_ok (recorded X db i t ser)"
    using assms(2) by (rule kv_ok_more) (auto simp: recorded_tables)
  moreover have "older N h (recorded X db i t ser)"
    using assms(4) fresh(1) by (simp add: older_def recorded_tables)
  ultimately have "kv_view db2 = fold apply_vop vops (kv_view (recorded X db i t ser))"
    using save_operations_view [OF fresh(3)] assms(5) fresh(1) by (simp add: recorded_tables)
  moreover have "kv_view (recorded X db i t ser) = kv_view db"
    by (rule kv_view_same_tables) (simp_all add: recorded_tables)
  moreover have "kv_view db' = kv_view db2"
    using same_but_deliveries_tables [OF fresh(4)] by (intro kv_view_same_tables)
  ultimately show ?thesis by simp
qed

lemma invocation_refines:
  assumes "transact X now db [EInvocation (i, ser) ops] = Inr (r, db')" and "kv_ok db"
    and "hash_bytes X ser \<notin> i_id ` set (invocations db)" and "list_all deletes_current ops"
    and "op_space ` set ops \<subseteq> set (info_spaces (ii_capabilities i))"
  shows "kv_view db' = fold apply_op ops (kv_view db)"
  using assms(1)
proof (cases rule: transact_cases)
  case (kept kept orders db1)
  let ?h = "hash_bytes X ser"
  from kept(6) obtain vops h' where vops: "try_map (version_op orders ?h) ops = Inr vops"
    and save: "invocation_save X db1 i now ser vops = Inr (h', db')"
    by (auto simp: invocation_process_ok split: sum.splits prod.splits)
  have ok: "kv_ok db1"
    using kept(4,5) kv_ok_with_spaces [OF assms(2)] by (rule save_epochs_kv_ok)
  have tabs: "kv_writes db1 = kv_writes db" "kv_deletes db1 = kv_deletes db" "invocations db1 = invocations db"
    using save_epochs_ok [OF kept(5)] by (simp_all add: with_spaces_def)
  have seqs: "so_seq o' = next_seq db s" if "(s, o') \<in> set orders" for s o'
    using orders_ok [OF kept(4) that] by auto
  note vs = version_ops [OF vops seqs]
  have "older (next_seq db) ?h db1" using kv_ok_older [OF assms(2)] tabs by (simp add: older_def)
  moreover have "\<forall>op \<in> set vops. versioned (event_orders db1) ?h op \<and> vop_deletes_current op \<and>
      vop_seq op = next_seq db (vop_space op)"
    using vs assms(4) try_map_Inr_set [OF vops] version_op_versioned [of orders ?h _ _ "event_orders db1"]
      save_epochs_events(1) [OF kept(5)]
    by (fastforce simp: list_all_iff)
  ultimately have "kv_view db' = fold apply_vop vops (kv_view db1)"
    using invocation_save_refines [OF save ok] assms(3) tabs by simp
  with vs kv_view_same_tables [of db1 db] tabs show ?thesis by simp
next
  case none
  have "event_spaces db (hashed X [EInvocation (i, ser) ops]) = []" using none(1) by simp
  then have "info_spaces (ii_capabilities i) = []"
    using keys_event_spaces [of db "hashed X [EInvocation (i, ser) ops]"] by simp
  then have "ops = []" using assms(5) by simp
  from none(2) obtain h' where save: "invocation_save X (with_spaces db [EInvocation (i, ser) ops]) i now ser [] = Inr (h', db')"
    by (auto simp: invocation_process_ok split: sum.splits prod.splits)
  have "kv_view db' = kv_view (with_spaces db [EInvocation (i, ser) ops])"
    using invocation_save_refines [OF save kv_ok_with_spaces [OF assms(2)], of "next_seq db"]
      assms(3) kv_ok_older [OF assms(2)] by (simp add: with_spaces_def older_def)
  also have "\<dots> = kv_view db" by (rule kv_view_same_tables) (simp_all add: with_spaces_def)
  finally show ?thesis using \<open>ops = []\<close> by simp
qed

end
