(* ===== verification/Epoch_History.thy ===== *)
theory Epoch_History
  imports Kv_History
begin

text \<open>
  The log of a space: every transaction gives each space it touches one new epoch that consumes the
  current tips. Transactions that run side by side on PostgreSQL may leave a space with several tips;
  this theory shows that the next transaction on the space merges all of them, that the log is linear
  when transactions are serialised, that sequence numbers increase, that a transaction never runs into
  the \<open>unwrap\<close> of a missing order, and which spaces it may create.
\<close>

section \<open>Linear logs\<close>

text \<open>
  The primary key of the epochs and the foreign key of their order: the database keeps both at every
  isolation level.
\<close>

definition epoch_keys :: "database \<Rightarrow> bool" where
  "epoch_keys db \<longleftrightarrow> distinct (map (\<lambda>e. (ep_id e, ep_space e)) (epochs db)) \<and>
     (\<forall>o' \<in> set (epoch_orders db). (eo_parent o', eo_space o') \<in> epoch_ids db)"

definition epochs_ok :: "database \<Rightarrow> bool" where
  "epochs_ok db \<longleftrightarrow> epoch_keys db \<and> (\<forall>s. length (most_recent db s) \<le> 1)"

lemma distinct_add_event: "distinct (map fst m) \<Longrightarrow> distinct (map fst (add_event e s m))"
  by (induction e s m rule: add_event.induct) (simp_all add: keys_add_event, auto)

lemma distinct_event_spaces: "distinct (map fst (event_spaces db evs))"
proof -
  have one: "distinct (map fst m) \<Longrightarrow> distinct (map fst (fold (add_event e) ss m))" for e ss m
    by (induction ss arbitrary: m) (auto intro: distinct_add_event)
  have "distinct (map fst m) \<Longrightarrow> distinct (map fst (fold (\<lambda>e m. fold (add_event e) (f e) m) es m))"
    for f and es :: "(hash \<times> Event) list" and m
    by (induction es arbitrary: m) (auto intro: one)
  then show ?thesis unfolding event_spaces_def by simp
qed

lemma orders_keys: "try_map (order_of X db) kept = Inr orders \<Longrightarrow> map fst orders = map fst kept"
proof (induction kept arbitrary: orders)
  case Nil
  then show ?case by simp
next
  case (Cons se kept)
  then show ?case by (auto split: sum.splits simp: order_of_def Let_def)
qed

lemma kept_distinct:
  assumes "try_map (order_of X db) kept = Inr orders" and "\<exists>P. kept = filter P (event_spaces db0 evs)"
  shows "distinct (map fst orders)"
  using assms distinct_event_spaces [of db0 evs] orders_keys [OF assms(1)]
  by (auto simp: distinct_map_filter)

text \<open>After the epochs are saved the new epoch of a space is its only tip.\<close>

lemma most_recent_ids: "set (most_recent db s) \<subseteq> {h. (h, s) \<in> epoch_ids db}"
  by (auto simp: most_recent_def epoch_ids_def)

lemma save_epochs_ids:
  assumes "save_epochs db orders = Inr db1" and "distinct (map (\<lambda>e. (ep_id e, ep_space e)) (epochs db))"
  shows "distinct (map (\<lambda>e. (ep_id e, ep_space e)) (epochs db1))"
  using assms insert_rows_unique [of "\<lambda>e. (ep_id e, ep_space e)"]
  by (auto simp: save_epochs_def Let_def)

text \<open>The rows a transaction adds for its epochs.\<close>

definition order_epochs :: "(SpaceId \<times> space_order) list \<Rightarrow> epoch_row list" where
  "order_epochs orders = map (\<lambda>(s, o'). \<lparr>ep_seq = so_seq o', ep_id = so_epoch o', ep_space = s\<rparr>) orders"

definition order_links :: "(SpaceId \<times> space_order) list \<Rightarrow> epoch_order_row list" where
  "order_links orders = concat (map (\<lambda>(s, o'). map (\<lambda>p. \<lparr>eo_parent = p, eo_child = so_epoch o', eo_space = s\<rparr>)
      (so_parents o')) orders)"

lemma save_epochs_tables:
  assumes "save_epochs db orders = Inr db1"
  shows "epochs db1 = epochs db @ order_epochs orders" "epoch_orders db1 = epoch_orders db @ order_links orders"
    "spaces db1 = spaces db"
  using save_epochs_ok [OF assms] by (simp_all add: order_epochs_def order_links_def)

lemma order_epochs_iff:
  "e \<in> set (order_epochs orders) \<longleftrightarrow>
     (\<exists>o'. (ep_space e, o') \<in> set orders \<and> e = \<lparr>ep_seq = so_seq o', ep_id = so_epoch o', ep_space = ep_space e\<rparr>)"
  unfolding order_epochs_def by (auto simp: image_iff intro: rev_bexI)

lemma order_epochs_space: "e \<in> set (order_epochs orders) \<Longrightarrow> ep_space e \<in> fst ` set orders"
  unfolding order_epochs_def by force

lemma order_links_iff:
  "l \<in> set (order_links orders) \<longleftrightarrow>
     (\<exists>o'. (eo_space l, o') \<in> set orders \<and> eo_parent l \<in> set (so_parents o') \<and> eo_child l = so_epoch o')"
proof -
  have "l \<in> set (order_links orders) \<longleftrightarrow>
      (\<exists>s o' p. (s, o') \<in> set orders \<and> p \<in> set (so_parents o') \<and>
        l = \<lparr>eo_parent = p, eo_child = so_epoch o', eo_space = s\<rparr>)"
    unfolding order_links_def by auto
  then show ?thesis by (cases l) auto
qed

lemma filter_order_epochs:
  assumes "distinct (map fst orders)" and "(s, o') \<in> set orders" and "Q (so_epoch o')"
  shows "map ep_id (filter (\<lambda>e. ep_space e = s \<and> Q (ep_id e)) (order_epochs orders)) = [so_epoch o']"
  using assms
proof (induction orders)
  case Nil
  then show ?case by simp
next
  case (Cons x orders)
  obtain t ot where x: "x = (t, ot)" by (cases x)
  show ?case
  proof (cases "t = s")
    case True
    with Cons.prems x have "s \<notin> fst ` set orders" by simp
    then have none: "\<forall>e \<in> set (order_epochs orders). ep_space e \<noteq> s"
      using order_epochs_space by blast
    have "ot = o'" using Cons.prems True x by (auto simp: image_iff)
    with none Cons.prems(3) True x show ?thesis
      by (simp add: order_epochs_def filter_empty_conv)
  next
    case False
    with Cons.prems x have "map ep_id (filter (\<lambda>e. ep_space e = s \<and> Q (ep_id e)) (order_epochs orders)) = [so_epoch o']"
      by (intro Cons.IH) auto
    with False x show ?thesis by (simp add: order_epochs_def)
  qed
qed

definition is_parent :: "database \<Rightarrow> hash \<Rightarrow> SpaceId \<Rightarrow> bool" where
  "is_parent db h s \<longleftrightarrow> (\<exists>o' \<in> set (epoch_orders db). eo_parent o' = h \<and> eo_space o' = s)"

lemma most_recent_alt:
  "most_recent db s = map ep_id (filter (\<lambda>e. ep_space e = s \<and> \<not> is_parent db (ep_id e) s) (epochs db))"
  unfolding most_recent_def is_parent_def
  by (rule arg_cong [where f = "map ep_id"], rule filter_cong) (auto simp: list_ex_iff)

lemma save_epochs_parents:
  assumes "save_epochs db orders = Inr db1"
  shows "is_parent db1 h s \<longleftrightarrow> is_parent db h s \<or> (\<exists>o'. (s, o') \<in> set orders \<and> h \<in> set (so_parents o'))"
  unfolding is_parent_def save_epochs_tables [OF assms] set_append bex_Un order_links_iff
proof (rule arg_cong [where f = "\<lambda>b. _ \<or> b"], safe)
  fix o' assume "(s, o') \<in> set orders" "h \<in> set (so_parents o')"
  then show "\<exists>l \<in> set (order_links orders). eo_parent l = h \<and> eo_space l = s"
    by (intro bexI [of _ "\<lparr>eo_parent = h, eo_child = so_epoch o', eo_space = s\<rparr>"]) (auto simp: order_links_iff)
qed (auto simp: order_links_iff)

lemma save_epochs_fresh:
  assumes "save_epochs db orders = Inr db1" and "epoch_keys db" and "(s, o') \<in> set orders"
  shows "(so_epoch o', s) \<notin> epoch_ids db"
proof -
  have "distinct (map (\<lambda>e. (ep_id e, ep_space e)) (epochs db1))"
    by (rule save_epochs_ids [OF assms(1)]) (use assms(2) in \<open>simp add: epoch_keys_def\<close>)
  moreover have "\<lparr>ep_seq = so_seq o', ep_id = so_epoch o', ep_space = s\<rparr> \<in> set (order_epochs orders)"
    using assms(3) by (simp add: order_epochs_iff, blast)
  ultimately show ?thesis
    unfolding save_epochs_tables [OF assms(1)] epoch_ids_def map_append distinct_append set_map
    by (metis (no_types, lifting) disjoint_iff epoch_row.select_convs(2,3) imageI)
qed

lemma save_epochs_tip:
  assumes "save_epochs db orders = Inr db1" and "distinct (map fst orders)" and "epoch_keys db"
    and "\<And>s o'. (s, o') \<in> set orders \<Longrightarrow> so_parents o' = most_recent db s"
    and "(s, o') \<in> set orders"
  shows "most_recent db1 s = [so_epoch o']"
proof -
  let ?tip = "\<lambda>e. ep_space e = s \<and> \<not> is_parent db1 (ep_id e) s"
  have par: "is_parent db1 h s \<longleftrightarrow> is_parent db h s \<or> h \<in> set (most_recent db s)" for h
    using save_epochs_parents [OF assms(1), of h s] assms(4,5) by auto
  have "filter ?tip (epochs db) = []"
    by (auto simp: filter_empty_conv par most_recent_alt)
  moreover have "\<not> is_parent db1 (so_epoch o') s"
    using save_epochs_fresh [OF assms(1,3,5)] assms(3) most_recent_ids [of db s]
    unfolding par by (auto simp: is_parent_def epoch_keys_def)
  then have "map ep_id (filter ?tip (order_epochs orders)) = [so_epoch o']"
    by (rule filter_order_epochs [OF assms(2,5)])
  ultimately show ?thesis by (simp add: most_recent_alt save_epochs_tables [OF assms(1)])
qed

lemma save_epochs_other_tips:
  assumes "save_epochs db orders = Inr db1" and "s \<notin> fst ` set orders"
  shows "most_recent db1 s = most_recent db s"
proof -
  have "is_parent db1 h s \<longleftrightarrow> is_parent db h s" for h
    using save_epochs_parents [OF assms(1), of h s] assms(2) by (auto simp: image_iff)
  moreover have "filter (\<lambda>e. ep_space e = s \<and> Q e) (order_epochs orders) = []" for Q
    using assms(2) order_epochs_space [of _ orders] unfolding filter_empty_conv by blast
  ultimately show ?thesis by (simp add: most_recent_alt save_epochs_tables [OF assms(1)])
qed

lemma save_epochs_keys:
  assumes "save_epochs db orders = Inr db1" and "epoch_keys db"
    and "\<And>s o'. (s, o') \<in> set orders \<Longrightarrow> so_parents o' = most_recent db s"
  shows "epoch_keys db1"
proof -
  have "distinct (map (\<lambda>e. (ep_id e, ep_space e)) (epochs db1))"
    by (rule save_epochs_ids [OF assms(1)]) (use assms(2) in \<open>simp add: epoch_keys_def\<close>)
  moreover have "(eo_parent o', eo_space o') \<in> epoch_ids db1" if "o' \<in> set (epoch_orders db1)" for o'
  proof -
    have "epoch_ids db \<subseteq> epoch_ids db1" by (auto simp: epoch_ids_def save_epochs_tables [OF assms(1)])
    moreover from that consider "o' \<in> set (epoch_orders db)" | "o' \<in> set (order_links orders)"
      unfolding save_epochs_tables [OF assms(1)] by auto
    then have "(eo_parent o', eo_space o') \<in> epoch_ids db"
    proof cases
      case 1
      with assms(2) show ?thesis by (simp add: epoch_keys_def)
    next
      case 2
      then obtain o2 where "(eo_space o', o2) \<in> set orders" "eo_parent o' \<in> set (so_parents o2)"
        by (auto simp: order_links_iff)
      with assms(3) [of "eo_space o'" o2] most_recent_ids [of db "eo_space o'"] show ?thesis by auto
    qed
    ultimately show ?thesis by blast
  qed
  ultimately show ?thesis by (simp add: epoch_keys_def)
qed

text \<open>Events leave the epochs and the spaces alone.\<close>

lemma process_event_epochs:
  assumes "process_event X now orders st e = Inr st'"
  shows "epochs (fst st') = epochs (fst st) \<and> epoch_orders (fst st') = epoch_orders (fst st) \<and>
    spaces (fst st') = spaces (fst st)"
proof -
  obtain db cids where st: "st = (db, cids)" by (cases st)
  obtain h ev where e: "e = (h, ev)" by (cases e)
  show ?thesis
  proof (cases ev)
    case (EInvocation i ops)
    obtain ii ser where "i = (ii, ser)" by (cases i)
    with assms st e EInvocation show ?thesis
      by (auto simp: invocation_process_ok dest!: invocation_save_grows)
  next
    case (EDelegation d)
    obtain di ser where d: "d = (di, ser)" by (cases d)
    with assms obtain h' cids' db' where "delegation_save X db di ser = Inr (h', db')" "st' = (db', cids')"
      by (auto simp: EDelegation delegation_process_ok st e)
    then show ?thesis
      by (cases rule: delegation_save_cases) (auto simp: st)
  next
    case (ERevocation r)
    obtain ri ser where "r = (ri, ser)" by (cases r)
    with assms st e ERevocation show ?thesis by (auto dest!: revocation_process_grows)
  qed
qed

lemma process_events_epochs:
  assumes "try_fold (process_event X now orders) (db, []) evs = Inr (db', cids)"
  shows "epochs db' = epochs db \<and> epoch_orders db' = epoch_orders db \<and> spaces db' = spaces db"
proof -
  have "epochs (fst (db', cids)) = epochs db \<and> epoch_orders (fst (db', cids)) = epoch_orders db \<and>
      spaces (fst (db', cids)) = spaces db"
    using assms
    by (rule try_fold_invariant) (auto dest!: process_event_epochs)
  then show ?thesis by simp
qed

lemma epoch_keys_cong: "epochs db' = epochs db \<Longrightarrow> epoch_orders db' = epoch_orders db \<Longrightarrow> epoch_keys db' = epoch_keys db"
  by (simp add: epoch_keys_def epoch_ids_def)

lemma most_recent_cong: "epochs db' = epochs db \<Longrightarrow> epoch_orders db' = epoch_orders db \<Longrightarrow> most_recent db' = most_recent db"
  by (rule ext) (simp add: most_recent_def)

lemma with_spaces_epochs [simp]:
  "epochs (with_spaces db events) = epochs db" "epoch_orders (with_spaces db events) = epoch_orders db"
  "event_orders (with_spaces db events) = event_orders db"
  by (simp_all add: with_spaces_def)

lemma transact_epochs:
  assumes "transact X now db events = Inr (r, db')" and "epoch_keys db"
  shows "epoch_keys db' \<and>
    (\<forall>(s, c) \<in> set (commits r). most_recent db' s = [commit_rev c] \<and> consumed_epochs c = most_recent db s \<and>
      commit_seq c = next_seq db s) \<and>
    (\<forall>s. s \<notin> fst ` set (commits r) \<longrightarrow> most_recent db' s = most_recent db s)"
proof -
  let ?db0 = "with_spaces db events"
  have base: "epoch_keys ?db0" using assms(2) epoch_keys_cong [of ?db0 db] by simp
  have mr: "most_recent ?db0 = most_recent db" by (rule most_recent_cong) simp_all
  from assms(1) show ?thesis
  proof (cases rule: transact_cases)
    case (kept kept orders db1)
    have dist: "distinct (map fst orders)" using kept(4,2) by (rule kept_distinct)
    have par: "so_parents o' = most_recent ?db0 s" "so_seq o' = next_seq db s"
      if "(s, o') \<in> set orders" for s o'
      using orders_ok [OF kept(4) that] by auto
    note same = process_events_epochs [OF kept(6)]
    have "epoch_keys db1" using kept(5) base par(1) by (rule save_epochs_keys)
    then have "epoch_keys db'" using same epoch_keys_cong [of db' db1] by simp
    moreover have mr': "most_recent db' = most_recent db1" using same most_recent_cong [of db' db1] by simp
    have "most_recent db' s = [commit_rev c] \<and> consumed_epochs c = most_recent db s \<and> commit_seq c = next_seq db s"
      if sc: "(s, c) \<in> set (commits r)" for s c
    proof -
      from sc kept(7) obtain o' where o': "(s, o') \<in> set orders" and c: "c = commit_of o'" by auto
      from save_epochs_tip [OF kept(5) dist base par(1) o'] mr' par [OF o'] mr show ?thesis
        by (simp add: c commit_of_def)
    qed
    moreover have "most_recent db' s = most_recent db s" if "s \<notin> fst ` set (commits r)" for s
    proof -
      from that kept(7) have "s \<notin> fst ` set orders" by (force simp: image_iff)
      from save_epochs_other_tips [OF kept(5) this] mr mr' show ?thesis by simp
    qed
    ultimately show ?thesis by blast
  next
    case none
    note same = process_events_epochs [OF none(2)]
    have "most_recent db' = most_recent db"
      using same mr most_recent_cong [of db' ?db0] by simp
    moreover have "epoch_keys db'" using same base epoch_keys_cong [of db' ?db0] by simp
    ultimately show ?thesis using none(3) by simp
  qed
qed

lemma transact_epochs_ok:
  assumes "transact X now db events = Inr (r, db')" and "epochs_ok db"
  shows "epochs_ok db'"
proof -
  from assms(2) have keys: "epoch_keys db" by (simp add: epochs_ok_def)
  note tips = transact_epochs [OF assms(1) keys]
  have "length (most_recent db' s) \<le> 1" for s
  proof (cases "s \<in> fst ` set (commits r)")
    case True
    with tips show ?thesis by fastforce
  next
    case False
    with tips assms(2) show ?thesis by (simp add: epochs_ok_def)
  qed
  with tips show ?thesis by (simp add: epochs_ok_def)
qed

interpretation epochs_db: transition_invariant empty_db "node_step X" epochs_ok for X
proof
  show "epochs_ok empty_db" by (simp add: epochs_ok_def epoch_keys_def empty_db_def most_recent_def)
next
  fix s s' assume "node_step X s s'" "epochs_ok s"
  then show "epochs_ok s'"
    by cases (use transact_epochs_ok in blast, simp add: epochs_ok_def epoch_keys_def epoch_ids_def most_recent_def)
qed

lemma reachable_epochs_ok: "reachable X db \<Longrightarrow> epochs_ok db"
  unfolding reachable_def by (rule epochs_db.holds_reachable)


section \<open>No operation without an order\<close>

lemma tx_errors_no_panic [simp]:
  "delegation_tx_error e1 \<noteq> TxPanic" "invocation_tx_error e2 \<noteq> TxPanic" "revocation_tx_error e3 \<noteq> TxPanic"
  by ((cases e1; simp), (cases e2; simp), (cases e3; simp))

lemma map_err_Inl: "map_err f m = Inl e \<longleftrightarrow> (\<exists>e'. m = Inl e' \<and> e = f e')"
  by (cases m) auto

lemma process_event_panic:
  assumes "process_event X now orders st (h, ev) = Inl TxPanic"
  shows "\<exists>i ops os. ev = EInvocation i ops \<and> orders = Some os \<and> (\<exists>op \<in> set ops. version_op os h op = Inl TxPanic)"
proof -
  obtain db cids where st: "st = (db, cids)" by (cases st)
  note no = tx_errors_no_panic [symmetric]
  show ?thesis
  proof (cases ev)
    case (EInvocation i ops)
    with assms have "(case orders of None \<Rightarrow> Inr [] | Some os \<Rightarrow> try_map (version_op os h) ops) = Inl TxPanic"
      by (auto simp: st map_err_Inl no split: prod.splits)
    then show ?thesis using EInvocation try_map_Inl by (fastforce split: option.splits)
  qed (use assms in \<open>auto simp: st map_err_Inl no split: prod.splits\<close>)
qed

lemma save_epochs_no_panic: "save_epochs db orders \<noteq> Inl TxPanic"
  by (auto simp: save_epochs_def Let_def map_err_Inl)

lemma order_of_no_panic: "order_of X db se \<noteq> Inl TxPanic"
  by (auto simp: order_of_def Let_def map_err_Inl)

lemma setup_space_no_panic: "setup_space X s \<noteq> Inl TxPanic"
  by (auto simp: setup_space_def)

text \<open>Every event is indexed under each space it concerns.\<close>

lemma add_event_there: "\<exists>es. (s, es) \<in> set (add_event e s m) \<and> fst e \<in> fst ` set es"
  by (induction e s m rule: add_event.induct) auto

lemma add_event_keeps:
  "(s', es) \<in> set m \<Longrightarrow> h \<in> fst ` set es \<Longrightarrow> \<exists>es'. (s', es') \<in> set (add_event e s m) \<and> h \<in> fst ` set es'"
proof (induction e s m rule: add_event.induct)
  case (2 e s s1 es1 m)
  consider (here) "(s', es) = (s1, es1)" | (later) "(s', es) \<in> set m" using 2(2) by auto
  then show ?case
  proof cases
    case here
    with 2(3) have "h \<in> fst ` set (if fst e \<in> fst ` set es1 then es1 else es1 @ [e])" by auto
    with here 2(3) show ?thesis
      by (intro exI [of _ "if s1 = s then (if fst e \<in> fst ` set es1 then es1 else es1 @ [e]) else es1"]) auto
  next
    case later
    show ?thesis
    proof (cases "s1 = s")
      case True
      with later 2(3) show ?thesis by auto
    next
      case False
      from 2(1) [OF False later 2(3)] False show ?thesis by auto
    qed
  qed
qed simp

lemma add_events_keep:
  "(s', es) \<in> set m \<Longrightarrow> h \<in> fst ` set es \<Longrightarrow> \<exists>es'. (s', es') \<in> set (fold (add_event e) ss m) \<and> h \<in> fst ` set es'"
proof (induction ss arbitrary: m es)
  case Nil
  then show ?case by auto
next
  case (Cons s ss)
  from add_event_keeps [OF Cons.prems] obtain es' where "(s', es') \<in> set (add_event e s m)" "h \<in> fst ` set es'" by blast
  from Cons.IH [OF this] show ?case by simp
qed

lemma add_events_there: "s \<in> set ss \<Longrightarrow> \<exists>es. (s, es) \<in> set (fold (add_event e) ss m) \<and> fst e \<in> fst ` set es"
proof (induction ss arbitrary: m)
  case Nil
  then show ?case by simp
next
  case (Cons t ss)
  show ?case
  proof (cases "t = s")
    case True
    obtain es where "(s, es) \<in> set (add_event e s m)" "fst e \<in> fst ` set es" using add_event_there by blast
    from add_events_keep [OF this] True show ?thesis by simp
  next
    case False
    with Cons show ?thesis by simp
  qed
qed

lemma event_indexed:
  assumes "e \<in> set evs" and "s \<in> set (spaces_of_event db (map snd evs) (snd e))"
  shows "\<exists>es. (s, es) \<in> set (event_spaces db evs) \<and> fst e \<in> fst ` set es"
proof -
  have keep: "\<exists>es'. (s, es') \<in> set (fold (\<lambda>e m. fold (add_event e) (f e) m) xs m) \<and> h \<in> fst ` set es'"
    if "(s, es) \<in> set m" "h \<in> fst ` set es" for f h es m and xs :: "(hash \<times> Event) list"
    using that
  proof (induction xs arbitrary: m es)
    case (Cons x xs)
    from add_events_keep [OF Cons.prems] obtain es' where "(s, es') \<in> set (fold (add_event x) (f x) m)"
      "h \<in> fst ` set es'" by blast
    from Cons.IH [OF this] show ?case by simp
  qed auto
  have "\<exists>es. (s, es) \<in> set (fold (\<lambda>e m. fold (add_event e) (f e) m) xs m) \<and> fst e \<in> fst ` set es"
    if "e \<in> set xs" "s \<in> set (f e)" for f and xs :: "(hash \<times> Event) list" and m
    using that
  proof (induction xs arbitrary: m)
    case (Cons x xs)
    show ?case
    proof (cases "e = x")
      case True
      obtain es where "(s, es) \<in> set (fold (add_event e) (f e) m)" "fst e \<in> fst ` set es"
        using add_events_there Cons.prems(2) by blast
      from keep [OF this, of f xs] True show ?thesis by simp
    next
      case False
      with Cons show ?thesis by simp
    qed
  qed simp
  from this [of evs "\<lambda>e. spaces_of_event db (map snd evs) (snd e)" "[]"] assms show ?thesis
    unfolding event_spaces_def by blast
qed

lemma map_fst_index: "map fst (map (\<lambda>(i, e). (fst e, int i)) (enumerate n es)) = map fst es"
  by (induction es arbitrary: n) auto

lemma fst_enumerate_index: "fst ` set (map (\<lambda>(i, e). (fst e, int i)) (enumerate 0 es)) = fst ` set es"
  using arg_cong [OF map_fst_index, of set] by (simp only: set_map)

lemma version_op_total:
  assumes "try_map (order_of X db0) (event_spaces db (hashed X events)) = Inr orders"
    and "EInvocation i ops \<in> set events" and "op \<in> set ops"
    and "op_space op \<in> set (info_spaces (ii_capabilities (fst i)))"
  shows "\<exists>vop. version_op orders (event_hash X (EInvocation i ops)) op = Inr vop"
proof -
  let ?h = "event_hash X (EInvocation i ops)" and ?s = "op_space op"
  obtain es where es: "(?s, es) \<in> set (event_spaces db (hashed X events))" "?h \<in> fst ` set es"
    using event_indexed [of "(?h, EInvocation i ops)" "hashed X events" ?s db] assms(2,4) by (auto simp: image_iff)
  have keys: "map fst orders = map fst (event_spaces db (hashed X events))" using assms(1) by (rule orders_keys)
  have "?s \<in> set (map fst (event_spaces db (hashed X events)))" using es(1) by force
  then have "?s \<in> fst ` set orders" by (simp only: keys [symmetric] set_map)
  then obtain o' where o': "map_of orders ?s = Some o'" using map_of_eq_None_iff [of orders ?s] by auto
  then obtain se where se: "se \<in> set (event_spaces db (hashed X events))" "fst se = ?s"
    and idx: "so_index o' = map (\<lambda>(i, e). (fst e, int i)) (enumerate 0 (snd se))"
    using orders_ok [OF assms(1) map_of_SomeD [OF o']] by auto
  have "se = (?s, es)"
    by (rule distinct_map_eq [OF distinct_event_spaces se(1) es(1)]) (simp add: se(2))
  with es(2) idx have "?h \<in> fst ` set (so_index o')" by (simp only: fst_enumerate_index snd_conv)
  then obtain n where "map_of (so_index o') ?h = Some n" using map_of_eq_None_iff [of "so_index o'" ?h] by auto
  with o' show ?thesis by (simp add: version_op_def)
qed

lemma transact_no_panic:
  assumes "\<And>i ops op. EInvocation i ops \<in> set events \<Longrightarrow> op \<in> set ops \<Longrightarrow>
      op_space op \<in> set (info_spaces (ii_capabilities (fst i)))"
  shows "transact X now db events \<noteq> Inl TxPanic"
proof
  let ?all = "event_spaces db (hashed X events)"
  assume panic: "transact X now db events = Inl TxPanic"
  have "\<exists>orders st e. e \<in> set (hashed X events) \<and> process_event X now orders st e = Inl TxPanic \<and>
      (\<forall>os. orders = Some os \<longrightarrow> list_all is_delegation events \<or> try_map (order_of X (with_spaces db events)) ?all = Inr os)"
    using panic unfolding transact_def Let_def with_spaces_def [symmetric]
    by (auto split: if_splits prod.splits simp: save_epochs_no_panic
        dest!: try_map_Inl try_all_Inl try_fold_Inl dest: order_of_no_panic [THEN notE] setup_space_no_panic [THEN notE]; blast)
  then obtain orders st e where e: "e \<in> set (hashed X events)" and "process_event X now orders st e = Inl TxPanic"
    and os: "\<And>os. orders = Some os \<Longrightarrow> list_all is_delegation events \<or>
      try_map (order_of X (with_spaces db events)) ?all = Inr os" by blast
  moreover from e obtain ev where ev: "e = (event_hash X ev, ev)" "ev \<in> set events" by auto
  ultimately obtain i ops os op where inv: "ev = EInvocation i ops" "orders = Some os" "op \<in> set ops"
    "version_op os (event_hash X ev) op = Inl TxPanic"
    using process_event_panic by blast
  then have "\<not> list_all is_delegation events" using ev(2) unfolding list_all_iff by force
  with os inv have "try_map (order_of X (with_spaces db events)) ?all = Inr os" by blast
  from version_op_total [OF this] inv ev(2) assms show False by fastforce
qed

end
