(* ===== verification/Authority_History.thy ===== *)
theory Authority_History
  imports Epoch_History
begin

text \<open>
  Authority across transactions: what holds at the moment an event of a transaction is processed,
  who may create a space, and what a revocation leaves of the authority it revokes.
\<close>

section \<open>The moment an event is processed\<close>

lemma event_processed:
  assumes "transact X now db events = Inr (r, db')" and "ev \<in> set events"
    and "abilities_grounded X db" and "ids_ok db"
  shows "\<exists>orders dbk cids dbk' cids'.
    process_event X now orders (dbk, cids) (event_hash X ev, ev) = Inr (dbk', cids') \<and>
    abilities_grounded X dbk \<and> ids_ok dbk \<and> authority_grows db dbk \<and> authority_grows dbk' db'"
  using assms(1)
proof (rule transact_run)
  fix db1 orders cids
  assume prep: "prepared db db1"
    and run: "try_fold (process_event X now orders) (db1, []) (hashed X events) = Inr (db', cids)"
  from assms(2) have "(event_hash X ev, ev) \<in> set (hashed X events)" by auto
  from try_fold_split [OF run this] obtain ys zs s1 s2 where
    before: "try_fold (process_event X now orders) (db1, []) ys = Inr s1"
    and at: "process_event X now orders s1 (event_hash X ev, ev) = Inr s2"
    and rest: "try_fold (process_event X now orders) s2 zs = Inr (db', cids)" by blast
  have "abilities_grounded X (fst s1)"
    using ground.process_events_keep [OF before] ground.keep_prepared [OF prep] assms(3) by simp
  moreover have "ids_ok (fst s1)"
    using ids.process_events_keep [OF before] ids.keep_prepared [OF prep] assms(4) by simp
  moreover have "authority_grows db (fst s1)"
    using grow.process_events_keep [OF before] prepared_grows [OF prep] by simp
  moreover have "authority_grows (fst s2) db'"
    using grow.process_events_keep [OF rest] by simp
  ultimately show ?thesis using at by (metis fst_conv prod.exhaust)
qed

section \<open>From an ability to the owner's grant\<close>

abbreviation row_grant :: "ability_row \<Rightarrow> (Resource \<times> Ability) \<times> Caveats" where
  "row_grant a \<equiv> ((ab_resource a, ab_ability a), ab_caveats a)"

text \<open>
  \<open>rooted d rt g\<close>: the delegation \<open>rt\<close> is by the owner of the resource of the grant \<open>g\<close>, \<open>d\<close> reaches
  it through cited proofs, is valid no longer than it, and \<open>g\<close> is within what it grants.
\<close>

definition rooted :: "externals \<Rightarrow> database \<Rightarrow> delegation_row \<Rightarrow> delegation_row \<Rightarrow> (Resource \<times> Ability) \<times> Caveats \<Rightarrow> bool" where
  "rooted X db d rt g \<longleftrightarrow>
     d \<in> set (delegations db) \<and> rt \<in> set (delegations db) \<and> (d_id d, d_id rt) \<in> (parent_rel db)\<^sup>* \<and>
     is_root_authority X (fst (fst g)) (delegator rt) \<and>
     expiry_valid (d_expiry rt) (d_expiry d) \<and> not_before_valid (d_not_before rt) (d_not_before d) \<and>
     (d = rt \<or> (\<exists>ra \<in> set (abilities db). ab_delegation ra = d_id rt \<and> grant_within X g (row_grant ra)))"

lemma grounded_rooted:
  assumes "grounded X db h r a cv" and "ids_ok db"
  shows "\<exists>d rt. d_id d = h \<and> rooted X db d rt ((r, a), cv)"
  using assms(1)
proof (induction rule: grounded.induct)
  case (root d r a cv)
  then show ?case by (intro exI [of _ d]) (simp add: rooted_def)
next
  case (derived d p pc r a cv)
  then obtain d2 rt where "d_id d2 = d_id p" and rt: "rooted X db d2 rt (row_grant pc)" by blast
  moreover have "d2 \<in> set (delegations db)" using rt by (simp add: rooted_def)
  ultimately have "d2 = p"
    using assms(2) derived(2) distinct_map_eq [of d_id "delegations db" d2 p] by (simp add: ids_ok_def)
  with rt have rt: "rooted X db p rt (row_grant pc)" by simp
  have "resource_extends X r (ab_resource pc)" using derived(10) by (simp add: grant_within_def cap_within_def)
  then have "is_root_authority X r (delegator rt)"
    using rt is_root_authority_extends by (auto simp: rooted_def)
  moreover have "expiry_valid (d_expiry rt) (d_expiry d)" "not_before_valid (d_not_before rt) (d_not_before d)"
    using rt derived(6,7) expiry_valid_trans not_before_valid_trans unfolding rooted_def by blast+
  moreover have "(d_id d, d_id rt) \<in> (parent_rel db)\<^sup>*"
    using rt derived(3) by (auto simp: rooted_def)
  moreover have "\<exists>ra \<in> set (abilities db). ab_delegation ra = d_id rt \<and> grant_within X ((r, a), cv) (row_grant ra)"
    using rt derived(8-10) grant_within_trans unfolding rooted_def by blast
  ultimately have "rooted X db d rt ((r, a), cv)"
    using rt derived(1) by (simp add: rooted_def)
  then show ?case by blast
qed

section \<open>New spaces\<close>

lemma transact_spaces:
  assumes "transact X now db events = Inr (r, db')"
  shows "set (spaces db') = set (spaces db) \<union> set (concat (map event_new_spaces events))"
proof -
  have base: "set (spaces (with_spaces db events)) = set (spaces db) \<union> set (concat (map event_new_spaces events))"
    by (simp add: with_spaces_def insert_new_rows_id)
  from assms show ?thesis
  proof (cases rule: transact_cases)
    case (kept kept orders db1)
    with process_events_epochs [OF kept(6)] save_epochs_tables(3) [OF kept(5)] base show ?thesis by simp
  next
    case none
    with process_events_epochs [OF none(2)] base show ?thesis by simp
  qed
qed

text \<open>The delegator of a processed capability is its root authority, or a cited proof leads to it.\<close>

definition backed_by_owner :: "externals \<Rightarrow> database \<Rightarrow> DelegationInfo \<Rightarrow> Resource \<Rightarrow> bool" where
  "backed_by_owner X db d r \<longleftrightarrow>
     is_root_authority X r (di_delegator d) \<or>
     (\<exists>p \<in> set (di_parents d). \<exists>root \<in> set (delegations db).
        (cid_hash p, d_id root) \<in> (parent_rel db)\<^sup>* \<and> is_root_authority X r (delegator root))"

lemma delegation_backed:
  assumes "delegation_validate X db d = Inr u" and "abilities_grounded X db" and "c \<in> set (di_capabilities d)"
  shows "backed_by_owner X db d (cap_resource c)"
proof (cases "is_root_authority X (cap_resource c) (di_delegator d)")
  case True
  then show ?thesis by (simp add: backed_by_owner_def)
next
  case False
  from delegation_validate_ok [OF assms(1,3) False] obtain p pc where sup: "supports X db d c p pc" by blast
  then have "grounded X db (d_id p) (ab_resource pc) (ab_ability pc) (ab_caveats pc)"
    using assms(2) by (auto simp: supports_def abilities_grounded_def)
  from grounded_within [OF this] sup obtain root where "root \<in> set (delegations db)"
    "(d_id p, d_id root) \<in> (parent_rel db)\<^sup>*" "is_root_authority X (cap_resource c) (delegator root)"
    unfolding supports_def by blast
  with sup show ?thesis by (auto simp: backed_by_owner_def supports_def)
qed

lemma backed_by_owner_mono:
  assumes "authority_grows db db'" and "backed_by_owner X db d r"
  shows "backed_by_owner X db' d r"
proof -
  have "(parent_rel db)\<^sup>* \<subseteq> (parent_rel db')\<^sup>*" using parent_rel_mono [OF assms(1)] by (rule rtrancl_mono)
  moreover have "set (delegations db) \<subseteq> set (delegations db')" using assms(1) by (simp add: authority_grows_def)
  ultimately show ?thesis using assms(2) unfolding backed_by_owner_def by blast
qed

lemma process_delegation_backed:
  assumes "process_event X now orders (db, cids) (h, EDelegation (d, ser)) = Inr (db', cids')"
    and "abilities_grounded X db" and "c \<in> set (di_capabilities d)"
  shows "backed_by_owner X db d (cap_resource c) \<and> authority_grows db db'"
proof -
  from assms(1) obtain h' where "delegation_process X now db (d, ser) = Inr (h', db')" by auto
  with delegation_backed [OF _ assms(2,3)] delegation_process_grows show ?thesis
    unfolding delegation_process_ok by blast
qed

section \<open>Revocations\<close>

lemma revocation_process_revokes:
  assumes "revocation_process X now db (rv, ser) = Inr (h, db')"
    and "\<And>row. row \<in> set (revocations db) \<Longrightarrow> r_id row = hash_bytes X ser \<Longrightarrow> revoked row = cid_hash (ri_revoked rv)"
  shows "is_revoked db' (cid_hash (ri_revoked rv))"
  using assms(1)
proof (cases rule: revocation_process_cases)
  case (known d)
  then obtain row where "row \<in> set (revocations db)" "r_id row = hash_bytes X ser" by auto
  with assms(2) known show ?thesis unfolding is_revoked_iff by blast
next
  case (fresh d)
  with find_delegation_Some [OF fresh(1)] show ?thesis by (auto simp: is_revoked_iff)
qed

lemma transact_revokes:
  assumes "transact X now db [ERevocation (rv, ser)] = Inr (r, db')"
    and "\<And>row. row \<in> set (revocations db) \<Longrightarrow> r_id row = hash_bytes X ser \<Longrightarrow> revoked row = cid_hash (ri_revoked rv)"
  shows "is_revoked db' (cid_hash (ri_revoked rv))"
  using assms(1)
proof (rule transact_run)
  fix db1 orders cids
  assume prep: "prepared db db1"
    and run: "try_fold (process_event X now orders) (db1, []) (hashed X [ERevocation (rv, ser)]) = Inr (db', cids)"
  from run obtain h where "revocation_process X now db1 (rv, ser) = Inr (h, db')"
    by (auto split: sum.splits prod.splits)
  moreover have "revocations db1 = revocations db" using prepared_grows [OF prep] by simp
  ultimately show ?thesis using assms(2) by (auto intro: revocation_process_revokes)
qed

text \<open>A revoked delegation, or one with a revoked node in its walk, authorises nothing.\<close>

lemma validate_cited_clean:
  assumes "invocation_validate X db now i = Inr u" and "ids_ok db"
    and "c \<in> set (ii_capabilities i)" and "\<not> is_root_authority X (cap_resource c) (ii_invoker i)"
    and "p \<in> set (ii_parents i)"
  shows "\<not> is_revoked db (cid_hash p) \<and> chain_clean db now (cid_hash p)"
proof -
  note parents = invocation_validate_parents [OF assms(1,3,4)]
  have "set (map cid_hash (ii_parents i)) \<subseteq> d_id ` set (delegations db)"
    using assms(2) parents(1) by (intro cited_all_present) (simp_all add: ids_ok_def)
  with assms(5) obtain d where "d \<in> set (delegations db)" "d_id d = cid_hash p" by force
  with parents(2) assms(5) show ?thesis by fastforce
qed

lemma chain_clean_exact:
  assumes "chain_clean db now h"
    and "\<And>ids. ancestor_chain_ids db h = Inr ids \<Longrightarrow> links_fit db ids 0"
  shows "(h, a) \<in> (parent_rel db)\<^sup>* \<Longrightarrow> \<not> is_revoked db a \<and> (\<forall>d \<in> set (delegations db). d_id d = a \<longrightarrow> within_window now d)"
proof -
  assume "(h, a) \<in> (parent_rel db)\<^sup>*"
  moreover obtain ids where ids: "ancestor_chain_ids db h = Inr ids" and "\<forall>a \<in> set ids. \<not> is_revoked db a"
    "\<forall>d \<in> set (delegations db). d_id d \<in> set ids \<longrightarrow> within_window now d"
    using assms(1) by (auto simp: chain_clean_def)
  moreover have "set ids = (parent_rel db)\<^sup>* `` {h}"
    using chain_ids_exact [of db "[h]" ids] ids assms(2) [OF ids] by (simp add: ancestor_chain_ids_def)
  ultimately show ?thesis by auto
qed

end
