(* ===== verification/Delegation_Queries.thy ===== *)
theory Delegation_Queries
  imports Transact
begin

text \<open>
  The capability reads of an invocation: \<open>get_valid_delegations\<close>, \<open>resolve_pkh_did\<close>,
  \<open>get_filtered_delegations\<close> and \<open>get_delegation_chain\<close> of \<open>tinycloud-core/src/db.rs\<close>, with the
  parameters of \<open>types/capabilities_read_params.rs\<close>. A \<open>HashMap\<close> from hashes is an association list.
\<close>

section \<open>Data\<close>

record ListFilters =
  lf_direction :: "string option"
  lf_path :: "string option"
  lf_actions :: "string list option"

datatype CapabilitiesReadParams = ListParams "ListFilters option" | ChainParams string

text \<open>
  Decoders of published crates: \<open>serde_json::from_value\<close> to the parameters, and the decoding of a
  stored token to a delegation.
\<close>

record decoders =
  params_from_json :: "json \<Rightarrow> CapabilitiesReadParams option"
  delegation_from_bytes :: "string \<Rightarrow> TinyCloudDelegation option"

text \<open>The first fact with parameters that decode.\<close>

fun caps_read_params :: "decoders \<Rightarrow> json list \<Rightarrow> CapabilitiesReadParams option" where
  "caps_read_params D [] = None"
| "caps_read_params D (f # fs) =
     (case Option.bind (Option.bind (as_object f) (\<lambda>obj. obj_get obj ''capabilitiesReadParams'')) (params_from_json D) of
        Some p \<Rightarrow> Some p
      | None \<Rightarrow> caps_read_params D fs)"

definition mode_from_facts :: "Facts option \<Rightarrow> DelegationMode" where
  "mode_from_facts facts =
     (case Option.bind facts (\<lambda>f. obj_get_as as_str f FACT_KEY) of
        Some s \<Rightarrow> (if s = ''terminal'' then Terminal else Attenuable)
      | None \<Rightarrow> Attenuable)"

section \<open>Listing\<close>

text \<open>The left join with the revocations, filtered on the missing ones.\<close>

definition unrevoked :: "database \<Rightarrow> delegation_row list" where
  "unrevoked db = filter (\<lambda>d. \<not> list_ex (\<lambda>r. revoked r = d_id d) (revocations db)) (delegations db)"

definition listed_now :: "time \<Rightarrow> delegation_row \<Rightarrow> bool" where
  "listed_now now d \<longleftrightarrow>
     (case d_expiry d of Some e \<Rightarrow> e > now | None \<Rightarrow> True) \<and>
     (case d_not_before d of Some n \<Rightarrow> n \<le> now | None \<Rightarrow> True)"

definition in_space :: "SpaceId \<Rightarrow> ability_row list \<Rightarrow> bool" where
  "in_space s as = list_ex (\<lambda>a. space_of (ab_resource a) = Some s) as"

text \<open>
  The rows \<open>load_many(parent_delegations)\<close> returns: the relation it follows joins the \<open>parent\<close> column
  with the delegation's own id.
\<close>

definition loaded_parents :: "database \<Rightarrow> delegation_row \<Rightarrow> parent_row list" where
  "loaded_parents db d = filter (\<lambda>l. pd_parent l = d_id d) (parent_delegations db)"

definition row_info :: "externals \<Rightarrow> decoders \<Rightarrow> delegation_row \<Rightarrow> ability_row list \<Rightarrow> parent_row list \<Rightarrow>
    (TxError, DelegationInfo) result" where
  "row_info X D d as parents =
     rbind (map_err TxEncryption (maybe_decrypt X (column_key X) (d_serialization d))) (\<lambda>serialization.
     rbind (ok_or (delegation_from_bytes D serialization) TxDecoding) (\<lambda>token.
     Inr \<lparr>di_capabilities = map (\<lambda>a. \<lparr>cap_resource = ab_resource a, cap_ability = ab_ability a,
                                      cap_caveats = ab_caveats a\<rparr>) as,
          di_delegator = delegator d, di_delegate = delegatee d,
          di_parents = map (\<lambda>p. to_cid (pd_parent p) RAW_CODEC) parents,
          di_delegation = token, di_expiry = d_expiry d, di_not_before = d_not_before d,
          di_issued_at = d_issued_at d, di_delegation_mode = mode_from_facts (d_facts d)\<rparr>))"

definition get_valid_delegations :: "externals \<Rightarrow> decoders \<Rightarrow> time \<Rightarrow> database \<Rightarrow> SpaceId \<Rightarrow>
    (TxError, (hash \<times> DelegationInfo) list) result" where
  "get_valid_delegations X D now db s =
     try_map (\<lambda>d. rbind (row_info X D d (abilities_of db (d_id d)) (loaded_parents db d)) (\<lambda>i. Inr (d_id d, i)))
       (filter (\<lambda>d. listed_now now d \<and> in_space s (abilities_of db (d_id d))) (unrevoked db))"

section \<open>The account of a session key\<close>

definition canonical_or :: "externals \<Rightarrow> string \<Rightarrow> string" where
  "canonical_or X did = (case canonicalize_did X did of Inr c \<Rightarrow> c | Inl _ \<Rightarrow> did)"

definition delegators_above :: "externals \<Rightarrow> database \<Rightarrow> string set" where
  "delegators_above X db = (\<lambda>d. canonical_or X (delegator d)) ` set (delegations db)"

text \<open>The \<open>loop\<close>; the result is the account, or none when the walk stops before one.\<close>

function resolve_loop :: "externals \<Rightarrow> database \<Rightarrow> string list \<Rightarrow> string \<Rightarrow> string option" where
  "resolve_loop X db visited current_did =
     (if current_did \<in> set visited then None
      else
        (case find (\<lambda>d. delegatee d = current_did) (delegations db) of
           None \<Rightarrow> None
         | Some d \<Rightarrow>
             (if starts_with (delegator d) ''did:pkh:'' then Some (canonical_or X (delegator d))
              else resolve_loop X db (current_did # visited) (canonical_or X (delegator d)))))"
  by pat_completeness auto

termination
proof (relation "measure (\<lambda>(X, db, visited, current).
    2 * card (delegators_above X db - set visited) + (if current \<in> delegators_above X db then 0 else 1))")
  fix X :: externals and db :: database and visited :: "string list" and current :: string and d :: delegation_row
  assume new: "current \<notin> set visited"
    and row: "find (\<lambda>d. delegatee d = current) (delegations db) = Some d"
  have "d \<in> set (delegations db)" using find_SomeD [OF row] by simp
  then have next_in: "canonical_or X (delegator d) \<in> delegators_above X db" by (simp add: delegators_above_def)
  have fin: "finite (delegators_above X db - set visited)" by (simp add: delegators_above_def)
  show "((X, db, current # visited, canonical_or X (delegator d)), X, db, visited, current)
      \<in> measure (\<lambda>(X, db, visited, current).
        2 * card (delegators_above X db - set visited) + (if current \<in> delegators_above X db then 0 else 1))"
  proof (cases "current \<in> delegators_above X db")
    case True
    with new have "delegators_above X db - set (current # visited) \<subset> delegators_above X db - set visited" by auto
    from psubset_card_mono [OF fin this] True next_in show ?thesis by simp
  next
    case False
    then have "delegators_above X db - set (current # visited) = delegators_above X db - set visited" by auto
    with False next_in show ?thesis by simp
  qed
qed simp

declare resolve_loop.simps [simp del]

definition resolve_pkh_did :: "externals \<Rightarrow> database \<Rightarrow> string \<Rightarrow> string" where
  "resolve_pkh_did X db did =
     (let canonical_did = canonical_or X did
      in if starts_with canonical_did ''did:pkh:'' then canonical_did
         else
           (case resolve_loop X db [] canonical_did of
              Some pkh \<Rightarrow> pkh
            | None \<Rightarrow> canonical_did))"

section \<open>Filtered listing\<close>

definition direction_ok :: "externals \<Rightarrow> string option \<Rightarrow> string \<Rightarrow> delegation_row \<Rightarrow> bool" where
  "direction_ok X direction pkh d \<longleftrightarrow>
     (if direction = Some ''created'' then did_principal_matches X (delegator d) pkh
      else if direction = Some ''received'' then did_principal_matches X (delegatee d) pkh
      else True)"

definition path_matches :: "string option \<Rightarrow> ability_row list \<Rightarrow> bool" where
  "path_matches path as \<longleftrightarrow>
     (case path of
        None \<Rightarrow> True
      | Some pre \<Rightarrow>
          list_ex (\<lambda>a. case Option.bind (tinycloud_resource (ab_resource a)) res_path of
                         Some p \<Rightarrow> starts_with p pre
                       | None \<Rightarrow> False) as)"

definition action_matches :: "string list option \<Rightarrow> ability_row list \<Rightarrow> bool" where
  "action_matches acts as \<longleftrightarrow>
     (case acts of None \<Rightarrow> True | Some l \<Rightarrow> list_ex (\<lambda>a. list_ex (\<lambda>act. ab_ability a = act) l) as)"

definition get_filtered_delegations :: "externals \<Rightarrow> decoders \<Rightarrow> time \<Rightarrow> database \<Rightarrow> SpaceId \<Rightarrow> string \<Rightarrow>
    ListFilters option \<Rightarrow> (TxError, (hash \<times> DelegationInfo) list) result" where
  "get_filtered_delegations X D now db s who filters =
     (let pkh = resolve_pkh_did X db who;
          direction = Option.bind filters lf_direction;
          path = Option.bind filters lf_path;
          acts = Option.bind filters lf_actions
      in try_map (\<lambda>d. rbind (row_info X D d (abilities_of db (d_id d)) (loaded_parents db d)) (\<lambda>i. Inr (d_id d, i)))
           (filter (\<lambda>d. let as = abilities_of db (d_id d)
                        in listed_now now d \<and> in_space s as \<and> direction_ok X direction pkh d \<and>
                           path_matches path as \<and> action_matches acts as) (unrevoked db)))"

section \<open>The chain of a delegation\<close>

text \<open>The body of the \<open>loop\<close> up to the entry it pushes; \<open>None\<close> is a \<open>break\<close> before that.\<close>

definition chain_entry :: "externals \<Rightarrow> decoders \<Rightarrow> time \<Rightarrow> database \<Rightarrow> SpaceId \<Rightarrow> hash \<Rightarrow>
    (TxError, DelegationInfo option) result" where
  "chain_entry X D now db s current_hash =
     (case find (\<lambda>d. d_id d = current_hash) (unrevoked db) of
        None \<Rightarrow> Inr None
      | Some d \<Rightarrow>
          (if \<not> listed_now now d then Inr None
           else if \<not> in_space s (abilities_of db (d_id d)) then Inr None
           else rbind (row_info X D d (abilities_of db (d_id d)) (parent_links db current_hash)) (\<lambda>info.
                Inr (Some info))))"

text \<open>
  The \<open>loop\<close> follows the first parent and keeps no set of visited nodes, so that the value \<open>None\<close>
  stands for a loop that never ends.
\<close>

partial_function (option) chain_from ::
  "externals \<Rightarrow> decoders \<Rightarrow> time \<Rightarrow> database \<Rightarrow> SpaceId \<Rightarrow> DelegationInfo list \<Rightarrow> hash \<Rightarrow>
   (TxError, DelegationInfo list) result option" where
  "chain_from X D now db s chain current_hash =
     (case chain_entry X D now db s current_hash of
        Inl e \<Rightarrow> Some (Inl e)
      | Inr None \<Rightarrow> Some (Inr chain)
      | Inr (Some info) \<Rightarrow>
          (case parent_links db current_hash of
             [] \<Rightarrow> Some (Inr (chain @ [info]))
           | p # _ \<Rightarrow> chain_from X D now db s (chain @ [info]) (pd_parent p)))"

definition get_delegation_chain :: "externals \<Rightarrow> decoders \<Rightarrow> time \<Rightarrow> database \<Rightarrow> SpaceId \<Rightarrow> string \<Rightarrow>
    (TxError, DelegationInfo list) result option" where
  "get_delegation_chain X D now db s delegation_cid =
     (case cid_parse X delegation_cid of
        None \<Rightarrow> Some (Inl (TxInvalidCid delegation_cid))
      | Some c \<Rightarrow> chain_from X D now db s [] (cid_hash c))"

section \<open>The proof graph has no cycles\<close>

text \<open>
  Identifiers are digests of tokens. Two tokens with one digest, or a token that cites its own digest,
  are hash collisions; without them every citation leads to an older delegation.
\<close>

definition separate :: "database \<Rightarrow> bool" where
  "separate db \<longleftrightarrow>
     d_id ` set (delegations db) \<inter> (i_id ` set (invocations db) \<union> r_id ` set (revocations db)) = {} \<and>
     (\<forall>l \<in> set (parent_delegations db). pd_child l \<noteq> pd_parent l)"

definition proofs_ok :: "database \<Rightarrow> bool" where
  "proofs_ok db \<longleftrightarrow> ids_ok db \<and> (separate db \<longrightarrow> acyclic (parent_rel db))"

lemma parent_rel_image: "parent_rel db = (\<lambda>l. (pd_child l, pd_parent l)) ` set (parent_delegations db)"
  by (auto simp: parent_rel_def)

lemma new_links_acyclic:
  assumes "parent_delegations db' = parent_delegations db @ new_links h ps"
    and "ids_ok db" and "h \<notin> d_id ` set (delegations db)"
    and "\<forall>l \<in> set (parent_delegations db'). pd_child l \<noteq> pd_parent l"
    and "acyclic (parent_rel db)"
  shows "acyclic (parent_rel db')"
proof -
  have "parent_rel db' = parent_rel db \<union> {h} \<times> cid_hash ` set ps"
    using assms(1) by (auto simp: parent_rel_image new_links_def image_Un image_image)
  moreover have "h \<notin> Range (parent_rel db)"
    using assms(2,3) by (auto simp: parent_rel_def ids_ok_def)
  moreover have "h \<notin> cid_hash ` set ps" using assms(1,4) by (auto simp: new_links_def ball_Un)
  ultimately show ?thesis using acyclic_new_source [OF assms(5)] by simp
qed

lemma delegation_process_proofs:
  assumes "delegation_process X now db (d, ser) = Inr (h, db')" and "proofs_ok db"
  shows "proofs_ok db'"
proof -
  have ids: "ids_ok db'" using delegation_process_ids assms by (auto simp: proofs_ok_def)
  have "delegation_save X db d ser = Inr (h, db')"
    using assms(1) by (simp add: delegation_process_ok)
  then have "acyclic (parent_rel db')" if sep: "separate db'"
  proof (cases rule: delegation_save_cases)
    case known
    with assms(2) sep show ?thesis by (simp add: proofs_ok_def separate_def parent_rel_def)
  next
    case fresh
    from sep fresh have "separate db" by (auto simp: separate_def)
    with assms(2) have "acyclic (parent_rel db)" "ids_ok db" by (simp_all add: proofs_ok_def)
    with fresh sep show ?thesis
      by (intro new_links_acyclic [of db' db h "di_parents d"]) (simp_all add: separate_def)
  qed
  with ids show ?thesis by (simp add: proofs_ok_def)
qed

lemma invocation_process_proofs:
  assumes "invocation_process X now db (i, ser) vops = Inr (h, db')" and "proofs_ok db"
  shows "proofs_ok db'"
proof -
  have ids: "ids_ok db'" using invocation_process_ids assms by (auto simp: proofs_ok_def)
  have "invocation_save X db i now ser vops = Inr (h, db')"
    using assms(1) by (simp add: invocation_process_ok)
  then have "acyclic (parent_rel db')" if sep: "separate db'"
  proof (cases rule: invocation_save_cases)
    case known
    with assms(2) sep show ?thesis by (simp add: proofs_ok_def separate_def parent_rel_def)
  next
    case (fresh db2)
    from save_operations_frame [OF fresh(3)] fresh(1,4)
    have tables: "parent_delegations db' = parent_delegations db @ new_links h (ii_parents i)"
      "delegations db' = delegations db" "revocations db' = revocations db"
      "invocations db' = invocations db @ [new_invocation_row X i now ser]"
      by (auto simp: same_but_kv_def same_but_deliveries_def recorded_def new_links_def)
    from sep tables have "separate db" by (auto simp: separate_def)
    moreover have "h \<notin> d_id ` set (delegations db)"
      using sep tables fresh(1) by (auto simp: separate_def new_invocation_row_def)
    ultimately show ?thesis
      using assms(2) sep by (intro new_links_acyclic [OF tables(1)]) (simp_all add: proofs_ok_def separate_def)
  qed
  with ids show ?thesis by (simp add: proofs_ok_def)
qed

lemma revocation_process_proofs:
  assumes "revocation_process X now db (r, ser) = Inr (h, db')" and "proofs_ok db"
  shows "proofs_ok db'"
proof -
  have ids: "ids_ok db'" using revocation_process_ids assms by (auto simp: proofs_ok_def)
  from assms(1) have "acyclic (parent_rel db')" if sep: "separate db'"
  proof (cases rule: revocation_process_cases)
    case (known d)
    with assms(2) sep show ?thesis by (simp add: proofs_ok_def)
  next
    case (fresh d)
    from sep fresh(6) have "separate db" by (auto simp: separate_def)
    moreover have "h \<notin> d_id ` set (delegations db)" using sep fresh(6) by (auto simp: separate_def)
    ultimately show ?thesis
      using assms(2) sep fresh(6)
      by (intro new_links_acyclic [of db' db h "ri_parents r"]) (simp_all add: proofs_ok_def separate_def)
  qed
  with ids show ?thesis by (simp add: proofs_ok_def)
qed

lemma proofs_ok_cong:
  assumes "delegations db' = delegations db" "parent_delegations db' = parent_delegations db"
    "revocations db' = revocations db" "invocations db' = invocations db" "abilities db' = abilities db"
  shows "proofs_ok db' \<longleftrightarrow> proofs_ok db"
  using assms by (simp add: proofs_ok_def separate_def ids_ok_def parent_rel_def)

interpretation proofs: event_invariant X proofs_ok for X
proof
  fix db db1 assume "prepared db db1" "proofs_ok db"
  then show "proofs_ok db1" using prepared_grows [of db db1] proofs_ok_cong [of db1 db] by simp
qed (fact delegation_process_proofs invocation_process_proofs revocation_process_proofs)+

interpretation proofs_db: transition_invariant empty_db "node_step X" proofs_ok for X
proof
  show "proofs_ok empty_db" by (simp add: empty_db_def proofs_ok_def ids_ok_def parent_rel_def acyclic_def)
next
  fix s s' assume "node_step X s s'" "proofs_ok s"
  then show "proofs_ok s'"
  proof cases
    case (hooks a b)
    with \<open>proofs_ok s\<close> show ?thesis using proofs_ok_cong [of s' s] by simp
  qed (use proofs.transact_keeps in blast)
qed

lemma reachable_acyclic: "reachable X db \<Longrightarrow> separate db \<Longrightarrow> acyclic (parent_rel db)"
  unfolding reachable_def using proofs_db.holds_reachable [of X db] by (simp add: proofs_ok_def)

section \<open>What the chain of a delegation holds\<close>

lemma finite_parent_rel: "finite (parent_rel db)"
  by (simp add: parent_rel_image)

lemma parent_links_Cons:
  assumes "parent_links db h = p # ps"
  shows "(h, pd_parent p) \<in> parent_rel db"
proof -
  have "p \<in> set (parent_links db h)" by (simp add: assms)
  then show ?thesis by (auto simp: parent_links_def parent_rel_image)
qed

lemma chain_from_total:
  assumes "acyclic (parent_rel db)"
  shows "\<exists>r. chain_from X D now db s chain h = Some r"
proof (induction h arbitrary: chain
    rule: wf_induct_rule [OF finite_acyclic_wf_converse [OF finite_parent_rel assms]])
  case (1 h)
  show ?case
  proof (cases "parent_links db h")
    case Nil
    then show ?thesis
      by (subst chain_from.simps) (auto split: option.splits sum.splits)
  next
    case (Cons p ps)
    then have "(pd_parent p, h) \<in> (parent_rel db)\<inverse>" using parent_links_Cons by simp
    from 1 [OF this] Cons show ?thesis
      by (subst chain_from.simps) (auto split: option.splits sum.splits)
  qed
qed

text \<open>
  A chain from a node: each entry is a live delegation of the space, described by the node's own rows,
  and is followed by one for a parent it cites.
\<close>

inductive follows :: "externals \<Rightarrow> decoders \<Rightarrow> time \<Rightarrow> database \<Rightarrow> SpaceId \<Rightarrow> hash \<Rightarrow> DelegationInfo list \<Rightarrow> bool"
  for X D now db s where
  stop: "follows X D now db s h []"
| last: "chain_entry X D now db s h = Inr (Some info) \<Longrightarrow> follows X D now db s h [info]"
| step: "chain_entry X D now db s h = Inr (Some info) \<Longrightarrow> (h, p) \<in> parent_rel db \<Longrightarrow>
    follows X D now db s p infos \<Longrightarrow> follows X D now db s h (info # infos)"

lemma chain_entry_live:
  assumes "chain_entry X D now db s h = Inr (Some info)"
  shows "\<exists>d \<in> set (delegations db). d_id d = h \<and> \<not> is_revoked db h \<and> listed_now now d \<and>
    in_space s (abilities_of db h) \<and> row_info X D d (abilities_of db h) (parent_links db h) = Inr info"
proof -
  from assms obtain d where d: "find (\<lambda>d. d_id d = h) (unrevoked db) = Some d"
    by (auto simp: chain_entry_def split: option.splits)
  then have "d \<in> set (delegations db) \<and> d_id d = h \<and> \<not> is_revoked db h"
    using find_SomeD [OF d] by (auto simp: unrevoked_def is_revoked_iff list_ex_iff)
  with assms d show ?thesis by (auto simp: chain_entry_def rbind_eq_Inr split: if_splits)
qed

lemma chain_from_follows:
  assumes "chain_from X D now db s chain h = Some (Inr r)"
  shows "\<exists>infos. r = chain @ infos \<and> follows X D now db s h infos"
proof -
  have "\<forall>r. res = Inr r \<longrightarrow> (\<exists>infos. r = chain @ infos \<and> follows X D now db s h infos)"
    if "chain_from X D now db s chain h = Some res" for res
    using _ that
  proof (rule chain_from.raw_induct [where P = "\<lambda>X D now db s chain h res.
      \<forall>r. res = Inr r \<longrightarrow> (\<exists>infos. r = chain @ infos \<and> follows X D now db s h infos)"])
    fix f :: "externals \<Rightarrow> decoders \<Rightarrow> time \<Rightarrow> database \<Rightarrow> SpaceId \<Rightarrow> DelegationInfo list \<Rightarrow> hash \<Rightarrow>
        (TxError, DelegationInfo list) result option"
      and X D now db s chain h res
    assume IH: "\<And>X D now db s chain h res. f X D now db s chain h = Some res \<Longrightarrow>
        \<forall>r. res = Inr r \<longrightarrow> (\<exists>infos. r = chain @ infos \<and> follows X D now db s h infos)"
      and body: "(case chain_entry X D now db s h of
          Inl e \<Rightarrow> Some (Inl e)
        | Inr None \<Rightarrow> Some (Inr chain)
        | Inr (Some info) \<Rightarrow>
            (case parent_links db h of
               [] \<Rightarrow> Some (Inr (chain @ [info]))
             | p # _ \<Rightarrow> f X D now db s (chain @ [info]) (pd_parent p))) = Some res"
    show "\<forall>r. res = Inr r \<longrightarrow> (\<exists>infos. r = chain @ infos \<and> follows X D now db s h infos)"
    proof (cases "\<exists>info p ps. chain_entry X D now db s h = Inr (Some info) \<and> parent_links db h = p # ps")
      case True
      then obtain info p ps where entry: "chain_entry X D now db s h = Inr (Some info)"
        and links: "parent_links db h = p # ps" by blast
      with body have "f X D now db s (chain @ [info]) (pd_parent p) = Some res" by simp
      from IH [OF this] show ?thesis
        using follows.step [OF entry parent_links_Cons [OF links]] by fastforce
    next
      case False
      with body show ?thesis
        by (auto intro: follows.stop follows.last split: sum.splits option.splits list.splits)
    qed
  qed
  with assms show ?thesis by blast
qed

section \<open>Errors of the capability reads\<close>

fun read_error :: "TxError \<Rightarrow> bool" where
  "read_error (TxInvalidCid _) = True"
| "read_error (TxEncryption _) = True"
| "read_error TxDecoding = True"
| "read_error _ = False"

lemma row_info_error: "row_info X D d as ps = Inl e \<Longrightarrow> read_error e"
  by (auto simp: row_info_def rbind_eq_Inl ok_or_eq_Inl map_err_def split: sum.splits)

lemma listing_error:
  "get_valid_delegations X D now db s = Inl e \<Longrightarrow> read_error e"
  "get_filtered_delegations X D now db s who filters = Inl e \<Longrightarrow> read_error e"
  using row_info_error
  by (auto simp: get_valid_delegations_def get_filtered_delegations_def Let_def rbind_eq_Inl dest!: try_map_Inl)

lemma chain_entry_error: "chain_entry X D now db s h = Inl e \<Longrightarrow> read_error e"
  using row_info_error by (auto simp: chain_entry_def rbind_eq_Inl split: option.splits if_splits)

lemma chain_from_error:
  assumes "chain_from X D now db s chain h = Some (Inl e)"
  shows "read_error e"
proof -
  have "\<forall>e. res = Inl e \<longrightarrow> read_error e" if "chain_from X D now db s chain h = Some res" for res
    using _ that
  proof (rule chain_from.raw_induct [where P = "\<lambda>X D now db s chain h res. \<forall>e. res = Inl e \<longrightarrow> read_error e"])
    fix f :: "externals \<Rightarrow> decoders \<Rightarrow> time \<Rightarrow> database \<Rightarrow> SpaceId \<Rightarrow> DelegationInfo list \<Rightarrow> hash \<Rightarrow>
        (TxError, DelegationInfo list) result option"
      and X D now db s chain h res
    assume "\<And>X D now db s chain h res. f X D now db s chain h = Some res \<Longrightarrow> \<forall>e. res = Inl e \<longrightarrow> read_error e"
      and "(case chain_entry X D now db s h of
          Inl e \<Rightarrow> Some (Inl e)
        | Inr None \<Rightarrow> Some (Inr chain)
        | Inr (Some info) \<Rightarrow>
            (case parent_links db h of
               [] \<Rightarrow> Some (Inr (chain @ [info]))
             | p # _ \<Rightarrow> f X D now db s (chain @ [info]) (pd_parent p))) = Some res"
    then show "\<forall>e. res = Inl e \<longrightarrow> read_error e"
      using chain_entry_error [of X D now db s h] by (auto split: sum.splits option.splits list.splits)
  qed
  with assms show ?thesis by blast
qed

lemma chain_query_error: "get_delegation_chain X D now db s c = Some (Inl e) \<Longrightarrow> read_error e"
  using chain_from_error by (auto simp: get_delegation_chain_def split: option.splits)

section \<open>What a listing holds\<close>

lemma set_unrevoked: "set (unrevoked db) = {d \<in> set (delegations db). \<not> is_revoked db (d_id d)}"
  by (auto simp: unrevoked_def is_revoked_iff list_ex_iff)

lemma row_info_ok:
  assumes "row_info X D d as ps = Inr info"
  shows "map (\<lambda>c. (cap_resource c, cap_ability c, cap_caveats c)) (di_capabilities info) =
      map (\<lambda>a. (ab_resource a, ab_ability a, ab_caveats a)) as"
    and "di_parents info = map (\<lambda>p. to_cid (pd_parent p) RAW_CODEC) ps"
  using assms by (auto simp: row_info_def rbind_eq_Inr)

lemma listed_ids:
  assumes "try_map (\<lambda>d. rbind (row_info X D d (abilities_of db (d_id d)) (loaded_parents db d)) (\<lambda>i. Inr (d_id d, i))) ds = Inr l"
  shows "fst ` set l = d_id ` set ds"
    and "(h, info) \<in> set l \<Longrightarrow> \<exists>d \<in> set ds. h = d_id d \<and> row_info X D d (abilities_of db h) (loaded_parents db d) = Inr info"
proof -
  have "map fst l = map d_id ds" using assms by (rule try_map_related) (auto simp: rbind_eq_Inr)
  then show "fst ` set l = d_id ` set ds" by (metis list.set_map)
  show "\<exists>d \<in> set ds. h = d_id d \<and> row_info X D d (abilities_of db h) (loaded_parents db d) = Inr info"
    if "(h, info) \<in> set l" using try_map_Inr_set [OF assms that] by (auto simp: rbind_eq_Inr)
qed

section \<open>The account of a session\<close>

text \<open>From a key to the principal that delegated to it.\<close>

definition delegated_by :: "externals \<Rightarrow> database \<Rightarrow> (string \<times> string) set" where
  "delegated_by X db = {(k, a). \<exists>d \<in> set (delegations db). delegatee d = k \<and> canonical_or X (delegator d) = a}"

lemma resolve_loop_delegated:
  "resolve_loop X db visited k = Some a \<Longrightarrow> (k, a) \<in> (delegated_by X db)\<^sup>+"
proof (induction X db visited k rule: resolve_loop.induct)
  case (1 X db visited k)
  note unfold = resolve_loop.simps [of X db visited k]
  from "1.prems" obtain d where d: "k \<notin> set visited" "find (\<lambda>d. delegatee d = k) (delegations db) = Some d"
    by (auto simp: unfold split: if_splits option.splits)
  then have edge: "(k, canonical_or X (delegator d)) \<in> delegated_by X db"
    using find_SomeD [OF d(2)] by (auto simp: delegated_by_def)
  show ?case
  proof (cases "starts_with (delegator d) ''did:pkh:''")
    case True
    with "1.prems" d edge show ?thesis by (auto simp: unfold)
  next
    case False
    with "1.prems" d have "resolve_loop X db (k # visited) (canonical_or X (delegator d)) = Some a" by (simp add: unfold)
    from "1.IH" [OF d False this] edge show ?thesis by (rule trancl_into_trancl2 [rotated])
  qed
qed

end
