(* ===== verification/Block_Store.thy ===== *)
theory Block_Store
  imports Events "HOL-Library.AList"
begin

text \<open>
  Content-addressed block stores: the staging buffer of \<open>tinycloud-core/src/storage/util.rs\<close>, the
  store in memory of \<open>storage/memory.rs\<close>, and the store on disk of
  \<open>tinycloud-node-server/src/storage/file_system.rs\<close> with the sizes of \<open>storage/size.rs\<close>. A Rust map is
  an association list with distinct keys. What the rest of the node relies on is the locale
  \<open>block_store\<close>, which both stores interpret.
\<close>

section \<open>Staging\<close>

text \<open>\<open>HashBuffer\<close>: the bytes written to the buffer and the bytes fed to the hasher.\<close>

record HashBuffer =
  hb_buffer :: string
  hb_hashed :: string

definition hash_buffer_new :: HashBuffer where
  "hash_buffer_new = \<lparr>hb_buffer = [], hb_hashed = []\<rparr>"

text \<open>What the \<open>poll_write\<close> of the inner writer answers: not ready, or the number of bytes it took.\<close>

datatype write_poll = Pending | Ready nat

definition poll_write :: "string \<Rightarrow> write_poll \<Rightarrow> HashBuffer \<Rightarrow> HashBuffer" where
  "poll_write buf inner p =
     (let p = p\<lparr>hb_hashed := hb_hashed p @ buf\<rparr>
      in case inner of
           Pending \<Rightarrow> p
         | Ready n \<Rightarrow> p\<lparr>hb_buffer := hb_buffer p @ take n buf\<rparr>)"

definition buffer_hash :: "externals \<Rightarrow> HashBuffer \<Rightarrow> hash" where
  "buffer_hash X p = hash_bytes X (hb_hashed p)"

text \<open>
  Writing a whole buffer, as the callers of \<open>AsyncWrite\<close> do: the rest is offered again until all of
  it is taken, and unchanged after \<open>Pending\<close>.
\<close>

fun write_all :: "string \<Rightarrow> write_poll list \<Rightarrow> HashBuffer \<Rightarrow> HashBuffer" where
  "write_all buf [] p = p"
| "write_all buf (a # as) p =
     (if buf = [] then p
      else write_all (case a of Pending \<Rightarrow> buf | Ready n \<Rightarrow> drop n buf) as (poll_write buf a p))"

text \<open>The hasher saw what the buffer holds.\<close>

definition exact :: "HashBuffer \<Rightarrow> bool" where
  "exact p \<longleftrightarrow> hb_hashed p = hb_buffer p"

lemma exact_new: "exact hash_buffer_new"
  by (simp add: exact_def hash_buffer_new_def)

section \<open>The store in memory\<close>

type_synonym Blocks = "(hash \<times> string) list"
type_synonym MemoryStore = "(SpaceId \<times> Blocks) list"

datatype StoreError = StoreIo | IncorrectHash

definition memory_create :: "SpaceId \<Rightarrow> MemoryStore \<Rightarrow> MemoryStore" where
  "memory_create s m = (case map_of m s of None \<Rightarrow> AList.update s [] m | Some _ \<Rightarrow> m)"

definition memory_contains :: "MemoryStore \<Rightarrow> SpaceId \<Rightarrow> hash \<Rightarrow> bool" where
  "memory_contains m s h = (case map_of m s of None \<Rightarrow> False | Some bs \<Rightarrow> map_of bs h \<noteq> None)"

definition memory_read :: "MemoryStore \<Rightarrow> SpaceId \<Rightarrow> hash \<Rightarrow> (StoreError, string option) result" where
  "memory_read m s h = (case map_of m s of None \<Rightarrow> Inr None | Some bs \<Rightarrow> Inr (map_of bs h))"

definition memory_insert :: "SpaceId \<Rightarrow> hash \<Rightarrow> string \<Rightarrow> MemoryStore \<Rightarrow> MemoryStore" where
  "memory_insert s h data m =
     (let bs = (case map_of m s of None \<Rightarrow> [] | Some bs \<Rightarrow> bs)
      in AList.update s (AList.update h data bs) m)"

definition memory_persist ::
  "externals \<Rightarrow> SpaceId \<Rightarrow> HashBuffer \<Rightarrow> MemoryStore \<Rightarrow> (StoreError, hash \<times> MemoryStore) result" where
  "memory_persist X s staged m =
     (let h = buffer_hash X staged in Inr (h, memory_insert s h (hb_buffer staged) m))"

definition memory_persist_keyed ::
  "externals \<Rightarrow> SpaceId \<Rightarrow> HashBuffer \<Rightarrow> hash \<Rightarrow> MemoryStore \<Rightarrow> (StoreError, MemoryStore) result" where
  "memory_persist_keyed X s staged h m =
     (if h \<noteq> buffer_hash X staged then Inl IncorrectHash
      else Inr (memory_insert s h (hb_buffer staged) m))"

definition memory_remove :: "SpaceId \<Rightarrow> hash \<Rightarrow> MemoryStore \<Rightarrow> unit option \<times> MemoryStore" where
  "memory_remove s h m =
     (case map_of m s of
        None \<Rightarrow> (None, m)
      | Some bs \<Rightarrow>
          (case map_of bs h of
             None \<Rightarrow> (None, m)
           | Some _ \<Rightarrow> (Some (), AList.update s (AList.delete h bs) m)))"

definition memory_total_size :: "MemoryStore \<Rightarrow> SpaceId \<Rightarrow> nat option" where
  "memory_total_size m s = map_option (\<lambda>bs. sum_list (map (length \<circ> snd) bs)) (map_of m s)"

section \<open>The store on disk\<close>

text \<open>
  A store under its root: the directories of spaces, by suffix and name; the files, by directory and
  file name; and the size of every space it knows. \<open>b64\<close> is the URL-safe alphabet of the \<open>base64\<close>
  crate. Disk failures other than a missing directory are left out.
\<close>

type_synonym u64 = "64 word"
type_synonym dir = "string \<times> string"

record FileSystemStore =
  fs_dirs :: "dir list"
  fs_files :: "((dir \<times> string) \<times> string) list"
  fs_sizes :: "(SpaceId \<times> u64) list"

definition init_size :: "SpaceId \<Rightarrow> (SpaceId \<times> u64) list \<Rightarrow> (SpaceId \<times> u64) list" where
  "init_size s t = AList.update s 0 t"

definition increment_size :: "SpaceId \<Rightarrow> u64 \<Rightarrow> (SpaceId \<times> u64) list \<Rightarrow> (SpaceId \<times> u64) list" where
  "increment_size s n t = (case map_of t s of Some k \<Rightarrow> AList.update s (k + n) t | None \<Rightarrow> t)"

definition decrement_size :: "SpaceId \<Rightarrow> u64 \<Rightarrow> (SpaceId \<times> u64) list \<Rightarrow> (SpaceId \<times> u64) list" where
  "decrement_size s n t = (case map_of t s of Some k \<Rightarrow> AList.update s (k - n) t | None \<Rightarrow> t)"

definition get_size :: "SpaceId \<Rightarrow> (SpaceId \<times> u64) list \<Rightarrow> u64 option" where
  "get_size s t = map_of t s"

definition space_dir :: "SpaceId \<Rightarrow> dir" where
  "space_dir s = (suffix_of s, space_name s)"

definition get_path :: "(string \<Rightarrow> string) \<Rightarrow> SpaceId \<Rightarrow> hash \<Rightarrow> dir \<times> string" where
  "get_path b64 s h = (space_dir s, b64 (digest h))"

definition dir_size :: "((dir \<times> string) \<times> string) list \<Rightarrow> dir \<Rightarrow> u64" where
  "dir_size files d = sum_list (map (\<lambda>(_, c). of_nat (length c)) (filter (\<lambda>((d', _), _). d' = d) files))"

text \<open>\<open>store_sizes\<close>, on opening: a directory that is not named by a DID is an error.\<close>

definition store_sizes :: "externals \<Rightarrow> dir list \<Rightarrow> ((dir \<times> string) \<times> string) list \<Rightarrow>
    (StoreError, (SpaceId \<times> u64) list) result" where
  "store_sizes X dirs files =
     try_fold (\<lambda>acc d.
       if did_valid X (''did:'' @ fst d)
       then Inr (AList.update (SpaceId (''did:'' @ fst d) (snd d)) (dir_size files d) acc)
       else Inl StoreIo) [] dirs"

definition fs_open :: "externals \<Rightarrow> FileSystemStore \<Rightarrow> (StoreError, FileSystemStore) result" where
  "fs_open X fs = rbind (store_sizes X (fs_dirs fs) (fs_files fs)) (\<lambda>t. Inr (fs\<lparr>fs_sizes := t\<rparr>))"

definition fs_create :: "SpaceId \<Rightarrow> FileSystemStore \<Rightarrow> FileSystemStore" where
  "fs_create s fs =
     (let fs = (if space_dir s \<in> set (fs_dirs fs) then fs else fs\<lparr>fs_dirs := space_dir s # fs_dirs fs\<rparr>)
      in fs\<lparr>fs_sizes := init_size s (fs_sizes fs)\<rparr>)"

definition fs_contains :: "(string \<Rightarrow> string) \<Rightarrow> FileSystemStore \<Rightarrow> SpaceId \<Rightarrow> hash \<Rightarrow> bool" where
  "fs_contains b64 fs s h \<longleftrightarrow> map_of (fs_files fs) (get_path b64 s h) \<noteq> None"

definition fs_read ::
  "(string \<Rightarrow> string) \<Rightarrow> FileSystemStore \<Rightarrow> SpaceId \<Rightarrow> hash \<Rightarrow> (StoreError, string option) result" where
  "fs_read b64 fs s h = Inr (map_of (fs_files fs) (get_path b64 s h))"

definition fs_persist ::
  "externals \<Rightarrow> (string \<Rightarrow> string) \<Rightarrow> SpaceId \<Rightarrow> HashBuffer \<Rightarrow> FileSystemStore \<Rightarrow>
   (StoreError, hash \<times> FileSystemStore) result" where
  "fs_persist X b64 s staged fs =
     (let h = buffer_hash X staged
      in if fs_contains b64 fs s h then Inr (h, fs)
         else if space_dir s \<notin> set (fs_dirs fs) then Inl StoreIo
         else Inr (h, fs\<lparr>fs_files := AList.update (get_path b64 s h) (hb_buffer staged) (fs_files fs),
                         fs_sizes := increment_size s (of_nat (length (hb_buffer staged))) (fs_sizes fs)\<rparr>))"

definition fs_remove :: "(string \<Rightarrow> string) \<Rightarrow> SpaceId \<Rightarrow> hash \<Rightarrow> FileSystemStore \<Rightarrow> unit option \<times> FileSystemStore" where
  "fs_remove b64 s h fs =
     (case map_of (fs_files fs) (get_path b64 s h) of
        None \<Rightarrow> (None, fs)
      | Some c \<Rightarrow>
          (Some (), fs\<lparr>fs_files := AList.delete (get_path b64 s h) (fs_files fs),
                       fs_sizes := decrement_size s (of_nat (length c)) (fs_sizes fs)\<rparr>))"

definition fs_total_size :: "FileSystemStore \<Rightarrow> SpaceId \<Rightarrow> u64 option" where
  "fs_total_size fs s = get_size s (fs_sizes fs)"

section \<open>What a store promises\<close>

text \<open>
  \<open>holds\<close> is the invariant of the store: what it keeps under a digest has that digest. \<open>persist\<close>
  answers with the hash of the staging buffer, the block is readable afterwards, and no block
  that was readable is lost.
\<close>

locale block_store =
  fixes X :: externals
    and bs_read :: "'b \<Rightarrow> SpaceId \<Rightarrow> hash \<Rightarrow> (StoreError, string option) result"
    and bs_persist :: "SpaceId \<Rightarrow> HashBuffer \<Rightarrow> 'b \<Rightarrow> (StoreError, hash \<times> 'b) result"
    and holds :: "'b \<Rightarrow> bool"
  assumes persist_holds: "bs_persist s p b = Inr (h, b') \<Longrightarrow> exact p \<Longrightarrow> holds b \<Longrightarrow> holds b'"
    and persist_hash: "bs_persist s p b = Inr (h, b') \<Longrightarrow> h = buffer_hash X p"
    and persist_stored: "bs_persist s p b = Inr (h, b') \<Longrightarrow> \<exists>c. bs_read b' s h = Inr (Some c)"
    and persist_keeps: "bs_persist s p b = Inr (h, b') \<Longrightarrow> bs_read b s' h' = Inr (Some c) \<Longrightarrow>
      \<exists>c'. bs_read b' s' h' = Inr (Some c')"
    and read_addressed: "holds b \<Longrightarrow> bs_read b s h = Inr (Some c) \<Longrightarrow> blake3 X c = digest h"

definition memory_addressed :: "externals \<Rightarrow> MemoryStore \<Rightarrow> bool" where
  "memory_addressed X m \<longleftrightarrow> (\<forall>s bs h c. map_of m s = Some bs \<longrightarrow> map_of bs h = Some c \<longrightarrow> blake3 X c = digest h)"

lemma memory_read_insert:
  "memory_read (memory_insert s h data m) s' h' =
     (if s' = s \<and> h' = h then Inr (Some data) else memory_read m s' h')"
  by (auto simp: memory_read_def memory_insert_def Let_def update_conv' split: option.splits)

lemma memory_addressed_iff:
  "memory_addressed X m \<longleftrightarrow> (\<forall>s h c. memory_read m s h = Inr (Some c) \<longrightarrow> blake3 X c = digest h)"
  by (fastforce simp: memory_addressed_def memory_read_def split: option.splits)

interpretation memory: block_store X memory_read "memory_persist X" "memory_addressed X" for X
  by unfold_locales
    (auto simp: memory_persist_def Let_def memory_read_insert memory_addressed_iff buffer_hash_def exact_def
       hash_bytes_def)

definition file_addressed :: "externals \<Rightarrow> (string \<Rightarrow> string) \<Rightarrow> FileSystemStore \<Rightarrow> bool" where
  "file_addressed X b64 fs \<longleftrightarrow> inj b64 \<and>
     (\<forall>d f c. map_of (fs_files fs) (d, f) = Some c \<longrightarrow> b64 (blake3 X c) = f)"

lemma fs_persist_cases:
  assumes "fs_persist X b64 s p fs = Inr (h, fs')"
  shows "h = buffer_hash X p"
    and "map_of (fs_files fs') =
      (if fs_contains b64 fs s h then map_of (fs_files fs)
       else (map_of (fs_files fs))(get_path b64 s h \<mapsto> hb_buffer p))"
  using assms by (auto simp: fs_persist_def Let_def update_conv' split: if_splits)

interpretation disk: block_store X "fs_read b64" "fs_persist X b64" "file_addressed X b64" for X b64
proof
  fix s p fs h fs'
  assume run: "fs_persist X b64 s p fs = Inr (h, fs')"
  note c = fs_persist_cases [OF run]
  show "h = buffer_hash X p" by (rule c)
  show "\<exists>c. fs_read b64 fs' s h = Inr (Some c)"
    using c(2) by (auto simp: fs_read_def fs_contains_def)
  show "\<exists>c'. fs_read b64 fs' s' h' = Inr (Some c')" if "fs_read b64 fs s' h' = Inr (Some c)" for s' h' c
    using that c(2) by (auto simp: fs_read_def)
  show "file_addressed X b64 fs'" if "exact p" "file_addressed X b64 fs"
    using that c by (auto simp: file_addressed_def get_path_def buffer_hash_def exact_def hash_bytes_def)
next
  fix fs s h c
  assume "file_addressed X b64 fs" "fs_read b64 fs s h = Inr (Some c)"
  then have "inj b64" "b64 (blake3 X c) = b64 (digest h)"
    unfolding file_addressed_def fs_read_def get_path_def by blast+
  then show "blake3 X c = digest h" by (rule injD)
qed

section \<open>Sizes on disk\<close>

text \<open>Every size the store knows is the size of the files of its space, and it knows every space.\<close>

definition sizes_exact :: "FileSystemStore \<Rightarrow> bool" where
  "sizes_exact fs \<longleftrightarrow>
     distinct (map fst (fs_files fs)) \<and>
     (\<forall>s. starts_with (base_did s) ''did:'' \<longrightarrow>
        fs_total_size fs s =
          (if space_dir s \<in> set (fs_dirs fs) then Some (dir_size (fs_files fs) (space_dir s)) else None)) \<and>
     (\<forall>((d, f), c) \<in> set (fs_files fs). d \<in> set (fs_dirs fs))"

lemma AList_update_new: "k \<notin> fst ` set al \<Longrightarrow> AList.update k v al = al @ [(k, v)]"
  by (induction al) auto

lemma space_dir_inject:
  assumes "starts_with (base_did s) ''did:''" and "starts_with (base_did t) ''did:''"
  shows "space_dir s = space_dir t \<longleftrightarrow> s = t"
  using assms by (cases s; cases t) (auto simp: space_dir_def suffix_of_def starts_with_iff)

lemma dir_size_append: "dir_size (xs @ ys) d = dir_size xs d + dir_size ys d"
  by (simp add: dir_size_def)

lemma dir_size_delete:
  assumes "distinct (map fst files)" and "map_of files k = Some c"
  shows "dir_size files d =
    dir_size (AList.delete k files) d + (if fst k = d then of_nat (length c) else 0)"
  using assms
proof (induction files)
  case (Cons kc files)
  show ?case
  proof (cases "fst kc = k")
    case True
    with Cons.prems have "AList.delete k (kc # files) = files"
      by (cases kc) (simp add: delete_idem)
    with True Cons.prems(2) show ?thesis by (cases kc; cases k) (simp add: dir_size_def)
  next
    case False
    with Cons show ?thesis by (cases kc) (auto simp: dir_size_def)
  qed
qed simp

lemma dir_size_none: "d \<notin> (fst \<circ> fst) ` set files \<Longrightarrow> dir_size files d = 0"
  by (induction files) (auto simp: dir_size_def)

lemma create_sizes:
  assumes "sizes_exact fs" and "starts_with (base_did s) ''did:''" and "space_dir s \<notin> set (fs_dirs fs)"
  shows "sizes_exact (fs_create s fs)"
proof -
  have "dir_size (fs_files fs) (space_dir s) = 0"
    using assms(1,3) by (intro dir_size_none) (fastforce simp: sizes_exact_def)
  with assms show ?thesis
    by (auto simp: sizes_exact_def fs_create_def init_size_def fs_total_size_def get_size_def update_conv'
        space_dir_inject)
qed

lemma persist_sizes:
  assumes "sizes_exact fs" and "starts_with (base_did s) ''did:''" and "fs_persist X b64 s p fs = Inr (h, fs')"
  shows "sizes_exact fs'"
proof (cases "fs_contains b64 fs s h")
  case True
  with assms(3) have "fs' = fs" by (auto simp: fs_persist_def Let_def split: if_splits)
  with assms(1) show ?thesis by simp
next
  case False
  let ?k = "get_path b64 s h"
  from False assms(3) have dir: "space_dir s \<in> set (fs_dirs fs)"
    and fs': "fs' = fs\<lparr>fs_files := AList.update ?k (hb_buffer p) (fs_files fs),
      fs_sizes := increment_size s (of_nat (length (hb_buffer p))) (fs_sizes fs)\<rparr>"
    by (auto simp: fs_persist_def Let_def split: if_splits)
  have new: "?k \<notin> fst ` set (fs_files fs)"
    using False by (simp add: fs_contains_def map_of_eq_None_iff)
  have "dir_size [(?k, hb_buffer p)] d = (if d = space_dir s then of_nat (length (hb_buffer p)) else 0)" for d
    by (auto simp: dir_size_def get_path_def)
  with assms(1,2) dir new show ?thesis
    unfolding fs' sizes_exact_def
    by (auto simp: AList_update_new dir_size_append increment_size_def fs_total_size_def get_size_def
        update_conv' get_path_def space_dir_inject split: option.splits)
qed

lemma remove_sizes:
  assumes "sizes_exact fs" and "starts_with (base_did s) ''did:''"
  shows "sizes_exact (snd (fs_remove b64 s h fs))"
proof (cases "map_of (fs_files fs) (get_path b64 s h)")
  case None
  with assms(1) show ?thesis by (simp add: fs_remove_def)
next
  case (Some c)
  let ?k = "get_path b64 s h"
  from assms(1) have dist: "distinct (map fst (fs_files fs))" by (simp add: sizes_exact_def)
  have "(?k, c) \<in> set (fs_files fs)" using Some by (rule map_of_SomeD)
  with assms(1) have dir: "space_dir s \<in> set (fs_dirs fs)" by (auto simp: sizes_exact_def get_path_def)
  have size: "dir_size (AList.delete ?k (fs_files fs)) d =
      dir_size (fs_files fs) d - (if d = space_dir s then of_nat (length c) else 0)" for d
    using dir_size_delete [OF dist Some, of d] by (simp add: get_path_def)
  have "set (AList.delete ?k (fs_files fs)) \<subseteq> set (fs_files fs)" by (auto simp: AList.delete_eq)
  moreover have "distinct (map fst (AList.delete ?k (fs_files fs)))"
    using dist by (rule distinct_delete)
  ultimately show ?thesis
    using assms dir Some size unfolding fs_remove_def sizes_exact_def
    by (auto simp: decrement_size_def fs_total_size_def get_size_def update_conv' space_dir_inject
        split: option.splits)
qed

end
