(* ===== verification/Node_Api.thy ===== *)
theory Node_Api
  imports Delegation_Queries Block_Store Epoch_History
begin

text \<open>
  The operations of a node: \<open>SpaceDatabase::delegate\<close>, \<open>revoke\<close>, \<open>invoke\<close> and \<open>invoke_with_options\<close> of
  \<open>tinycloud-core/src/db.rs\<close>. Each is one step here: it reads the database, runs one transaction and, for
  an invocation, performs the reads and block writes its capabilities ask for. In the code each holds
  the locks of the proof chain and of the keys it changes until it returns. The locks do not order
  transactions on other chains and keys of the same space: SQLite runs them one after the other, while
  on PostgreSQL, at READ COMMITTED, two may append epochs to the same current epoch. The block store is
  the type parameter of the code; it is passed as its \<open>read\<close> and \<open>persist\<close>. A write to it is not undone
  when the transaction fails later, so that it is returned in both cases.
\<close>

section \<open>Data\<close>

record 'b blocks =
  blocks_read :: "'b \<Rightarrow> SpaceId \<Rightarrow> hash \<Rightarrow> (StoreError, string option) result"
  blocks_persist :: "SpaceId \<Rightarrow> HashBuffer \<Rightarrow> 'b \<Rightarrow> (StoreError, hash \<times> 'b) result"

type_synonym kv_key = "SpaceId \<times> Path"

record KvInvokeOptions =
  preconditions :: "(kv_key \<times> KvPrecondition) list"
  max_response_bytes :: "nat option"
  list_limit :: "nat option"

definition default_options :: KvInvokeOptions where
  "default_options = \<lparr>preconditions = [], max_response_bytes = None, list_limit = None\<rparr>"

datatype InvocationOutcome =
    OutKvList "Path list" bool
  | OutKvDelete "hash option"
  | OutKvMetadata "(Metadata \<times> hash) option"
  | OutKvWrite hash
  | OutKvRead "(Metadata \<times> hash \<times> string) option"
  | OutOpenSessions "(hash \<times> DelegationInfo) list"
  | OutDelegationChain "DelegationInfo list"

text \<open>\<open>ChainRunsForever\<close> is no value of the code: it marks a chain query that does not return.\<close>

datatype TxStoreError =
    StoreTx TxError
  | StoreRead StoreError
  | StoreWrite StoreError
  | MissingInput
  | KvPreconditionFailed
  | KvResponseTooLarge nat nat
  | ChainRunsForever

type_synonym InvocationInputs = "(kv_key \<times> (Metadata \<times> HashBuffer)) list"

section \<open>Delegations and revocations\<close>

fun chain_tx_error :: "ChainTraversalError \<Rightarrow> TxError" where
  "chain_tx_error (ChainDb e) = TxDb e"
| "chain_tx_error LimitExceeded = TxChainTraversalLimitExceeded"

definition acquire_chain_guards :: "database \<Rightarrow> hash list \<Rightarrow> (TxError, hash list) result" where
  "acquire_chain_guards db roots = map_err chain_tx_error (ancestor_chain_ids_for_roots db roots)"

definition delegate ::
  "externals \<Rightarrow> time \<Rightarrow> database \<Rightarrow> DelegationInfo \<times> string \<Rightarrow> (TxError, TransactResult \<times> database) result" where
  "delegate X now db d =
     rbind (acquire_chain_guards db (map cid_hash (di_parents (fst d)))) (\<lambda>_.
     transact X now db [EDelegation d])"

definition revoke ::
  "externals \<Rightarrow> time \<Rightarrow> database \<Rightarrow> RevocationInfo \<times> string \<Rightarrow> (TxError, TransactResult \<times> database) result" where
  "revoke X now db r =
     rbind (acquire_chain_guards db (cid_hash (ri_revoked (fst r)) # map cid_hash (ri_parents (fst r)))) (\<lambda>_.
     transact X now db [ERevocation r])"

section \<open>Invocations\<close>

text \<open>A capability on a path of a space: the space, the service, the ability without aliases, the path.\<close>

definition kv_target :: "capability \<Rightarrow> (SpaceId \<times> Service \<times> Ability \<times> Path) option" where
  "kv_target c =
     Option.bind (tinycloud_resource (cap_resource c)) (\<lambda>r.
     Option.bind (res_path r) (\<lambda>p.
     Some (res_space r, res_service r, resolve_alias (cap_ability c), p)))"

definition mutation_key :: "capability \<Rightarrow> kv_key option" where
  "mutation_key c =
     Option.bind (tinycloud_resource (cap_resource c)) (\<lambda>r.
     if res_service r \<noteq> ''kv'' \<or> resolve_alias (cap_ability c) \<notin> {''tinycloud.kv/put'', ''tinycloud.kv/del''}
     then None
     else map_option (Pair (res_space r)) (res_path r))"

text \<open>The loop that stages inputs: what is left of them, the stages, the hashes and the operations.\<close>

record staging =
  st_inputs :: InvocationInputs
  st_stages :: "(kv_key \<times> HashBuffer) list"
  st_hashes :: "(kv_key \<times> hash) list"
  st_ops :: "Operation list"

definition stage_cap :: "externals \<Rightarrow> staging \<Rightarrow> capability \<Rightarrow> (TxStoreError, staging) result" where
  "stage_cap X st c =
     (case kv_target c of
        None \<Rightarrow> Inr st
      | Some (s, service, ability, p) \<Rightarrow>
          (if service = ''kv'' \<and> ability = ''tinycloud.kv/put'' then
             rbind (ok_or (map_of (st_inputs st) (s, p)) MissingInput) (\<lambda>(m, stage).
             let v = buffer_hash X stage
             in Inr (st\<lparr>st_inputs := AList.delete (s, p) (st_inputs st),
                        st_stages := AList.update (s, p) stage (st_stages st),
                        st_hashes := AList.update (s, p) v (st_hashes st),
                        st_ops := st_ops st @ [KvWrite s p v m]\<rparr>))
           else if service = ''kv'' \<and> ability = ''tinycloud.kv/del'' then
             Inr (st\<lparr>st_ops := st_ops st @ [KvDelete s p None]\<rparr>)
           else Inr st))"

definition stage_caps ::
  "externals \<Rightarrow> InvocationInputs \<Rightarrow> capability list \<Rightarrow> (TxStoreError, staging) result" where
  "stage_caps X inputs caps =
     try_fold (stage_cap X) \<lparr>st_inputs = inputs, st_stages = [], st_hashes = [], st_ops = []\<rparr> caps"

text \<open>The loop that checks preconditions: it collects the current hash of each key.\<close>

definition check_precondition ::
  "database \<Rightarrow> (kv_key \<times> KvPrecondition) list \<Rightarrow> (kv_key \<times> hash) list \<Rightarrow> kv_key \<Rightarrow>
   (TxStoreError, (kv_key \<times> hash) list) result" where
  "check_precondition db pres acc k =
     (let current = map_option kw_value (get_kv_entity db (fst k) (snd k))
      in case map_of pres k of
           Some pre \<Rightarrow>
             (if \<not> kv_precondition_matches pre current then Inl KvPreconditionFailed
              else Inr (case current of Some h \<Rightarrow> AList.update k h acc | None \<Rightarrow> acc))
         | None \<Rightarrow> Inr (case current of Some h \<Rightarrow> AList.update k h acc | None \<Rightarrow> acc))"

definition check_preconditions ::
  "database \<Rightarrow> (kv_key \<times> KvPrecondition) list \<Rightarrow> kv_key list \<Rightarrow> (TxStoreError, (kv_key \<times> hash) list) result" where
  "check_preconditions db pres keys = try_fold (check_precondition db pres) [] keys"

text \<open>
  One capability after the transaction: its outcome, if it has one, with the block store and the
  stages left.
\<close>

record 'b effects =
  ef_blocks :: 'b
  ef_stages :: "(kv_key \<times> HashBuffer) list"
  ef_results :: "InvocationOutcome list"

definition read_kv ::
  "'b blocks \<Rightarrow> database \<Rightarrow> 'b \<Rightarrow> nat option \<Rightarrow> SpaceId \<Rightarrow> Path \<Rightarrow> (TxStoreError, InvocationOutcome) result" where
  "read_kv B db b limit s p =
     rbind
       (case get_kv_entity db s p of
          None \<Rightarrow> Inr None
        | Some e \<Rightarrow>
            rbind (map_err StoreRead (blocks_read B b s (kw_value e))) (\<lambda>c.
            Inr (map_option (\<lambda>c. (kw_metadata e, kw_value e, c)) c))) (\<lambda>data.
     case (limit, data) of
       (Some l, Some (_, _, c)) \<Rightarrow>
         (if length c > l then Inl (KvResponseTooLarge (length c) l) else Inr (OutKvRead data))
     | _ \<Rightarrow> Inr (OutKvRead data))"

definition read_capabilities ::
  "externals \<Rightarrow> decoders \<Rightarrow> time \<Rightarrow> database \<Rightarrow> string \<Rightarrow> CapabilitiesReadParams option \<Rightarrow> SpaceId \<Rightarrow>
   (TxStoreError, InvocationOutcome) result" where
  "read_capabilities X D now db who params s =
     (case params of
        None \<Rightarrow>
          rbind (map_err StoreTx (get_valid_delegations X D now db s)) (\<lambda>l. Inr (OutOpenSessions l))
      | Some (ListParams filters) \<Rightarrow>
          rbind (map_err StoreTx (get_filtered_delegations X D now db s who filters)) (\<lambda>l. Inr (OutOpenSessions l))
      | Some (ChainParams c) \<Rightarrow>
          rbind (ok_or (get_delegation_chain X D now db s c) ChainRunsForever) (\<lambda>r.
          rbind (map_err StoreTx r) (\<lambda>l. Inr (OutDelegationChain l))))"

type_synonym 'b effect_step = "(TxStoreError, 'b effects) result \<times> 'b"

definition pushed :: "'b effects \<Rightarrow> (TxStoreError, InvocationOutcome) result \<Rightarrow> 'b effect_step" where
  "pushed ef r = (rbind r (\<lambda>out. Inr (ef\<lparr>ef_results := ef_results ef @ [out]\<rparr>)), ef_blocks ef)"

definition perform_put :: "'b blocks \<Rightarrow> (kv_key \<times> hash) list \<Rightarrow> 'b effects \<Rightarrow> kv_key \<Rightarrow> 'b effect_step" where
  "perform_put B hashes ef k =
     (case map_of (ef_stages ef) k of
        None \<Rightarrow> (Inr ef, ef_blocks ef)
      | Some stage \<Rightarrow>
          (case blocks_persist B (fst k) stage (ef_blocks ef) of
             Inl e \<Rightarrow> (Inl (StoreWrite e), ef_blocks ef)
           | Inr (_, b) \<Rightarrow>
               (case map_of hashes k of
                  None \<Rightarrow> (Inl (StoreTx TxPanic), b)
                | Some h \<Rightarrow>
                    (Inr (ef\<lparr>ef_blocks := b, ef_stages := AList.delete k (ef_stages ef),
                             ef_results := ef_results ef @ [OutKvWrite h]\<rparr>), b))))"

text \<open>What the loop over the capabilities reads and does not change.\<close>

record effect_env =
  ee_db :: database
  ee_options :: KvInvokeOptions
  ee_invoker :: string
  ee_params :: "CapabilitiesReadParams option"
  ee_deleted :: "(kv_key \<times> hash) list"
  ee_hashes :: "(kv_key \<times> hash) list"

definition perform_cap ::
  "externals \<Rightarrow> decoders \<Rightarrow> 'b blocks \<Rightarrow> time \<Rightarrow> effect_env \<Rightarrow> 'b effects \<Rightarrow> capability \<Rightarrow> 'b effect_step" where
  "perform_cap X D B now env ef c =
     (case kv_target c of
        None \<Rightarrow> (Inr ef, ef_blocks ef)
      | Some (s, service, ability, p) \<Rightarrow>
          (if service = ''kv'' \<and> ability = ''tinycloud.kv/get'' then
             pushed ef (read_kv B (ee_db env) (ef_blocks ef) (max_response_bytes (ee_options env)) s p)
           else if service = ''kv'' \<and> ability = ''tinycloud.kv/list'' then
             pushed ef (Inr (case list_bounded X (ee_db env) s p (list_limit (ee_options env)) of
               (l, truncated) \<Rightarrow> OutKvList l truncated))
           else if service = ''kv'' \<and> ability = ''tinycloud.kv/del'' then
             pushed ef (Inr (OutKvDelete (map_of (ee_deleted env) (s, p))))
           else if service = ''kv'' \<and> ability = ''tinycloud.kv/put'' then
             perform_put B (ee_hashes env) ef (s, p)
           else if service = ''kv'' \<and> ability = ''tinycloud.kv/metadata'' then
             pushed ef (Inr (OutKvMetadata (metadata_with_hash (ee_db env) s p)))
           else if service = ''capabilities'' \<and> ability = ''tinycloud.capabilities/read'' \<and> p = ''all'' then
             pushed ef (read_capabilities X D now (ee_db env) (ee_invoker env) (ee_params env) s)
           else (Inr ef, ef_blocks ef)))"

fun perform_caps ::
  "externals \<Rightarrow> decoders \<Rightarrow> 'b blocks \<Rightarrow> time \<Rightarrow> effect_env \<Rightarrow> 'b effects \<Rightarrow> capability list \<Rightarrow> 'b effect_step" where
  "perform_caps X D B now env ef [] = (Inr ef, ef_blocks ef)"
| "perform_caps X D B now env ef (c # cs) =
     (case perform_cap X D B now env ef c of
        (Inl e, b) \<Rightarrow> (Inl e, b)
      | (Inr ef', _) \<Rightarrow> perform_caps X D B now env ef' cs)"

definition facts_params :: "decoders \<Rightarrow> TinyCloudInvocation \<Rightarrow> CapabilitiesReadParams option" where
  "facts_params D i = Option.bind (u_facts i) (caps_read_params D)"

definition invoke_with_options ::
  "externals \<Rightarrow> decoders \<Rightarrow> 'b blocks \<Rightarrow> time \<Rightarrow> database \<Rightarrow> 'b \<Rightarrow> InvocationInfo \<times> string \<Rightarrow>
   InvocationInputs \<Rightarrow> KvInvokeOptions \<Rightarrow>
   (TxStoreError, (TransactResult \<times> InvocationOutcome list) \<times> database) result \<times> 'b" where
  "invoke_with_options X D B now db b i inputs options =
     (case rbind (map_err StoreTx (acquire_chain_guards db (map cid_hash (ii_parents (fst i))))) (\<lambda>_.
           rbind (stage_caps X inputs (ii_capabilities (fst i))) (\<lambda>st.
           rbind (check_preconditions db (preconditions options)
                   (List.map_filter mutation_key (ii_capabilities (fst i)))) (\<lambda>deleted.
           rbind (map_err StoreTx (transact X now db [EInvocation i (st_ops st)])) (\<lambda>(commit, db').
           Inr (st, deleted, commit, db'))))) of
        Inl e \<Rightarrow> (Inl e, b)
      | Inr (st, deleted, commit, db') \<Rightarrow>
          (case perform_caps X D B now
                  \<lparr>ee_db = db', ee_options = options, ee_invoker = ii_invoker (fst i),
                   ee_params = facts_params D (ii_invocation (fst i)), ee_deleted = deleted,
                   ee_hashes = st_hashes st\<rparr>
                  \<lparr>ef_blocks = b, ef_stages = st_stages st, ef_results = []\<rparr> (ii_capabilities (fst i)) of
             (Inl e, b') \<Rightarrow> (Inl e, b')
           | (Inr ef, _) \<Rightarrow> (Inr ((commit, ef_results ef), db'), ef_blocks ef)))"

definition invoke where
  "invoke X D B now db b i inputs = invoke_with_options X D B now db b i inputs default_options"

section \<open>What is staged\<close>

definition is_put :: "capability \<Rightarrow> bool" where
  "is_put c \<longleftrightarrow> (\<exists>s p. kv_target c = Some (s, ''kv'', ''tinycloud.kv/put'', p))"

definition is_del :: "capability \<Rightarrow> bool" where
  "is_del c \<longleftrightarrow> (\<exists>s p. kv_target c = Some (s, ''kv'', ''tinycloud.kv/del'', p))"

definition target_key :: "capability \<Rightarrow> kv_key" where
  "target_key c = (case kv_target c of Some (s, _, _, p) \<Rightarrow> (s, p) | None \<Rightarrow> undefined)"

text \<open>The operation a capability asks for, given the inputs of the request.\<close>

definition cap_op :: "externals \<Rightarrow> InvocationInputs \<Rightarrow> capability \<Rightarrow> Operation option" where
  "cap_op X inputs c =
     (if is_put c then
        map_option (\<lambda>(m, stage). KvWrite (fst (target_key c)) (snd (target_key c)) (buffer_hash X stage) m)
          (map_of inputs (target_key c))
      else if is_del c then Some (KvDelete (fst (target_key c)) (snd (target_key c)) None)
      else None)"

lemma stage_cap_cases:
  assumes "stage_cap X st c = Inr st'"
  obtains (put) m stage where "is_put c" "map_of (st_inputs st) (target_key c) = Some (m, stage)"
      "st' = st\<lparr>st_inputs := AList.delete (target_key c) (st_inputs st),
         st_stages := AList.update (target_key c) stage (st_stages st),
         st_hashes := AList.update (target_key c) (buffer_hash X stage) (st_hashes st),
         st_ops := st_ops st @ [KvWrite (fst (target_key c)) (snd (target_key c)) (buffer_hash X stage) m]\<rparr>"
    | (del) "\<not> is_put c" "is_del c"
      "st' = st\<lparr>st_ops := st_ops st @ [KvDelete (fst (target_key c)) (snd (target_key c)) None]\<rparr>"
    | (other) "\<not> is_put c" "\<not> is_del c" "st' = st"
proof (cases "kv_target c")
  case None
  with assms other show ?thesis by (simp add: stage_cap_def is_put_def is_del_def)
next
  case (Some t)
  obtain s service ability p where t: "t = (s, service, ability, p)" by (cases t)
  from Some t assms put del other show ?thesis
    by (fastforce simp: stage_cap_def is_put_def is_del_def target_key_def Let_def split: if_splits option.splits)
qed

text \<open>Each input is used once: what is staged comes from the inputs of the request.\<close>

lemma stage_caps_from:
  assumes "try_fold (stage_cap X) st caps = Inr st'"
  shows "st_ops st' = st_ops st @ List.map_filter (cap_op X (st_inputs st)) caps \<and>
    distinct (map target_key (filter is_put caps)) \<and>
    (\<forall>k. map_of (st_stages st') k =
       (if k \<in> target_key ` set (filter is_put caps) then map_option snd (map_of (st_inputs st) k)
        else map_of (st_stages st) k)) \<and>
    (\<forall>k. map_of (st_hashes st') k =
       (if k \<in> target_key ` set (filter is_put caps) then map_option (buffer_hash X \<circ> snd) (map_of (st_inputs st) k)
        else map_of (st_hashes st) k)) \<and>
    (\<forall>k \<in> target_key ` set (filter is_put caps). map_of (st_inputs st) k \<noteq> None)"
  using assms
proof (induction caps arbitrary: st)
  case Nil
  then show ?case by (simp add: map_filter_simps)
next
  case (Cons c caps)
  then obtain st1 where c: "stage_cap X st c = Inr st1" and rest: "try_fold (stage_cap X) st1 caps = Inr st'"
    by (auto split: sum.splits)
  note IH = Cons.IH [OF rest]
  from c show ?case
  proof (cases rule: stage_cap_cases)
    case (put m stage)
    have inp: "map_of (st_inputs st1) k = (if k = target_key c then None else map_of (st_inputs st) k)" for k
      using put(3) by (simp add: delete_conv')
    have new: "target_key c \<notin> target_key ` set (filter is_put caps)" using IH inp [of "target_key c"] by metis
    have "cap_op X (st_inputs st1) c' = cap_op X (st_inputs st) c'" if "c' \<in> set caps" for c'
    proof (cases "is_put c'")
      case True
      with that have "target_key c' \<in> target_key ` set (filter is_put caps)" by simp
      with new have "target_key c' \<noteq> target_key c" by metis
      then show ?thesis by (simp add: cap_op_def inp)
    qed (simp add: cap_op_def)
    then have "List.map_filter (cap_op X (st_inputs st1)) caps = List.map_filter (cap_op X (st_inputs st)) caps"
      by (simp add: map_filter_def cong: filter_cong map_cong)
    moreover have "cap_op X (st_inputs st) c =
        Some (KvWrite (fst (target_key c)) (snd (target_key c)) (buffer_hash X stage) m)"
      using put(1,2) by (simp add: cap_op_def)
    ultimately have ops: "st_ops st' = st_ops st @ List.map_filter (cap_op X (st_inputs st)) (c # caps)"
      using IH put(3) by (simp add: map_filter_simps)
    let ?K = "target_key ` set (filter is_put caps)"
    have keys: "target_key ` set (filter is_put (c # caps)) = insert (target_key c) ?K"
      "map target_key (filter is_put (c # caps)) = target_key c # map target_key (filter is_put caps)"
      using put(1) by simp_all
    have stages: "map_of (st_stages st') k = (if k \<in> insert (target_key c) ?K then map_option snd (map_of (st_inputs st) k)
        else map_of (st_stages st) k)" for k
      using IH [THEN conjunct2, THEN conjunct2, THEN conjunct1, THEN spec, of k] inp [of k] new put(2,3)
      by (cases "k = target_key c") (simp_all add: update_conv')
    have hashes: "map_of (st_hashes st') k = (if k \<in> insert (target_key c) ?K
        then map_option (buffer_hash X \<circ> snd) (map_of (st_inputs st) k) else map_of (st_hashes st) k)" for k
      using IH [THEN conjunct2, THEN conjunct2, THEN conjunct2, THEN conjunct1, THEN spec, of k] inp [of k] new put(2,3)
      by (cases "k = target_key c") (simp_all add: update_conv')
    have "map_of (st_inputs st) k \<noteq> None" if "k \<in> insert (target_key c) ?K" for k
      using that IH [THEN conjunct2, THEN conjunct2, THEN conjunct2, THEN conjunct2, THEN bspec, of k] inp [of k] put(2)
      by (cases "k = target_key c") (simp_all split: if_splits)
    with ops stages hashes IH new show ?thesis unfolding keys by simp
  next
    case del
    with IH show ?thesis by (simp add: map_filter_simps cap_op_def)
  next
    case other
    with IH show ?thesis by (simp add: map_filter_simps cap_op_def)
  qed
qed

lemma stage_caps_ops:
  assumes "stage_caps X inputs caps = Inr st"
  shows "st_ops st = List.map_filter (cap_op X inputs) caps"
    and "\<And>c. c \<in> set caps \<Longrightarrow> is_put c \<Longrightarrow>
      \<exists>m stage. map_of inputs (target_key c) = Some (m, stage) \<and>
        map_of (st_stages st) (target_key c) = Some stage"
    and "\<And>k stage. map_of (st_stages st) k = Some stage \<Longrightarrow> \<exists>m. map_of inputs k = Some (m, stage)"
proof -
  note staged = stage_caps_from [OF assms [unfolded stage_caps_def]]
  show "st_ops st = List.map_filter (cap_op X inputs) caps" using staged by simp
  have stages: "map_of (st_stages st) k = (if k \<in> target_key ` set (filter is_put caps)
      then map_option snd (map_of inputs k) else None)" for k
    using staged [THEN conjunct2, THEN conjunct2, THEN conjunct1, THEN spec, of k] by simp
  then show "\<exists>m. map_of inputs k = Some (m, stage)" if "map_of (st_stages st) k = Some stage" for k stage
    using that by (auto split: if_splits)
  fix c assume "c \<in> set caps" "is_put c"
  then have k: "target_key c \<in> target_key ` set (filter is_put caps)" by simp
  with staged obtain e where "map_of inputs (target_key c) = Some e" by fastforce
  with stages [of "target_key c"] k show "\<exists>m stage. map_of inputs (target_key c) = Some (m, stage) \<and>
      map_of (st_stages st) (target_key c) = Some stage" by (cases e) simp
qed

lemma kv_target_space: "kv_target c = Some (s, service, ability, p) \<Longrightarrow> space_of (cap_resource c) = Some s"
  by (cases "cap_resource c") (auto simp: kv_target_def bind_eq_Some_conv)

lemma cap_op_Some:
  assumes "cap_op X inputs c = Some op"
  shows "space_of (cap_resource c) = Some (op_space op)" and "deletes_current op"
    and "op_key op = snd (target_key c)"
  using assms kv_target_space
  by (auto simp: cap_op_def is_put_def is_del_def target_key_def split: if_splits)

lemma cap_ops_spaces:
  "op_space ` set (List.map_filter (cap_op X inputs) caps) \<subseteq> set (info_spaces caps)"
  "list_all deletes_current (List.map_filter (cap_op X inputs) caps)"
  using cap_op_Some by (fastforce simp: set_map_filter info_spaces_def list_all_iff)+

lemma invoke_cases:
  assumes "invoke_with_options X D B now db b i inputs options = (Inr ((commit, outs), db'), b')"
  obtains st deleted ef x where "stage_caps X inputs (ii_capabilities (fst i)) = Inr st"
    "check_preconditions db (preconditions options) (List.map_filter mutation_key (ii_capabilities (fst i))) = Inr deleted"
    "transact X now db [EInvocation i (List.map_filter (cap_op X inputs) (ii_capabilities (fst i)))] = Inr (commit, db')"
    "perform_caps X D B now
       \<lparr>ee_db = db', ee_options = options, ee_invoker = ii_invoker (fst i),
        ee_params = facts_params D (ii_invocation (fst i)), ee_deleted = deleted, ee_hashes = st_hashes st\<rparr>
       \<lparr>ef_blocks = b, ef_stages = st_stages st, ef_results = []\<rparr> (ii_capabilities (fst i)) = (Inr ef, x)"
    "b' = ef_blocks ef" "outs = ef_results ef"
proof -
  from assms obtain st deleted where st: "stage_caps X inputs (ii_capabilities (fst i)) = Inr st"
    and deleted: "check_preconditions db (preconditions options)
      (List.map_filter mutation_key (ii_capabilities (fst i))) = Inr deleted"
    and tx: "transact X now db [EInvocation i (st_ops st)] = Inr (commit, db')"
    by (auto simp: invoke_with_options_def split: sum.splits prod.splits)
  from st deleted tx assms that stage_caps_ops(1) [OF st] show ?thesis
    by (auto simp: invoke_with_options_def split: sum.splits prod.splits)
qed

section \<open>Effects on the block store\<close>

lemma perform_cap_cases:
  assumes "perform_cap X D B now env ef c = (Inr ef', x)"
  obtains (put) stage h b' where "is_put c" "map_of (ef_stages ef) (target_key c) = Some stage"
      "blocks_persist B (fst (target_key c)) stage (ef_blocks ef) = Inr (h, b')"
      "ef_blocks ef' = b'" "ef_stages ef' = AList.delete (target_key c) (ef_stages ef)"
    | (other) "is_put c \<Longrightarrow> map_of (ef_stages ef) (target_key c) = None"
      "ef_blocks ef' = ef_blocks ef" "ef_stages ef' = ef_stages ef"
proof (cases "is_put c")
  case True
  then obtain s p where t: "kv_target c = Some (s, ''kv'', ''tinycloud.kv/put'', p)" by (auto simp: is_put_def)
  then have "perform_put B (ee_hashes env) ef (target_key c) = (Inr ef', x)"
    using assms by (simp add: perform_cap_def target_key_def)
  with True put other show ?thesis
    by (fastforce simp: perform_put_def split: option.splits sum.splits prod.splits)
next
  case False
  from assms have "ef' = ef \<or> (\<exists>out. ef' = ef\<lparr>ef_results := ef_results ef @ [out]\<rparr>)" using False
    by (auto simp: perform_cap_def pushed_def is_put_def rbind_eq_Inr split: option.splits if_splits)
  with False other show ?thesis by auto
qed

context block_store
begin

text \<open>After the capabilities of an invocation, every staged value that was written is readable.\<close>

lemma perform_caps_stored:
  assumes "perform_caps X D B now env ef caps = (Inr ef', x)"
    and "blocks_read B = bs_read" and "blocks_persist B = bs_persist"
    and "holds (ef_blocks ef)" and "\<forall>k stage. map_of (ef_stages ef) k = Some stage \<longrightarrow> exact stage"
  shows "holds (ef_blocks ef') \<and>
    (\<forall>s h c. bs_read (ef_blocks ef) s h = Inr (Some c) \<longrightarrow> (\<exists>c'. bs_read (ef_blocks ef') s h = Inr (Some c'))) \<and>
    (\<forall>c \<in> set caps. \<forall>stage. is_put c \<longrightarrow> map_of (ef_stages ef) (target_key c) = Some stage \<longrightarrow>
       (\<exists>content. bs_read (ef_blocks ef') (fst (target_key c)) (hash_bytes X (hb_buffer stage)) = Inr (Some content)))"
  using assms(1,4,5)
proof (induction caps arbitrary: ef)
  case Nil
  then show ?case by auto
next
  case (Cons c caps)
  then obtain ef1 y where c: "perform_cap X D B now env ef c = (Inr ef1, y)"
    and rest: "perform_caps X D B now env ef1 caps = (Inr ef', x)"
    by (auto split: sum.splits prod.splits)
  from c show ?case
  proof (cases rule: perform_cap_cases)
    case (put stage h b')
    have persist: "bs_persist (fst (target_key c)) stage (ef_blocks ef) = Inr (h, ef_blocks ef1)"
      using put(3,4) assms(3) by simp
    have exact: "exact stage" using Cons.prems(3) put(2) by blast
    have h: "h = hash_bytes X (hb_buffer stage)"
      using persist_hash [OF persist] exact by (simp add: buffer_hash_def exact_def)
    have stages: "map_of (ef_stages ef1) k = (if k = target_key c then None else map_of (ef_stages ef) k)" for k
      using put(5) by (simp add: delete_conv')
    have "\<forall>k stage. map_of (ef_stages ef1) k = Some stage \<longrightarrow> exact stage"
      using Cons.prems(3) stages by (metis option.distinct(1))
    note IH = Cons.IH [OF rest persist_holds [OF persist exact Cons.prems(2)] this]
    have kept: "\<exists>c'. bs_read (ef_blocks ef') s h' = Inr (Some c')" if "bs_read (ef_blocks ef) s h' = Inr (Some d)" for s h' d
      using persist_keeps [OF persist that] IH by blast
    have here: "\<exists>content. bs_read (ef_blocks ef') (fst (target_key c)) (hash_bytes X (hb_buffer stage)) = Inr (Some content)"
      using persist_stored [OF persist] IH h by blast
    have "\<exists>content. bs_read (ef_blocks ef') (fst (target_key c')) (hash_bytes X (hb_buffer st)) = Inr (Some content)"
      if "c' \<in> set (c # caps)" "is_put c'" "map_of (ef_stages ef) (target_key c') = Some st" for c' st
    proof (cases "target_key c' = target_key c")
      case True
      with that(3) put(2) here show ?thesis by simp
    next
      case False
      with that IH stages [of "target_key c'"] show ?thesis by auto
    qed
    with IH kept show ?thesis by blast
  next
    case other
    with Cons.IH [OF rest] Cons.prems(2,3) show ?thesis by auto
  qed
qed

end

section \<open>What a client sees\<close>

lemma fold_apply_op_write:
  assumes "KvWrite s p v m \<in> set ops"
    and "\<And>op. op \<in> set ops \<Longrightarrow> op_space op = s \<Longrightarrow> op_key op = p \<Longrightarrow> op = KvWrite s p v m"
  shows "fold apply_op ops f (s, p) = Some (v, m)"
  using assms
proof (induction ops rule: rev_induct)
  case (snoc op ops)
  show ?case
  proof (cases "op_space op = s \<and> op_key op = p")
    case True
    with snoc.prems(2) [of op] show ?thesis by simp
  next
    case False
    then have "op \<noteq> KvWrite s p v m" by auto
    with snoc have "fold apply_op ops f (s, p) = Some (v, m)" by auto
    with False show ?thesis by (cases op) auto
  qed
qed simp

lemma check_preconditions_met:
  assumes "check_preconditions db pres keys = Inr deleted" and "k \<in> set keys" and "map_of pres k = Some pre"
  shows "kv_precondition_matches pre (map_option kw_value (get_kv_entity db (fst k) (snd k)))"
proof -
  from try_fold_split [OF assms(1) [unfolded check_preconditions_def] assms(2)]
  obtain acc acc' where "check_precondition db pres acc k = Inr acc'" by blast
  with assms(3) show ?thesis by (auto simp: check_precondition_def Let_def split: if_splits)
qed

lemma mutation_key_target: "mutation_key c = Some k \<longleftrightarrow> (is_put c \<or> is_del c) \<and> target_key c = k"
  by (cases "tinycloud_resource (cap_resource c)"; cases "kv_target c")
    (auto simp: mutation_key_def kv_target_def is_put_def is_del_def target_key_def bind_eq_Some_conv
       split: if_splits option.splits)

lemma invoke_view:
  assumes "reachable X db"
    and "invoke_with_options X D B now db b (i, ser) inputs options = (Inr ((commit, outs), db'), b')"
    and "hash_bytes X ser \<notin> i_id ` set (invocations db)"
  shows "kv_view db' = fold apply_op (List.map_filter (cap_op X inputs) (ii_capabilities i)) (kv_view db)"
  using assms(2)
proof (rule invoke_cases)
  assume "transact X now db [EInvocation (i, ser) (List.map_filter (cap_op X inputs) (ii_capabilities (fst (i, ser))))]
    = Inr (commit, db')"
  then show ?thesis
    using invocation_refines [OF _ reachable_kv_ok [OF assms(1)] assms(3) cap_ops_spaces(2) cap_ops_spaces(1)] by simp
qed

section \<open>Errors\<close>

lemma stage_caps_error: "stage_caps X inputs caps = Inl e \<Longrightarrow> e = MissingInput"
  unfolding stage_caps_def
  by (drule try_fold_Inl) (auto simp: stage_cap_def Let_def ok_or_eq_Inl rbind_eq_Inl split: option.splits if_splits)

lemma check_preconditions_error: "check_preconditions db pres keys = Inl e \<Longrightarrow> e = KvPreconditionFailed"
  unfolding check_preconditions_def
  by (drule try_fold_Inl) (auto simp: check_precondition_def Let_def split: option.splits if_splits)

fun effect_error :: "TxStoreError \<Rightarrow> bool" where
  "effect_error (StoreTx e) = read_error e"
| "effect_error (StoreRead _) = True"
| "effect_error (StoreWrite _) = True"
| "effect_error (KvResponseTooLarge _ _) = True"
| "effect_error ChainRunsForever = True"
| "effect_error _ = False"

lemma read_kv_error: "read_kv B db b limit s p = Inl e \<Longrightarrow> effect_error e"
proof (cases "get_kv_entity db s p")
  case (Some w)
  assume "read_kv B db b limit s p = Inl e"
  with Some show ?thesis
    by (cases "blocks_read B b s (kw_value w)"; cases limit) (auto simp: read_kv_def split: option.splits if_splits)
qed (auto simp: read_kv_def split: option.splits)

lemma read_capabilities_error: "read_capabilities X D now db who params s = Inl e \<Longrightarrow> effect_error e"
proof (cases "\<exists>c. params = Some (ChainParams c)")
  case True
  assume "read_capabilities X D now db who params s = Inl e"
  with True obtain c where
    "rbind (ok_or (get_delegation_chain X D now db s c) ChainRunsForever) (\<lambda>r.
       rbind (map_err StoreTx r) (\<lambda>l. Inr (OutDelegationChain l))) = Inl e"
    by (auto simp: read_capabilities_def)
  then have "e = ChainRunsForever \<or> (\<exists>e'. get_delegation_chain X D now db s c = Some (Inl e') \<and> e = StoreTx e')"
    by (cases "get_delegation_chain X D now db s c"; cases "the (get_delegation_chain X D now db s c)") auto
  then show ?thesis using chain_query_error by auto
next
  case False
  assume "read_capabilities X D now db who params s = Inl e"
  with False show ?thesis
    using listing_error
    by (auto simp: read_capabilities_def rbind_eq_Inl map_err_def split: option.splits sum.splits CapabilitiesReadParams.splits)
qed

lemma pushed_error: "pushed ef r = (Inl e, x) \<longleftrightarrow> r = Inl e \<and> x = ef_blocks ef"
  by (cases r) (auto simp: pushed_def)

lemma perform_put_error:
  assumes "perform_put B hashes ef k = (Inl e, x)" and "map_of (ef_stages ef) k \<noteq> None \<longrightarrow> map_of hashes k \<noteq> None"
  shows "effect_error e"
  using assms by (auto simp: perform_put_def split: option.splits sum.splits)

lemma perform_cap_error:
  assumes "perform_cap X D B now env ef c = (Inl e, x)"
    and "\<forall>k. map_of (ef_stages ef) k \<noteq> None \<longrightarrow> map_of (ee_hashes env) k \<noteq> None"
  shows "effect_error e"
proof -
  from assms(1) obtain s service ability p where "kv_target c = Some (s, service, ability, p)"
    by (auto simp: perform_cap_def split: option.splits)
  with assms(1) consider "read_kv B (ee_db env) (ef_blocks ef) (max_response_bytes (ee_options env)) s p = Inl e"
    | "perform_put B (ee_hashes env) ef (s, p) = (Inl e, x)"
    | "read_capabilities X D now (ee_db env) (ee_invoker env) (ee_params env) s = Inl e"
    by (auto simp: perform_cap_def pushed_error split: if_splits)
  then show ?thesis
  proof cases
    case 1
    then show ?thesis by (rule read_kv_error)
  next
    case 2
    then show ?thesis by (rule perform_put_error) (use assms(2) in blast)
  next
    case 3
    then show ?thesis by (rule read_capabilities_error)
  qed
qed

lemma perform_caps_error:
  assumes "perform_caps X D B now env ef caps = (Inl e, x)"
    and "\<forall>k. map_of (ef_stages ef) k \<noteq> None \<longrightarrow> map_of (ee_hashes env) k \<noteq> None"
  shows "effect_error e"
  using assms
proof (induction caps arbitrary: ef)
  case (Cons c caps)
  show ?case
  proof (cases "perform_cap X D B now env ef c")
    case (Pair r y)
    show ?thesis
    proof (cases r)
      case (Inl e')
      with Pair Cons.prems perform_cap_error [of X D B now env ef c e' y] show ?thesis by simp
    next
      case (Inr ef1)
      have "map_of (ef_stages ef1) k \<noteq> None \<Longrightarrow> map_of (ef_stages ef) k \<noteq> None" for k
        using Pair unfolding Inr by (rule perform_cap_cases) (simp_all add: delete_conv' split: if_splits)
      with Cons Pair Inr show ?thesis by auto
    qed
  qed
qed simp

lemma invoke_error_cases:
  assumes "invoke_with_options X D B now db b i inputs options = (Inl e, b')"
  shows "b' = b \<and>
      (e \<in> {MissingInput, KvPreconditionFailed} \<or>
       (\<exists>te. e = StoreTx te \<and>
          (acquire_chain_guards db (map cid_hash (ii_parents (fst i))) = Inl te \<or>
           transact X now db [EInvocation i (List.map_filter (cap_op X inputs) (ii_capabilities (fst i)))] = Inl te))) \<or>
    effect_error e"
proof (cases "stage_caps X inputs (ii_capabilities (fst i))")
  case (Inl e')
  with assms show ?thesis
    using stage_caps_error [OF Inl]
    by (cases "acquire_chain_guards db (map cid_hash (ii_parents (fst i)))") (auto simp: invoke_with_options_def)
next
  case (Inr st)
  let ?pre = "check_preconditions db (preconditions options) (List.map_filter mutation_key (ii_capabilities (fst i)))"
  let ?tx = "transact X now db [EInvocation i (st_ops st)]"
  have ops: "st_ops st = List.map_filter (cap_op X inputs) (ii_capabilities (fst i))"
    by (rule stage_caps_ops(1) [OF Inr])
  have hashes: "\<forall>k. map_of (st_stages st) k \<noteq> None \<longrightarrow> map_of (st_hashes st) k \<noteq> None"
    using stage_caps_from [OF Inr [unfolded stage_caps_def]] by (auto split: if_splits)
  show ?thesis
  proof (cases "\<exists>x deleted commit db'. acquire_chain_guards db (map cid_hash (ii_parents (fst i))) = Inr x \<and>
      ?pre = Inr deleted \<and> ?tx = Inr (commit, db')")
    case False
    with assms Inr ops check_preconditions_error show ?thesis
      by (cases "acquire_chain_guards db (map cid_hash (ii_parents (fst i)))"; cases ?pre; cases ?tx)
        (auto simp: invoke_with_options_def)
  next
    case True
    then obtain x deleted commit db' where "acquire_chain_guards db (map cid_hash (ii_parents (fst i))) = Inr x"
      "?pre = Inr deleted" "?tx = Inr (commit, db')" by blast
    with assms Inr perform_caps_error [of X D B now _ "\<lparr>ef_blocks = b, ef_stages = st_stages st, ef_results = []\<rparr>"] hashes
    show ?thesis by (auto simp: invoke_with_options_def split: sum.splits prod.splits)
  qed
qed

end
