(* ===== verification/Sample_Node.thy ===== *)
theory Sample_Node
  imports Epoch_History
begin

text \<open>
  A small node on which the properties are exercised: third-party code is instantiated by concrete
  functions, and an owner delegates to a first and the first to a second holder, who writes a
  key; then the owner revokes. Nothing of the model is defined here.
\<close>

definition sample_ext :: externals where
  "sample_ext =
     \<lparr>keccak256 = (\<lambda>s. replicate 32 0),
      hex_crate_encode = hex_string,
      uri_parse = (\<lambda>s. None),
      did_valid = (\<lambda>s. starts_with s ''did:''),
      blake3 = (\<lambda>s. s),
      cid_display = (\<lambda>c. digest (cid_hash c)),
      cid_parse = (\<lambda>s. Some (Cid 85 (Hash 30 s))),
      cbor_epoch = (\<lambda>parents evs. Some (''e'' @ concat (map (\<lambda>c. digest (cid_hash c)) parents) @
        concat (map (\<lambda>e. case e of One c \<Rightarrow> digest (cid_hash c)
                       | Many cs \<Rightarrow> concat (map (\<lambda>c. digest (cid_hash c)) cs)) evs))),
      cbor_op = (\<lambda>_. Some ''o''),
      offset_of_seconds = (\<lambda>r. Some (floor r)),
      ucan_signature_ok = (\<lambda>t. t \<noteq> []),
      ucan_time_ok = (\<lambda>nbf e now. (case nbf of None \<Rightarrow> True | Some t \<Rightarrow> t \<le> of_int now) \<and> of_int now < e),
      cacao_signature_ok = (\<lambda>t. t \<noteq> []),
      aes_encrypt = (\<lambda>k n p. p @ replicate 16 (CHR ''t'')),
      aes_decrypt = (\<lambda>k n c. if length c < 16 then None else Some (take (length c - 16) c)),
      gcm_nonce = (\<lambda>p. replicate 12 (CHR ''n'')),
      storage_create_ok = (\<lambda>_. True),
      save_keypair_ok = (\<lambda>_. True),
      json_string_list = (\<lambda>_. None),
      like_fold = (\<lambda>c. c),
      column_key = None\<rparr>"

abbreviation owner_did0 :: string where "owner_did0 \<equiv> ''did:key:o''"
abbreviation first_did :: string where "first_did \<equiv> ''did:key:a''"
abbreviation second_did :: string where "second_did \<equiv> ''did:key:b''"

definition sample_space :: SpaceId where
  "sample_space = SpaceId owner_did0 ''s''"

definition sample_cap :: "string \<Rightarrow> string option \<Rightarrow> string \<Rightarrow> capability" where
  "sample_cap service path ability =
     \<lparr>cap_resource = TinyCloud (ResourceId sample_space service path None None),
      cap_ability = ability, cap_caveats = []\<rparr>"

definition sample_token :: "string \<Rightarrow> string \<Rightarrow> string \<Rightarrow> cid list \<Rightarrow> rat \<Rightarrow> ucan" where
  "sample_token raw iss aud proofs e =
     \<lparr>u_raw = raw, u_issuer = iss, u_audience = aud, u_attenuation = [], u_proof = proofs,
      u_expiration = e, u_not_before = None, u_facts = None, u_nonce = None\<rparr>"

definition raw_cid :: "string \<Rightarrow> cid" where
  "raw_cid s = Cid 85 (Hash 30 s)"

definition sample_delegation :: "string \<Rightarrow> string \<Rightarrow> string \<Rightarrow> capability list \<Rightarrow> string list \<Rightarrow> int \<Rightarrow> DelegationInfo" where
  "sample_delegation raw from_did to_did caps proofs e =
     \<lparr>di_capabilities = caps, di_delegator = from_did, di_delegate = to_did,
      di_parents = map raw_cid proofs,
      di_delegation = DUcan (sample_token raw from_did to_did (map raw_cid proofs) (of_int e)),
      di_expiry = Some e, di_not_before = None, di_issued_at = None, di_delegation_mode = Attenuable\<rparr>"

definition first_delegation :: DelegationInfo where
  "first_delegation = sample_delegation ''d1'' owner_did0 first_did
     [sample_cap ''space'' None ''tinycloud.space/host'',
      sample_cap ''kv'' (Some ''docs'') ''tinycloud.kv/put''] [] 100"

definition second_delegation :: DelegationInfo where
  "second_delegation = sample_delegation ''d2'' first_did second_did
     [sample_cap ''kv'' (Some ''docs/a'') ''tinycloud.kv/put''] [''d1''] 90"

definition sample_write :: InvocationInfo where
  "sample_write =
     \<lparr>ii_capabilities = [sample_cap ''kv'' (Some ''docs/a'') ''tinycloud.kv/put''],
      ii_invoker = second_did, ii_parents = [raw_cid ''d2''],
      ii_invocation = sample_token ''i1'' second_did ''did:key:n'' [raw_cid ''d2''] 80\<rparr>"

definition sample_revocation :: RevocationInfo where
  "sample_revocation =
     \<lparr>ri_parents = [], ri_revoked = raw_cid ''d1'', ri_revoker = owner_did0,
      ri_revocation = RUcan (sample_token ''r1'' owner_did0 ''ucan:d1'' [] 80)\<rparr>"

text \<open>The database after each of the four transactions.\<close>

definition sample_row :: "string \<Rightarrow> string \<Rightarrow> string \<Rightarrow> int \<Rightarrow> delegation_row" where
  "sample_row raw from_did to_did e =
     \<lparr>d_id = Hash 30 raw, delegator = from_did, delegatee = to_did, d_expiry = Some e,
      d_issued_at = None, d_not_before = None, d_facts = None, d_serialization = raw\<rparr>"

definition sample_ability :: "string \<Rightarrow> capability \<Rightarrow> ability_row" where
  "sample_ability raw c =
     \<lparr>ab_resource = cap_resource c, ab_ability = cap_ability c, ab_delegation = Hash 30 raw, ab_caveats = []\<rparr>"

definition sample_epoch :: "int \<Rightarrow> string \<Rightarrow> epoch_row" where
  "sample_epoch n e = \<lparr>ep_seq = n, ep_id = Hash 30 e, ep_space = sample_space\<rparr>"

definition sample_epoch_order :: "string \<Rightarrow> string \<Rightarrow> epoch_order_row" where
  "sample_epoch_order p c = \<lparr>eo_parent = Hash 30 p, eo_child = Hash 30 c, eo_space = sample_space\<rparr>"

definition sample_event :: "int \<Rightarrow> string \<Rightarrow> string \<Rightarrow> event_order_row" where
  "sample_event n e ev =
     \<lparr>ev_seq = n, ev_epoch = Hash 30 e, ev_epoch_seq = 0, ev_event = Hash 30 ev, ev_space = sample_space\<rparr>"

definition sample_db1 :: database where
  "sample_db1 = empty_db\<lparr>
     actors := [owner_did0, first_did],
     delegations := [sample_row ''d1'' owner_did0 first_did 100],
     abilities := map (sample_ability ''d1'') (di_capabilities first_delegation),
     spaces := [sample_space],
     epochs := [sample_epoch 0 ''ed1''],
     event_orders := [sample_event 0 ''ed1'' ''d1'']\<rparr>"

definition sample_db2 :: database where
  "sample_db2 = sample_db1\<lparr>
     actors := [owner_did0, first_did, second_did],
     delegations := delegations sample_db1 @ [sample_row ''d2'' first_did second_did 90],
     abilities := abilities sample_db1 @ map (sample_ability ''d2'') (di_capabilities second_delegation),
     parent_delegations := [\<lparr>pd_parent = Hash 30 ''d1'', pd_child = Hash 30 ''d2''\<rparr>],
     epochs := epochs sample_db1 @ [sample_epoch 1 ''eed1d2''],
     epoch_orders := [sample_epoch_order ''ed1'' ''eed1d2''],
     event_orders := event_orders sample_db1 @ [sample_event 1 ''eed1d2'' ''d2'']\<rparr>"

definition sample_put :: Operation where
  "sample_put = KvWrite sample_space ''docs/a'' (Hash 30 ''v'') []"

definition sample_db3 :: database where
  "sample_db3 = sample_db2\<lparr>
     invocations := [\<lparr>i_id = Hash 30 ''i1'', invoker = second_did, i_issued_at = 10, i_facts = None,
       i_serialization = ''i1''\<rparr>],
     invoked_abilities := map (\<lambda>c. \<lparr>ia_invocation = Hash 30 ''i1'', ia_resource = cap_resource c,
       ia_ability = cap_ability c\<rparr>) (ii_capabilities sample_write),
     parent_delegations := parent_delegations sample_db2 @ [\<lparr>pd_parent = Hash 30 ''d2'', pd_child = Hash 30 ''i1''\<rparr>],
     epochs := epochs sample_db2 @ [sample_epoch 2 ''eeed1d2i1o''],
     epoch_orders := epoch_orders sample_db2 @ [sample_epoch_order ''eed1d2'' ''eeed1d2i1o''],
     event_orders := event_orders sample_db2 @ [sample_event 2 ''eeed1d2i1o'' ''i1''],
     kv_writes := [\<lparr>kw_space = sample_space, kw_key = ''docs/a'', kw_invocation = Hash 30 ''i1'', kw_seq = 2,
       kw_epoch = Hash 30 ''eeed1d2i1o'', kw_epoch_seq = 0, kw_value = Hash 30 ''v'', kw_metadata = []\<rparr>]\<rparr>"

definition sample_db4 :: database where
  "sample_db4 = sample_db3\<lparr>
     revocations := [\<lparr>r_id = Hash 30 ''r1'', revoker = owner_did0, revoked = Hash 30 ''d1'',
       r_serialization = ''r1'', revoked_at = Some 10\<rparr>],
     epochs := epochs sample_db3 @ [sample_epoch 3 ''eeeed1d2i1or1''],
     epoch_orders := epoch_orders sample_db3 @ [sample_epoch_order ''eeed1d2i1o'' ''eeeed1d2i1or1''],
     event_orders := event_orders sample_db3 @ [sample_event 3 ''eeeed1d2i1or1'' ''r1'']\<rparr>"

text \<open>Two transactions on the same current epoch, side by side, leave two current epochs.\<close>

definition forked_db :: database where
  "forked_db = sample_db3\<lparr>
     epochs := epochs sample_db3 @ [sample_epoch 2 ''side''],
     epoch_orders := epoch_orders sample_db3 @ [sample_epoch_order ''eed1d2'' ''side'']\<rparr>"

definition sample_result :: "int \<Rightarrow> string \<Rightarrow> string \<Rightarrow> string list \<Rightarrow> string list \<Rightarrow> TransactResult" where
  "sample_result n e ev consumed cids =
     \<lparr>commits = [(sample_space, \<lparr>commit_rev = Hash 30 e, commit_seq = n, committed_events = [Hash 30 ev],
        consumed_epochs = map (Hash 30) consumed\<rparr>)],
      skipped_spaces = [], delegation_cids = map (Hash 30) cids\<rparr>"

section \<open>The transactions run\<close>

lemma sample_tx1:
  "transact sample_ext 10 empty_db [EDelegation (first_delegation, ''d1'')] =
     Inr (sample_result 0 ''ed1'' ''d1'' [] [''d1''], sample_db1)"
  by code_simp

lemma sample_tx2:
  "transact sample_ext 10 sample_db1 [EDelegation (second_delegation, ''d2'')] =
     Inr (sample_result 1 ''eed1d2'' ''d2'' [''ed1''] [''d2''], sample_db2)"
  by code_simp

lemma sample_tx3:
  "transact sample_ext 10 sample_db2 [EInvocation (sample_write, ''i1'') [sample_put]] =
     Inr (sample_result 2 ''eeed1d2i1o'' ''i1'' [''eed1d2''] [], sample_db3)"
  by code_simp

lemma sample_tx4:
  "transact sample_ext 10 sample_db3 [ERevocation (sample_revocation, ''r1'')] =
     Inr (sample_result 3 ''eeeed1d2i1or1'' ''r1'' [''eeed1d2i1o''] [], sample_db4)"
  by code_simp

lemma sample_reachable:
  "reachable sample_ext empty_db" "reachable sample_ext sample_db1" "reachable sample_ext sample_db2"
  "reachable sample_ext sample_db3" "reachable sample_ext sample_db4"
proof -
  show 0: "reachable sample_ext empty_db" by (simp add: reachable_def)
  show 1: "reachable sample_ext sample_db1" using 0 sample_tx1 by (rule reachable_tx)
  show 2: "reachable sample_ext sample_db2" using 1 sample_tx2 by (rule reachable_tx)
  show 3: "reachable sample_ext sample_db3" using 2 sample_tx3 by (rule reachable_tx)
  show "reachable sample_ext sample_db4" using 3 sample_tx4 by (rule reachable_tx)
qed

lemma forked_keys: "epoch_keys forked_db"
  unfolding epoch_keys_def by code_simp

end
