(* ===== verification/Node_Properties.thy ===== *)
theory Node_Properties
  imports Node_Api Sample_Node
begin

text \<open>
  What a client of a node can rely on: invocations against the database and the block store, the
  capability reads, and the block stores themselves.
\<close>

section \<open>A request and a block store to exercise them\<close>

definition sample_decoders :: decoders where
  "sample_decoders = \<lparr>params_from_json = (\<lambda>_. None),
     delegation_from_bytes = (\<lambda>s. Some (di_delegation first_delegation))\<rparr>"

definition memory_blocks :: "externals \<Rightarrow> MemoryStore blocks" where
  "memory_blocks X = \<lparr>blocks_read = memory_read, blocks_persist = memory_persist X\<rparr>"

definition sample_stage :: HashBuffer where
  "sample_stage = write_all ''v'' [Ready 1] hash_buffer_new"

definition sample_inputs :: InvocationInputs where
  "sample_inputs = [((sample_space, ''docs/a''), ([], sample_stage))]"

definition sample_options :: KvInvokeOptions where
  "sample_options = default_options\<lparr>preconditions := [((sample_space, ''docs/a''), DoesNotExist)]\<rparr>"

definition sample_blocks :: MemoryStore where
  "sample_blocks = [(sample_space, [(Hash 30 ''v'', ''v'')])]"

lemma sample_invoke:
  "invoke_with_options sample_ext sample_decoders (memory_blocks sample_ext) 10 sample_db2 []
     (sample_write, ''i1'') sample_inputs sample_options =
   (Inr ((sample_result 2 ''eeed1d2i1o'' ''i1'' [''eed1d2''] [], [OutKvWrite (Hash 30 ''v'')]), sample_db3), sample_blocks)"
  by code_simp

section \<open>Invocations\<close>

text \<open>C11: Requests refine a map. A successful request with a new invocation on a reachable database
  changes the key-value map exactly by the puts and deletes its capabilities name, in their order,
  each put with the content hash and metadata of its own input.\<close>

theorem invoke_refines_map:
  assumes "reachable X db"
    and "invoke_with_options X D B now db b (i, ser) inputs options = (Inr ((commit, outs), db'), b')"
    and "hash_bytes X ser \<notin> i_id ` set (invocations db)"
  shows "kv_view db' = fold apply_op (List.map_filter (cap_op X inputs) (ii_capabilities i)) (kv_view db)"
  using assms by (rule invoke_view)

theorem invoke_refines_map_witness:
  "kv_view sample_db3 = fold apply_op [sample_put] (kv_view sample_db2)"
proof -
  have new: "hash_bytes sample_ext ''i1'' \<notin> i_id ` set (invocations sample_db2)" by code_simp
  have "cap_op sample_ext sample_inputs (sample_cap ''kv'' (Some ''docs/a'') ''tinycloud.kv/put'') = Some sample_put"
    by (simp add: cap_op_def is_put_def target_key_def kv_target_def sample_cap_def resolve_alias_def
        sample_inputs_def sample_stage_def sample_put_def poll_write_def hash_buffer_new_def buffer_hash_def
        hash_bytes_def sample_ext_def)
  then have "List.map_filter (cap_op sample_ext sample_inputs) (ii_capabilities sample_write) = [sample_put]"
    by (simp add: sample_write_def map_filter_simps)
  with invoke_refines_map [OF sample_reachable(3) sample_invoke new] show ?thesis by simp
qed

text \<open>C12: Read your writes. When a request has put a value staged exactly and does not also delete the
  key, reading the key returns its metadata, its content hash and a block with that hash, for
  every block store that keeps what it is given.\<close>

theorem read_your_writes:
  assumes "block_store X (blocks_read B) (blocks_persist B) holds" and "holds b"
    and "reachable X db"
    and "invoke_with_options X D B now db b (i, ser) inputs options = (Inr ((commit, outs), db'), b')"
    and "hash_bytes X ser \<notin> i_id ` set (invocations db)"
    and "\<forall>k m stage. map_of inputs k = Some (m, stage) \<longrightarrow> exact stage"
    and "c \<in> set (ii_capabilities i)" and "is_put c" and "map_of inputs (target_key c) = Some (m, stage)"
    and "\<forall>c' \<in> set (ii_capabilities i). is_del c' \<longrightarrow> target_key c' \<noteq> target_key c"
  shows "\<exists>content. read_kv B db' b' None (fst (target_key c)) (snd (target_key c)) =
      Inr (OutKvRead (Some (m, hash_bytes X (hb_buffer stage), content))) \<and>
    blake3 X content = blake3 X (hb_buffer stage)"
proof -
  let ?k = "target_key c" and ?ops = "List.map_filter (cap_op X inputs) (ii_capabilities i)"
  let ?v = "hash_bytes X (hb_buffer stage)" and ?w = "\<lambda>v. KvWrite (fst (target_key c)) (snd (target_key c)) v m"
  have "exact stage" using assms(6,9) by blast
  then have v: "buffer_hash X stage = ?v" by (simp add: buffer_hash_def exact_def)
  have op: "cap_op X inputs c' = Some (?w ?v)" if "is_put c'" "target_key c' = ?k" for c'
    using that assms(9) v by (simp add: cap_op_def)
  have "?w ?v \<in> set ?ops" using op [OF assms(8)] assms(7) by (auto simp: set_map_filter)
  moreover have "op' = ?w ?v" if "op' \<in> set ?ops" "op_space op' = fst ?k" "op_key op' = snd ?k" for op'
    using that assms(10) op by (fastforce simp: set_map_filter cap_op_def prod_eq_iff split: if_splits)
  ultimately have "fold apply_op ?ops (kv_view db) (fst ?k, snd ?k) = Some (?v, m)"
    by (rule fold_apply_op_write)
  then have "kv_view db' (fst ?k, snd ?k) = Some (?v, m)"
    unfolding invoke_view [OF assms(3,4,5)] .
  then obtain e where e: "get_kv_entity db' (fst ?k) (snd ?k) = Some e" "kw_value e = ?v" "kw_metadata e = m"
    by (cases "target_key c") (auto simp: kv_view_def)
  from assms(4) show ?thesis
  proof (rule invoke_cases)
    fix st deleted ef x
    assume st: "stage_caps X inputs (ii_capabilities (fst (i, ser))) = Inr st" and b': "b' = ef_blocks ef"
      and run: "perform_caps X D B now
       \<lparr>ee_db = db', ee_options = options, ee_invoker = ii_invoker (fst (i, ser)),
        ee_params = facts_params D (ii_invocation (fst (i, ser))), ee_deleted = deleted, ee_hashes = st_hashes st\<rparr>
       \<lparr>ef_blocks = b, ef_stages = st_stages st, ef_results = []\<rparr> (ii_capabilities (fst (i, ser))) = (Inr ef, x)"
    have exact: "\<forall>k stage. map_of (st_stages st) k = Some stage \<longrightarrow> exact stage"
      using stage_caps_ops(3) [OF st] assms(6) by blast
    have "map_of (st_stages st) ?k = Some stage" using stage_caps_ops(2) [OF st, of c] assms(7-9) by auto
    moreover have "holds b' \<and> (\<forall>c \<in> set (ii_capabilities i). \<forall>stage. is_put c \<longrightarrow>
        map_of (st_stages st) (target_key c) = Some stage \<longrightarrow>
        (\<exists>content. blocks_read B b' (fst (target_key c)) (hash_bytes X (hb_buffer stage)) = Inr (Some content)))"
      using block_store.perform_caps_stored [OF assms(1) run refl refl] exact assms(2) by (simp add: b')
    ultimately obtain content where "blocks_read B b' (fst ?k) ?v = Inr (Some content)" "holds b'"
      using assms(7,8) by blast
    moreover from this have "blake3 X content = blake3 X (hb_buffer stage)"
      using block_store.read_addressed [OF assms(1)] by (fastforce simp: hash_bytes_def)
    ultimately show ?thesis using e by (auto simp: read_kv_def)
  qed
qed

theorem read_your_writes_witness:
  "\<exists>content. read_kv (memory_blocks sample_ext) sample_db3 sample_blocks None sample_space ''docs/a'' =
     Inr (OutKvRead (Some ([], Hash 30 ''v'', content))) \<and> content = ''v''"
proof -
  let ?c = "sample_cap ''kv'' (Some ''docs/a'') ''tinycloud.kv/put''"
  have store: "block_store sample_ext (blocks_read (memory_blocks sample_ext)) (blocks_persist (memory_blocks sample_ext))
      (memory_addressed sample_ext)"
    unfolding memory_blocks_def by (simp add: memory.block_store_axioms)
  have empty: "memory_addressed sample_ext []" by (simp add: memory_addressed_def)
  have stage: "sample_stage = \<lparr>hb_buffer = ''v'', hb_hashed = ''v''\<rparr>" by code_simp
  have new: "hash_bytes sample_ext ''i1'' \<notin> i_id ` set (invocations sample_db2)" by code_simp
  have target: "kv_target ?c = Some (sample_space, ''kv'', ''tinycloud.kv/put'', ''docs/a'')" by code_simp
  then have key: "target_key ?c = (sample_space, ''docs/a'')" and put: "is_put ?c" and del: "\<not> is_del ?c"
    by (simp_all add: target_key_def is_put_def is_del_def)
  have "\<exists>content. read_kv (memory_blocks sample_ext) sample_db3 sample_blocks None (fst (target_key ?c)) (snd (target_key ?c)) =
      Inr (OutKvRead (Some ([], hash_bytes sample_ext (hb_buffer sample_stage), content))) \<and>
    blake3 sample_ext content = blake3 sample_ext (hb_buffer sample_stage)"
    by (rule read_your_writes [OF store empty sample_reachable(3) sample_invoke new])
      (use put del in \<open>auto simp: key stage sample_inputs_def exact_def sample_write_def split: if_splits\<close>)
  then show ?thesis
    unfolding key by (simp add: stage hash_bytes_def sample_ext_def)
qed

text \<open>C13: Conditional requests. When a request succeeds, each precondition on a key it puts or deletes held
  of the value the key had; when one fails, nothing is written to the block store.\<close>

theorem conditional_requests:
  assumes "invoke_with_options X D B now db b i inputs options = (r, b')"
  shows "(\<forall>out db' c pre. r = Inr (out, db') \<longrightarrow> c \<in> set (ii_capabilities (fst i)) \<longrightarrow> is_put c \<or> is_del c \<longrightarrow>
      map_of (preconditions options) (target_key c) = Some pre \<longrightarrow>
      kv_precondition_matches pre (map_option fst (kv_view db (target_key c)))) \<and>
    (r = Inl KvPreconditionFailed \<longrightarrow> b' = b)"
proof (intro conjI allI impI)
  fix out db' c pre
  assume r: "r = Inr (out, db')" and c: "c \<in> set (ii_capabilities (fst i))" "is_put c \<or> is_del c"
    and pre: "map_of (preconditions options) (target_key c) = Some pre"
  obtain commit outs where out: "out = (commit, outs)" by (cases out)
  from assms r out obtain deleted where
    "check_preconditions db (preconditions options) (List.map_filter mutation_key (ii_capabilities (fst i))) = Inr deleted"
    by (auto elim!: invoke_cases)
  moreover have "target_key c \<in> set (List.map_filter mutation_key (ii_capabilities (fst i)))"
    using c mutation_key_target [of c "target_key c"] by (auto simp: set_map_filter)
  ultimately show "kv_precondition_matches pre (map_option fst (kv_view db (target_key c)))"
    using check_preconditions_met [OF _ _ pre] by (cases "target_key c") (simp add: kv_view_def option.map_comp comp_def)
next
  assume "r = Inl KvPreconditionFailed"
  with assms show "b' = b" using invoke_error_cases [of X D B now db b i inputs options KvPreconditionFailed b'] by simp
qed

theorem conditional_requests_witness:
  "kv_precondition_matches DoesNotExist (map_option fst (kv_view sample_db2 (sample_space, ''docs/a'')))"
proof -
  let ?c = "sample_cap ''kv'' (Some ''docs/a'') ''tinycloud.kv/put''"
  have "kv_target ?c = Some (sample_space, ''kv'', ''tinycloud.kv/put'', ''docs/a'')" by code_simp
  then have "target_key ?c = (sample_space, ''docs/a'')" "is_put ?c" by (simp_all add: target_key_def is_put_def)
  moreover have "?c \<in> set (ii_capabilities (fst (sample_write, ''i1'')))" by code_simp
  moreover have "map_of (preconditions sample_options) (sample_space, ''docs/a'') = Some DoesNotExist" by code_simp
  ultimately show ?thesis using conditional_requests [OF sample_invoke] by metis
qed

text \<open>C14: No panic in a request. The orders looked up in the transaction and the content hash of a staged
  write, which the code unwraps, are always there.\<close>

theorem invoke_never_panics:
  "fst (invoke_with_options X D B now db b i inputs options) \<noteq> Inl (StoreTx TxPanic)"
proof
  assume panic: "fst (invoke_with_options X D B now db b i inputs options) = Inl (StoreTx TxPanic)"
  then obtain b' where run: "invoke_with_options X D B now db b i inputs options = (Inl (StoreTx TxPanic), b')"
    by (metis prod.collapse)
  have guards: "acquire_chain_guards db roots \<noteq> Inl TxPanic" for roots
    by (cases "ancestor_chain_ids_for_roots db roots")
      (auto simp: acquire_chain_guards_def elim: chain_tx_error.elims)
  let ?ops = "List.map_filter (cap_op X inputs) (ii_capabilities (fst i))"
  have "transact X now db [EInvocation i ?ops] \<noteq> Inl TxPanic"
    by (rule transact_no_panic) (use cap_ops_spaces(1) in fastforce)
  with invoke_error_cases [OF run] guards show False by auto
qed

section \<open>Capability reads\<close>

text \<open>C15: The chain query returns. On a reachable database without digest collisions the walk from any
  delegation ends, and when it gives a chain, its entries are unrevoked delegations of the space in
  their validity window, each followed by one it cites.\<close>

theorem chain_query_returns:
  assumes "reachable X db" and "separate db"
  shows "(\<exists>e. get_delegation_chain X D now db s c = Some (Inl e)) \<or>
    (\<exists>infos h. get_delegation_chain X D now db s c = Some (Inr infos) \<and> follows X D now db s h infos)"
proof (cases "cid_parse X c")
  case None
  then show ?thesis by (simp add: get_delegation_chain_def)
next
  case (Some k)
  obtain r where r: "chain_from X D now db s [] (cid_hash k) = Some r"
    using chain_from_total [OF reachable_acyclic [OF assms]] by blast
  with Some show ?thesis
    using chain_from_follows [of X D now db s "[]" "cid_hash k"] by (cases r) (auto simp: get_delegation_chain_def)
qed

theorem chain_query_returns_witness:
  "(\<exists>e. get_delegation_chain sample_ext sample_decoders 10 sample_db2 sample_space ''d2'' = Some (Inl e)) \<or>
   (\<exists>infos h. get_delegation_chain sample_ext sample_decoders 10 sample_db2 sample_space ''d2'' = Some (Inr infos) \<and>
      follows sample_ext sample_decoders 10 sample_db2 sample_space h infos)"
proof (rule chain_query_returns [OF sample_reachable(3)])
  show "separate sample_db2" by code_simp
qed

text \<open>C16: The listing of a space is exact: it has the delegations that are not revoked themselves, are in
  their window and grant something on the space, and each with the capabilities stored for it. The
  parents it shows are wrong: every one of them is the listed delegation itself.\<close>

theorem listing_exact:
  assumes "get_valid_delegations X D now db s = Inr l"
  shows "fst ` set l = {h. \<exists>d \<in> set (delegations db). d_id d = h \<and> \<not> is_revoked db h \<and> listed_now now d \<and>
      in_space s (abilities_of db h)} \<and>
    (\<forall>(h, info) \<in> set l.
       map (\<lambda>c. (cap_resource c, cap_ability c, cap_caveats c)) (di_capabilities info) =
         map (\<lambda>a. (ab_resource a, ab_ability a, ab_caveats a)) (abilities_of db h) \<and>
       set (di_parents info) \<subseteq> {to_cid h RAW_CODEC})"
proof -
  let ?ds = "filter (\<lambda>d. listed_now now d \<and> in_space s (abilities_of db (d_id d))) (unrevoked db)"
  note l = listed_ids [OF assms [unfolded get_valid_delegations_def]]
  have "fst ` set l = {h. \<exists>d \<in> set (delegations db). d_id d = h \<and> \<not> is_revoked db h \<and> listed_now now d \<and>
      in_space s (abilities_of db h)}"
    unfolding l(1) by (auto simp: set_unrevoked)
  moreover have "map (\<lambda>c. (cap_resource c, cap_ability c, cap_caveats c)) (di_capabilities info) =
         map (\<lambda>a. (ab_resource a, ab_ability a, ab_caveats a)) (abilities_of db h) \<and>
       set (di_parents info) \<subseteq> {to_cid h RAW_CODEC}" if "(h, info) \<in> set l" for h info
    using l(2) [OF that] row_info_ok by (fastforce simp: loaded_parents_def)
  ultimately show ?thesis by blast
qed

theorem listing_exact_witness:
  "\<exists>l. get_valid_delegations sample_ext sample_decoders 10 sample_db2 sample_space = Inr l \<and>
     Hash 30 ''d2'' \<in> fst ` set l"
proof -
  have "is_ok (get_valid_delegations sample_ext sample_decoders 10 sample_db2 sample_space)" by code_simp
  then obtain l where run: "get_valid_delegations sample_ext sample_decoders 10 sample_db2 sample_space = Inr l"
    by (auto simp: is_ok_iff)
  let ?d = "sample_row ''d2'' first_did second_did 90"
  have "?d \<in> set (delegations sample_db2)" "d_id ?d = Hash 30 ''d2''" "\<not> is_revoked sample_db2 (Hash 30 ''d2'')"
    "listed_now 10 ?d" "in_space sample_space (abilities_of sample_db2 (Hash 30 ''d2''))"
    by code_simp+
  then show ?thesis using listing_exact [OF run] run by blast
qed

text \<open>A session key resolves to an account that delegated to it. The account found for a key that is
  none itself is the key, or is reached from it over delegations from delegatee to delegator.\<close>

theorem session_account_delegated:
  "(canonical_or X did, resolve_pkh_did X db did) \<in> (delegated_by X db)\<^sup>*"
  using resolve_loop_delegated [of X db "[]" "canonical_or X did"]
  by (auto simp: resolve_pkh_did_def Let_def split: option.splits dest: trancl_into_rtrancl)

section \<open>Block stores\<close>

text \<open>Sizes on disk are exact. Creating a space the store does not have, writing a block and removing
  one keep every size equal to the size of the files of its space.\<close>

theorem disk_sizes_exact:
  assumes "sizes_exact fs" and "starts_with (base_did s) ''did:''"
  shows "(space_dir s \<notin> set (fs_dirs fs) \<longrightarrow> sizes_exact (fs_create s fs)) \<and>
    (\<forall>p h fs'. fs_persist X b64 s p fs = Inr (h, fs') \<longrightarrow> sizes_exact fs') \<and>
    sizes_exact (snd (fs_remove b64 s h fs))"
  using create_sizes [OF assms] persist_sizes [OF assms] remove_sizes [OF assms] by blast

theorem disk_sizes_exact_witness:
  "sizes_exact (fs_create sample_space \<lparr>fs_dirs = [], fs_files = [], fs_sizes = []\<rparr>)"
proof -
  have "sizes_exact \<lparr>fs_dirs = [], fs_files = [], fs_sizes = []\<rparr>"
    by (simp add: sizes_exact_def fs_total_size_def get_size_def)
  moreover have "starts_with (base_did sample_space) ''did:''" by code_simp
  ultimately show ?thesis using disk_sizes_exact [where s = sample_space] by simp
qed

text \<open>Creating a space again loses its size: hosting a space that already has blocks sets the size
  that quotas read to zero, while the blocks stay.\<close>

theorem create_resets_size:
  "fs_total_size (fs_create s fs) s = Some 0 \<and> fs_files (fs_create s fs) = fs_files fs"
  by (simp add: fs_create_def fs_total_size_def get_size_def init_size_def update_conv' Let_def)

text \<open>A staging buffer hashes what it holds when the inner writer takes every buffer at once. A write
  that is first not ready is hashed twice: the content is right and its hash is that of the
  doubled bytes.\<close>

theorem staged_hash:
  "exact (fold (\<lambda>buf p. write_all buf [Ready (length buf)] p) bufs hash_buffer_new) \<and>
   hb_buffer (write_all buf [Pending, Ready (length buf)] hash_buffer_new) = buf \<and>
   buffer_hash X (write_all buf [Pending, Ready (length buf)] hash_buffer_new) = hash_bytes X (buf @ buf)"
proof -
  have "exact (fold (\<lambda>buf p. write_all buf [Ready (length buf)] p) bufs p)" if "exact p" for p
    using that by (induction bufs arbitrary: p) (simp_all add: poll_write_def exact_def)
  then show ?thesis
    using exact_new by (simp add: poll_write_def buffer_hash_def hash_buffer_new_def)
qed

end
