(* ===== verification/Account_Queries.thy ===== *)
theory Account_Queries
  imports Delegation_Queries "HOL-Library.AList"
begin

text \<open>
  The delegations of an account: \<open>query_account_delegations\<close>, \<open>account_query_principal\<close>,
  \<open>account_session_dids\<close>, \<open>load_account_ancestor_state\<close> and \<open>lifecycle\<close> of \<open>tinycloud-core/src/db.rs\<close>, with the
  query and the records of \<open>types/delegation_query.rs\<close>.
\<close>

section \<open>Queries and cursors\<close>

datatype DelegationQueryDirection = Granted | Received | AllDirections

datatype DelegationQueryStatus = QActive | QPending | QExpired | QRevoked | QAncestorRevoked

record DelegationQuery =
  dq_direction :: DelegationQueryDirection
  dq_status :: "DelegationQueryStatus option"
  dq_space :: "string option"
  dq_limit :: "nat option"
  dq_cursor :: "string option"

datatype DelegationQueryValidationError = InvalidLimit | InvalidSpace | InvalidCursor

text \<open>
  The third-party text formats: the URL-safe alphabet of \<open>base64\<close> without padding, its decoding to
  UTF-8 text, and \<open>serde_json::to_string\<close> of a caveat map.
\<close>

record text_formats =
  b64_encode :: "string \<Rightarrow> string"
  b64_decode :: "string \<Rightarrow> string option"
  caveats_json :: "Caveats \<Rightarrow> string"

definition decoded_cursor ::
  "text_formats \<Rightarrow> DelegationQuery \<Rightarrow> (DelegationQueryValidationError, string option) result" where
  "decoded_cursor F q =
     (case dq_cursor q of
        None \<Rightarrow> Inr None
      | Some cursor \<Rightarrow>
          (case b64_decode F cursor of
             Some cid \<Rightarrow> (if cid = [] then Inl InvalidCursor else Inr (Some cid))
           | None \<Rightarrow> Inl InvalidCursor))"

definition encode_cursor :: "text_formats \<Rightarrow> string \<Rightarrow> string" where
  "encode_cursor F cid = b64_encode F cid"

text \<open>\<open>str::trim\<close> leaves nothing when every character is white space.\<close>

definition is_blank :: "string \<Rightarrow> bool" where
  "is_blank s = list_all is_whitespace (utf8_chars s)"

definition query_validate :: "text_formats \<Rightarrow> DelegationQuery \<Rightarrow> (DelegationQueryValidationError, unit) result" where
  "query_validate F q =
     (if (case dq_limit q of Some l \<Rightarrow> \<not> (1 \<le> l \<and> l \<le> 100) | None \<Rightarrow> False) then Inl InvalidLimit
      else if (case dq_space q of Some s \<Rightarrow> is_blank s | None \<Rightarrow> False) then Inl InvalidSpace
      else rbind (decoded_cursor F q) (\<lambda>_. Inr ()))"

record DelegationResource =
  dr_resource :: string
  dr_actions :: "string list"
  dr_caveats :: "Caveats list"

record AccountDelegationRecord =
  ar_cid :: string
  ar_direction :: string
  ar_delegator_did :: string
  ar_delegate_did :: string
  ar_resources :: "DelegationResource list"
  ar_parents :: "string list"
  ar_issued_at :: "time option"
  ar_not_before :: "time option"
  ar_expires_at :: "time option"
  ar_status :: string
  ar_revoked_at :: "time option"
  ar_revoked_by :: "string option"
  ar_revoked_ancestor_cid :: "string option"

record DelegationQueryPage =
  pg_schema_version :: nat
  pg_items :: "AccountDelegationRecord list"
  pg_next_cursor :: "string option"

datatype AccountDelegationQueryError = AccountDb DbErr | AccountUnauthorized

section \<open>The account\<close>

definition is_list_resource :: "ResourceId \<Rightarrow> bool" where
  "is_list_resource r \<longleftrightarrow>
     res_service r = ''delegation'' \<and> (case res_path r of Some p \<Rightarrow> p = [] | None \<Rightarrow> True) \<and>
     res_query r = None \<and> res_fragment r = None"

definition account_query_principal ::
  "externals \<Rightarrow> database \<Rightarrow> InvocationInfo \<Rightarrow> (DbErr, string option) result" where
  "account_query_principal X db i =
     (case ii_capabilities i of
        [c] \<Rightarrow>
          (if cap_ability c \<noteq> ''tinycloud.delegation/list'' then Inr None
           else
             (case cap_resource c of
                Other _ \<Rightarrow> Inr None
              | TinyCloud r \<Rightarrow>
                  (if \<not> is_list_resource r then Inr None
                   else
                     (let account = canonical_or X (base_did (res_space r))
                      in if \<not> starts_with account ''did:pkh:'' then Inr None
                         else
                           (case ii_parents i of
                              [] \<Rightarrow> Inr (if did_principal_matches X account (ii_invoker i) then Some account else None)
                            | [p] \<Rightarrow>
                                (case ancestor_chain_ids db (cid_hash p) of
                                   Inl (ChainDb e) \<Rightarrow> Inl e
                                 | Inl LimitExceeded \<Rightarrow> Inr None
                                 | Inr chain_ids \<Rightarrow>
                                     (let chain = filter (\<lambda>d. d_id d \<in> set chain_ids) (delegations db)
                                      in Inr (if list_ex (\<lambda>d. did_principal_matches X (delegator d) account) chain
                                              then Some account else None)))
                            | _ \<Rightarrow> Inr None)))))
      | _ \<Rightarrow> Inr None)"

section \<open>The sessions of an account\<close>

definition MAX_ACCOUNT_SESSION_NODES :: nat where "MAX_ACCOUNT_SESSION_NODES = 256"
definition MAX_ACCOUNT_SESSION_EDGES_PER_LEVEL :: nat where "MAX_ACCOUNT_SESSION_EDGES_PER_LEVEL = 1025"
definition MAX_ACCOUNT_ANCESTOR_NODES :: nat where "MAX_ACCOUNT_ANCESTOR_NODES = 4096"

text \<open>
  \<open>find_with_related\<close> under a limit: the limit cuts the rows of the left join, and the rows of one
  delegation are grouped afterwards.
\<close>

definition joined_rows :: "database \<Rightarrow> delegation_row list \<Rightarrow> (delegation_row \<times> ability_row option) list" where
  "joined_rows db ds =
     concat (map (\<lambda>d. case abilities_of db (d_id d) of
       [] \<Rightarrow> [(d, None)] | as \<Rightarrow> map (\<lambda>a. (d, Some a)) as) ds)"

definition grouped_rows :: "(delegation_row \<times> ability_row option) list \<Rightarrow> (delegation_row \<times> ability_row list) list" where
  "grouped_rows rows =
     map (\<lambda>d. (d, List.map_filter snd (filter (\<lambda>r. fst r = d) rows))) (remdups (map fst rows))"

definition controls_account :: "externals \<Rightarrow> string \<Rightarrow> ability_row list \<Rightarrow> bool" where
  "controls_account X account as =
     list_ex (\<lambda>a. ab_ability a = ''tinycloud.delegation/list'' \<and>
       (case tinycloud_resource (ab_resource a) of
          Some r \<Rightarrow> is_list_resource r \<and> did_principal_matches X (base_did (res_space r)) account
        | None \<Rightarrow> False)) as"

text \<open>The \<open>for\<close> loop over the rows of a level: the account's DIDs and the next frontier.\<close>

definition session_row ::
  "externals \<Rightarrow> string \<Rightarrow> string list \<times> string list \<Rightarrow> delegation_row \<times> ability_row list \<Rightarrow>
   (DbErr, string list \<times> string list) result" where
  "session_row X account st row =
     (if controls_account X account (snd row) \<and> starts_with (delegatee (fst row)) ''did:key:'' \<and>
         delegatee (fst row) \<notin> set (fst st)
      then
        (let dids = delegatee (fst row) # fst st
         in if length dids > MAX_ACCOUNT_SESSION_NODES
            then Inl (DbCustom ''account-session-graph-node-limit-exceeded'')
            else Inr (dids, snd st @ [delegatee (fst row)]))
      else Inr st)"

fun session_levels ::
  "externals \<Rightarrow> database \<Rightarrow> string \<Rightarrow> nat \<Rightarrow> string list \<Rightarrow> string list \<Rightarrow> (DbErr, string list) result" where
  "session_levels X db account 0 dids frontier = Inl (DbCustom ''account-session-graph-depth-limit-exceeded'')"
| "session_levels X db account (Suc n) dids frontier =
     (if frontier = [] then Inr dids
      else
        (let rows = grouped_rows (take MAX_ACCOUNT_SESSION_EDGES_PER_LEVEL
                      (joined_rows db (filter (\<lambda>d. delegator d \<in> set frontier) (delegations db))))
         in if length rows = MAX_ACCOUNT_SESSION_EDGES_PER_LEVEL
            then Inl (DbCustom ''account-session-graph-level-limit-exceeded'')
            else
              rbind (try_fold (session_row X account) (dids, []) rows) (\<lambda>(dids, next).
              session_levels X db account n dids (dedup (sort next)))))"

definition account_session_dids :: "externals \<Rightarrow> database \<Rightarrow> string \<Rightarrow> (DbErr, string list) result" where
  "account_session_dids X db account = session_levels X db account MAX_CHAIN_TRAVERSAL_NODES [account] [account]"

section \<open>Ancestors and lifecycle\<close>

record AccountAncestorState =
  as_parents :: "(hash \<times> hash list) list"
  as_delegations :: "delegation_row list"
  as_revocations :: "revocation_row list"

definition parents_of :: "(hash \<times> hash list) list \<Rightarrow> hash \<Rightarrow> hash list" where
  "parents_of m h = (case map_of m h of Some ps \<Rightarrow> ps | None \<Rightarrow> [])"

definition ancestor_link ::
  "hash list \<times> hash list \<times> (hash \<times> hash list) list \<Rightarrow> parent_row \<Rightarrow>
   (DbErr, hash list \<times> hash list \<times> (hash \<times> hash list) list) result" where
  "ancestor_link st l =
     (case st of
        (all_ids, next, parents) \<Rightarrow>
          (let parents = AList.update (pd_child l) (parents_of parents (pd_child l) @ [pd_parent l]) parents
           in if pd_parent l \<in> set all_ids then Inr (all_ids, next, parents)
              else if length (pd_parent l # all_ids) > MAX_ACCOUNT_ANCESTOR_NODES
              then Inl (DbCustom ''account-ancestor-graph-node-limit-exceeded'')
              else Inr (pd_parent l # all_ids, next @ [pd_parent l], parents)))"

fun ancestor_levels ::
  "database \<Rightarrow> nat \<Rightarrow> hash list \<Rightarrow> hash list \<Rightarrow> (hash \<times> hash list) list \<Rightarrow>
   (DbErr, hash list \<times> (hash \<times> hash list) list) result" where
  "ancestor_levels db 0 all_ids frontier parents =
     (if frontier = [] then Inr (all_ids, parents)
      else Inl (DbCustom ''account-ancestor-graph-depth-limit-exceeded''))"
| "ancestor_levels db (Suc n) all_ids frontier parents =
     (if frontier = [] then Inr (all_ids, parents)
      else
        rbind (try_fold ancestor_link (all_ids, [], parents)
                (filter (\<lambda>l. pd_child l \<in> set frontier) (parent_delegations db))) (\<lambda>(all_ids, next, parents).
        ancestor_levels db n all_ids (dedup (sort_key digest next)) parents))"

definition load_account_ancestor_state :: "database \<Rightarrow> hash list \<Rightarrow> (DbErr, AccountAncestorState) result" where
  "load_account_ancestor_state db roots =
     rbind (ancestor_levels db MAX_CHAIN_TRAVERSAL_NODES (remdups roots) roots []) (\<lambda>(all_ids, parents).
     Inr \<lparr>as_parents = map (\<lambda>(h, ps). (h, dedup (sort_key digest ps))) parents,
          as_delegations = filter (\<lambda>d. d_id d \<in> set all_ids) (delegations db),
          as_revocations = sort_key (\<lambda>r. digest (r_id r))
            (filter (\<lambda>r. revoked r \<in> set all_ids) (revocations db))\<rparr>)"

record AccountLifecycle =
  al_status :: string
  al_direct_revocation :: "revocation_row option"
  al_revoked_ancestor :: "hash option"

definition revocations_of :: "AccountAncestorState \<Rightarrow> hash \<Rightarrow> revocation_row list" where
  "revocations_of st h = filter (\<lambda>r. revoked r = h) (as_revocations st)"

text \<open>The \<open>for\<close> loop over a level: a revoked node, or the visited nodes and the next frontier.\<close>

fun lifecycle_level ::
  "AccountAncestorState \<Rightarrow> hash list \<Rightarrow> hash list \<Rightarrow> hash list \<Rightarrow> (hash, hash list \<times> hash list) result" where
  "lifecycle_level st visited frontier [] = Inr (visited, frontier)"
| "lifecycle_level st visited frontier (current # level) =
     (if current \<in> set visited then lifecycle_level st visited frontier level
      else if revocations_of st current \<noteq> [] then Inl current
      else lifecycle_level st (current # visited) (frontier @ parents_of (as_parents st) current) level)"

lemma lifecycle_level_visited:
  "lifecycle_level st visited frontier level = Inr (visited', frontier') \<Longrightarrow>
     length visited \<le> length visited' \<and> (length visited' = length visited \<longrightarrow> frontier' = frontier)"
  by (induction st visited frontier level rule: lifecycle_level.induct) (auto split: if_splits)

datatype walk_end = RevokedAncestor hash | Walked "hash list"

text \<open>
  The \<open>while\<close> loop. A node enters \<open>visited\<close> and \<open>effective_ids\<close> together, so that one list, newest
  first, is both.
\<close>

function lifecycle_walk ::
  "AccountAncestorState \<Rightarrow> hash list \<Rightarrow> hash list \<Rightarrow> (DbErr, walk_end) result" where
  "lifecycle_walk st visited frontier =
     (if frontier = [] then Inr (Walked visited)
      else
        (case lifecycle_level st visited [] frontier of
           Inl h \<Rightarrow> Inr (RevokedAncestor h)
         | Inr (visited', next) \<Rightarrow>
             (if length visited' > MAX_ACCOUNT_ANCESTOR_NODES
              then Inl (DbCustom ''account-ancestor-graph-node-limit-exceeded'')
              else lifecycle_walk st visited' (dedup (sort_key digest next)))))"
  by pat_completeness auto

termination
proof (relation "measure (\<lambda>(st, visited, frontier).
    2 * (MAX_ACCOUNT_ANCESTOR_NODES - length visited) + (if frontier = [] then 0 else 1))")
  fix st :: AccountAncestorState and visited frontier visited' upper :: "hash list" and p
  assume "frontier \<noteq> []" and "lifecycle_level st visited [] frontier = Inr p" and "(visited', upper) = p"
    and "\<not> length visited' > MAX_ACCOUNT_ANCESTOR_NODES"
  then have grow: "length visited \<le> length visited'" "length visited' \<le> MAX_ACCOUNT_ANCESTOR_NODES"
    "length visited' = length visited \<longrightarrow> upper = []"
    using lifecycle_level_visited by force+
  with \<open>frontier \<noteq> []\<close> show "((st, visited', dedup (sort_key digest upper)), st, visited, frontier)
      \<in> measure (\<lambda>(st, visited, frontier).
          2 * (MAX_ACCOUNT_ANCESTOR_NODES - length visited) + (if frontier = [] then 0 else 1))"
    by (cases "length visited' = length visited") auto
qed simp

declare lifecycle_walk.simps [simp del]

definition lifecycle :: "AccountAncestorState \<Rightarrow> hash \<Rightarrow> time \<Rightarrow> (DbErr, AccountLifecycle) result" where
  "lifecycle st root_id now =
     (case revocations_of st root_id of
        r # _ \<Rightarrow> Inr \<lparr>al_status = ''revoked'', al_direct_revocation = Some r, al_revoked_ancestor = None\<rparr>
      | [] \<Rightarrow>
          rbind (lifecycle_walk st [root_id] (sort_key digest (parents_of (as_parents st) root_id))) (\<lambda>e.
          case e of
            RevokedAncestor h \<Rightarrow>
              Inr \<lparr>al_status = ''ancestor_revoked'', al_direct_revocation = None, al_revoked_ancestor = Some h\<rparr>
          | Walked ids \<Rightarrow>
              (let effective = List.map_filter (\<lambda>h. find (\<lambda>d. d_id d = h) (as_delegations st)) (rev ids)
               in if length effective \<noteq> length ids then Inl (DbCustom ''account-ancestor-delegation-missing'')
                  else
                    (let status =
                           (if list_ex (\<lambda>d. case d_expiry d of Some e \<Rightarrow> now \<ge> e | None \<Rightarrow> False) effective
                            then ''expired''
                            else if list_ex (\<lambda>d. case d_not_before d of Some n \<Rightarrow> now < n | None \<Rightarrow> False) effective
                            then ''pending''
                            else ''active'')
                     in Inr \<lparr>al_status = status, al_direct_revocation = None, al_revoked_ancestor = None\<rparr>))))"

section \<open>Records\<close>

definition group_abilities :: "ability_row list \<Rightarrow> (string \<times> (string \<times> Caveats) list) list" where
  "group_abilities as =
     fold (\<lambda>a m. let k = resource_type_display (ab_resource a)
                 in bm_insert k ((case map_of m k of Some es \<Rightarrow> es | None \<Rightarrow> []) @ [(ab_ability a, ab_caveats a)]) m)
       as []"

definition matches_space :: "externals \<Rightarrow> string \<Rightarrow> string list \<Rightarrow> bool" where
  "matches_space X space_filter resources =
     list_ex (\<lambda>r. case resource_type_from_str X r of
       Inr res \<Rightarrow>
         (case space_of res of
            Some s \<Rightarrow> space_display s = space_filter \<or> space_name s = space_filter
          | None \<Rightarrow> False)
     | Inl _ \<Rightarrow> False) resources"

definition resource_entry :: "text_formats \<Rightarrow> string \<times> (string \<times> Caveats) list \<Rightarrow> DelegationResource" where
  "resource_entry F g =
     (let entries = sort_key (\<lambda>e. (fst e, caveats_json F (snd e))) (snd g)
      in \<lparr>dr_resource = fst g, dr_actions = map fst entries, dr_caveats = map snd entries\<rparr>)"

definition status_matches :: "DelegationQueryStatus option \<Rightarrow> string \<Rightarrow> bool" where
  "status_matches wanted status \<longleftrightarrow>
     (case wanted of
        None \<Rightarrow> True
      | Some QActive \<Rightarrow> status = ''active''
      | Some QPending \<Rightarrow> status = ''pending''
      | Some QExpired \<Rightarrow> status = ''expired''
      | Some QRevoked \<Rightarrow> status \<in> {''revoked'', ''ancestor_revoked''}
      | Some QAncestorRevoked \<Rightarrow> status = ''ancestor_revoked'')"

definition cid_text :: "externals \<Rightarrow> hash \<Rightarrow> string" where
  "cid_text X h = cid_display X (to_cid h RAW_CODEC)"

text \<open>One turn of the loop over the delegations: a record, unless a filter skips it.\<close>

definition account_record ::
  "externals \<Rightarrow> text_formats \<Rightarrow> DelegationQuery \<Rightarrow> time \<Rightarrow> string list \<Rightarrow> AccountAncestorState \<Rightarrow>
   delegation_row \<times> ability_row list \<Rightarrow> (DbErr, AccountDelegationRecord option) result" where
  "account_record X F q now dids st row =
     (let d = fst row;
          granted = (delegator d \<in> set dids);
          grouped = group_abilities (snd row)
      in if dq_direction q = Granted \<and> \<not> granted \<or> dq_direction q = Received \<and> granted then Inr None
         else if (case dq_space q of Some f \<Rightarrow> \<not> matches_space X f (map fst grouped) | None \<Rightarrow> False) then Inr None
         else
           rbind (lifecycle st (d_id d) now) (\<lambda>life.
           if \<not> status_matches (dq_status q) (al_status life) then Inr None
           else
             Inr (Some
               \<lparr>ar_cid = cid_text X (d_id d),
                ar_direction = (if granted then ''granted'' else ''received''),
                ar_delegator_did = delegator d, ar_delegate_did = delegatee d,
                ar_resources = map (resource_entry F) grouped,
                ar_parents = map (cid_text X) (dedup (sort_key digest (parents_of (as_parents st) (d_id d)))),
                ar_issued_at = d_issued_at d, ar_not_before = d_not_before d, ar_expires_at = d_expiry d,
                ar_status = al_status life,
                ar_revoked_at = Option.bind (al_direct_revocation life) revoked_at,
                ar_revoked_by = map_option revoker (al_direct_revocation life),
                ar_revoked_ancestor_cid = map_option (cid_text X) (al_revoked_ancestor life)\<rparr>)))"

text \<open>Newest first, delegations without a date last, then by CID.\<close>

definition record_order :: "AccountDelegationRecord \<Rightarrow> (int \<times> int) \<times> string" where
  "record_order r = (case ar_issued_at r of Some t \<Rightarrow> (0, - t) | None \<Rightarrow> (1, 0), ar_cid r)"

fun position_of :: "string \<Rightarrow> AccountDelegationRecord list \<Rightarrow> nat option" where
  "position_of c [] = None"
| "position_of c (r # rs) = (if ar_cid r = c then Some 0 else map_option Suc (position_of c rs))"

text \<open>The page after the cursor; the index \<open>limit - 1\<close> is in range for a validated limit.\<close>

definition page_after ::
  "text_formats \<Rightarrow> DelegationQuery \<Rightarrow> AccountDelegationRecord list \<Rightarrow>
   (AccountDelegationQueryError, DelegationQueryPage) result" where
  "page_after F q records =
     rbind (map_err (\<lambda>_. AccountUnauthorized) (decoded_cursor F q)) (\<lambda>cursor.
     rbind
       (case cursor of
          None \<Rightarrow> Inr records
        | Some c \<Rightarrow>
            (case position_of c records of
               None \<Rightarrow> Inl AccountUnauthorized
             | Some n \<Rightarrow> Inr (drop (n + 1) records))) (\<lambda>records.
     let limit = (case dq_limit q of Some l \<Rightarrow> l | None \<Rightarrow> 50)
     in Inr \<lparr>pg_schema_version = 2,
             pg_items = take limit records,
             pg_next_cursor =
               (if length records > limit then Some (encode_cursor F (ar_cid (records ! (limit - 1)))) else None)\<rparr>))"

definition account_rows :: "database \<Rightarrow> string list \<Rightarrow> delegation_row list" where
  "account_rows db dids = filter (\<lambda>d. delegator d \<in> set dids \<or> delegatee d \<in> set dids) (delegations db)"

definition account_records ::
  "externals \<Rightarrow> text_formats \<Rightarrow> DelegationQuery \<Rightarrow> time \<Rightarrow> database \<Rightarrow> string list \<Rightarrow>
   (DbErr, AccountDelegationRecord list) result" where
  "account_records X F q now db dids =
     (let rows = account_rows db dids
      in rbind (load_account_ancestor_state db (map d_id rows)) (\<lambda>st.
         rbind (try_map (account_record X F q now dids st) (map (\<lambda>d. (d, abilities_of db (d_id d))) rows)) (\<lambda>rs.
         Inr (sort_key record_order (List.map_filter id rs)))))"

definition query_account_delegations ::
  "externals \<Rightarrow> text_formats \<Rightarrow> time \<Rightarrow> database \<Rightarrow> InvocationInfo \<Rightarrow> DelegationQuery \<Rightarrow>
   (AccountDelegationQueryError, DelegationQueryPage) result" where
  "query_account_delegations X F now db i q =
     rbind (map_err (\<lambda>_. AccountUnauthorized) (verify_and_authorize X db now i)) (\<lambda>_.
     rbind (map_err AccountDb (account_query_principal X db i)) (\<lambda>account.
     rbind (ok_or account AccountUnauthorized) (\<lambda>account.
     rbind (map_err AccountDb (account_session_dids X db account)) (\<lambda>dids.
     rbind (map_err AccountDb (account_records X F q now db dids)) (\<lambda>records.
     page_after F q records)))))"

section \<open>What is loaded\<close>

lemma parents_of_update:
  "parents_of (AList.update c v m) h = (if h = c then v else parents_of m h)"
  by (simp add: parents_of_def update_conv')

lemma ancestor_link_ok:
  assumes "ancestor_link (all_ids, upper, parents) l = Inr (all_ids', upper', parents')"
  shows "set all_ids' = insert (pd_parent l) (set all_ids)"
    and "set upper' = set upper \<union> ({pd_parent l} - set all_ids)"
    and "set (parents_of parents' h) = set (parents_of parents h) \<union> (if h = pd_child l then {pd_parent l} else {})"
  using assms by (auto simp: ancestor_link_def Let_def parents_of_update split: if_splits)

lemma ancestor_links_ok:
  assumes "try_fold ancestor_link (all_ids, upper, parents) links = Inr (all_ids', upper', parents')"
  shows "set all_ids' = set all_ids \<union> pd_parent ` set links \<and>
    set upper' = set upper \<union> (pd_parent ` set links - set all_ids) \<and>
    (\<forall>h. set (parents_of parents' h) = set (parents_of parents h) \<union> pd_parent ` {l \<in> set links. pd_child l = h})"
  using assms
proof (induction links arbitrary: all_ids upper parents)
  case (Cons l links)
  then obtain a u p where l: "ancestor_link (all_ids, upper, parents) l = Inr (a, u, p)"
    and rest: "try_fold ancestor_link (a, u, p) links = Inr (all_ids', upper', parents')"
    by (auto split: sum.splits)
  have img: "pd_parent ` {l' \<in> set (l # links). pd_child l' = h} =
      (if h = pd_child l then {pd_parent l} else {}) \<union> pd_parent ` {l' \<in> set links. pd_child l' = h}" for h
    by auto
  from Cons.IH [OF rest] show ?case
    unfolding img ancestor_link_ok [OF l] by auto
qed simp

text \<open>The nodes of a load, closed under parents, with the parents of each.\<close>

definition loaded :: "database \<Rightarrow> hash set \<Rightarrow> (hash \<times> hash list) list \<Rightarrow> bool" where
  "loaded db ids parents \<longleftrightarrow> (\<forall>h \<in> ids. set (parents_of parents h) = parent_rel db `` {h} \<and> parent_rel db `` {h} \<subseteq> ids)"

lemma ancestor_levels_ok:
  assumes "ancestor_levels db n all_ids frontier parents = Inr (ids, parents')"
    and "set frontier \<subseteq> set all_ids" and "set all_ids \<subseteq> (parent_rel db)\<^sup>* `` R"
    and "\<forall>h \<in> set all_ids - set frontier. set (parents_of parents h) = parent_rel db `` {h} \<and>
      parent_rel db `` {h} \<subseteq> set all_ids"
    and "\<forall>h. set (parents_of parents h) \<subseteq> parent_rel db `` {h}"
  shows "set all_ids \<subseteq> set ids \<and> set ids \<subseteq> (parent_rel db)\<^sup>* `` R \<and> loaded db (set ids) parents'"
  using assms
proof (induction n arbitrary: all_ids frontier parents)
  case 0
  then show ?case by (auto simp: loaded_def split: if_splits)
next
  case (Suc n)
  show ?case
  proof (cases "frontier = []")
    case True
    with Suc.prems show ?thesis by (auto simp: loaded_def)
  next
    case False
    let ?links = "filter (\<lambda>l. pd_child l \<in> set frontier) (parent_delegations db)"
    from Suc.prems(1) False obtain all2 upper parents2 where
      fold: "try_fold ancestor_link (all_ids, [], parents) ?links = Inr (all2, upper, parents2)"
      and rest: "ancestor_levels db n all2 (dedup (sort_key digest upper)) parents2 = Inr (ids, parents')"
      by (auto simp: rbind_eq_Inr)
    from ancestor_links_ok [OF fold] have links: "set all2 = set all_ids \<union> pd_parent ` set ?links"
      "set upper = pd_parent ` set ?links - set all_ids"
      "set (parents_of parents2 h) = set (parents_of parents h) \<union> pd_parent ` {l \<in> set ?links. pd_child l = h}" for h
      by simp_all
    have rel: "pd_parent ` {l \<in> set ?links. pd_child l = h} = (if h \<in> set frontier then parent_rel db `` {h} else {})" for h
      by (auto simp: parent_rel_image)
    have parents2: "set (parents_of parents2 h) =
        (if h \<in> set frontier then parent_rel db `` {h} else set (parents_of parents h))" for h
      using links(3) [of h] Suc.prems(5) unfolding rel by auto
    have all2: "set all2 = set all_ids \<union> parent_rel db `` set frontier"
      unfolding links(1) by (auto simp: parent_rel_image)
    have upper: "set (dedup (sort_key digest upper)) = set all2 - set all_ids"
      using links(1,2) by auto
    have closed: "parent_rel db `` {h} \<subseteq> set all2" if "h \<in> set all_ids" for h
      using that Suc.prems(4) all2 by blast
    have "parent_rel db `` ((parent_rel db)\<^sup>* `` R) \<subseteq> (parent_rel db)\<^sup>* `` R"
      by (auto intro: rtrancl_into_rtrancl)
    then have "set all2 \<subseteq> (parent_rel db)\<^sup>* `` R"
      using all2 Suc.prems(2,3) by blast
    from Suc.IH [OF rest _ this] show ?thesis
      using upper all2 closed parents2 Suc.prems(4,5) by (simp add: Diff_Diff_Int)
  qed
qed

lemma load_ok:
  assumes "load_account_ancestor_state db roots = Inr st"
  shows "loaded db ((parent_rel db)\<^sup>* `` set roots) (as_parents st)"
    and "h \<in> (parent_rel db)\<^sup>* `` set roots \<Longrightarrow> revocations_of st h \<noteq> [] \<longleftrightarrow> is_revoked db h"
    and "as_delegations st = filter (\<lambda>d. d_id d \<in> (parent_rel db)\<^sup>* `` set roots) (delegations db)"
proof -
  from assms obtain ids parents where
    levels: "ancestor_levels db MAX_CHAIN_TRAVERSAL_NODES (remdups roots) roots [] = Inr (ids, parents)"
    and st: "st = \<lparr>as_parents = map (\<lambda>(h, ps). (h, dedup (sort_key digest ps))) parents,
          as_delegations = filter (\<lambda>d. d_id d \<in> set ids) (delegations db),
          as_revocations = sort_key (\<lambda>r. digest (r_id r))
            (filter (\<lambda>r. revoked r \<in> set ids) (revocations db))\<rparr>"
    by (auto simp: load_account_ancestor_state_def rbind_eq_Inr)
  have "set (remdups roots) \<subseteq> set ids \<and> set ids \<subseteq> (parent_rel db)\<^sup>* `` set roots \<and> loaded db (set ids) parents"
    using levels by (rule ancestor_levels_ok) (auto simp: parents_of_def)
  then have l: "loaded db (set ids) parents" and sub: "set roots \<subseteq> set ids" "set ids \<subseteq> (parent_rel db)\<^sup>* `` set roots"
    by auto
  have "a \<in> set ids" if "(r, a) \<in> (parent_rel db)\<^sup>*" "r \<in> set ids" for r a
    using that l by (induction rule: rtrancl_induct) (auto simp: loaded_def)
  with sub have ids: "set ids = (parent_rel db)\<^sup>* `` set roots" by blast
  have "parents_of (as_parents st) h = dedup (sort_key digest (parents_of parents h))" for h
    by (simp add: st parents_of_def map_of_map split: option.splits)
  with l ids show "loaded db ((parent_rel db)\<^sup>* `` set roots) (as_parents st)" by (simp add: loaded_def)
  show "as_delegations st = filter (\<lambda>d. d_id d \<in> (parent_rel db)\<^sup>* `` set roots) (delegations db)"
    by (simp add: st ids)
  show "revocations_of st h \<noteq> [] \<longleftrightarrow> is_revoked db h" if "h \<in> (parent_rel db)\<^sup>* `` set roots"
    using that unfolding ids [symmetric]
    by (auto simp: st revocations_of_def is_revoked_iff filter_empty_conv)
qed

section \<open>What the walk finds\<close>

lemma lifecycle_level_ok:
  "lifecycle_level st visited frontier level = Inr (visited', frontier') \<Longrightarrow> distinct visited \<Longrightarrow>
     distinct visited' \<and> set visited' = set visited \<union> set level \<and>
     set frontier' = set frontier \<union> (\<Union>h \<in> set level - set visited. set (parents_of (as_parents st) h)) \<and>
     (\<forall>h \<in> set level - set visited. revocations_of st h = [])"
proof (induction st visited frontier level rule: lifecycle_level.induct)
  case (2 st visited frontier current level)
  show ?case
  proof (cases "current \<in> set visited")
    case True
    then have "set (current # level) - set visited = set level - set visited" by auto
    with 2 True show ?thesis by auto
  next
    case False
    then have new: "set (current # level) - set visited = insert current (set level - set (current # visited))" by auto
    from False "2.prems" have free: "revocations_of st current = []" by (auto split: if_splits)
    with False "2.prems" have "lifecycle_level st (current # visited)
        (frontier @ parents_of (as_parents st) current) level = Inr (visited', frontier')" by simp
    from "2.IH"(2) [OF False _ this] False free "2.prems"(2) show ?thesis unfolding new by auto
  qed
qed simp

lemma lifecycle_level_revoked:
  "lifecycle_level st visited frontier level = Inl h \<Longrightarrow> h \<in> set level \<and> revocations_of st h \<noteq> []"
  by (induction st visited frontier level rule: lifecycle_level.induct) (auto split: if_splits)

lemma lifecycle_walk_ok:
  assumes "lifecycle_walk st visited frontier = Inr e" and "distinct visited"
    and "loaded db ids (as_parents st)" and "set visited \<union> set frontier \<subseteq> ids"
    and "parent_rel db `` set visited \<subseteq> set visited \<union> set frontier"
    and "\<forall>h \<in> set visited. revocations_of st h = []"
  shows "case e of
      RevokedAncestor h \<Rightarrow> h \<in> (parent_rel db)\<^sup>* `` (set visited \<union> set frontier) \<and> revocations_of st h \<noteq> []
    | Walked v \<Rightarrow> distinct v \<and> set v = (parent_rel db)\<^sup>* `` (set visited \<union> set frontier) \<and>
        (\<forall>h \<in> set v. revocations_of st h = [])"
  using assms
proof (induction st visited frontier rule: lifecycle_walk.induct)
  case (1 st visited frontier)
  note run = "1.prems"(1) [unfolded lifecycle_walk.simps [of st visited frontier]]
  show ?case
  proof (cases "frontier = []")
    case True
    with run have "e = Walked visited" by simp
    moreover have "(parent_rel db)\<^sup>* `` set visited = set visited"
      using "1.prems"(5) True by (intro Image_closed_trancl) simp
    ultimately show ?thesis using "1.prems"(2,6) True by simp
  next
    case False
    show ?thesis
    proof (cases "lifecycle_level st visited [] frontier")
      case (Inl h)
      with run False have "e = RevokedAncestor h" by simp
      with lifecycle_level_revoked [OF Inl] show ?thesis by auto
    next
      case (Inr p)
      obtain visited' upper where p: "p = (visited', upper)" by (cases p)
      from run False Inr p have small: "\<not> length visited' > MAX_ACCOUNT_ANCESTOR_NODES"
        and rest: "lifecycle_walk st visited' (dedup (sort_key digest upper)) = Inr e"
        by (auto split: if_splits)
      note level = lifecycle_level_ok [OF Inr [unfolded p] "1.prems"(2)]
      have par: "set (parents_of (as_parents st) h) = parent_rel db `` {h}" "parent_rel db `` {h} \<subseteq> ids"
        if "h \<in> set frontier" for h using "1.prems"(3,4) that by (auto simp: loaded_def)
      have upper: "set upper = parent_rel db `` (set frontier - set visited)"
        using level par(1) by auto
      have visited': "set visited' = set visited \<union> set frontier" using level by blast
      have sub: "set visited' \<union> set upper \<subseteq> ids" unfolding visited' upper using par(2) "1.prems"(4) by blast
      have closed: "parent_rel db `` set visited' \<subseteq> set visited' \<union> set upper"
        unfolding visited' upper using "1.prems"(5) by blast
      have "(parent_rel db)\<^sup>* `` (set visited' \<union> set upper) = (parent_rel db)\<^sup>* `` (set visited \<union> set frontier)"
        unfolding visited' upper by (auto intro: converse_rtrancl_into_rtrancl)
      moreover have "\<forall>h \<in> set visited'. revocations_of st h = []" using level "1.prems"(6) by blast
      ultimately show ?thesis
        using "1.IH" [OF False Inr p [symmetric] small rest] level "1.prems"(3) sub closed by (simp only: set_dedup set_sort)
    qed
  qed
qed

section \<open>What is reported\<close>

text \<open>The status of a delegation, from the rows of everything it descends from.\<close>

definition expired_at :: "time \<Rightarrow> delegation_row \<Rightarrow> bool" where
  "expired_at now d \<longleftrightarrow> (case d_expiry d of Some e \<Rightarrow> now \<ge> e | None \<Rightarrow> False)"

definition early_at :: "time \<Rightarrow> delegation_row \<Rightarrow> bool" where
  "early_at now d \<longleftrightarrow> (case d_not_before d of Some n \<Rightarrow> now < n | None \<Rightarrow> False)"

definition status_of :: "database \<Rightarrow> time \<Rightarrow> hash \<Rightarrow> string" where
  "status_of db now h =
     (if is_revoked db h then ''revoked''
      else if \<exists>a. (h, a) \<in> (parent_rel db)\<^sup>* \<and> is_revoked db a then ''ancestor_revoked''
      else if \<exists>d \<in> set (delegations db). (h, d_id d) \<in> (parent_rel db)\<^sup>* \<and> expired_at now d then ''expired''
      else if \<exists>d \<in> set (delegations db). (h, d_id d) \<in> (parent_rel db)\<^sup>* \<and> early_at now d then ''pending''
      else ''active'')"

lemma set_find_rows:
  assumes "distinct (map d_id ds)"
  shows "set (List.map_filter (\<lambda>h. find (\<lambda>d. d_id d = h) ds) hs) = {d \<in> set ds. d_id d \<in> set hs}"
proof -
  have "find (\<lambda>d. d_id d = h) ds = Some d \<longleftrightarrow> d \<in> set ds \<and> d_id d = h" for h d
    using assms by (induction ds) auto
  then show ?thesis by (auto simp: set_map_filter)
qed

lemma lifecycle_status:
  assumes "load_account_ancestor_state db roots = Inr st" and "h \<in> set roots" and "ids_ok db"
    and "lifecycle st h now = Inr life"
  shows "al_status life = status_of db now h"
proof (cases "revocations_of st h")
  case (Cons r rs)
  with load_ok(2) [OF assms(1), of h] assms(2) have "is_revoked db h" by auto
  with Cons assms(4) show ?thesis by (auto simp: lifecycle_def status_of_def)
next
  case Nil
  let ?ids = "(parent_rel db)\<^sup>* `` set roots" and ?up = "(parent_rel db)\<^sup>* `` {h}"
  note load = load_ok [OF assms(1)]
  have up: "?up \<subseteq> ?ids" using assms(2) by blast
  have rev: "revocations_of st a \<noteq> [] \<longleftrightarrow> is_revoked db a" if "a \<in> ?up" for a using load(2) that up by blast
  have free: "\<not> is_revoked db h" using rev [of h] Nil by auto
  have parents: "set (parents_of (as_parents st) h) = parent_rel db `` {h}"
    using load(1) assms(2) by (auto simp: loaded_def)
  have star: "(parent_rel db)\<^sup>* `` (set [h] \<union> parent_rel db `` {h}) = ?up"
    by (auto intro: converse_rtrancl_into_rtrancl)
  have sub: "insert h (parent_rel db `` {h}) \<subseteq> ?ids" using assms(2) by blast
  from assms(4) Nil obtain e where
    walk: "lifecycle_walk st [h] (sort_key digest (parents_of (as_parents st) h)) = Inr e"
    by (auto simp: lifecycle_def rbind_eq_Inr)
  have found: "case e of RevokedAncestor a \<Rightarrow> a \<in> ?up \<and> revocations_of st a \<noteq> []
    | Walked v \<Rightarrow> distinct v \<and> set v = ?up \<and> (\<forall>a \<in> set v. revocations_of st a = [])"
    using lifecycle_walk_ok [OF walk _ load(1)] Nil sub unfolding set_sort parents star
    by (simp add: subset_insertI)
  show ?thesis
  proof (cases e)
    case (RevokedAncestor a)
    with found rev have "a \<in> ?up" "is_revoked db a" by auto
    with free RevokedAncestor walk Nil assms(4) show ?thesis by (auto simp: lifecycle_def status_of_def)
  next
    case (Walked v)
    let ?eff = "List.map_filter (\<lambda>h. find (\<lambda>d. d_id d = h) (as_delegations st)) (rev v)"
    have dist: "distinct (map d_id (as_delegations st))"
      using assms(3) unfolding load(3) by (simp add: ids_ok_def distinct_map_filter)
    have eff: "set ?eff = {d \<in> set (delegations db). (h, d_id d) \<in> (parent_rel db)\<^sup>*}"
      using Walked found up by (auto simp: set_find_rows [OF dist]) (simp_all add: load(3), blast?)
    have "\<not> (\<exists>a. (h, a) \<in> (parent_rel db)\<^sup>* \<and> is_revoked db a)" using Walked found rev by auto
    moreover have "list_ex (expired_at now) ?eff \<longleftrightarrow> (\<exists>d \<in> set (delegations db). (h, d_id d) \<in> (parent_rel db)\<^sup>* \<and> expired_at now d)"
      "list_ex (early_at now) ?eff \<longleftrightarrow> (\<exists>d \<in> set (delegations db). (h, d_id d) \<in> (parent_rel db)\<^sup>* \<and> early_at now d)"
      unfolding list_ex_iff eff by auto
    ultimately show ?thesis
      using Walked walk Nil assms(4) free
      by (auto simp: lifecycle_def status_of_def Let_def expired_at_def [abs_def] early_at_def [abs_def] split: if_splits)
  qed
qed

lemma account_record_ok:
  assumes "account_record X F q now dids st row = Inr (Some r)"
  shows "\<exists>life. lifecycle st (d_id (fst row)) now = Inr life \<and> ar_status r = al_status life \<and>
    ar_cid r = cid_text X (d_id (fst row)) \<and> ar_delegator_did r = delegator (fst row) \<and>
    ar_delegate_did r = delegatee (fst row) \<and> status_matches (dq_status q) (ar_status r)"
  using assms by (auto simp: account_record_def Let_def rbind_eq_Inr split: if_splits)

lemma account_records_rows:
  assumes "account_records X F q now db dids = Inr rs" and "r \<in> set rs"
  obtains st d life where "load_account_ancestor_state db (map d_id (account_rows db dids)) = Inr st"
    "d \<in> set (account_rows db dids)" "lifecycle st (d_id d) now = Inr life"
    "ar_status r = al_status life" "ar_cid r = cid_text X (d_id d)" "ar_delegator_did r = delegator d"
    "ar_delegate_did r = delegatee d" "status_matches (dq_status q) (ar_status r)"
proof -
  let ?rows = "account_rows db dids"
  from assms(1) obtain st os where st: "load_account_ancestor_state db (map d_id ?rows) = Inr st"
    and os: "try_map (account_record X F q now dids st) (map (\<lambda>d. (d, abilities_of db (d_id d))) ?rows) = Inr os"
    and rs: "rs = sort_key record_order (List.map_filter id os)"
    by (auto simp: account_records_def Let_def rbind_eq_Inr)
  from assms(2) rs have "Some r \<in> set os" by (auto simp: set_map_filter)
  from try_map_Inr_set [OF os this] obtain d where d: "d \<in> set ?rows"
    and r: "account_record X F q now dids st (d, abilities_of db (d_id d)) = Inr (Some r)" by auto
  from account_record_ok [OF r] that [OF st d] show ?thesis by auto
qed

lemma account_records_ok:
  assumes "account_records X F q now db dids = Inr rs" and "r \<in> set rs" and "ids_ok db"
  shows "\<exists>d \<in> set (delegations db). (delegator d \<in> set dids \<or> delegatee d \<in> set dids) \<and>
    ar_cid r = cid_text X (d_id d) \<and> ar_delegator_did r = delegator d \<and> ar_delegate_did r = delegatee d \<and>
    ar_status r = status_of db now (d_id d) \<and> status_matches (dq_status q) (ar_status r)"
  using assms(1,2)
proof (rule account_records_rows)
  fix st d life
  assume st: "load_account_ancestor_state db (map d_id (account_rows db dids)) = Inr st"
    and d: "d \<in> set (account_rows db dids)" and life: "lifecycle st (d_id d) now = Inr life"
    and r: "ar_status r = al_status life" "ar_cid r = cid_text X (d_id d)" "ar_delegator_did r = delegator d"
    "ar_delegate_did r = delegatee d" "status_matches (dq_status q) (ar_status r)"
  have "al_status life = status_of db now (d_id d)"
    using d by (intro lifecycle_status [OF st _ assms(3) life]) simp
  with d r show ?thesis by (auto simp: account_rows_def)
qed

section \<open>The sessions found\<close>

text \<open>From an account or a session to a session key it gave the right to list the account.\<close>

definition session_rel :: "externals \<Rightarrow> database \<Rightarrow> string \<Rightarrow> (string \<times> string) set" where
  "session_rel X db account = {(a, k). \<exists>d \<in> set (delegations db). delegator d = a \<and> delegatee d = k \<and>
     starts_with k ''did:key:'' \<and> controls_account X account (abilities_of db (d_id d))}"

lemma joined_rows_sound:
  assumes "(d, x) \<in> set (joined_rows db ds)"
  shows "d \<in> set ds \<and> (\<forall>a. x = Some a \<longrightarrow> a \<in> set (abilities_of db (d_id d)))"
proof -
  from assms obtain d' where "d' \<in> set ds"
    "(d, x) \<in> set (case abilities_of db (d_id d') of [] \<Rightarrow> [(d', None)] | as \<Rightarrow> map (\<lambda>a. (d', Some a)) as)"
    by (auto simp: joined_rows_def)
  then show ?thesis by (cases "abilities_of db (d_id d')") auto
qed

lemma grouped_rows_sound:
  assumes "(d, as) \<in> set (grouped_rows (take n (joined_rows db ds)))"
  shows "d \<in> set ds" and "set as \<subseteq> set (abilities_of db (d_id d))"
proof -
  let ?rows = "take n (joined_rows db ds)"
  have rows: "(d', x) \<in> set ?rows \<Longrightarrow> d' \<in> set ds \<and> (\<forall>a. x = Some a \<longrightarrow> a \<in> set (abilities_of db (d_id d')))" for d' x
    using joined_rows_sound in_set_takeD by metis
  from assms have d: "d \<in> fst ` set ?rows" and as: "as = List.map_filter snd (filter (\<lambda>r. fst r = d) ?rows)"
    by (auto simp: grouped_rows_def)
  from d rows show "d \<in> set ds" by force
  from rows show "set as \<subseteq> set (abilities_of db (d_id d))" by (fastforce simp: as set_map_filter)
qed

lemma controls_account_mono: "controls_account X account as \<Longrightarrow> set as \<subseteq> set bs \<Longrightarrow> controls_account X account bs"
  by (auto simp: controls_account_def list_ex_iff)

definition sessions_ok :: "externals \<Rightarrow> database \<Rightarrow> string \<Rightarrow> string list \<Rightarrow> bool" where
  "sessions_ok X db account dids \<longleftrightarrow>
     distinct dids \<and> account \<in> set dids \<and> length dids \<le> MAX_ACCOUNT_SESSION_NODES \<and>
     set dids \<subseteq> (session_rel X db account)\<^sup>* `` {account}"

lemma session_rows_ok:
  assumes "try_fold (session_row X account) (dids, upper) rows = Inr (dids', upper')"
    and "\<forall>(d, as) \<in> set rows. d \<in> set (delegations db) \<and> delegator d \<in> (session_rel X db account)\<^sup>* `` {account} \<and>
      set as \<subseteq> set (abilities_of db (d_id d))"
    and "sessions_ok X db account dids" and "set upper \<subseteq> set dids"
  shows "sessions_ok X db account dids' \<and> set upper' \<subseteq> set dids'"
  using assms
proof (induction rows arbitrary: dids upper)
  case (Cons row rows)
  obtain d as where row: "row = (d, as)" by (cases row)
  from Cons.prems(1) obtain dids1 upper1 where step: "session_row X account (dids, upper) row = Inr (dids1, upper1)"
    and rest: "try_fold (session_row X account) (dids1, upper1) rows = Inr (dids', upper')"
    by (auto split: sum.splits)
  have "sessions_ok X db account dids1 \<and> set upper1 \<subseteq> set dids1"
  proof (cases "controls_account X account as \<and> starts_with (delegatee d) ''did:key:'' \<and> delegatee d \<notin> set dids")
    case True
    with step row have new: "dids1 = delegatee d # dids" "upper1 = upper @ [delegatee d]"
      "length dids1 \<le> MAX_ACCOUNT_SESSION_NODES" by (auto simp: session_row_def Let_def split: if_splits)
    have "(delegator d, delegatee d) \<in> session_rel X db account"
      using True Cons.prems(2) row controls_account_mono by (fastforce simp: session_rel_def)
    then have "delegatee d \<in> (session_rel X db account)\<^sup>* `` {account}"
      using Cons.prems(2) row by (auto intro: rtrancl_into_rtrancl)
    with new True Cons.prems(3,4) show ?thesis by (auto simp: sessions_ok_def)
  next
    case False
    with step row Cons.prems(3,4) show ?thesis by (auto simp: session_row_def)
  qed
  with Cons.IH [OF rest] Cons.prems(2) show ?case by simp
qed simp

lemma session_levels_ok:
  assumes "session_levels X db account n dids frontier = Inr dids'"
    and "sessions_ok X db account dids" and "set frontier \<subseteq> set dids"
  shows "sessions_ok X db account dids'"
  using assms
proof (induction n arbitrary: dids frontier)
  case (Suc n)
  show ?case
  proof (cases "frontier = []")
    case True
    with Suc.prems show ?thesis by simp
  next
    case False
    let ?ds = "filter (\<lambda>d. delegator d \<in> set frontier) (delegations db)"
    let ?rows = "grouped_rows (take MAX_ACCOUNT_SESSION_EDGES_PER_LEVEL (joined_rows db ?ds))"
    from Suc.prems(1) False obtain dids1 upper where
      fold: "try_fold (session_row X account) (dids, []) ?rows = Inr (dids1, upper)"
      and rest: "session_levels X db account n dids1 (dedup (sort upper)) = Inr dids'"
      by (auto simp: Let_def rbind_eq_Inr split: if_splits)
    have "\<forall>(d, as) \<in> set ?rows. d \<in> set (delegations db) \<and> delegator d \<in> (session_rel X db account)\<^sup>* `` {account} \<and>
      set as \<subseteq> set (abilities_of db (d_id d))"
    proof clarify
      fix d as assume row: "(d, as) \<in> set ?rows"
      have "d \<in> set ?ds" by (rule grouped_rows_sound(1) [OF row])
      then have "delegator d \<in> (session_rel X db account)\<^sup>* `` {account}" "d \<in> set (delegations db)"
        using Suc.prems(2,3) by (auto simp: sessions_ok_def)
      with grouped_rows_sound(2) [OF row] show "d \<in> set (delegations db) \<and>
        delegator d \<in> (session_rel X db account)\<^sup>* `` {account} \<and> set as \<subseteq> set (abilities_of db (d_id d))" by blast
    qed
    with session_rows_ok [OF fold] Suc.prems(2) have "sessions_ok X db account dids1 \<and> set upper \<subseteq> set dids1" by simp
    with Suc.IH [OF rest] show ?thesis by simp
  qed
qed simp

lemma account_session_dids_ok:
  "account_session_dids X db account = Inr dids \<Longrightarrow> sessions_ok X db account dids"
  unfolding account_session_dids_def
  by (erule session_levels_ok) (simp_all add: sessions_ok_def MAX_ACCOUNT_SESSION_NODES_def)

section \<open>Pages\<close>

text \<open>
  What a query selects before its page is cut. Every call reads the clock, the sessions of the account
  and the database anew.
\<close>

type_synonym account_call = "time \<times> database \<times> InvocationInfo"

fun account_listing ::
  "externals \<Rightarrow> text_formats \<Rightarrow> DelegationQuery \<Rightarrow> account_call \<Rightarrow>
   (AccountDelegationQueryError, AccountDelegationRecord list) result" where
  "account_listing X F q (now, db, i) =
     rbind (map_err (\<lambda>_. AccountUnauthorized) (verify_and_authorize X db now i)) (\<lambda>_.
     rbind (map_err AccountDb (account_query_principal X db i)) (\<lambda>account.
     rbind (ok_or account AccountUnauthorized) (\<lambda>account.
     rbind (map_err AccountDb (account_session_dids X db account)) (\<lambda>dids.
     map_err AccountDb (account_records X F q now db dids)))))"

declare account_listing.simps [simp del]

lemma query_listing:
  "query_account_delegations X F now db i q = rbind (account_listing X F q (now, db, i)) (page_after F q)"
proof -
  have assoc: "rbind (rbind m f) g = rbind m (\<lambda>x. rbind (f x) g)"
    for m :: "(AccountDelegationQueryError, 'a) result" and f and g :: "'b \<Rightarrow> (AccountDelegationQueryError, 'c) result"
    by (cases m) simp_all
  show ?thesis unfolding query_account_delegations_def account_listing.simps assoc ..
qed

text \<open>The pages a client gets by following cursors, one call for each page; none when a call fails.\<close>

fun follow_pages ::
  "externals \<Rightarrow> text_formats \<Rightarrow> DelegationQuery \<Rightarrow> account_call list \<Rightarrow> DelegationQueryPage list option" where
  "follow_pages X F q [] = None"
| "follow_pages X F q ((now, db, i) # calls) =
     (case query_account_delegations X F now db i q of
        Inl _ \<Rightarrow> None
      | Inr pg \<Rightarrow>
          (case pg_next_cursor pg of
             None \<Rightarrow> Some [pg]
           | Some c \<Rightarrow> map_option ((#) pg) (follow_pages X F (q\<lparr>dq_cursor := Some c\<rparr>) calls)))"

lemma position_of_nth:
  "distinct (map ar_cid rs) \<Longrightarrow> k < length rs \<Longrightarrow> position_of (ar_cid (rs ! k)) rs = Some k"
proof (induction rs arbitrary: k)
  case (Cons r rs)
  then show ?case by (cases k) auto
qed simp

definition starts_at :: "text_formats \<Rightarrow> DelegationQuery \<Rightarrow> AccountDelegationRecord list \<Rightarrow> nat \<Rightarrow> bool" where
  "starts_at F q rs k \<longleftrightarrow>
     (k = 0 \<and> dq_cursor q = None) \<or>
     (0 < k \<and> k \<le> length rs \<and> dq_cursor q = Some (encode_cursor F (ar_cid (rs ! (k - 1)))))"

lemma page_after_at:
  assumes "starts_at F q rs k" and "distinct (map ar_cid rs)"
    and "\<forall>r \<in> set rs. ar_cid r \<noteq> [] \<and> b64_decode F (b64_encode F (ar_cid r)) = Some (ar_cid r)"
  defines "l \<equiv> (case dq_limit q of Some l \<Rightarrow> l | None \<Rightarrow> 50)"
  shows "page_after F q rs = Inr \<lparr>pg_schema_version = 2, pg_items = take l (drop k rs),
    pg_next_cursor = (if length rs - k > l then Some (encode_cursor F (ar_cid (rs ! (k + (l - 1))))) else None)\<rparr>"
proof (cases "k = 0")
  case True
  with assms(1) show ?thesis by (auto simp: starts_at_def page_after_def decoded_cursor_def l_def Let_def)
next
  case False
  with assms(1) have k: "0 < k" "k \<le> length rs" "dq_cursor q = Some (encode_cursor F (ar_cid (rs ! (k - 1))))"
    by (auto simp: starts_at_def)
  then have "rs ! (k - 1) \<in> set rs" by auto
  with assms(3) k have "decoded_cursor F q = Inr (Some (ar_cid (rs ! (k - 1))))"
    by (simp add: decoded_cursor_def encode_cursor_def)
  moreover have "position_of (ar_cid (rs ! (k - 1))) rs = Some (k - 1)"
    using k by (intro position_of_nth assms(2)) simp
  ultimately show ?thesis using k by (auto simp: page_after_def l_def Let_def)
qed

lemma page_items:
  assumes "page_after F q rs = Inr pg"
  shows "\<exists>l n. pg_items pg = take l (drop n rs)"
proof -
  from assms obtain cursor xs where
    xs: "(case cursor of None \<Rightarrow> Inr rs
       | Some c \<Rightarrow> (case position_of c rs of None \<Rightarrow> Inl AccountUnauthorized | Some n \<Rightarrow> Inr (drop (n + 1) rs))) = Inr xs"
    and pg: "pg_items pg = take (case dq_limit q of Some l \<Rightarrow> l | None \<Rightarrow> 50) xs"
    unfolding page_after_def rbind_eq_Inr Let_def by auto
  have "\<exists>n. xs = drop n rs"
  proof (cases cursor)
    case None
    with xs show ?thesis by (intro exI [of _ 0]) simp
  next
    case (Some c)
    with xs show ?thesis by (auto split: option.splits)
  qed
  with pg show ?thesis by blast
qed

lemma page_items_subset:
  assumes "page_after F q rs = Inr pg"
  shows "set (pg_items pg) \<subseteq> set rs"
proof -
  from page_items [OF assms] obtain l n where "pg_items pg = take l (drop n rs)" by blast
  then show ?thesis using set_take_subset [of l "drop n rs"] set_drop_subset [of n rs] by simp
qed

lemma try_map_some_distinct:
  assumes "try_map f xs = Inr os" and "distinct (map k xs)" and "\<And>x r. f x = Inr (Some r) \<Longrightarrow> g r = k x"
  shows "distinct (map g (List.map_filter id os)) \<and> g ` set (List.map_filter id os) \<subseteq> k ` set xs"
  using assms(1,2)
proof (induction xs arbitrary: os)
  case Nil
  then show ?case by (simp add: map_filter_simps)
next
  case (Cons x xs)
  from Cons.prems(1) obtain o' os' where x: "f x = Inr o'" and xs: "try_map f xs = Inr os'" and os: "os = o' # os'"
    by (auto split: sum.splits)
  define ys where "ys = List.map_filter id os'"
  have "distinct (map k xs)" using Cons.prems(2) by simp
  note IH = Cons.IH [OF xs this, folded ys_def, THEN conjunct1]
    Cons.IH [OF xs this, folded ys_def, THEN conjunct2]
  have tail: "g r = k x \<and> g r \<notin> g ` set ys" if "o' = Some r" for r
    using that Cons.prems(2) assms(3) x IH(2) by auto
  have step: "distinct (map g zs) \<and> g ` set zs \<subseteq> k ` set (x # xs)"
    if "zs = (case o' of None \<Rightarrow> ys | Some r \<Rightarrow> r # ys)" for zs
    using that IH tail by (cases o') auto
  show ?case by (rule step) (simp add: os ys_def map_filter_simps id_def split: option.splits)
qed

lemma distinct_map_sort: "distinct (map g (sort_key f xs)) \<longleftrightarrow> distinct (map g xs)"
  by (simp add: distinct_map)

lemma account_records_distinct:
  assumes "account_records X F q now db dids = Inr rs" and "ids_ok db"
    and "inj_on (cid_text X) (d_id ` set (delegations db))"
  shows "distinct (map ar_cid rs)"
proof -
  let ?rows = "account_rows db dids"
  from assms(1) obtain st os where
    os: "try_map (account_record X F q now dids st) (map (\<lambda>d. (d, abilities_of db (d_id d))) ?rows) = Inr os"
    and rs: "rs = sort_key record_order (List.map_filter id os)"
    by (auto simp: account_records_def Let_def rbind_eq_Inr)
  have "distinct (map d_id ?rows)"
    using assms(2) by (simp add: account_rows_def ids_ok_def distinct_map_filter)
  moreover have "inj_on (cid_text X) (set (map d_id ?rows))"
    using assms(3) by (rule inj_on_subset) (auto simp: account_rows_def)
  ultimately have "distinct (map (cid_text X) (map d_id ?rows))" by (simp only: distinct_map)
  then have "distinct (map (\<lambda>row. cid_text X (d_id (fst row))) (map (\<lambda>d. (d, abilities_of db (d_id d))) ?rows))"
    by (simp add: comp_def)
  from try_map_some_distinct [OF os this] account_record_ok have "distinct (map ar_cid (List.map_filter id os))" by blast
  then show ?thesis by (simp add: rs distinct_map_sort)
qed

lemma account_records_cursor: "account_records X F (q\<lparr>dq_cursor := c\<rparr>) now db dids = account_records X F q now db dids"
proof -
  have "account_record X F (q\<lparr>dq_cursor := c\<rparr>) = account_record X F q"
    by (intro ext) (simp add: account_record_def Let_def cong: if_cong)
  then show ?thesis by (simp add: account_records_def)
qed

lemma account_listing_cursor: "account_listing X F (q\<lparr>dq_cursor := c\<rparr>) call = account_listing X F q call"
  by (cases call) (simp add: account_listing.simps account_records_cursor)

lemma account_listing_records:
  assumes "account_listing X F q (now, db, i) = Inr rs"
  obtains dids where "account_records X F q now db dids = Inr rs"
  using assms by (auto simp: account_listing.simps rbind_eq_Inr)

text \<open>While every call selects the same records, the walk ends and returns exactly them.\<close>

lemma follow_pages_all:
  assumes "\<forall>call \<in> set calls. account_listing X F q call = Inr rs"
    and "starts_at F q rs k" and "distinct (map ar_cid rs)"
    and "\<forall>r \<in> set rs. ar_cid r \<noteq> [] \<and> b64_decode F (b64_encode F (ar_cid r)) = Some (ar_cid r)"
    and "\<forall>l. dq_limit q = Some l \<longrightarrow> 1 \<le> l" and "length rs - k < length calls"
  shows "\<exists>pages. follow_pages X F q calls = Some pages \<and> concat (map pg_items pages) = drop k rs"
  using assms(1,2,5,6)
proof (induction calls arbitrary: q k)
  case (Cons call calls)
  obtain now db i where call: "call = (now, db, i)" by (cases call) auto
  let ?l = "case dq_limit q of Some l \<Rightarrow> l | None \<Rightarrow> 50"
  have page: "query_account_delegations X F now db i q = Inr \<lparr>pg_schema_version = 2, pg_items = take ?l (drop k rs),
    pg_next_cursor = (if length rs - k > ?l then Some (encode_cursor F (ar_cid (rs ! (k + (?l - 1))))) else None)\<rparr>"
    using Cons.prems(1) page_after_at [OF Cons.prems(2) assms(3,4)] by (simp add: query_listing call)
  have l: "1 \<le> ?l" using Cons.prems(3) by (auto split: option.splits)
  show ?case
  proof (cases "length rs - k > ?l")
    case False
    with page call show ?thesis by simp
  next
    case True
    let ?q = "q\<lparr>dq_cursor := Some (encode_cursor F (ar_cid (rs ! (k + (?l - 1)))))\<rparr>"
    have same: "\<forall>call \<in> set calls. account_listing X F ?q call = Inr rs"
      using Cons.prems(1) by (simp add: account_listing_cursor)
    have "k + (?l - 1) = (k + ?l) - 1" using l by simp
    then have "starts_at F ?q rs (k + ?l)" using True l by (simp add: starts_at_def)
    moreover have "length rs - (k + ?l) < length calls" using Cons.prems(4) True l by simp
    moreover have "\<forall>l. dq_limit ?q = Some l \<longrightarrow> 1 \<le> l" using Cons.prems(3) by simp
    ultimately obtain pages where
      "follow_pages X F ?q calls = Some pages" "concat (map pg_items pages) = drop (k + ?l) rs"
      using Cons.IH [OF same, of "k + ?l"] by blast
    moreover have "take ?l (drop k rs) @ drop (k + ?l) rs = drop k rs"
      by (metis append_take_drop_id drop_drop add.commute)
    ultimately show ?thesis using page True call by auto
  qed
qed simp

definition called_db :: "account_call \<Rightarrow> database" where
  "called_db call = fst (snd call)"

text \<open>
  Delegations are not renamed, redated or given twice while the client walks: identifiers are unique
  in every database it meets, and a CID names the same row in all of them.
\<close>

definition steady_calls :: "externals \<Rightarrow> account_call list \<Rightarrow> bool" where
  "steady_calls X calls \<longleftrightarrow>
     (\<forall>call \<in> set calls. ids_ok (called_db call)) \<and>
     (\<forall>call \<in> set calls. \<forall>call' \<in> set calls.
        \<forall>d \<in> set (delegations (called_db call)). \<forall>d' \<in> set (delegations (called_db call')).
          cid_text X (d_id d) = cid_text X (d_id d') \<longrightarrow> d = d')"

lemma steady_rows:
  assumes "steady_calls X calls" and "call \<in> set calls" and "call' \<in> set calls"
    and "d \<in> set (delegations (called_db call))" and "d' \<in> set (delegations (called_db call'))"
    and "cid_text X (d_id d) = cid_text X (d_id d')"
  shows "d = d'"
  using assms unfolding steady_calls_def by blast

text \<open>The date and the CID of a record are those of its row, so its place in the order is too.\<close>

lemma account_records_dated:
  assumes "account_records X F q now db dids = Inr rs" and "r \<in> set rs"
  obtains d where "d \<in> set (delegations db)" "ar_cid r = cid_text X (d_id d)" "ar_issued_at r = d_issued_at d"
proof -
  from assms obtain st os where
    os: "try_map (account_record X F q now dids st) (map (\<lambda>d. (d, abilities_of db (d_id d))) (account_rows db dids)) = Inr os"
    and r: "Some r \<in> set os"
    by (auto simp: account_records_def Let_def rbind_eq_Inr set_map_filter)
  from try_map_Inr_set [OF os r] obtain d where d: "d \<in> set (account_rows db dids)"
    and r: "account_record X F q now dids st (d, abilities_of db (d_id d)) = Inr (Some r)" by auto
  from r have "ar_cid r = cid_text X (d_id d)" "ar_issued_at r = d_issued_at d"
    by (auto simp: account_record_def Let_def rbind_eq_Inr split: if_splits)
  with d that show ?thesis by (auto simp: account_rows_def)
qed

text \<open>\<open>r\<close> is one of the records that \<open>call\<close> selects.\<close>

definition selects :: "externals \<Rightarrow> text_formats \<Rightarrow> DelegationQuery \<Rightarrow> account_call \<Rightarrow> AccountDelegationRecord \<Rightarrow> bool" where
  "selects X F q call r \<longleftrightarrow> (\<exists>rs. account_listing X F q call = Inr rs \<and> r \<in> set rs)"

lemma steady_order:
  assumes "steady_calls X calls" and "call \<in> set calls" "selects X F q call r"
    and "call' \<in> set calls" "selects X F q call' r'" and "ar_cid r = ar_cid r'"
  shows "record_order r = record_order r'"
proof -
  obtain now db i where call: "call = (now, db, i)" by (cases call) auto
  obtain now' db' i' where call': "call' = (now', db', i')" by (cases call') auto
  from assms(3) obtain d where d: "d \<in> set (delegations db)" "ar_cid r = cid_text X (d_id d)" "ar_issued_at r = d_issued_at d"
    unfolding selects_def call by (metis account_listing_records account_records_dated)
  from assms(5) obtain d' where d': "d' \<in> set (delegations db')" "ar_cid r' = cid_text X (d_id d')" "ar_issued_at r' = d_issued_at d'"
    unfolding selects_def call' by (metis account_listing_records account_records_dated)
  have "d = d'"
    using steady_rows [OF assms(1,2,4)] d d' assms(6) by (simp add: call call' called_db_def)
  with d d' assms(6) show ?thesis by (simp add: record_order_def)
qed

lemma listing_strict:
  assumes "account_listing X F q (now, db, i) = Inr rs" and "steady_calls X calls" and "(now, db, i) \<in> set calls"
  shows "sorted_wrt (<) (map record_order rs)"
proof -
  from assms(1) obtain dids where rs: "account_records X F q now db dids = Inr rs" by (rule account_listing_records)
  from assms(2,3) have ids: "ids_ok db" by (force simp: steady_calls_def called_db_def)
  have "inj_on (cid_text X) (d_id ` set (delegations db))"
    using steady_rows [OF assms(2,3,3)] by (auto simp: inj_on_def called_db_def)
  from account_records_distinct [OF rs ids this] have "distinct (map ar_cid rs)" .
  then have "distinct (map record_order rs)" by (auto simp: distinct_map inj_on_def record_order_def)
  moreover have "sorted (map record_order rs)" using rs by (auto simp: account_records_def Let_def rbind_eq_Inr)
  ultimately show ?thesis by (simp add: strict_sorted_iff)
qed

text \<open>A page holds the first records that come after the cursor in the order of the listing.\<close>

lemma drop_strict:
  "sorted_wrt (<) (map f rs) \<Longrightarrow> n < length rs \<Longrightarrow> drop (Suc n) rs = filter (\<lambda>r. (f (rs ! n) :: 'o :: linorder) < f r) rs"
proof (induction rs arbitrary: n)
  case (Cons r rs)
  show ?case
  proof (cases n)
    case 0
    from Cons.prems(1) have "\<forall>x \<in> set rs. f r < f x" by auto
    then have "filter (\<lambda>x. f r < f x) rs = rs" by (rule filter_True)
    with 0 show ?thesis by simp
  next
    case (Suc m)
    with Cons.prems have "f r < f (rs ! m)" by simp
    then have "\<not> f (rs ! m) < f r" by simp
    with Suc Cons show ?thesis by simp
  qed
qed simp

fun beyond :: "AccountDelegationRecord option \<Rightarrow> AccountDelegationRecord \<Rightarrow> bool" where
  "beyond None r = True"
| "beyond (Some b) r = (record_order b < record_order r)"

lemma position_of_Some: "position_of c rs = Some n \<Longrightarrow> n < length rs \<and> ar_cid (rs ! n) = c"
proof (induction rs arbitrary: n)
  case (Cons r rs)
  then show ?case by (auto split: if_splits)
qed simp

lemma page_beyond:
  assumes "page_after F q rs = Inr pg" and "sorted_wrt (<) (map record_order rs)"
    and "dq_cursor q = map_option (\<lambda>b. encode_cursor F (ar_cid b)) cur"
    and "\<forall>b. cur = Some b \<longrightarrow> b64_decode F (b64_encode F (ar_cid b)) = Some (ar_cid b)"
    and "\<forall>b r. cur = Some b \<longrightarrow> r \<in> set rs \<longrightarrow> ar_cid r = ar_cid b \<longrightarrow> record_order r = record_order b"
  defines "l \<equiv> (case dq_limit q of Some l \<Rightarrow> l | None \<Rightarrow> 50)" and "ys \<equiv> filter (beyond cur) rs"
  shows "pg_items pg = take l ys" and
    "pg_next_cursor pg = (if length ys > l then Some (encode_cursor F (ar_cid (ys ! (l - 1)))) else None)"
proof -
  have "pg_items pg = take l ys \<and>
    pg_next_cursor pg = (if length ys > l then Some (encode_cursor F (ar_cid (ys ! (l - 1)))) else None)"
  proof (cases cur)
    case None
    with assms(1,3) show ?thesis by (auto simp: page_after_def decoded_cursor_def l_def ys_def Let_def)
  next
    case (Some b)
    with assms(3,4) have "decoded_cursor F q = (if ar_cid b = [] then Inl InvalidCursor else Inr (Some (ar_cid b)))"
      by (simp add: decoded_cursor_def encode_cursor_def)
    with assms(1) have cursor: "decoded_cursor F q = Inr (Some (ar_cid b))"
      by (auto simp: page_after_def split: if_splits)
    with assms(1) obtain n where n: "position_of (ar_cid b) rs = Some n"
      by (cases "position_of (ar_cid b) rs") (auto simp: page_after_def)
    with assms(1) cursor have pg: "pg = \<lparr>pg_schema_version = 2, pg_items = take l (drop (Suc n) rs),
      pg_next_cursor = (if length (drop (Suc n) rs) > l then Some (encode_cursor F (ar_cid (drop (Suc n) rs ! (l - 1)))) else None)\<rparr>"
      by (auto simp: page_after_def l_def Let_def)
    note at = position_of_Some [OF n]
    then have "record_order (rs ! n) = record_order b" using assms(5) Some by auto
    with drop_strict [OF assms(2), of n] at have "drop (Suc n) rs = ys"
      by (simp add: ys_def Some beyond.simps [abs_def])
    with pg show ?thesis by simp
  qed
  then show "pg_items pg = take l ys" and
    "pg_next_cursor pg = (if length ys > l then Some (encode_cursor F (ar_cid (ys ! (l - 1)))) else None)" by auto
qed

text \<open>
  The records a walk returns, whatever changes between its calls: each at most once, in the order of
  the listing, and every one that all the calls select.
\<close>

lemma follow_pages_beyond:
  assumes "steady_calls X every" and "\<forall>s. b64_decode F (b64_encode F s) = Some s"
    and "\<forall>l. dq_limit q = Some l \<longrightarrow> 1 \<le> l"
    and "follow_pages X F q calls = Some pages" and "set calls \<subseteq> set every"
    and "dq_cursor q = map_option (\<lambda>b. encode_cursor F (ar_cid b)) cur"
    and "\<forall>b. cur = Some b \<longrightarrow> (\<exists>call \<in> set every. selects X F q call b)"
  shows "(\<forall>r \<in> set (concat (map pg_items pages)). beyond cur r \<and> (\<exists>call \<in> set every. selects X F q call r)) \<and>
    sorted_wrt (<) (map record_order (concat (map pg_items pages))) \<and>
    (\<forall>c. (\<forall>call \<in> set (take (length pages) calls). \<exists>r. selects X F q call r \<and> ar_cid r = c \<and> beyond cur r) \<longrightarrow>
       c \<in> ar_cid ` set (concat (map pg_items pages)))"
  using assms(3-)
proof (induction calls arbitrary: q cur pages)
  case (Cons call calls)
  obtain now db i where call: "call = (now, db, i)" by (cases call) auto
  have mem: "(now, db, i) \<in> set every" using Cons.prems(3) call by simp
  from Cons.prems(2) obtain pg where query: "query_account_delegations X F now db i q = Inr pg"
    by (auto simp: call split: sum.splits)
  then obtain rs where rs: "account_listing X F q (now, db, i) = Inr rs" and page: "page_after F q rs = Inr pg"
    by (auto simp: query_listing rbind_eq_Inr)
  have sel: "selects X F q (now, db, i) r \<longleftrightarrow> r \<in> set rs" for r using rs by (simp add: selects_def)
  note strict = listing_strict [OF rs assms(1) mem]
  define l where "l = (case dq_limit q of Some l \<Rightarrow> l | None \<Rightarrow> 50)"
  define ys where "ys = filter (beyond cur) rs"
  have l: "1 \<le> l" using Cons.prems(1) by (auto simp: l_def split: option.splits)
  have same: "\<forall>b r. cur = Some b \<longrightarrow> r \<in> set rs \<longrightarrow> ar_cid r = ar_cid b \<longrightarrow> record_order r = record_order b"
    using Cons.prems(5) steady_order [OF assms(1) mem] sel by metis
  have items: "pg_items pg = take l ys"
    and next_cursor: "pg_next_cursor pg = (if length ys > l then Some (encode_cursor F (ar_cid (ys ! (l - 1)))) else None)"
    using page_beyond [OF page strict Cons.prems(4) _ same] assms(2) by (simp_all add: l_def ys_def)
  have sorted: "sorted_wrt (<) (map record_order ys)"
    using strict by (simp add: ys_def sorted_wrt_map sorted_wrt_filter)
  have ys: "r \<in> set ys \<longleftrightarrow> beyond cur r \<and> selects X F q (now, db, i) r" for r by (auto simp: ys_def sel)
  show ?case
  proof (cases "length ys > l")
    case False
    with Cons.prems(2) query items next_cursor have pages: "pages = [pg]" "pg_items pg = ys" by (simp_all add: call)
    with sorted ys mem show ?thesis by (auto simp: call image_iff)
  next
    case True
    define b where "b = ys ! (l - 1)"
    let ?q = "q\<lparr>dq_cursor := Some (encode_cursor F (ar_cid b))\<rparr>"
    from True Cons.prems(2) query next_cursor obtain more where
      more: "follow_pages X F ?q calls = Some more" and pages: "pages = pg # more" by (auto simp: call b_def)
    have selq: "selects X F ?q = selects X F q" by (intro ext) (simp add: selects_def account_listing_cursor)
    have b: "b \<in> set ys" using True l by (simp add: b_def)
    have IH: "(\<forall>r \<in> set (concat (map pg_items more)). record_order b < record_order r \<and> (\<exists>call \<in> set every. selects X F q call r)) \<and>
      sorted_wrt (<) (map record_order (concat (map pg_items more))) \<and>
      (\<forall>c. (\<forall>call \<in> set (take (length more) calls). \<exists>r. selects X F q call r \<and> ar_cid r = c \<and> record_order b < record_order r) \<longrightarrow>
         c \<in> ar_cid ` set (concat (map pg_items more)))"
      using Cons.IH [of ?q more "Some b"] Cons.prems(1,3) more b ys mem unfolding selq by auto
    have up_to: "record_order r \<le> record_order b" if "r \<in> set (take l ys)" for r
    proof -
      from that obtain j where "j < l" "r = ys ! j" by (auto simp: in_set_conv_nth)
      moreover have "record_order (ys ! j) < record_order (ys ! (l - 1))" if "j < l - 1"
        using that True sorted sorted_wrt_nth_less [of "\<lambda>x y. record_order x < record_order y" ys j "l - 1"]
        by (simp add: sorted_wrt_map)
      moreover have "j < l - 1 \<or> j = l - 1" using \<open>j < l\<close> by linarith
      ultimately show ?thesis unfolding b_def by (auto intro: less_imp_le)
    qed
    have above: "record_order b < record_order r" if "r \<in> set (drop l ys)" for r
    proof -
      from that obtain j where "j < length ys - l" "r = ys ! (l + j)" by (auto simp: in_set_conv_nth)
      with sorted l sorted_wrt_nth_less [of "\<lambda>x y. record_order x < record_order y" ys "l - 1" "l + j"]
      show ?thesis unfolding b_def by (simp add: sorted_wrt_map)
    qed
    have taken: "sorted_wrt (<) (map record_order (take l ys))"
      using sorted by (simp add: sorted_wrt_map sorted_wrt_take)
    have "beyond cur r" if "record_order b < record_order r" for r
      using that b ys [of b] by (cases cur) auto
    then have 1: "\<forall>r \<in> set (concat (map pg_items pages)). beyond cur r \<and> (\<exists>call \<in> set every. selects X F q call r)"
      using IH ys mem in_set_takeD [of _ l ys] unfolding pages by (auto simp: items)
    have 2: "sorted_wrt (<) (map record_order (concat (map pg_items pages)))"
      using IH taken up_to unfolding pages by (auto simp: items sorted_wrt_append intro: le_less_trans)
    have "c \<in> ar_cid ` set (concat (map pg_items pages))"
      if c: "\<forall>call \<in> set (take (length pages) (call # calls)). \<exists>r. selects X F q call r \<and> ar_cid r = c \<and> beyond cur r" for c
    proof -
      from c pages call obtain r where r: "selects X F q (now, db, i) r" "ar_cid r = c" "beyond cur r" by auto
      then have "r \<in> set (take l ys) \<union> set (drop l ys)" using ys by (metis append_take_drop_id set_append)
      then show ?thesis
      proof
        assume "r \<in> set (take l ys)"
        with r(2) show ?thesis unfolding pages by (auto simp: items)
      next
        assume "r \<in> set (drop l ys)"
        then have "record_order b < record_order r" by (rule above)
        moreover have "record_order r' = record_order r"
          if "call' \<in> set (take (length more) calls)" "selects X F q call' r'" "ar_cid r' = c" for call' r'
        proof -
          have "call' \<in> set every" using that(1) Cons.prems(3) by (auto dest: in_set_takeD)
          from steady_order [OF assms(1) this that(2) mem r(1)] that(3) r(2) show ?thesis by simp
        qed
        moreover have "\<forall>call \<in> set (take (length more) calls). \<exists>r. selects X F q call r \<and> ar_cid r = c \<and> beyond cur r"
          using c by (simp add: pages)
        ultimately have "\<forall>call \<in> set (take (length more) calls). \<exists>r. selects X F q call r \<and> ar_cid r = c \<and> record_order b < record_order r"
          by metis
        with IH have "c \<in> ar_cid ` set (concat (map pg_items more))" by blast
        then show ?thesis unfolding pages by (auto simp: image_Un)
      qed
    qed
    with 1 2 show ?thesis by blast
  qed
qed simp

lemma distinct_cids:
  assumes "distinct (map record_order rs)"
    and "\<And>r r'. r \<in> set rs \<Longrightarrow> r' \<in> set rs \<Longrightarrow> ar_cid r = ar_cid r' \<Longrightarrow> record_order r = record_order r'"
  shows "distinct (map ar_cid rs)"
  using assms unfolding distinct_map inj_on_def by blast

end
