(* ===== verification/Account_Properties.thy ===== *)
theory Account_Properties
  imports Account_Queries Sample_Node
begin

text \<open>
  What the holder of an account can rely on when listing its delegations.
\<close>

section \<open>An account to exercise them\<close>

definition plain_formats :: text_formats where
  "plain_formats = \<lparr>b64_encode = (\<lambda>s. s), b64_decode = Some, caveats_json = (\<lambda>_. [])\<rparr>"

definition any_query :: DelegationQuery where
  "any_query = \<lparr>dq_direction = AllDirections, dq_status = None, dq_space = None, dq_limit = Some 1, dq_cursor = None\<rparr>"

definition sample_account :: string where
  "sample_account = ''did:pkh:sol:a''"

definition list_cap :: capability where
  "list_cap = \<lparr>cap_resource = TinyCloud (ResourceId (SpaceId sample_account ''s'') ''delegation'' None None None),
     cap_ability = ''tinycloud.delegation/list'', cap_caveats = []\<rparr>"

definition account_db :: database where
  "account_db = empty_db\<lparr>delegations := [sample_row ''s1'' sample_account first_did 100, sample_row ''x'' ''did:key:x'' ''did:key:y'' 100],
     abilities := [sample_ability ''s1'' list_cap]\<rparr>"

definition list_invocation :: InvocationInfo where
  "list_invocation = sample_write\<lparr>ii_capabilities := [list_cap], ii_invoker := first_did, ii_parents := [raw_cid ''s1'']\<rparr>"

text \<open>The account has two delegations at the first call, and two more at the later ones.\<close>

definition first_listing :: database where
  "first_listing = account_db\<lparr>delegations := sample_row ''s2'' sample_account second_did 100 # delegations account_db\<rparr>"

definition later_listing :: database where
  "later_listing = first_listing\<lparr>delegations :=
     [sample_row ''s0'' sample_account second_did 100, sample_row ''s3'' sample_account second_did 100] @ delegations first_listing\<rparr>"

definition walk_calls :: "account_call list" where
  "walk_calls = [(10, first_listing, list_invocation), (11, later_listing, list_invocation), (12, later_listing, list_invocation)]"

section \<open>Properties\<close>

text \<open>C17: Reported status. Every record of an account query is a delegation from or to the account or one
  of its sessions, and its status is exact: revoked, below a revoked delegation, below one that is
  expired, below one that is not valid yet, or active when nothing it descends from is.\<close>

theorem reported_status_exact:
  assumes "reachable X db" and "account_records X F q now db dids = Inr rs" and "r \<in> set rs"
  shows "\<exists>d \<in> set (delegations db). (delegator d \<in> set dids \<or> delegatee d \<in> set dids) \<and>
    ar_cid r = cid_text X (d_id d) \<and> ar_delegator_did r = delegator d \<and> ar_delegate_did r = delegatee d \<and>
    ar_status r = status_of db now (d_id d) \<and> status_matches (dq_status q) (ar_status r)"
  using account_records_ok [OF assms(2,3) reachable_ids_ok [OF assms(1)]] .

theorem reported_status_exact_witness:
  "\<exists>d \<in> set (delegations sample_db4). ''d2'' = cid_text sample_ext (d_id d) \<and>
     ''ancestor_revoked'' = status_of sample_db4 10 (d_id d)"
proof -
  have "is_ok (account_records sample_ext plain_formats any_query 10 sample_db4 [first_did])" by code_simp
  then obtain rs where rs: "account_records sample_ext plain_formats any_query 10 sample_db4 [first_did] = Inr rs"
    by (auto simp: is_ok_iff)
  have "list_ex (\<lambda>r. ar_cid r = ''d2'' \<and> ar_status r = ''ancestor_revoked'')
    (projr (account_records sample_ext plain_formats any_query 10 sample_db4 [first_did]))" by code_simp
  with rs obtain r where r: "r \<in> set rs" "ar_cid r = ''d2''" "ar_status r = ''ancestor_revoked''"
    by (auto simp: list_ex_iff)
  from reported_status_exact [OF sample_reachable(5) rs r(1)] r show ?thesis by metis
qed

text \<open>C18: Account privacy. A query that is answered was authorised for an account, and shows only
  delegations from or to that account and at most 255 session keys, each reached from the account
  over delegations of the right to list it.\<close>

theorem account_query_private:
  assumes "query_account_delegations X F now db i q = Inr pg"
  shows "verify_and_authorize X db now i = Inr () \<and>
    (\<exists>account dids. account_query_principal X db i = Inr (Some account) \<and>
       account_session_dids X db account = Inr dids \<and> length dids \<le> 256 \<and>
       set dids \<subseteq> (session_rel X db account)\<^sup>* `` {account} \<and>
       (\<forall>r \<in> set (pg_items pg). \<exists>d \<in> set (delegations db). ar_cid r = cid_text X (d_id d) \<and>
          (delegator d \<in> set dids \<or> delegatee d \<in> set dids)))"
proof -
  from assms obtain account dids rs where auth: "verify_and_authorize X db now i = Inr ()"
    and account: "account_query_principal X db i = Inr (Some account)"
    and dids: "account_session_dids X db account = Inr dids"
    and rs: "account_records X F q now db dids = Inr rs" and page: "page_after F q rs = Inr pg"
    by (auto simp: query_account_delegations_def rbind_eq_Inr)
  from page_items_subset [OF page] have "\<forall>r \<in> set (pg_items pg). \<exists>d \<in> set (delegations db). ar_cid r = cid_text X (d_id d) \<and>
      (delegator d \<in> set dids \<or> delegatee d \<in> set dids)"
    by (auto elim!: account_records_rows [OF rs subsetD] simp: account_rows_def)
  with auth account dids account_session_dids_ok [OF dids] show ?thesis
    by (auto simp: sessions_ok_def MAX_ACCOUNT_SESSION_NODES_def)
qed

theorem account_query_private_witness:
  "\<exists>pg account dids. query_account_delegations sample_ext plain_formats 10 account_db list_invocation any_query = Inr pg \<and>
     pg_items pg \<noteq> [] \<and> account_query_principal sample_ext account_db list_invocation = Inr (Some account) \<and>
     account_session_dids sample_ext account_db account = Inr dids \<and> length dids \<le> 256"
proof -
  let ?run = "query_account_delegations sample_ext plain_formats 10 account_db list_invocation any_query"
  have "is_ok ?run" and items: "pg_items (projr ?run) \<noteq> []" by code_simp+
  then obtain pg where pg: "?run = Inr pg" by (auto simp: is_ok_iff)
  with items account_query_private [OF pg] show ?thesis by auto
qed

text \<open>C19: Pages neither repeat nor skip. A client starts without a cursor and follows the cursors it is
  given; each call reads the clock, the sessions and the database anew. When no call of the walk
  fails, no delegation is returned twice, the pages are in the order of the listing, only
  delegations some call selected are returned, and every delegation that all calls selected is
  returned. Between the calls the delegations, the sessions, the clock and with it the status of a
  record may change; a stored delegation keeps its identifier and its row.\<close>

theorem pages_exact:
  assumes "follow_pages X F q calls = Some pages" and "steady_calls X calls"
    and "\<forall>s. b64_decode F (b64_encode F s) = Some s"
    and "query_validate F q = Inr ()" and "dq_cursor q = None"
  shows "distinct (map ar_cid (concat (map pg_items pages))) \<and>
    sorted (map record_order (concat (map pg_items pages))) \<and>
    (\<forall>r \<in> set (concat (map pg_items pages)). \<exists>call \<in> set calls. selects X F q call r) \<and>
    (\<forall>c. (\<forall>call \<in> set (take (length pages) calls). \<exists>r. selects X F q call r \<and> ar_cid r = c) \<longrightarrow>
       c \<in> ar_cid ` set (concat (map pg_items pages)))"
proof -
  let ?items = "concat (map pg_items pages)"
  have limit: "\<forall>l. dq_limit q = Some l \<longrightarrow> 1 \<le> l"
    using assms(4) by (auto simp: query_validate_def split: if_splits)
  have "dq_cursor q = map_option (\<lambda>b. encode_cursor F (ar_cid b)) None" using assms(5) by simp
  note walk = follow_pages_beyond [OF assms(2,3) limit assms(1) subset_refl this, simplified]
  then have strict: "sorted_wrt (<) (map record_order ?items)" by simp
  then have "distinct (map record_order ?items)" by (simp add: strict_sorted_iff)
  moreover have "record_order r = record_order r'" if "r \<in> set ?items" "r' \<in> set ?items" "ar_cid r = ar_cid r'" for r r'
  proof -
    have "\<forall>r \<in> set ?items. \<exists>call \<in> set calls. selects X F q call r" using walk by auto
    with that(1,2) obtain call call' where "call \<in> set calls" "selects X F q call r"
      "call' \<in> set calls" "selects X F q call' r'" by meson
    with that(3) show ?thesis by (intro steady_order [OF assms(2)])
  qed
  ultimately have "distinct (map ar_cid ?items)" by (rule distinct_cids)
  with walk strict show ?thesis by (simp add: strict_sorted_iff)
qed

theorem pages_exact_witness:
  "\<exists>pages. follow_pages sample_ext plain_formats any_query walk_calls = Some pages \<and>
     map (map ar_cid \<circ> pg_items) pages = [[''s1''], [''s2''], [''s3'']] \<and>
     distinct (map ar_cid (concat (map pg_items pages)))"
proof -
  let ?run = "follow_pages sample_ext plain_formats any_query walk_calls"
  have run: "map_option (map (map ar_cid \<circ> pg_items)) ?run = Some [[''s1''], [''s2''], [''s3'']]" by code_simp
  then obtain pages where pages: "?run = Some pages" by auto
  have steady: "steady_calls sample_ext walk_calls" by code_simp
  have valid: "query_validate plain_formats any_query = Inr ()" by code_simp
  show ?thesis
    using pages_exact [OF pages steady _ valid] run pages by (simp add: plain_formats_def any_query_def)
qed

text \<open>C20: Pages end. While every call of the walk selects the same records, the walk needs at most one
  call more than there are records, none of its calls fails, and its pages put together are the
  whole listing.\<close>

theorem pages_complete:
  assumes "\<forall>call \<in> set calls. account_listing X F q call = Inr rs" and "length rs < length calls"
    and "steady_calls X calls" and "\<forall>call \<in> set calls. \<forall>d \<in> set (delegations (called_db call)). cid_text X (d_id d) \<noteq> []"
    and "\<forall>s. b64_decode F (b64_encode F s) = Some s"
    and "query_validate F q = Inr ()" and "dq_cursor q = None"
  shows "\<exists>pages. follow_pages X F q calls = Some pages \<and> concat (map pg_items pages) = rs"
proof -
  from assms(2) obtain now db i where call: "(now, db, i) \<in> set calls" by (cases calls) auto
  with assms(1) have rs: "account_listing X F q (now, db, i) = Inr rs" by blast
  have "distinct (map record_order rs)"
    using listing_strict [OF rs assms(3) call] by (simp add: strict_sorted_iff)
  moreover have "record_order r = record_order r'" if "r \<in> set rs" "r' \<in> set rs" "ar_cid r = ar_cid r'" for r r'
    using that rs by (intro steady_order [OF assms(3) call _ call]) (auto simp: selects_def)
  ultimately have cids: "distinct (map ar_cid rs)" by (rule distinct_cids)
  have texts: "\<forall>r \<in> set rs. ar_cid r \<noteq> [] \<and> b64_decode F (b64_encode F (ar_cid r)) = Some (ar_cid r)"
  proof
    fix r assume "r \<in> set rs"
    from rs obtain dids where "account_records X F q now db dids = Inr rs" by (rule account_listing_records)
    then obtain d where "d \<in> set (delegations db)" "ar_cid r = cid_text X (d_id d)"
      using \<open>r \<in> set rs\<close> by (rule account_records_dated)
    with assms(4,5) call show "ar_cid r \<noteq> [] \<and> b64_decode F (b64_encode F (ar_cid r)) = Some (ar_cid r)"
      by (force simp: called_db_def)
  qed
  have limit: "\<forall>l. dq_limit q = Some l \<longrightarrow> 1 \<le> l"
    using assms(6) by (auto simp: query_validate_def split: if_splits)
  have "starts_at F q rs 0" using assms(7) by (simp add: starts_at_def)
  from follow_pages_all [OF assms(1) this cids texts limit] assms(2) show ?thesis by simp
qed

theorem pages_complete_witness:
  "\<exists>rs pages. account_listing sample_ext plain_formats any_query (10, first_listing, list_invocation) = Inr rs \<and>
     1 < length rs \<and>
     follow_pages sample_ext plain_formats any_query (replicate 3 (10, first_listing, list_invocation)) = Some pages \<and>
     concat (map pg_items pages) = rs"
proof -
  let ?run = "account_listing sample_ext plain_formats any_query (10, first_listing, list_invocation)"
  let ?calls = "replicate 3 (10, first_listing, list_invocation)"
  have "is_ok ?run" and two: "length (projr ?run) = 2" by code_simp+
  then obtain rs where rs: "?run = Inr rs" by (auto simp: is_ok_iff)
  have steady: "steady_calls sample_ext ?calls" by code_simp
  have texts: "\<forall>call \<in> set ?calls. \<forall>d \<in> set (delegations (called_db call)). cid_text sample_ext (d_id d) \<noteq> []"
    by code_simp
  have valid: "query_validate plain_formats any_query = Inr ()" by code_simp
  have same: "\<forall>call \<in> set ?calls. account_listing sample_ext plain_formats any_query call = Inr rs"
    using rs by simp
  show ?thesis
    using pages_complete [OF same _ steady texts _ valid] rs two by (simp add: plain_formats_def any_query_def)
qed

end
