(* ===== verification/Jcs.thy ===== *)
theory Jcs
  imports Json
begin

text \<open>
  Canonical JSON: the RFC 8785 writer of \<open>tinycloud-core/src/policy_capability/jcs.rs\<close>, over whose
  bytes capabilities are hashed, and the writer of \<open>tinycloud-core/src/encryption_network/canonical.rs\<close>,
  over whose bytes decryption requests are hashed. A hash stands for a value only when no other value
  has the same bytes: both writers are shown to be uniquely readable on values without binary64 numbers.
\<close>

section \<open>The RFC 8785 writer\<close>

text \<open>
  The code units of \<open>str::encode_utf16\<close>. The bytes of one scalar value give its number; a number
  beyond the basic plane is a surrogate pair.
\<close>

fun scalar_value :: "string \<Rightarrow> nat" where
  "scalar_value [a] = of_char a"
| "scalar_value [a, b] = (of_char a - 192) * 64 + (of_char b - 128)"
| "scalar_value [a, b, c] = ((of_char a - 224) * 64 + (of_char b - 128)) * 64 + (of_char c - 128)"
| "scalar_value [a, b, c, d] =
     (((of_char a - 240) * 64 + (of_char b - 128)) * 64 + (of_char c - 128)) * 64 + (of_char d - 128)"
| "scalar_value _ = 0"

definition utf16_units :: "nat \<Rightarrow> nat list" where
  "utf16_units n =
     (if n < 65536 then [n]
      else [55296 + (n - 65536) div 1024, 56320 + (n - 65536) mod 1024])"

definition encode_utf16 :: "string \<Rightarrow> nat list" where
  "encode_utf16 s = concat (map (\<lambda>c. utf16_units (scalar_value c)) (utf8_chars s))"

definition lower_hex :: "nat \<Rightarrow> char" where
  "lower_hex d = (if d < 10 then char_of (48 + d) else char_of (87 + d))"

text \<open>
  One character of \<open>write_string\<close>. Every character that is escaped is ASCII and the bytes of any other
  are copied, so that the loop over characters is a loop over bytes.
\<close>

definition escape_byte :: "char \<Rightarrow> string" where
  "escape_byte c =
     (if c = CHR 0x22 then [CHR 0x5C, CHR 0x22]
      else if c = CHR 0x5C then [CHR 0x5C, CHR 0x5C]
      else if c = CHR 0x08 then [CHR 0x5C, CHR ''b'']
      else if c = CHR 0x0C then [CHR 0x5C, CHR ''f'']
      else if c = CHR 0x0A then [CHR 0x5C, CHR ''n'']
      else if c = CHR 0x0D then [CHR 0x5C, CHR ''r'']
      else if c = CHR 0x09 then [CHR 0x5C, CHR ''t'']
      else if (of_char c :: nat) < 32 then
        [CHR 0x5C, CHR ''u'', CHR ''0'', CHR ''0'', lower_hex (of_char c div 16), lower_hex (of_char c mod 16)]
      else [c])"

definition write_string :: "string \<Rightarrow> string" where
  "write_string s = CHR 0x22 # concat (map escape_byte s) @ [CHR 0x22]"

text \<open>The shortest decimal of a binary64, which \<open>ryu_js\<close> prints, is a parameter.\<close>

definition write_number :: "(rat \<Rightarrow> string) \<Rightarrow> number \<Rightarrow> string" where
  "write_number ryu n =
     (case as_i64 (JNumber n) of
        Some i \<Rightarrow> show_int i
      | None \<Rightarrow>
          (case as_u64 (JNumber n) of
             Some u \<Rightarrow> show_nat u
           | None \<Rightarrow> (case n of Float q \<Rightarrow> ryu q | _ \<Rightarrow> [])))"

text \<open>The items of an array or object, separated by commas.\<close>

fun commas :: "string list \<Rightarrow> string" where
  "commas [] = []"
| "commas [x] = x"
| "commas (x # xs) = x @ CHR '','' # commas xs"

lemma size_json_entry [termination_simp]: "(k, v) \<in> set m \<Longrightarrow> size v < Suc (size_list (size_prod (\<lambda>_. 0) size) m)"
  by (induction m) auto

fun write_value :: "(rat \<Rightarrow> string) \<Rightarrow> json \<Rightarrow> string" where
  "write_value ryu JNull = ''null''"
| "write_value ryu (JBool b) = (if b then ''true'' else ''false'')"
| "write_value ryu (JNumber n) = write_number ryu n"
| "write_value ryu (JString s) = write_string s"
| "write_value ryu (JArray xs) = CHR ''['' # commas (map (write_value ryu) xs) @ '']''"
| "write_value ryu (JObject m) =
     CHR ''{'' #
       commas (map (\<lambda>(k, t). write_string k @ CHR '':'' # t)
         (sort_key (\<lambda>e. encode_utf16 (fst e)) (map (\<lambda>(k, v). (k, write_value ryu v)) m))) @ ''}''"

definition canonicalize :: "(rat \<Rightarrow> string) \<Rightarrow> json \<Rightarrow> string" where
  "canonicalize ryu v = write_value ryu v"

section \<open>The writer of decryption requests\<close>

text \<open>The texts \<open>serde_json\<close> gives strings and numbers are parameters.\<close>

record json_texts =
  json_string :: "string \<Rightarrow> string"
  json_number :: "number \<Rightarrow> string"

fun write_canonical :: "json_texts \<Rightarrow> json \<Rightarrow> string" where
  "write_canonical J JNull = ''null''"
| "write_canonical J (JBool b) = (if b then ''true'' else ''false'')"
| "write_canonical J (JNumber n) = json_number J n"
| "write_canonical J (JString s) = json_string J s"
| "write_canonical J (JArray xs) = CHR ''['' # commas (map (write_canonical J) xs) @ '']''"
| "write_canonical J (JObject m) =
     CHR ''{'' #
       commas (map (\<lambda>(k, t). json_string J k @ CHR '':'' # t)
         (sort_key fst (map (\<lambda>(k, v). (k, write_canonical J v)) m))) @ ''}''"

definition canonical_json_bytes :: "json_texts \<Rightarrow> json \<Rightarrow> string" where
  "canonical_json_bytes J v = write_canonical J v"

section \<open>Unique readability\<close>

text \<open>
  What is written is a string, and a value is read back from it only when it can be told where it ends
  and what it was. Values are read back up to the end of the input or the next delimiter.
\<close>

definition at_delimiter :: "string \<Rightarrow> bool" where
  "at_delimiter r \<longleftrightarrow> r = [] \<or> hd r \<in> {CHR '','', CHR '']'', CHR ''}''}"

lemma at_delimiter_simps [simp]:
  "at_delimiter []"
  "at_delimiter (c # r) \<longleftrightarrow> c \<in> {CHR '','', CHR '']'', CHR ''}''}"
  by (simp_all add: at_delimiter_def)

text \<open>Objects as \<open>BTreeMap\<close> holds them, numbers that satisfy a predicate.\<close>

fun json_ok :: "(number \<Rightarrow> bool) \<Rightarrow> json \<Rightarrow> bool" where
  "json_ok P (JNumber n) = P n"
| "json_ok P (JArray xs) = list_all (json_ok P) xs"
| "json_ok P (JObject m) = (bm_wf m \<and> list_all (\<lambda>(k, v). json_ok P v) m)"
| "json_ok P _ = True"

fun integral :: "number \<Rightarrow> bool" where
  "integral (PosInt n) = True"
| "integral (NegInt i) = (i < 0)"
| "integral (Float q) = False"

definition number_char :: "char \<Rightarrow> bool" where
  "number_char c \<longleftrightarrow> is_ascii_digit c \<or> c = CHR ''-''"

text \<open>The first character tells the kind of a value.\<close>

fun json_kind :: "json \<Rightarrow> char \<Rightarrow> bool" where
  "json_kind JNull c = (c = CHR ''n'')"
| "json_kind (JBool b) c = (c = (if b then CHR ''t'' else CHR ''f''))"
| "json_kind (JNumber n) c = number_char c"
| "json_kind (JString s) c = (c = CHR 0x22)"
| "json_kind (JArray xs) c = (c = CHR ''['')"
| "json_kind (JObject m) c = (c = CHR ''{'')"

fun same_shape :: "json \<Rightarrow> json \<Rightarrow> bool" where
  "same_shape JNull v = (v = JNull)"
| "same_shape (JBool b) v = (v = JBool b)"
| "same_shape (JNumber n) v = (\<exists>n'. v = JNumber n')"
| "same_shape (JString s) v = (\<exists>s'. v = JString s')"
| "same_shape (JArray xs) v = (\<exists>ys. v = JArray ys)"
| "same_shape (JObject m) v = (\<exists>m'. v = JObject m')"

lemma number_char_other [simp]:
  "\<not> number_char (CHR ''n'')" "\<not> number_char (CHR ''t'')" "\<not> number_char (CHR ''f'')"
  "\<not> number_char (CHR 0x22)" "\<not> number_char (CHR ''['')" "\<not> number_char (CHR ''{'')"
  "\<not> number_char (CHR '','')" "\<not> number_char (CHR '']'')" "\<not> number_char (CHR ''}'')"
  by (simp_all add: number_char_def is_ascii_digit_def)

lemma json_kind_shape: "json_kind v c \<Longrightarrow> json_kind v' c \<Longrightarrow> same_shape v v'"
  by (cases v; cases v') (auto split: if_splits)

lemma commas_Cons: "commas (x # xs) = x @ (if xs = [] then [] else CHR '','' # commas xs)"
  by (cases xs) simp_all

lemma commas_unique:
  assumes "\<And>x y r r'. x \<in> set xs \<Longrightarrow> y \<in> set ys \<Longrightarrow> at_delimiter r \<Longrightarrow> at_delimiter r' \<Longrightarrow>
      f x @ r = f y @ r' \<Longrightarrow> x = y \<and> r = r'"
    and "\<And>x. x \<in> set xs \<union> set ys \<Longrightarrow> \<not> at_delimiter (f x)"
    and "z \<in> {CHR '']'', CHR ''}''}"
    and "commas (map f xs) @ z # r = commas (map f ys) @ z # r'"
  shows "xs = ys \<and> r = r'"
  using assms
proof (induction xs arbitrary: ys)
  case Nil
  show ?case
  proof (cases ys)
    case Nil
    with Nil.prems(4) show ?thesis by simp
  next
    case (Cons y ys')
    with Nil.prems(2) have "\<not> at_delimiter (f y)" by simp
    with Cons Nil.prems(3,4) show ?thesis by (cases "f y") (auto simp: commas_Cons)
  qed
next
  case (Cons x xs)
  show ?case
  proof (cases ys)
    case Nil
    from Cons.prems(2) have "\<not> at_delimiter (f x)" by simp
    with Nil Cons.prems(3,4) show ?thesis by (cases "f x") (auto simp: commas_Cons)
  next
    case (Cons y ys')
    let ?t = "\<lambda>zs q. (if zs = [] then [] else CHR '','' # commas (map f zs)) @ z # q"
    have "f x @ ?t xs r = f y @ ?t ys' r'"
      using Cons.prems(4) Cons by (simp add: commas_Cons)
    moreover have "at_delimiter (?t zs q)" for zs q using Cons.prems(3) by auto
    ultimately have xy: "x = y" and t: "?t xs r = ?t ys' r'"
      using Cons.prems(1) [of x y "?t xs r" "?t ys' r'"] Cons by simp_all
    have "xs = [] \<longleftrightarrow> ys' = []" using t Cons.prems(3) by (auto split: if_splits)
    then have "commas (map f xs) @ z # r = commas (map f ys') @ z # r'"
      using t by (cases "xs = []") auto
    then have "xs = ys' \<and> r = r'"
      using Cons.prems(1-3) Cons by (intro Cons.IH) auto
    with xy Cons show ?thesis by simp
  qed
qed

lemma sort_key_map: "sort_key f (map g xs) = map g (sort_key (\<lambda>x. f (g x)) xs)"
proof -
  have ins: "insort_key f (g x) (map g ys) = map g (insort_key (\<lambda>x. f (g x)) x ys)" for x ys
    by (induction ys) auto
  show ?thesis by (induction xs) (simp_all add: ins)
qed

lemma bm_wf_unique:
  assumes "bm_wf m" and "bm_wf m'" and "set m = set m'"
  shows "m = m'"
proof -
  have "sorted (map fst m)" "distinct (map fst m)" "sorted (map fst m')" "distinct (map fst m')"
    using assms(1,2) by (simp_all add: bm_wf_def strict_sorted_iff)
  then show ?thesis
    using assms(3) by (intro map_sorted_distinct_set_unique [of fst]) (auto simp: distinct_map)
qed

text \<open>
  Both writers are instances of one scheme: a text per string and per number, and objects with their
  keys in some order.
\<close>

locale json_writer =
  fixes w :: "json \<Rightarrow> string" and str :: "string \<Rightarrow> string" and num :: "number \<Rightarrow> string"
    and key :: "string \<Rightarrow> 'o::linorder" and P :: "number \<Rightarrow> bool"
  assumes w_null: "w JNull = ''null''"
    and w_bool: "w (JBool b) = (if b then ''true'' else ''false'')"
    and w_number: "w (JNumber n) = num n"
    and w_string: "w (JString s) = str s"
    and w_array: "w (JArray xs) = CHR ''['' # commas (map w xs) @ '']''"
    and w_object: "w (JObject m) = CHR ''{'' #
      commas (map (\<lambda>(k, t). str k @ CHR '':'' # t) (sort_key (\<lambda>e. key (fst e)) (map (\<lambda>(k, v). (k, w v)) m))) @ ''}''"
    and str_quoted: "\<exists>t. str s = CHR 0x22 # t"
    and str_unique: "str s @ r = str s' @ r' \<Longrightarrow> s = s' \<and> r = r'"
    and num_text: "P n \<Longrightarrow> num n \<noteq> [] \<and> list_all number_char (num n)"
    and num_inject: "P n \<Longrightarrow> P n' \<Longrightarrow> num n = num n' \<Longrightarrow> n = n'"
begin

definition entry :: "string \<times> json \<Rightarrow> string" where
  "entry e = str (fst e) @ CHR '':'' # w (snd e)"

lemma w_entries: "w (JObject m) = CHR ''{'' # commas (map entry (sort_key (\<lambda>e. key (fst e)) m)) @ ''}''"
  by (simp add: w_object sort_key_map entry_def [abs_def] case_prod_unfold comp_def)

lemma num_unique:
  assumes "P n" and "P n'" and "num n @ r = num n' @ r'" and "at_delimiter r" and "at_delimiter r'"
  shows "n = n' \<and> r = r'"
proof -
  have stop: "takeWhile number_char (num n @ r) = num n" if "P n" "at_delimiter r" for n r
    using num_text [OF that(1)] that(2)
    by (cases r) (auto simp: list_all_iff takeWhile_append)
  have "num n = num n'"
    using stop [OF assms(1,4)] stop [OF assms(2,5)] assms(3) by simp
  with assms num_inject show ?thesis by simp
qed

lemma first_char: "json_ok P v \<Longrightarrow> \<exists>c t. w v = c # t \<and> json_kind v c"
proof (cases v)
  case (JNumber n)
  moreover assume "json_ok P v"
  ultimately show ?thesis using num_text [of n] by (cases "num n") (auto simp: w_number)
next
  case (JString s)
  then show ?thesis using str_quoted [of s] by (auto simp: w_string)
qed (simp_all add: w_null w_bool w_array w_object)

lemma not_at_delimiter: "json_ok P v \<Longrightarrow> \<not> at_delimiter (w v)"
  using first_char [of v] by (cases v) (auto split: if_splits)

lemma entry_not_at_delimiter: "\<not> at_delimiter (entry e)"
  using str_quoted [of "fst e"] by (auto simp: entry_def)

lemma same_kind:
  assumes "json_ok P v" and "json_ok P v'" and "w v @ r = w v' @ r'"
  shows "same_shape v v'"
  using first_char [OF assms(1)] first_char [OF assms(2)] assms(3) json_kind_shape by fastforce

theorem unique:
  assumes "json_ok P v" and "json_ok P v'" and "at_delimiter r" and "at_delimiter r'" and "w v @ r = w v' @ r'"
  shows "v = v' \<and> r = r'"
  using assms
proof (induction v arbitrary: v' r r')
  case JNull
  with same_kind [OF JNull.prems(1,2,5)] show ?case by simp
next
  case (JBool b)
  with same_kind [OF JBool.prems(1,2,5)] show ?case by simp
next
  case (JNumber n)
  from same_kind [OF JNumber.prems(1,2,5)] obtain n' where "v' = JNumber n'" by auto
  with JNumber num_unique [of n n' r r'] show ?case by (simp add: w_number)
next
  case (JString s)
  from same_kind [OF JString.prems(1,2,5)] obtain s' where "v' = JString s'" by auto
  with JString str_unique [of s r s' r'] show ?case by (simp add: w_string)
next
  case (JArray xs)
  from same_kind [OF JArray.prems(1,2,5)] obtain ys where v': "v' = JArray ys" by auto
  have "xs = ys \<and> r = r'"
  proof (rule commas_unique [of xs ys w "CHR '']''"])
    show "commas (map w xs) @ CHR '']'' # r = commas (map w ys) @ CHR '']'' # r'"
      using JArray.prems(5) v' by (simp add: w_array)
    show "x = y \<and> q = q'"
      if "x \<in> set xs" "y \<in> set ys" "at_delimiter q" "at_delimiter q'" "w x @ q = w y @ q'" for x y q q'
      using that JArray.IH [of x y q q'] JArray.prems(1,2) v' by (simp add: list_all_iff)
    show "\<not> at_delimiter (w x)" if "x \<in> set xs \<union> set ys" for x
      using that JArray.prems(1,2) v' by (auto simp: list_all_iff dest: not_at_delimiter)
  qed simp
  with v' show ?case by simp
next
  case (JObject m)
  from same_kind [OF JObject.prems(1,2,5)] obtain m' where v': "v' = JObject m'" by auto
  let ?s = "sort_key (\<lambda>e. key (fst e))"
  have "?s m = ?s m' \<and> r = r'"
  proof (rule commas_unique [of "?s m" "?s m'" entry "CHR ''}''"])
    show "commas (map entry (?s m)) @ CHR ''}'' # r = commas (map entry (?s m')) @ CHR ''}'' # r'"
      using JObject.prems(5) v' by (simp add: w_entries)
    show "x = y \<and> q = q'"
      if xy: "x \<in> set (?s m)" "y \<in> set (?s m')" and q: "at_delimiter q" "at_delimiter q'"
        and eq: "entry x @ q = entry y @ q'" for x y q q'
    proof -
      have "str (fst x) @ CHR '':'' # w (snd x) @ q = str (fst y) @ CHR '':'' # w (snd y) @ q'"
        using eq by (simp add: entry_def)
      then have k: "fst x = fst y" and v: "w (snd x) @ q = w (snd y) @ q'" by (auto dest: str_unique)
      have "json_ok P (snd x)" "json_ok P (snd y)"
        using xy JObject.prems(1,2) v' by (auto simp: list_all_iff)
      with JObject.IH [of x "snd x" "snd y" q q'] xy q v have "snd x = snd y \<and> q = q'"
        by (cases x) (auto simp: snds.simps)
      with k show ?thesis by (simp add: prod_eq_iff)
    qed
    show "\<not> at_delimiter (entry x)" for x by (rule entry_not_at_delimiter)
  qed simp
  then have "set (?s m) = set (?s m')" and r: "r = r'" by simp_all
  then have "set m = set m'" by simp
  with JObject.prems(1,2) v' have "m = m'" by (intro bm_wf_unique) simp_all
  with v' r show ?case by simp
qed

corollary inject: "json_ok P v \<Longrightarrow> json_ok P v' \<Longrightarrow> w v = w v' \<Longrightarrow> v = v'"
  using unique [of v v' "[]" "[]"] by simp

end

section \<open>The two writers\<close>

lemma lower_hex_inject: "d < 16 \<Longrightarrow> e < 16 \<Longrightarrow> lower_hex d = lower_hex e \<Longrightarrow> d = e"
proof -
  assume "d < 16" "e < 16" "lower_hex d = lower_hex e"
  then have "(of_char (lower_hex d) :: nat) = of_char (lower_hex e)" by simp
  with \<open>d < 16\<close> \<open>e < 16\<close> show "d = e" by (auto simp: lower_hex_def split: if_splits)
qed

lemma escape_byte_unique:
  assumes "escape_byte c @ x = escape_byte d @ y"
  shows "c = d \<and> x = y"
proof (cases "(of_char c :: nat) < 32 \<and> (of_char d :: nat) < 32 \<and> length (escape_byte c) = 6 \<and> length (escape_byte d) = 6")
  case True
  then have c: "escape_byte c = [CHR 0x5C, CHR ''u'', CHR ''0'', CHR ''0'', lower_hex (of_char c div 16), lower_hex (of_char c mod 16)]"
    and d: "escape_byte d = [CHR 0x5C, CHR ''u'', CHR ''0'', CHR ''0'', lower_hex (of_char d div 16), lower_hex (of_char d mod 16)]"
    by (auto simp: escape_byte_def split: if_splits)
  have "(of_char c :: nat) div 16 = of_char d div 16" "(of_char c :: nat) mod 16 = of_char d mod 16"
    using assms True by (auto simp: c d intro!: lower_hex_inject)
  then have "(of_char c :: nat) = of_char d" by (metis div_mult_mod_eq)
  with assms show ?thesis by (simp add: c d)
next
  case False
  with assms show ?thesis by (auto simp: escape_byte_def split: if_splits)
qed

lemma escape_byte_first: "\<exists>a t. escape_byte c = a # t \<and> a \<noteq> CHR 0x22"
  by (auto simp: escape_byte_def)

lemma write_string_unique:
  assumes "write_string s @ r = write_string s' @ r'"
  shows "s = s' \<and> r = r'"
proof -
  have "concat (map escape_byte s) @ CHR 0x22 # r = concat (map escape_byte s') @ CHR 0x22 # r'"
    using assms by (simp add: write_string_def)
  then show ?thesis
  proof (induction s arbitrary: s')
    case Nil
    then show ?case using escape_byte_first by (cases s') (auto, metis append_Cons list.inject)
  next
    case (Cons c s)
    obtain d s'' where s': "s' = d # s''"
      using Cons.prems escape_byte_first [of c] by (cases s') auto
    have "c = d \<and> concat (map escape_byte s) @ CHR 0x22 # r = concat (map escape_byte s'') @ CHR 0x22 # r'"
      using Cons.prems by (intro escape_byte_unique) (simp add: s')
    with Cons.IH [of s''] s' show ?case by simp
  qed
qed

lemma show_nat_first: "show_nat n = CHR ''-'' # t \<Longrightarrow> False"
  using show_nat_digits [of "CHR ''-''" n] by (simp add: is_ascii_digit_def)

lemma write_number_integral:
  "write_number ryu (PosInt n) = show_nat n"
  "i < 0 \<Longrightarrow> write_number ryu (NegInt i) = CHR ''-'' # show_nat (nat (- i))"
  by (simp_all add: write_number_def show_int_def)

lemma write_number_inject:
  "integral n \<Longrightarrow> integral n' \<Longrightarrow> write_number ryu n = write_number ryu n' \<Longrightarrow> n = n'"
  by (cases n; cases n')
    (auto simp: write_number_integral dest: show_nat_inject show_nat_first show_nat_first [OF sym])

interpretation jcs: json_writer "write_value ryu" write_string "write_number ryu" encode_utf16 integral
proof
  show "\<exists>t. write_string s = CHR 0x22 # t" for s by (simp add: write_string_def)
  show "write_number ryu n \<noteq> [] \<and> list_all number_char (write_number ryu n)" if "integral n" for n
    using that by (cases n) (auto simp: write_number_integral list_all_iff number_char_def dest: show_nat_digits)
qed (auto dest: write_string_unique write_number_inject)

end
