(* ===== verification/Policy_Capability.thy ===== *)
theory Policy_Capability
  imports Jcs Sql_Caveat "HOL-Library.Multiset"
begin

text \<open>
  Policy capabilities: \<open>tinycloud-core/src/policy_capability/mod.rs\<close>. A capability is parsed from
  JSON and normalised, hashed over its canonical JSON, and compared with a granted one by
  \<open>policy_contains\<close>. Unicode normalisation, SHA-256 and the text of a binary64 are parameters.
\<close>

section \<open>Data\<close>

record PolicyCapability =
  pc_service :: string
  pc_space :: string
  pc_path :: string
  pc_actions :: "string list"
  pc_caveats :: "json option"

section \<open>Paths\<close>

definition hex_value :: "char \<Rightarrow> nat option" where
  "hex_value c =
     (if is_ascii_digit c then Some (of_char c - 48)
      else if CHR ''a'' \<le> c \<and> c \<le> CHR ''f'' then Some (of_char c - 87)
      else if CHR ''A'' \<le> c \<and> c \<le> CHR ''F'' then Some (of_char c - 55)
      else None)"

definition unreserved :: "char \<Rightarrow> bool" where
  "unreserved c \<longleftrightarrow> is_ascii_alphanumeric c \<or> c \<in> {CHR ''-'', CHR ''.'', CHR ''_'', CHR ''~''}"

text \<open>The character an escape stands for, when it is decoded.\<close>

definition escaped_char :: "char \<Rightarrow> char \<Rightarrow> char option" where
  "escaped_char h l =
     (case (hex_value h, hex_value l) of
        (Some hi, Some lo) \<Rightarrow>
          (let c = char_of (hi * 16 + lo) in if unreserved c then Some c else None)
      | _ \<Rightarrow> None)"

fun percent_decode_unreserved :: "string \<Rightarrow> string" where
  "percent_decode_unreserved (c # h # l # s) =
     (if c = CHR ''%'' then
        (case escaped_char h l of
           Some d \<Rightarrow> d # percent_decode_unreserved s
         | None \<Rightarrow> c # percent_decode_unreserved (h # l # s))
      else c # percent_decode_unreserved (h # l # s))"
| "percent_decode_unreserved s = s"

definition normalize_path :: "(string \<Rightarrow> string) \<Rightarrow> string \<Rightarrow> string \<Rightarrow> (RejectionCode, string) result" where
  "normalize_path nfc service path =
     (let n = nfc (percent_decode_unreserved path)
      in if ''..'' \<in> set (split_char n (CHR ''/'')) then Inl PolicyCapabilityMalformedPath
         else if service = ''tinycloud.sql'' \<and> n = [] then Inl PolicyCapabilityMalformedPath
         else Inr n)"

definition path_contains :: "string \<Rightarrow> string \<Rightarrow> string \<Rightarrow> bool" where
  "path_contains service auth req =
     (if service = ''tinycloud.sql'' then auth = req
      else if auth = req then True
      else if ends_with_char auth (CHR ''/'') then
        (case strip_prefix req auth of Some rest \<Rightarrow> rest \<noteq> [] | None \<Rightarrow> False)
      else False)"

section \<open>Parsing\<close>

definition ALLOWED_KEYS :: "string list" where
  "ALLOWED_KEYS = [''service'', ''space'', ''path'', ''actions'', ''caveats'']"

definition MANIFEST_MARKER_KEYS :: "string list" where
  "MANIFEST_MARKER_KEYS = [''id'', ''scope'', ''type'', ''actions_short'', ''permissions'']"

definition check_key :: "string \<Rightarrow> (RejectionCode, unit) result" where
  "check_key k =
     (if k \<in> set MANIFEST_MARKER_KEYS then Inl PolicyCapabilityMalformed
      else if k \<notin> set ALLOWED_KEYS then Inl PolicyCapabilityUnknownKey
      else Inr ())"

definition parse_action :: "string list \<Rightarrow> json \<Rightarrow> (RejectionCode, string) result" where
  "parse_action accepted a =
     rbind (ok_or (as_str a) PolicyCapabilityMalformedAction) (\<lambda>s.
     if \<not> contains_char s (CHR ''/'') then Inl PolicyCapabilityMalformedActionShortname
     else if s \<notin> set accepted then Inl PolicyCapabilityMalformedAction
     else Inr s)"

definition parse_caveats ::
  "string \<Rightarrow> string list \<Rightarrow> json option \<Rightarrow> (RejectionCode, json option) result" where
  "parse_caveats service actions c =
     (case c of
        None \<Rightarrow> Inr None
      | Some v \<Rightarrow>
          (if \<not> is_object v then Inl PolicyCapabilityMalformedCaveats
           else if service = ''tinycloud.sql'' then
             rbind (sql_caveat_parse v) (\<lambda>caveat.
             rbind (try_all (\<lambda>a. if a \<noteq> ''tinycloud.sql/read'' \<and> a \<noteq> ''tinycloud.sql/select''
                                  then Inl PolicyCapabilityMalformed else Inr ()) actions) (\<lambda>_.
             rbind (try_all (\<lambda>s. if contains_write_keyword (stmt_sql s) then Inl SqlWriteBlocked else Inr ())
                     (statements caveat)) (\<lambda>_.
             Inr (Some v))))
           else Inr (Some v)))"

definition policy_parse :: "(string \<Rightarrow> string) \<Rightarrow> json \<Rightarrow> (RejectionCode, PolicyCapability) result" where
  "policy_parse nfc input =
     rbind (ok_or (as_object input) PolicyCapabilityMalformed) (\<lambda>obj.
     rbind (try_all check_key (map fst obj)) (\<lambda>_.
     rbind (ok_or (obj_get_as as_str obj ''service'') PolicyCapabilityMalformedService) (\<lambda>service.
     if service = [] \<or> list_ex is_whitespace (utf8_chars service) then Inl PolicyCapabilityMalformedService
     else if accepted_actions service = None then Inl PolicyCapabilityMalformedService
     else
     rbind (ok_or (obj_get_as as_str obj ''space'') PolicyCapabilityMalformedSpace) (\<lambda>space.
     if space = [] \<or> contains_char space (CHR ''*'') \<or> contains_char space (CHR ''?'') \<or>
        starts_with space ''manifest:''
     then Inl PolicyCapabilityMalformedSpace
     else
     rbind (ok_or (obj_get_as as_str obj ''path'') PolicyCapabilityMalformedPath) (\<lambda>raw_path.
     rbind (normalize_path nfc service raw_path) (\<lambda>path.
     rbind (ok_or (obj_get obj ''actions'') PolicyCapabilityEmptyActions) (\<lambda>actions_value.
     rbind (ok_or (as_array actions_value) PolicyCapabilityMalformedAction) (\<lambda>actions_arr.
     rbind (try_map (parse_action (the (accepted_actions service))) actions_arr) (\<lambda>parsed.
     let actions = dedup (sort parsed)
     in if actions = [] then Inl PolicyCapabilityEmptyActions
        else
          rbind (parse_caveats service actions (obj_get obj ''caveats'')) (\<lambda>caveats.
          Inr \<lparr>pc_service = service, pc_space = space, pc_path = path, pc_actions = actions,
               pc_caveats = caveats\<rparr>))))))))))"

section \<open>Canonical form and hash\<close>

definition POLICY_CAPABILITY_DOMAIN :: string where
  "POLICY_CAPABILITY_DOMAIN = ''xyz.tinycloud.policy/PolicyCapability/v0'' @ [CHR 0x00]"

definition REQUESTED_CAPABILITIES_DOMAIN :: string where
  "REQUESTED_CAPABILITIES_DOMAIN = ''xyz.tinycloud.policy/RequestedCapabilities/v0'' @ [CHR 0x00]"

definition hex_encode :: "string \<Rightarrow> string" where
  "hex_encode bytes = concat (map (\<lambda>b. [lower_hex (of_char b div 16), lower_hex (of_char b mod 16)]) bytes)"

definition canonical_value :: "PolicyCapability \<Rightarrow> json" where
  "canonical_value c =
     (let m = bm_insert ''actions'' (JArray (map JString (pc_actions c))) [];
          m = (case pc_caveats c of Some v \<Rightarrow> bm_insert ''caveats'' v m | None \<Rightarrow> m);
          m = bm_insert ''path'' (JString (pc_path c)) m;
          m = bm_insert ''service'' (JString (pc_service c)) m;
          m = bm_insert ''space'' (JString (pc_space c)) m
      in JObject m)"

definition canonical_bytes :: "(rat \<Rightarrow> string) \<Rightarrow> PolicyCapability \<Rightarrow> string" where
  "canonical_bytes ryu c = canonicalize ryu (canonical_value c)"

definition capability_hash_hex :: "(string \<Rightarrow> string) \<Rightarrow> (rat \<Rightarrow> string) \<Rightarrow> PolicyCapability \<Rightarrow> string" where
  "capability_hash_hex sha256 ryu c = hex_encode (sha256 (POLICY_CAPABILITY_DOMAIN @ canonical_bytes ryu c))"

text \<open>The fields the requested capabilities are ordered by, compared one after the other.\<close>

definition request_order :: "json \<Rightarrow> string list" where
  "request_order v =
     map (\<lambda>field. case Option.bind (as_object v) (\<lambda>m. obj_get_as as_str m field) of Some s \<Rightarrow> s | None \<Rightarrow> [])
       [''service'', ''space'', ''path'']"

definition requested_bytes :: "(rat \<Rightarrow> string) \<Rightarrow> PolicyCapability list \<Rightarrow> string" where
  "requested_bytes ryu capabilities =
     canonicalize ryu (JArray (sort_key request_order (map canonical_value capabilities)))"

definition requested_capabilities_hash_hex ::
  "(string \<Rightarrow> string) \<Rightarrow> (rat \<Rightarrow> string) \<Rightarrow> PolicyCapability list \<Rightarrow> string" where
  "requested_capabilities_hash_hex sha256 ryu capabilities =
     hex_encode (sha256 (REQUESTED_CAPABILITIES_DOMAIN @ requested_bytes ryu capabilities))"

section \<open>Containment\<close>

definition policy_contains :: "PolicyCapability \<Rightarrow> PolicyCapability \<Rightarrow> (RejectionCode, unit) result" where
  "policy_contains auth req =
     (if pc_service auth \<noteq> pc_service req then Inl ContainmentServiceMismatch
      else if pc_space auth \<noteq> pc_space req then Inl ContainmentSpaceMismatch
      else if \<not> path_contains (pc_service auth) (pc_path auth) (pc_path req) then Inl ContainmentPathMismatch
      else if \<not> list_all (\<lambda>a. resolve_alias a \<in> expand_actions (pc_actions auth)) (pc_actions req)
      then Inl ContainmentActionNotSubset
      else
        (case (pc_caveats auth, pc_caveats req) of
           (None, _) \<Rightarrow> Inr ()
         | (Some _, None) \<Rightarrow> Inl ContainmentCaveatRequired
         | (Some auth_c, Some req_c) \<Rightarrow>
             (if pc_service auth = ''tinycloud.sql'' then
                rbind (sql_caveat_parse auth_c) (\<lambda>a.
                rbind (sql_caveat_parse req_c) (\<lambda>r.
                sql_contains a r))
              else Inr ())))"

section \<open>What containment means\<close>

text \<open>What a capability permits: an action on a path of its space.\<close>

definition permits :: "PolicyCapability \<Rightarrow> string \<Rightarrow> string \<Rightarrow> bool" where
  "permits c path action \<longleftrightarrow>
     path_contains (pc_service c) (pc_path c) path \<and> resolve_alias action \<in> expand_actions (pc_actions c)"

text \<open>The statements an SQL capability with caveats is bound to.\<close>

definition bound_statements :: "PolicyCapability \<Rightarrow> ConstrainedStatement list option" where
  "bound_statements c =
     (if pc_service c = ''tinycloud.sql'' then
        Option.bind (pc_caveats c) (\<lambda>v. case sql_caveat_parse v of Inl _ \<Rightarrow> None | Inr a \<Rightarrow> Some (statements a))
      else None)"

lemma path_contains_refl [simp]: "path_contains service p p"
  by (simp add: path_contains_def)

lemma path_contains_trans:
  assumes "path_contains service a b" and "path_contains service b c"
  shows "path_contains service a c"
  using assms
  by (auto simp: path_contains_def strip_prefix_def prefix_def split: if_splits option.splits)

lemma policy_contains_ok:
  "policy_contains a b = Inr () \<longleftrightarrow>
     pc_service a = pc_service b \<and> pc_space a = pc_space b \<and>
     path_contains (pc_service a) (pc_path a) (pc_path b) \<and>
     (\<forall>x \<in> set (pc_actions b). resolve_alias x \<in> expand_actions (pc_actions a)) \<and>
     (case (pc_caveats a, pc_caveats b) of
        (None, _) \<Rightarrow> True
      | (Some _, None) \<Rightarrow> False
      | (Some v, Some w) \<Rightarrow> pc_service a = ''tinycloud.sql'' \<longrightarrow>
          (\<exists>x y. sql_caveat_parse v = Inr x \<and> sql_caveat_parse w = Inr y \<and> is_ok (sql_contains x y)))"
  by (auto simp: policy_contains_def list_all_iff is_ok_iff split: option.splits)

lemma expand_actions_mono:
  assumes "\<forall>x \<in> set bs. resolve_alias x \<in> expand_actions as"
  shows "expand_actions bs \<subseteq> expand_actions as"
  using assms entails_trans by (fastforce simp: expand_actions_entails)

lemma policy_contains_trans:
  assumes "policy_contains a b = Inr ()" and "policy_contains b c = Inr ()"
  shows "policy_contains a c = Inr ()"
proof -
  have "\<forall>x \<in> set (pc_actions c). resolve_alias x \<in> expand_actions (pc_actions a)"
    using assms expand_actions_mono [of "pc_actions b" "pc_actions a"] by (auto simp: policy_contains_ok)
  moreover have "path_contains (pc_service a) (pc_path a) (pc_path c)"
    using assms path_contains_trans by (auto simp: policy_contains_ok)
  ultimately show ?thesis
    using assms by (auto simp: policy_contains_ok split: option.splits dest: sql_contains_trans)
qed

interpretation policy: containment "\<lambda>req auth. policy_contains auth req = Inr ()"
  by unfold_locales (rule policy_contains_trans)

lemma permits_mono:
  assumes "policy_contains a b = Inr ()" and "permits b path action"
  shows "permits a path action"
proof -
  have "expand_actions (pc_actions b) \<subseteq> expand_actions (pc_actions a)"
    using assms(1) by (intro expand_actions_mono) (simp add: policy_contains_ok)
  moreover have "path_contains (pc_service a) (pc_path a) path"
    using assms path_contains_trans by (auto simp: policy_contains_ok permits_def)
  ultimately show ?thesis using assms(2) by (auto simp: permits_def)
qed

lemma bound_statements_mono:
  assumes "policy_contains a b = Inr ()" and "bound_statements a = Some as"
  shows "\<exists>bs. bound_statements b = Some bs \<and>
    (\<forall>r \<in> set bs. \<exists>s \<in> set as. stmt_name s = stmt_name r \<and> stmt_sql s = stmt_sql r \<and>
       (\<forall>p \<in> set (fixed_params s). \<exists>q \<in> set (fixed_params r). fp_index q = fp_index p \<and> fp_value q = fp_value p))"
proof -
  from assms(2) obtain v x where sql: "pc_service a = ''tinycloud.sql''" and v: "pc_caveats a = Some v"
    and x: "sql_caveat_parse v = Inr x" and as: "as = statements x"
    by (auto simp: bound_statements_def split: if_splits option.splits sum.splits bind_splits)
  with assms(1) obtain w y where w: "pc_caveats b = Some w" and y: "sql_caveat_parse w = Inr y"
    and xy: "is_ok (sql_contains x y)" and b: "pc_service b = ''tinycloud.sql''"
    by (auto simp: policy_contains_ok split: option.splits)
  have "\<exists>s \<in> set as. stmt_name s = stmt_name r \<and> stmt_sql s = stmt_sql r \<and>
      (\<forall>p \<in> set (fixed_params s). \<exists>q \<in> set (fixed_params r). fp_index q = fp_index p \<and> fp_value q = fp_value p)"
    if "r \<in> set (statements y)" for r
  proof -
    from xy that obtain s where s: "find (\<lambda>s. stmt_name s = stmt_name r) (statements x) = Some s"
      and sql_eq: "stmt_sql s = stmt_sql r"
      and params: "\<forall>p \<in> set (fixed_params s).
        \<exists>q. find (\<lambda>q. fp_index q = fp_index p) (fixed_params r) = Some q \<and> fp_value q = fp_value p"
      by (auto simp: sql_contains_ok statement_contained_ok)
    from params have "\<forall>p \<in> set (fixed_params s). \<exists>q \<in> set (fixed_params r). fp_index q = fp_index p \<and> fp_value q = fp_value p"
    proof (intro ballI)
      fix p
      assume "p \<in> set (fixed_params s)"
      with params obtain q where q: "find (\<lambda>q. fp_index q = fp_index p) (fixed_params r) = Some q"
        and val: "fp_value q = fp_value p" by blast
      from find_SomeD [OF q] val show "\<exists>q \<in> set (fixed_params r). fp_index q = fp_index p \<and> fp_value q = fp_value p"
        by blast
    qed
    with find_SomeD [OF s] sql_eq as show ?thesis by auto
  qed
  with b w y show ?thesis by (auto simp: bound_statements_def)
qed

section \<open>What is hashed\<close>

text \<open>
  The caveats hold no binary64: the writer prints 1.0 as 1, so that a float and an integer of the same
  value are not told apart by the bytes.
\<close>

definition caveats_ok :: "PolicyCapability \<Rightarrow> bool" where
  "caveats_ok c = (case pc_caveats c of None \<Rightarrow> True | Some v \<Rightarrow> json_ok integral v)"

lemma canonical_value_entries:
  "canonical_value c = JObject
     ((''actions'', JArray (map JString (pc_actions c))) #
      (case pc_caveats c of Some v \<Rightarrow> [(''caveats'', v)] | None \<Rightarrow> []) @
      [(''path'', JString (pc_path c)), (''service'', JString (pc_service c)), (''space'', JString (pc_space c))])"
  by (simp add: canonical_value_def split: option.split)

lemma canonical_value_inject: "canonical_value c = canonical_value c' \<Longrightarrow> c = c'"
  by (cases c; cases c')
    (auto simp: canonical_value_entries inj_map_eq_map inj_def split: option.splits)

lemma json_ok_canonical_value: "caveats_ok c \<Longrightarrow> json_ok integral (canonical_value c)"
  by (auto simp: canonical_value_entries caveats_ok_def list_all_iff split: option.splits)

lemma canonical_bytes_inject:
  "caveats_ok c \<Longrightarrow> caveats_ok c' \<Longrightarrow> canonical_bytes ryu c = canonical_bytes ryu c' \<Longrightarrow> c = c'"
  using jcs.inject [OF json_ok_canonical_value json_ok_canonical_value]
  by (auto simp: canonical_bytes_def canonicalize_def intro: canonical_value_inject)

lemma request_order_canonical [simp]: "request_order (canonical_value c) = [pc_service c, pc_space c, pc_path c]"
  by (simp add: request_order_def canonical_value_entries obj_get_as_def obj_get_def split: option.split)

lemma requested_bytes_inject:
  assumes "\<forall>c \<in> set cs. caveats_ok c" and "\<forall>c \<in> set cs'. caveats_ok c"
    and "requested_bytes ryu cs = requested_bytes ryu cs'"
  shows "mset cs = mset cs'"
proof -
  let ?s = "\<lambda>cs. sort_key request_order (map canonical_value cs)"
  have "json_ok integral (JArray (?s cs))" "json_ok integral (JArray (?s cs'))"
    using assms(1,2) by (auto simp: list_all_iff json_ok_canonical_value)
  from jcs.inject [OF this] assms(3) have "?s cs = ?s cs'"
    by (auto simp: requested_bytes_def canonicalize_def)
  then have "mset (?s cs) = mset (?s cs')" by simp
  then have "image_mset canonical_value (mset cs) = image_mset canonical_value (mset cs')" by simp
  then show ?thesis
    by (rule multiset.inj_map_strong [rotated]) (auto dest: canonical_value_inject)
qed

lemma requested_bytes_perm:
  assumes "distinct (map (\<lambda>c. (pc_service c, pc_space c, pc_path c)) cs)" and "mset cs = mset cs'"
  shows "requested_bytes ryu cs = requested_bytes ryu cs'"
proof -
  have inj: "inj_on (\<lambda>c. [pc_service c, pc_space c, pc_path c]) (set cs)"
    using assms(1) by (auto simp: distinct_map inj_on_def)
  then have "sort_key (\<lambda>c. [pc_service c, pc_space c, pc_path c]) cs =
      sort_key (\<lambda>c. [pc_service c, pc_space c, pc_path c]) cs'"
    using assms(2) by (intro sort_key_inj_key_eq) simp_all
  then show ?thesis by (simp add: requested_bytes_def sort_key_map)
qed

text \<open>Capabilities on the same path are hashed in the order they are listed in.\<close>

lemma requested_order_matters:
  assumes "caveats_ok a" and "caveats_ok b" and "a \<noteq> b" and "pc_service a = pc_service b"
    and "pc_space a = pc_space b" and "pc_path a = pc_path b"
  shows "requested_bytes ryu [a, b] \<noteq> requested_bytes ryu [b, a]"
proof
  assume eq: "requested_bytes ryu [a, b] = requested_bytes ryu [b, a]"
  have "JArray [canonical_value a, canonical_value b] = JArray [canonical_value b, canonical_value a]"
    using eq assms(1,2,4-6)
    by (intro jcs.inject [of _ _ ryu]) (simp_all add: requested_bytes_def canonicalize_def json_ok_canonical_value)
  with assms(3) show False by (auto dest: canonical_value_inject)
qed

section \<open>What is parsed\<close>

definition policy_wf :: "PolicyCapability \<Rightarrow> bool" where
  "policy_wf c \<longleftrightarrow>
     pc_service c \<noteq> [] \<and> \<not> list_ex is_whitespace (utf8_chars (pc_service c)) \<and>
     pc_space c \<noteq> [] \<and> \<not> contains_char (pc_space c) (CHR ''*'') \<and> \<not> contains_char (pc_space c) (CHR ''?'') \<and>
     \<not> starts_with (pc_space c) ''manifest:'' \<and>
     ''..'' \<notin> set (split_char (pc_path c) (CHR ''/'')) \<and>
     (pc_service c = ''tinycloud.sql'' \<longrightarrow> pc_path c \<noteq> []) \<and>
     pc_actions c \<noteq> [] \<and> sorted_wrt (<) (pc_actions c) \<and>
     (\<exists>accepted. accepted_actions (pc_service c) = Some accepted \<and>
        (\<forall>a \<in> set (pc_actions c). contains_char a (CHR ''/'') \<and> a \<in> set accepted)) \<and>
     (\<forall>v. pc_caveats c = Some v \<longrightarrow> is_object v \<and>
        (pc_service c = ''tinycloud.sql'' \<longrightarrow> set (pc_actions c) \<subseteq> {''tinycloud.sql/read'', ''tinycloud.sql/select''} \<and>
           (\<exists>caveat. sql_caveat_parse v = Inr caveat \<and>
              (\<forall>s \<in> set (statements caveat). \<not> contains_write_keyword (stmt_sql s)))))"

lemma parse_caveats_ok:
  "parse_caveats service actions c = Inr d \<longleftrightarrow> d = c \<and>
     (\<forall>v. c = Some v \<longrightarrow> is_object v \<and>
        (service = ''tinycloud.sql'' \<longrightarrow> set actions \<subseteq> {''tinycloud.sql/read'', ''tinycloud.sql/select''} \<and>
           (\<exists>caveat. sql_caveat_parse v = Inr caveat \<and>
              (\<forall>s \<in> set (statements caveat). \<not> contains_write_keyword (stmt_sql s)))))"
  by (cases c) (auto simp: parse_caveats_def rbind_eq_Inr try_all_ok)

lemma parse_caveats_same: "parse_caveats service actions v = Inr w \<Longrightarrow> w = v"
  by (auto simp: parse_caveats_def split: option.splits if_splits)

lemma parse_action_ok:
  "parse_action accepted v = Inr a \<longleftrightarrow> v = JString a \<and> contains_char a (CHR ''/'') \<and> a \<in> set accepted"
  by (auto simp: parse_action_def)

lemma try_map_parse_action:
  "try_map (parse_action accepted) vs = Inr as \<Longrightarrow>
     \<forall>a \<in> set as. contains_char a (CHR ''/'') \<and> a \<in> set accepted"
  by (auto simp: parse_action_ok dest!: try_map_Inr_set)

lemma try_map_actions:
  "\<forall>a \<in> set as. contains_char a (CHR ''/'') \<and> a \<in> set accepted \<Longrightarrow>
     try_map (parse_action accepted) (map JString as) = Inr as"
  by (induction as) (auto simp: parse_action_def)

lemma normalize_path_ok:
  "normalize_path nfc service p = Inr q \<Longrightarrow>
     ''..'' \<notin> set (split_char q (CHR ''/'')) \<and> (service = ''tinycloud.sql'' \<longrightarrow> q \<noteq> [])"
  by (auto simp: normalize_path_def Let_def split: if_splits)

lemma policy_parse_ok:
  assumes "policy_parse nfc v = Inr c"
  shows "policy_wf c"
proof -
  from assms obtain obj raw vs parsed accepted where
    service: "pc_service c \<noteq> []" "\<not> list_ex is_whitespace (utf8_chars (pc_service c))"
    and accepted: "accepted_actions (pc_service c) = Some accepted"
    and space: "pc_space c \<noteq> []" "\<not> contains_char (pc_space c) (CHR ''*'')" "\<not> contains_char (pc_space c) (CHR ''?'')"
      "\<not> starts_with (pc_space c) ''manifest:''"
    and path: "normalize_path nfc (pc_service c) raw = Inr (pc_path c)"
    and parsed: "try_map (parse_action accepted) vs = Inr parsed"
    and actions: "pc_actions c = dedup (sort parsed)" "sort parsed \<noteq> []"
    and caveats: "parse_caveats (pc_service c) (pc_actions c) (obj_get obj ''caveats'') = Inr (pc_caveats c)"
    by (auto simp: policy_parse_def Let_def split: if_splits)
  from parsed have "\<forall>a \<in> set (pc_actions c). contains_char a (CHR ''/'') \<and> a \<in> set accepted"
    by (simp add: actions try_map_parse_action)
  moreover have "sorted_wrt (<) (pc_actions c)" "pc_actions c \<noteq> []"
    using actions by (simp_all add: sorted_dedup)
  moreover have "parse_caveats (pc_service c) (pc_actions c) (pc_caveats c) = Inr (pc_caveats c)"
    using caveats parse_caveats_same [OF caveats] by simp
  note this [unfolded parse_caveats_ok]
  ultimately show ?thesis
    using service accepted space normalize_path_ok [OF path] by (simp add: policy_wf_def)
qed

lemma policy_reparse_ok:
  assumes "policy_wf c" and "normalize_path nfc (pc_service c) (pc_path c) = Inr (pc_path c)"
  shows "policy_parse nfc (canonical_value c) = Inr c"
proof -
  from assms(1) obtain accepted where accepted: "accepted_actions (pc_service c) = Some accepted"
    and acts: "\<forall>a \<in> set (pc_actions c). contains_char a (CHR ''/'') \<and> a \<in> set accepted"
    by (auto simp: policy_wf_def)
  from acts have "try_map (parse_action accepted) (map JString (pc_actions c)) = Inr (pc_actions c)"
    by (rule try_map_actions)
  moreover have "sorted (pc_actions c)" "distinct (pc_actions c)"
    using assms(1) by (simp_all add: policy_wf_def strict_sorted_iff)
  then have "sort (pc_actions c) = pc_actions c" "dedup (pc_actions c) = pc_actions c"
    by (simp_all add: dedup_id sorted_sort_id)
  moreover have "parse_caveats (pc_service c) (pc_actions c) (pc_caveats c) = Inr (pc_caveats c)"
    using assms(1) by (simp add: policy_wf_def parse_caveats_ok)
  ultimately show ?thesis
    using assms accepted
    by (cases "pc_caveats c")
      (simp_all add: policy_parse_def canonical_value_entries policy_wf_def obj_get_as_def obj_get_def
        check_key_def ALLOWED_KEYS_def MANIFEST_MARKER_KEYS_def Let_def)
qed

text \<open>A path without a percent sign has nothing left to decode.\<close>

lemma percent_decode_id: "CHR ''%'' \<notin> set s \<Longrightarrow> percent_decode_unreserved s = s"
  by (induction s rule: percent_decode_unreserved.induct) auto

lemma normalized_again:
  assumes "policy_parse nfc v = Inr c" and "\<forall>s. nfc (nfc s) = nfc s" and "CHR ''%'' \<notin> set (pc_path c)"
  shows "normalize_path nfc (pc_service c) (pc_path c) = Inr (pc_path c)"
proof -
  from assms(1) obtain raw where path: "normalize_path nfc (pc_service c) raw = Inr (pc_path c)"
    by (auto simp: policy_parse_def Let_def split: if_splits)
  then have "pc_path c = nfc (percent_decode_unreserved raw)"
    by (auto simp: normalize_path_def Let_def split: if_splits)
  with assms(2) have "nfc (pc_path c) = pc_path c" by simp
  with normalize_path_ok [OF path] assms(3) show ?thesis
    by (auto simp: normalize_path_def percent_decode_id)
qed

end
