(* ===== verification/Policy_Properties.thy ===== *)
theory Policy_Properties
  imports Policy_Capability
begin

text \<open>
  What a policy can rely on: containment only narrows, the hash of a set of requested capabilities
  stands for that set, and parsing yields the normal form that is hashed.
\<close>

section \<open>Capabilities to exercise them\<close>

definition docs_capability :: PolicyCapability where
  "docs_capability = \<lparr>pc_service = ''tinycloud.kv'', pc_space = ''s'', pc_path = ''docs/'',
     pc_actions = [''tinycloud.kv/get'', ''tinycloud.kv/put''], pc_caveats = None\<rparr>"

definition note_capability :: PolicyCapability where
  "note_capability = docs_capability\<lparr>pc_path := ''docs/note'', pc_actions := [''tinycloud.kv/get'']\<rparr>"

definition statement_json :: "json list \<Rightarrow> json" where
  "statement_json params = JObject
     [(''fixedParams'', JArray params), (''name'', JString ''q''), (''sql'', JString ''SELECT 1'')]"

definition caveat_json :: "json list \<Rightarrow> json" where
  "caveat_json params = JObject
     [(''mode'', JString ''constrained-statements''), (''readOnly'', JBool True),
      (''statements'', JArray [statement_json params])]"

definition sql_capability :: "json list \<Rightarrow> PolicyCapability" where
  "sql_capability params = \<lparr>pc_service = ''tinycloud.sql'', pc_space = ''s'', pc_path = ''db'',
     pc_actions = [''tinycloud.sql/read''], pc_caveats = Some (caveat_json params)\<rparr>"

definition capability_json :: json where
  "capability_json = JObject
     [(''actions'', JArray [JString ''tinycloud.kv/put'', JString ''tinycloud.kv/get'', JString ''tinycloud.kv/put'']),
      (''path'', JString ''d%6Fcs/''), (''service'', JString ''tinycloud.kv''), (''space'', JString ''s'')]"

section \<open>Properties\<close>

text \<open>C29: Policy attenuation. A capability accepted as contained in another has its service and space,
  permits no action on any path that the other does not permit, and where the other is bound to SQL
  statements it is bound to some of them, with every fixed parameter kept. Containment composes along
  a chain.\<close>

theorem policy_attenuation:
  assumes "policy_contains a b = Inr ()" and "policy_contains b c = Inr ()"
  shows "policy_contains a c = Inr () \<and> pc_service c = pc_service a \<and> pc_space c = pc_space a \<and>
    (\<forall>path action. permits c path action \<longrightarrow> permits a path action) \<and>
    (\<forall>as. bound_statements a = Some as \<longrightarrow> (\<exists>cs. bound_statements c = Some cs \<and>
       (\<forall>r \<in> set cs. \<exists>s \<in> set as. stmt_name s = stmt_name r \<and> stmt_sql s = stmt_sql r \<and>
          (\<forall>p \<in> set (fixed_params s). \<exists>q \<in> set (fixed_params r). fp_index q = fp_index p \<and> fp_value q = fp_value p))))"
proof -
  from assms have ac: "policy_contains a c = Inr ()" by (rule policy_contains_trans)
  then have "pc_service c = pc_service a" "pc_space c = pc_space a" by (simp_all add: policy_contains_ok)
  with ac permits_mono [OF ac] bound_statements_mono [OF ac] show ?thesis by blast
qed

theorem policy_attenuation_witness:
  "policy_contains (sql_capability []) (sql_capability [JObject [(''index'', JNumber (NegInt (- 1))), (''value'', JString ''x'')]]) = Inr () \<and>
   policy_contains docs_capability docs_capability = Inr () \<and> policy_contains docs_capability note_capability = Inr () \<and>
   permits docs_capability ''docs/note'' ''tinycloud.kv/get''"
proof -
  have 1: "policy_contains (sql_capability []) (sql_capability [JObject [(''index'', JNumber (NegInt (- 1))), (''value'', JString ''x'')]]) = Inr ()"
    and 2: "policy_contains docs_capability docs_capability = Inr ()"
    and 3: "policy_contains docs_capability note_capability = Inr ()"
    and 4: "permits note_capability ''docs/note'' ''tinycloud.kv/get''"
    by code_simp+
  from policy_attenuation [OF 2 3] 4 have "permits docs_capability ''docs/note'' ''tinycloud.kv/get''" by blast
  with 1 2 3 show ?thesis by blast
qed

text \<open>C30: Hash binding. Take two requests whose caveats hold no floating-point number (the bytes do not
  tell 1.0 from 1). When the capabilities of one are on different paths, both are hashed over the
  same bytes exactly when they ask for the same capabilities, in whatever order.\<close>

theorem requested_hash_binding:
  assumes "\<forall>c \<in> set cs \<union> set cs'. caveats_ok c"
    and "distinct (map (\<lambda>c. (pc_service c, pc_space c, pc_path c)) cs)"
  shows "requested_bytes ryu cs = requested_bytes ryu cs' \<longleftrightarrow> mset cs = mset cs'"
  using requested_bytes_inject [of cs cs' ryu] requested_bytes_perm [of cs cs' ryu] assms by auto

theorem requested_hash_binding_witness:
  "requested_bytes (\<lambda>_. []) [note_capability, docs_capability] = requested_bytes (\<lambda>_. []) [docs_capability, note_capability] \<and>
   requested_bytes (\<lambda>_. []) [note_capability] \<noteq> requested_bytes (\<lambda>_. []) [docs_capability]"
proof -
  have ok: "caveats_ok docs_capability" "caveats_ok note_capability" by code_simp+
  have differ: "note_capability \<noteq> docs_capability" "pc_path note_capability \<noteq> pc_path docs_capability" by code_simp+
  have "requested_bytes (\<lambda>_. []) [note_capability, docs_capability] = requested_bytes (\<lambda>_. []) [docs_capability, note_capability] \<longleftrightarrow>
      mset [note_capability, docs_capability] = mset [docs_capability, note_capability]"
    by (rule requested_hash_binding) (use ok differ in simp_all)
  moreover have "requested_bytes (\<lambda>_. []) [note_capability] = requested_bytes (\<lambda>_. []) [docs_capability] \<longleftrightarrow>
      mset [note_capability] = mset [docs_capability]"
    by (rule requested_hash_binding) (use ok in simp_all)
  ultimately show ?thesis using differ by simp
qed

text \<open>C31: Parse and print. A parsed capability has a registered service, a space without wildcards, a
  path without a parent segment, and the accepted full names of its actions in order and once each;
  caveats are an object, and with caveats an SQL capability has only read actions and no statement
  with a write keyword. Its canonical value parses to the very capability, when Unicode
  normalisation is idempotent and no percent sign is left in the path.\<close>

theorem policy_roundtrip:
  assumes "policy_parse nfc v = Inr c" and "\<forall>s. nfc (nfc s) = nfc s" and "CHR ''%'' \<notin> set (pc_path c)"
  shows "policy_wf c \<and> policy_parse nfc (canonical_value c) = Inr c"
  using policy_parse_ok [OF assms(1)] policy_reparse_ok normalized_again [OF assms] by blast

theorem policy_roundtrip_witness:
  "policy_parse (\<lambda>s. s) capability_json = Inr docs_capability \<and> policy_wf docs_capability \<and>
   policy_parse (\<lambda>s. s) (canonical_value docs_capability) = Inr docs_capability"
proof -
  have parse: "policy_parse (\<lambda>s. s) capability_json = Inr docs_capability" by code_simp
  have "CHR ''%'' \<notin> set (pc_path docs_capability)" by code_simp
  with policy_roundtrip [OF parse] parse show ?thesis by blast
qed

end
