(* ===== verification/Encryption_Network.thy ===== *)
theory Encryption_Network
  imports Column_Encryption Events Jcs
begin

text \<open>
  Encryption networks: \<open>tinycloud-core/src/encryption_network\<close>. A network is a key pair whose private
  half the node keeps sealed; a decryption request unwraps a symmetric key and wraps it again for the
  receiver. The theory models the key backend (\<open>backend.rs\<close>), the request shapes and their signed
  payloads (\<open>protocol.rs\<close>), and the service (\<open>service.rs\<close>) over its five tables. The service runs
  without a transaction: an operation returns the tables as they are when it ends, also when it fails.
  Cryptography, Base64, date formats and the decoders \<open>serde\<close> derives are parameters; a random draw is
  an argument of the operation that makes it.
\<close>

section \<open>Third-party code\<close>

record DecryptRequestBody =
  rb_ty :: string
  rb_target_node :: string
  rb_network_id :: NetworkId
  rb_alg :: string
  rb_key_version :: int
  rb_encrypted_symmetric_key :: string
  rb_encrypted_symmetric_key_hash :: string
  rb_receiver_public_key :: string
  rb_receiver_public_key_hash :: string

record DecryptFacts =
  df_ty :: string
  df_target_node :: string
  df_network_id :: NetworkId
  df_body_hash :: string
  df_encrypted_symmetric_key_hash :: string
  df_receiver_public_key_hash :: string
  df_alg :: string
  df_key_version :: int

record NetworkAdminFacts =
  af_ty :: string
  af_target_node :: string
  af_network_id :: NetworkId
  af_body_hash :: string
  af_action :: string

record crypto =
  sha256 :: "string \<Rightarrow> string"
  x25519_public :: "string \<Rightarrow> string"
  x25519_shared :: "string \<Rightarrow> string \<Rightarrow> string"
  base64_encode :: "string \<Rightarrow> string"
  base64_decode :: "string \<Rightarrow> string option"
  multibase_decode :: "string \<Rightarrow> (string, string) result"
  ed25519_key :: "string \<Rightarrow> (string, string) result"
  ed25519_verify :: "string \<Rightarrow> string \<Rightarrow> string \<Rightarrow> bool"
  rfc3339 :: "time \<Rightarrow> string option"
  timestamp_ok :: "int \<Rightarrow> bool"
  texts :: json_texts
  body_from_value :: "json \<Rightarrow> (string, DecryptRequestBody) result"
  decrypt_facts_from_value :: "json \<Rightarrow> DecryptFacts option"
  admin_facts_from_value :: "json \<Rightarrow> NetworkAdminFacts option"

text \<open>The documented behaviour of X25519: both sides compute the same secret, and public keys have 32 bytes.\<close>

definition x25519_law :: "crypto \<Rightarrow> bool" where
  "x25519_law C \<longleftrightarrow>
     (\<forall>a b. x25519_shared C a (x25519_public C b) = x25519_shared C b (x25519_public C a)) \<and>
     (\<forall>a. length (x25519_public C a) = 32)"

definition now_rfc3339 :: "crypto \<Rightarrow> time \<Rightarrow> string" where
  "now_rfc3339 C now = (case rfc3339 C now of Some s \<Rightarrow> s | None \<Rightarrow> ''1970-01-01T00:00:00Z'')"

definition hash_hex :: "crypto \<Rightarrow> string \<Rightarrow> string" where
  "hash_hex C bytes = concat (map (\<lambda>b. [lower_hex (of_char b div 16), lower_hex (of_char b mod 16)]) (sha256 C bytes))"

definition canonical_hash :: "crypto \<Rightarrow> json \<Rightarrow> string" where
  "canonical_hash C v = hash_hex C (canonical_json_bytes (texts C) v)"

section \<open>Key backends\<close>

datatype KeyBackendError =
    SealedKeyMissing
  | InvalidSealedKey
  | InvalidPublicKey
  | InvalidWrappedKey
  | KeyEncryption EncryptionError

datatype KeyBackendKind = LocalOneOfOne | Dstack | Threshold

fun backend_kind_str :: "KeyBackendKind \<Rightarrow> string" where
  "backend_kind_str LocalOneOfOne = ''local-one-of-one''"
| "backend_kind_str Dstack = ''dstack''"
| "backend_kind_str Threshold = ''threshold''"

definition backend_kind_parse :: "string \<Rightarrow> KeyBackendKind option" where
  "backend_kind_parse s =
     (if s = ''local-one-of-one'' then Some LocalOneOfOne
      else if s = ''dstack'' then Some Dstack
      else if s = ''threshold'' then Some Threshold
      else None)"

record GeneratedKey =
  gk_public_key :: string
  gk_sealed_private_key :: string
  gk_alg :: string

text \<open>The trait \<open>KeyBackend\<close> as the record of its methods.\<close>

record KeyBackend =
  kb_kind :: KeyBackendKind
  kb_generate :: "(KeyBackendError, GeneratedKey) result"
  kb_unwrap :: "string \<Rightarrow> string \<Rightarrow> (KeyBackendError, string) result"
  kb_rewrap :: "string \<Rightarrow> string \<Rightarrow> (KeyBackendError, string) result"

definition ALG_X25519_AES256GCM :: string where
  "ALG_X25519_AES256GCM = ''x25519-aes256gcm/v1''"

definition wrap_to_public_key ::
  "externals \<Rightarrow> crypto \<Rightarrow> string \<Rightarrow> string \<Rightarrow> string \<Rightarrow> (KeyBackendError, string) result" where
  "wrap_to_public_key X C ephemeral recipient plaintext =
     (if length recipient \<noteq> 32 then Inl InvalidPublicKey
      else Inr (x25519_public C ephemeral @ encrypt X (x25519_shared C ephemeral recipient) plaintext))"

definition unwrap_with_secret ::
  "externals \<Rightarrow> crypto \<Rightarrow> string \<Rightarrow> string \<Rightarrow> (KeyBackendError, string) result" where
  "unwrap_with_secret X C secret wrapped =
     (if length wrapped < 32 then Inl InvalidWrappedKey
      else map_err KeyEncryption (decrypt X (x25519_shared C secret (take 32 wrapped)) (drop 32 wrapped)))"

definition open_private :: "externals \<Rightarrow> string \<Rightarrow> string \<Rightarrow> (KeyBackendError, string) result" where
  "open_private X seal sealed =
     rbind (map_err KeyEncryption (decrypt X seal sealed)) (\<lambda>opened.
     if length opened \<noteq> 32 then Inl InvalidSealedKey else Inr opened)"

text \<open>\<open>LocalOneOfOneBackend\<close>, for a call in which the random generator yields \<open>draw\<close>.\<close>

definition local_backend :: "externals \<Rightarrow> crypto \<Rightarrow> string \<Rightarrow> string \<Rightarrow> KeyBackend" where
  "local_backend X C seal draw =
     \<lparr>kb_kind = LocalOneOfOne,
      kb_generate = Inr \<lparr>gk_public_key = x25519_public C draw, gk_sealed_private_key = encrypt X seal draw,
                         gk_alg = ALG_X25519_AES256GCM\<rparr>,
      kb_unwrap = (\<lambda>sealed wrapped. rbind (open_private X seal sealed) (\<lambda>secret. unwrap_with_secret X C secret wrapped)),
      kb_rewrap = (\<lambda>symmetric receiver. wrap_to_public_key X C draw receiver symmetric)\<rparr>"

section \<open>Requests\<close>

definition DECRYPT_REQUEST_TYPE :: string where "DECRYPT_REQUEST_TYPE = ''tinycloud.encryption.decrypt/v1''"
definition DECRYPT_RESULT_TYPE :: string where "DECRYPT_RESULT_TYPE = ''tinycloud.encryption.decrypt-result/v1''"
definition NETWORK_ADMIN_TYPE :: string where "NETWORK_ADMIN_TYPE = ''tinycloud.encryption.network-admin/v1''"
definition DECRYPT_ACTION :: string where "DECRYPT_ACTION = ''tinycloud.encryption/decrypt''"

definition NETWORK_CREATE_ACTION :: string where "NETWORK_CREATE_ACTION = ''tinycloud.encryption/network.create''"

definition NETWORK_REVOKE_ACTION :: string where "NETWORK_REVOKE_ACTION = ''tinycloud.encryption/network.revoke''"

record InvocationCapability =
  ic_with :: string
  ic_can :: string
  ic_nb :: "(string, json) btree"

text \<open>The envelope of both kinds of request, by the type of its facts.\<close>

record 'f envelope =
  en_issuer :: string
  en_audience :: string
  en_att :: "InvocationCapability list"
  en_facts :: 'f
  en_nonce :: string
  en_not_before :: "int option"
  en_exp :: int
  en_proof_cid :: "string list"
  en_sig :: string

type_synonym DecryptInvocation = "DecryptFacts envelope"
type_synonym NetworkAdminInvocation = "NetworkAdminFacts envelope"

record DecryptResponseBody =
  rs_ty :: string
  rs_target_node :: string
  rs_network_id :: NetworkId
  rs_invocation_cid :: string
  rs_encrypted_symmetric_key_hash :: string
  rs_receiver_public_key_hash :: string
  rs_wrapped_key :: string
  rs_alg :: string
  rs_key_version :: int
  rs_request_hash :: string
  rs_node_id :: string
  rs_node_signature :: string

text \<open>What \<open>serde_json\<close> makes of an integer, and of the fields of a struct.\<close>

definition json_int :: "int \<Rightarrow> json" where
  "json_int i = JNumber (if i < 0 then NegInt i else PosInt (nat i))"

definition json_object :: "(string \<times> json) list \<Rightarrow> json" where
  "json_object kvs = JObject (fold (\<lambda>(k, v). bm_insert k v) kvs [])"

definition json_network :: "NetworkId \<Rightarrow> json" where
  "json_network n = JString (network_id_display n)"

definition capability_value :: "InvocationCapability \<Rightarrow> json" where
  "capability_value c =
     json_object ([(''with'', JString (ic_with c)), (''can'', JString (ic_can c))] @
       (if ic_nb c = [] then [] else [(''nb'', JObject (ic_nb c))]))"

definition decrypt_facts_value :: "DecryptFacts \<Rightarrow> json" where
  "decrypt_facts_value f =
     json_object
       [(''type'', JString (df_ty f)), (''targetNode'', JString (df_target_node f)),
        (''networkId'', json_network (df_network_id f)), (''bodyHash'', JString (df_body_hash f)),
        (''encryptedSymmetricKeyHash'', JString (df_encrypted_symmetric_key_hash f)),
        (''receiverPublicKeyHash'', JString (df_receiver_public_key_hash f)),
        (''alg'', JString (df_alg f)), (''keyVersion'', json_int (df_key_version f))]"

definition admin_facts_value :: "NetworkAdminFacts \<Rightarrow> json" where
  "admin_facts_value f =
     json_object
       [(''type'', JString (af_ty f)), (''targetNode'', JString (af_target_node f)),
        (''networkId'', json_network (af_network_id f)), (''bodyHash'', JString (af_body_hash f)),
        (''action'', JString (af_action f))]"

definition unsigned_payload :: "('f \<Rightarrow> json) \<Rightarrow> 'f envelope \<Rightarrow> json" where
  "unsigned_payload facts_value i =
     json_object
       [(''iss'', JString (en_issuer i)), (''aud'', JString (en_audience i)),
        (''att'', JArray (map capability_value (en_att i))), (''facts'', facts_value (en_facts i)),
        (''nonce'', JString (en_nonce i)),
        (''nbf'', case en_not_before i of Some n \<Rightarrow> json_int n | None \<Rightarrow> JNull),
        (''exp'', json_int (en_exp i)), (''prf'', JArray (map JString (en_proof_cid i)))]"

definition invocation_cid :: "crypto \<Rightarrow> ('f \<Rightarrow> json) \<Rightarrow> 'f envelope \<Rightarrow> string" where
  "invocation_cid C facts_value i = canonical_hash C (unsigned_payload facts_value i)"

definition response_value :: "DecryptResponseBody \<Rightarrow> json" where
  "response_value r =
     json_object
       [(''type'', JString (rs_ty r)), (''targetNode'', JString (rs_target_node r)),
        (''networkId'', json_network (rs_network_id r)), (''invocationCid'', JString (rs_invocation_cid r)),
        (''encryptedSymmetricKeyHash'', JString (rs_encrypted_symmetric_key_hash r)),
        (''receiverPublicKeyHash'', JString (rs_receiver_public_key_hash r)),
        (''wrappedKey'', JString (rs_wrapped_key r)), (''alg'', JString (rs_alg r)),
        (''keyVersion'', json_int (rs_key_version r)), (''requestHash'', JString (rs_request_hash r)),
        (''nodeId'', JString (rs_node_id r))]"

section \<open>Networks\<close>

datatype NetworkState = Pending | Generating | Active | Rotating | Revoked | Failed

fun network_state_str :: "NetworkState \<Rightarrow> string" where
  "network_state_str Pending = ''pending''"
| "network_state_str Generating = ''generating''"
| "network_state_str Active = ''active''"
| "network_state_str Rotating = ''rotating''"
| "network_state_str Revoked = ''revoked''"
| "network_state_str Failed = ''failed''"

definition network_state_parse :: "string \<Rightarrow> NetworkState option" where
  "network_state_parse s =
     (if s = ''pending'' then Some Pending
      else if s = ''generating'' then Some Generating
      else if s = ''active'' then Some Active
      else if s = ''rotating'' then Some Rotating
      else if s = ''revoked'' then Some Revoked
      else if s = ''failed'' then Some Failed
      else None)"

record network_row =
  nw_network_id :: string
  nw_owner_did :: string
  nw_name :: string
  nw_alg :: string
  nw_key_version :: int
  nw_public_key :: string
  nw_state :: string
  nw_threshold :: "int \<times> int"
  nw_key_backend :: string
  nw_sealed_private_key :: "string option"
  nw_created_at :: string
  nw_updated_at :: string

record ceremony_row =
  ce_ceremony_id :: string
  ce_network_id :: string
  ce_kind :: string
  ce_state :: string
  ce_transcript_hash :: "string option"
  ce_started_at :: string
  ce_completed_at :: "string option"
  ce_failure :: "string option"

record member_row =
  mb_network_id :: string
  mb_node_id :: string
  mb_role :: string
  mb_share_index :: int
  mb_joined_at :: string

record nonce_row =
  no_requester_did :: string
  no_nonce :: string
  no_expires_at :: string

record audit_row =
  au_request_hash :: string
  au_requester :: string
  au_network_id :: string
  au_node_id :: string
  au_outcome :: string
  au_decided_at :: string

record enc_db =
  networks :: "network_row list"
  ceremonies :: "ceremony_row list"
  members :: "member_row list"
  nonces :: "nonce_row list"
  audits :: "audit_row list"

record NetworkDescriptor =
  ds_network_id :: NetworkId
  ds_owner_did :: string
  ds_name :: string
  ds_members :: "(string \<times> string) list"
  ds_threshold :: "int \<times> int"
  ds_state :: NetworkState
  ds_public_encryption_key :: string
  ds_alg :: string
  ds_key_version :: int
  ds_key_backend :: KeyBackendKind
  ds_created_at :: string
  ds_updated_at :: string

datatype EncryptionServiceError =
    EncDb
  | NetworkNotFound
  | NetworkAlreadyExists
  | NetworkNotActive string
  | NetworkRevoked
  | EncUnauthorized
  | AudienceMismatch
  | TargetNodeMismatch
  | OwnerMismatch
  | NetworkMismatch
  | Expired
  | NotYetValid
  | HashMismatch string
  | AlgKeyVersionMismatch
  | SignatureInvalid string
  | WrongInvocationType
  | NonceReplay
  | Backend KeyBackendError
  | InvalidBody string
  | Base64Error string
  | Signing string

text \<open>The service: the node's DID and key, its backend, and the longest life of a request.\<close>

record EncryptionService =
  sv_node_did :: string
  sv_node_keypair :: "(string \<Rightarrow> (string, string) result) option"
  sv_backend :: KeyBackend
  sv_invocation_ttl_seconds :: int

definition DEFAULT_INVOCATION_TTL_SECONDS :: int where "DEFAULT_INVOCATION_TTL_SECONDS = 300"

definition network_id_matches :: "externals \<Rightarrow> string \<Rightarrow> NetworkId \<Rightarrow> bool" where
  "network_id_matches X actual expected =
     (case network_id_from_str X actual of
        Inr n \<Rightarrow> n = expected
      | Inl _ \<Rightarrow> actual = network_id_display expected)"

definition find_network :: "enc_db \<Rightarrow> NetworkId \<Rightarrow> network_row option" where
  "find_network db n = find (\<lambda>r. nw_network_id r = network_id_display n) (networks db)"

section \<open>Life of a network\<close>

definition create_one_of_one_network ::
  "externals \<Rightarrow> crypto \<Rightarrow> EncryptionService \<Rightarrow> time \<Rightarrow> enc_db \<Rightarrow> string \<Rightarrow> string \<Rightarrow> int \<times> int \<Rightarrow>
   enc_db \<times> (EncryptionServiceError, NetworkDescriptor) result" where
  "create_one_of_one_network X C sv now db name owner threshold =
     (case network_id_new X owner name of
        Inl _ \<Rightarrow> (db, Inl (InvalidBody ''invalid network id''))
      | Inr network_id \<Rightarrow>
          (if find_network db network_id \<noteq> None then (db, Inl NetworkAlreadyExists)
           else
             (let stamp = now_rfc3339 C now;
                  ceremony_id = ''ceremony:'' @ network_id_display network_id @ '':'' @ stamp
              in if list_ex (\<lambda>c. ce_ceremony_id c = ceremony_id) (ceremonies db) then (db, Inl EncDb)
                 else
                   (let ceremony = \<lparr>ce_ceremony_id = ceremony_id, ce_network_id = network_id_display network_id,
                          ce_kind = ''initial'', ce_state = ''started'', ce_transcript_hash = None, ce_started_at = stamp,
                          ce_completed_at = None, ce_failure = None\<rparr>;
                        db1 = db\<lparr>ceremonies := ceremonies db @ [ceremony]\<rparr>
                    in case kb_generate (sv_backend sv) of
                         Inl e \<Rightarrow> (db1, Inl (Backend e))
                       | Inr g \<Rightarrow>
                           (let row = \<lparr>nw_network_id = network_id_display network_id, nw_owner_did = owner_did network_id,
                                  nw_name = name, nw_alg = gk_alg g, nw_key_version = 1,
                                  nw_public_key = gk_public_key g, nw_state = network_state_str Active,
                                  nw_threshold = threshold, nw_key_backend = backend_kind_str (kb_kind (sv_backend sv)),
                                  nw_sealed_private_key = Some (gk_sealed_private_key g), nw_created_at = stamp,
                                  nw_updated_at = stamp\<rparr>;
                                db2 = db1\<lparr>networks := networks db1 @ [row]\<rparr>;
                                member = \<lparr>mb_network_id = network_id_display network_id, mb_node_id = sv_node_did sv,
                                  mb_role = ''primary'', mb_share_index = 0, mb_joined_at = stamp\<rparr>
                            in if list_ex (\<lambda>m. mb_network_id m = mb_network_id member \<and> mb_node_id m = mb_node_id member)
                                    (members db2)
                               then (db2, Inl EncDb)
                               else
                                 (db2\<lparr>members := members db2 @ [member],
                                      ceremonies := map (\<lambda>c. if ce_ceremony_id c = ceremony_id
                                        then c\<lparr>ce_state := ''completed'', ce_transcript_hash := Some (hash_hex C (gk_public_key g)),
                                               ce_completed_at := Some stamp\<rparr>
                                        else c) (ceremonies db2)\<rparr>,
                                  Inr \<lparr>ds_network_id = network_id, ds_owner_did = owner_did network_id, ds_name = name,
                                       ds_members = [(sv_node_did sv, ''primary'')], ds_threshold = threshold,
                                       ds_state = Active, ds_public_encryption_key = gk_public_key g,
                                       ds_alg = gk_alg g, ds_key_version = 1,
                                       ds_key_backend = kb_kind (sv_backend sv), ds_created_at = stamp,
                                       ds_updated_at = stamp\<rparr>))))))"

definition get_network :: "enc_db \<Rightarrow> NetworkId \<Rightarrow> (EncryptionServiceError, NetworkDescriptor) result" where
  "get_network db network_id =
     rbind (ok_or (find_network db network_id) NetworkNotFound) (\<lambda>model.
     rbind (ok_or (network_state_parse (nw_state model)) (InvalidBody (''unknown network state: '' @ nw_state model))) (\<lambda>st.
     Inr \<lparr>ds_network_id = network_id, ds_owner_did = nw_owner_did model, ds_name = nw_name model,
          ds_members = map (\<lambda>m. (mb_node_id m, mb_role m))
            (filter (\<lambda>m. mb_network_id m = network_id_display network_id) (members db)),
          ds_threshold = nw_threshold model, ds_state = st, ds_public_encryption_key = nw_public_key model,
          ds_alg = nw_alg model, ds_key_version = nw_key_version model,
          ds_key_backend = (case backend_kind_parse (nw_key_backend model) of Some k \<Rightarrow> k | None \<Rightarrow> LocalOneOfOne),
          ds_created_at = nw_created_at model, ds_updated_at = nw_updated_at model\<rparr>))"

definition get_network_by_name ::
  "externals \<Rightarrow> enc_db \<Rightarrow> string \<Rightarrow> string option \<Rightarrow> (EncryptionServiceError, NetworkDescriptor) result" where
  "get_network_by_name X db name owner =
     (case owner of
        Some o' \<Rightarrow>
          rbind (map_err (\<lambda>_. InvalidBody ''invalid network id'') (network_id_new X o' name)) (\<lambda>n. get_network db n)
      | None \<Rightarrow>
          rbind (ok_or (find (\<lambda>r. nw_name r = name \<and> nw_state r = network_state_str Active) (networks db)) NetworkNotFound) (\<lambda>model.
          rbind (map_err (\<lambda>_. InvalidBody ''invalid stored network id'') (network_id_from_str X (nw_network_id model))) (\<lambda>n.
          get_network db n)))"

definition revoke_network ::
  "crypto \<Rightarrow> time \<Rightarrow> enc_db \<Rightarrow> NetworkId \<Rightarrow> enc_db \<times> (EncryptionServiceError, unit) result" where
  "revoke_network C now db network_id =
     (case find_network db network_id of
        None \<Rightarrow> (db, Inl NetworkNotFound)
      | Some _ \<Rightarrow>
          (db\<lparr>networks := map (\<lambda>r. if nw_network_id r = network_id_display network_id
             then r\<lparr>nw_state := network_state_str Revoked, nw_updated_at := now_rfc3339 C now\<rparr> else r) (networks db)\<rparr>,
           Inr ()))"

section \<open>Checks\<close>

definition did_key_public_key :: "crypto \<Rightarrow> string \<Rightarrow> (string, string) result" where
  "did_key_public_key C did =
     rbind (ok_or (strip_prefix did ''did:key:'') ''issuer must be a did:key'') (\<lambda>encoded.
     rbind (multibase_decode C encoded) (\<lambda>bytes.
     rbind (if bytes \<noteq> [] \<and> hd bytes = CHR 0xED \<and> length (tl bytes) = 32 then Inr (tl bytes)
            else if take 2 bytes = [CHR 0xED, CHR 0x01] \<and> length (drop 2 bytes) = 32 then Inr (drop 2 bytes)
            else Inl ''issuer did:key is not an ed25519 public key'') (\<lambda>key_bytes.
     ed25519_key C key_bytes)))"

definition verify_signature ::
  "crypto \<Rightarrow> string \<Rightarrow> string \<Rightarrow> json \<Rightarrow> (EncryptionServiceError, unit) result" where
  "verify_signature C issuer sig payload =
     rbind (map_err SignatureInvalid (did_key_public_key C issuer)) (\<lambda>key.
     rbind (ok_or (base64_decode C sig) (SignatureInvalid ''invalid base64'')) (\<lambda>sig_bytes.
     if ed25519_verify C key (canonical_json_bytes (texts C) payload) sig_bytes then Inr ()
     else Inl (SignatureInvalid ''signature does not verify for issuer did:key'')))"

definition validate_invocation_time ::
  "EncryptionService \<Rightarrow> time \<Rightarrow> int option \<Rightarrow> int \<Rightarrow> (EncryptionServiceError, unit) result" where
  "validate_invocation_time sv now not_before expiry =
     (let now_ts = unix_timestamp now
      in if (case not_before of Some nbf \<Rightarrow> now_ts < nbf | None \<Rightarrow> False) then Inl NotYetValid
         else if expiry \<le> now_ts then Inl Expired
         else if expiry - now_ts > sv_invocation_ttl_seconds sv then Inl Expired
         else Inr ())"

text \<open>The expiry column of a nonce; a date that does not exist or cannot be printed is replaced by the clock.\<close>

definition nonce_expiry :: "crypto \<Rightarrow> time \<Rightarrow> int \<Rightarrow> string" where
  "nonce_expiry C now expiry =
     (case rfc3339 C (if timestamp_ok C expiry then expiry * 1000000000 else now) of
        Some s \<Rightarrow> s
      | None \<Rightarrow> now_rfc3339 C now)"

definition consume_nonce ::
  "crypto \<Rightarrow> time \<Rightarrow> enc_db \<Rightarrow> string \<Rightarrow> string \<Rightarrow> int \<Rightarrow> enc_db \<times> (EncryptionServiceError, unit) result" where
  "consume_nonce C now db requester nonce expiry =
     (if list_ex (\<lambda>r. no_requester_did r = requester \<and> no_nonce r = nonce) (nonces db) then (db, Inl NonceReplay)
      else
        (db\<lparr>nonces := nonces db @ [\<lparr>no_requester_did = requester, no_nonce = nonce,
                                    no_expires_at = nonce_expiry C now expiry\<rparr>]\<rparr>,
         Inr ()))"

text \<open>An audit row is kept when its request hash is new; a repeated one is dropped.\<close>

definition insert_audit :: "audit_row \<Rightarrow> enc_db \<Rightarrow> enc_db" where
  "insert_audit row db =
     (if list_ex (\<lambda>r. au_request_hash r = au_request_hash row) (audits db) then db
      else db\<lparr>audits := audits db @ [row]\<rparr>)"

definition record_audit ::
  "crypto \<Rightarrow> EncryptionService \<Rightarrow> time \<Rightarrow> DecryptInvocation \<Rightarrow> NetworkId \<Rightarrow> string \<Rightarrow> enc_db \<Rightarrow> enc_db" where
  "record_audit C sv now i network_id outcome db =
     insert_audit
       \<lparr>au_request_hash = hash_hex C (invocation_cid C decrypt_facts_value i @ df_body_hash (en_facts i)),
        au_requester = en_issuer i, au_network_id = network_id_display network_id, au_node_id = sv_node_did sv,
        au_outcome = outcome, au_decided_at = now_rfc3339 C now\<rparr> db"

definition verify_network_admin_invocation ::
  "externals \<Rightarrow> crypto \<Rightarrow> EncryptionService \<Rightarrow> time \<Rightarrow> enc_db \<Rightarrow> NetworkId \<Rightarrow> string \<Rightarrow> NetworkAdminInvocation \<Rightarrow>
   json \<Rightarrow> enc_db \<times> (EncryptionServiceError, unit) result" where
  "verify_network_admin_invocation X C sv now db network_id action i body =
     (let checks =
        (if af_ty (en_facts i) \<noteq> NETWORK_ADMIN_TYPE then Inl WrongInvocationType
         else if en_audience i \<noteq> sv_node_did sv then Inl AudienceMismatch
         else if af_target_node (en_facts i) \<noteq> sv_node_did sv then Inl TargetNodeMismatch
         else if af_network_id (en_facts i) \<noteq> network_id then Inl NetworkMismatch
         else if af_action (en_facts i) \<noteq> action then Inl EncUnauthorized
         else
           rbind (ok_or (find (\<lambda>c. ic_can c = action) (en_att i)) EncUnauthorized) (\<lambda>cap.
           if \<not> network_id_matches X (ic_with cap) network_id then Inl NetworkMismatch
           else if \<not> did_principal_matches X (en_issuer i) (owner_did network_id) then Inl OwnerMismatch
           else if canonical_hash C body \<noteq> af_body_hash (en_facts i) then Inl (HashMismatch ''bodyHash'')
           else
             rbind (validate_invocation_time sv now (en_not_before i) (en_exp i)) (\<lambda>_.
             verify_signature C (en_issuer i) (en_sig i) (unsigned_payload admin_facts_value i))))
      in case checks of
           Inl e \<Rightarrow> (db, Inl e)
         | Inr _ \<Rightarrow> consume_nonce C now db (en_issuer i) (en_nonce i) (en_exp i))"

section \<open>Decryption\<close>

text \<open>The state of the network: the outcome to record, where one is, and the error.\<close>

definition network_usable :: "NetworkDescriptor \<Rightarrow> (string \<times> EncryptionServiceError, unit) result" where
  "network_usable d =
     (case ds_state d of
        Active \<Rightarrow> Inr ()
      | Revoked \<Rightarrow> Inl (''denied:revoked'', NetworkRevoked)
      | other \<Rightarrow> Inl (''denied:state'', NetworkNotActive (network_state_str other)))"

text \<open>The hashes the request carries twice, against what the node computes.\<close>

definition hash_bindings ::
  "crypto \<Rightarrow> json \<Rightarrow> DecryptRequestBody \<Rightarrow> DecryptFacts \<Rightarrow> (string \<times> EncryptionServiceError, unit) result" where
  "hash_bindings C body_value body facts =
     (let receiver = canonical_hash C (JString (rb_receiver_public_key body));
          key = canonical_hash C (JString (rb_encrypted_symmetric_key body))
      in if receiver \<noteq> rb_receiver_public_key_hash body \<or> receiver \<noteq> df_receiver_public_key_hash facts
         then Inl (''denied:receiver-hash'', HashMismatch ''receiverPublicKeyHash'')
         else if key \<noteq> rb_encrypted_symmetric_key_hash body \<or> key \<noteq> df_encrypted_symmetric_key_hash facts
         then Inl (''denied:key-hash'', HashMismatch ''encryptedSymmetricKeyHash'')
         else if canonical_hash C body_value \<noteq> df_body_hash facts
         then Inl (''denied:body-hash'', HashMismatch ''bodyHash'')
         else Inr ())"

definition sign_response ::
  "crypto \<Rightarrow> EncryptionService \<Rightarrow> DecryptResponseBody \<Rightarrow> (EncryptionServiceError, string) result" where
  "sign_response C sv response =
     (let message = canonical_json_bytes (texts C) (response_value response)
      in case sv_node_keypair sv of
           Some sign \<Rightarrow> rbind (map_err Signing (sign message)) (\<lambda>signature. Inr (base64_encode C signature))
         | None \<Rightarrow> Inr (base64_encode C (hash_hex C message)))"

text \<open>Unwrapping with the sealed key of the network, wrapping for the receiver, and the signed response.\<close>

definition rewrapped_key ::
  "EncryptionService \<Rightarrow> enc_db \<Rightarrow> NetworkId \<Rightarrow> string \<Rightarrow> string \<Rightarrow> (EncryptionServiceError, string) result" where
  "rewrapped_key sv db network_id wrapped receiver =
     rbind (ok_or (find_network db network_id) NetworkNotFound) (\<lambda>row.
     rbind (ok_or (nw_sealed_private_key row) (Backend SealedKeyMissing)) (\<lambda>sealed.
     rbind (map_err Backend (kb_unwrap (sv_backend sv) sealed wrapped)) (\<lambda>symmetric.
     map_err Backend (kb_rewrap (sv_backend sv) symmetric receiver))))"

definition decrypt_response ::
  "crypto \<Rightarrow> EncryptionService \<Rightarrow> enc_db \<Rightarrow> NetworkId \<Rightarrow> DecryptRequestBody \<Rightarrow> NetworkDescriptor \<Rightarrow> string \<Rightarrow> string \<Rightarrow>
   string \<Rightarrow> string \<Rightarrow> (EncryptionServiceError, DecryptResponseBody) result" where
  "decrypt_response C sv db network_id body descriptor wrapped receiver cid request_hash =
     rbind (rewrapped_key sv db network_id wrapped receiver) (\<lambda>rewrapped.
     let response =
       \<lparr>rs_ty = DECRYPT_RESULT_TYPE, rs_target_node = sv_node_did sv, rs_network_id = network_id,
        rs_invocation_cid = cid,
        rs_encrypted_symmetric_key_hash = canonical_hash C (JString (rb_encrypted_symmetric_key body)),
        rs_receiver_public_key_hash = canonical_hash C (JString (rb_receiver_public_key body)),
        rs_wrapped_key = base64_encode C rewrapped, rs_alg = ds_alg descriptor,
        rs_key_version = ds_key_version descriptor, rs_request_hash = request_hash,
        rs_node_id = sv_node_did sv, rs_node_signature = []\<rparr>
     in rbind (sign_response C sv response) (\<lambda>signature. Inr (response\<lparr>rs_node_signature := signature\<rparr>)))"

text \<open>
  What is checked before the nonce is consumed, in order. A failure says whether it is recorded, and
  as what; success gives the descriptor, the wrapped key and the receiver's key.
\<close>

definition decrypt_checks ::
  "externals \<Rightarrow> crypto \<Rightarrow> EncryptionService \<Rightarrow> time \<Rightarrow> enc_db \<Rightarrow> NetworkId \<Rightarrow> DecryptInvocation \<Rightarrow> json \<Rightarrow>
   DecryptRequestBody \<Rightarrow> (string option \<times> EncryptionServiceError, NetworkDescriptor \<times> string \<times> string) result" where
  "decrypt_checks X C sv now db network_id i body_value body =
     (if rb_ty body \<noteq> DECRYPT_REQUEST_TYPE \<or> df_ty (en_facts i) \<noteq> DECRYPT_REQUEST_TYPE
      then Inl (None, WrongInvocationType)
      else if en_audience i \<noteq> sv_node_did sv then Inl (Some ''denied:audience'', AudienceMismatch)
      else if df_target_node (en_facts i) \<noteq> sv_node_did sv \<or> rb_target_node body \<noteq> sv_node_did sv
      then Inl (Some ''denied:target-node'', TargetNodeMismatch)
      else if df_network_id (en_facts i) \<noteq> network_id \<or> rb_network_id body \<noteq> network_id
      then Inl (None, NetworkMismatch)
      else
        rbind (map_err (Pair None) (verify_signature C (en_issuer i) (en_sig i) (unsigned_payload decrypt_facts_value i))) (\<lambda>_.
        rbind (ok_or (find (\<lambda>c. ic_can c = DECRYPT_ACTION) (en_att i)) (None, EncUnauthorized)) (\<lambda>cap.
        if \<not> network_id_matches X (ic_with cap) network_id then Inl (None, NetworkMismatch)
        else if \<not> did_principal_matches X (en_issuer i) (owner_did network_id) then Inl (None, OwnerMismatch)
        else
        rbind (map_err (Pair None) (get_network db network_id)) (\<lambda>descriptor.
        rbind (map_err (map_prod Some id) (network_usable descriptor)) (\<lambda>_.
        if ds_alg descriptor \<noteq> rb_alg body \<or> ds_key_version descriptor \<noteq> rb_key_version body
        then Inl (None, AlgKeyVersionMismatch)
        else if ds_alg descriptor \<noteq> df_alg (en_facts i) \<or> ds_key_version descriptor \<noteq> df_key_version (en_facts i)
        then Inl (None, AlgKeyVersionMismatch)
        else
        rbind (map_err (Pair None) (validate_invocation_time sv now (en_not_before i) (en_exp i))) (\<lambda>_.
        rbind (ok_or (base64_decode C (rb_receiver_public_key body)) (None, Base64Error ''invalid base64'')) (\<lambda>receiver.
        rbind (ok_or (base64_decode C (rb_encrypted_symmetric_key body)) (None, Base64Error ''invalid base64'')) (\<lambda>wrapped.
        rbind (map_err (map_prod Some id) (hash_bindings C body_value body (en_facts i))) (\<lambda>_.
        Inr (descriptor, wrapped, receiver))))))))))"

definition service_decrypt ::
  "externals \<Rightarrow> crypto \<Rightarrow> EncryptionService \<Rightarrow> time \<Rightarrow> enc_db \<Rightarrow> NetworkId \<Rightarrow> DecryptInvocation \<Rightarrow> json \<Rightarrow>
   enc_db \<times> (EncryptionServiceError, DecryptResponseBody \<times> string) result" where
  "service_decrypt X C sv now db network_id i body_value =
     (case body_from_value C body_value of
        Inl e \<Rightarrow> (db, Inl (InvalidBody e))
      | Inr body \<Rightarrow>
          (case decrypt_checks X C sv now db network_id i body_value body of
             Inl (None, e) \<Rightarrow> (db, Inl e)
           | Inl (Some outcome, e) \<Rightarrow> (record_audit C sv now i network_id outcome db, Inl e)
           | Inr (descriptor, wrapped, receiver) \<Rightarrow>
               (let cid = invocation_cid C decrypt_facts_value i;
                    request_hash = hash_hex C (cid @ canonical_hash C body_value)
                in case consume_nonce C now db (en_issuer i) (en_nonce i) (en_exp i) of
                     (db1, Inl e) \<Rightarrow> (record_audit C sv now i network_id ''denied:replay'' db1, Inl e)
                   | (db1, Inr _) \<Rightarrow>
                       (case decrypt_response C sv db1 network_id body descriptor wrapped receiver cid request_hash of
                          Inl e \<Rightarrow> (db1, Inl e)
                        | Inr response \<Rightarrow>
                            (record_audit C sv now i network_id ''allowed'' db1, Inr (response, request_hash))))))"

section \<open>Native invocations\<close>

text \<open>
  The requests that come as TinyCloud invocations: the facts of the token, found by decoding each in
  turn, its expiry and its nonce. The chain of proofs has been validated before.
\<close>

definition native_fact :: "(json \<Rightarrow> 'f option) \<Rightarrow> InvocationInfo \<Rightarrow> (EncryptionServiceError, 'f) result" where
  "native_fact decode i =
     ok_or (Option.bind (u_facts (ii_invocation i)) (\<lambda>fs. case List.map_filter decode fs of f # _ \<Rightarrow> Some f | [] \<Rightarrow> None))
       (InvalidBody ''missing encryption invocation facts'')"

definition native_invocation_exp :: "InvocationInfo \<Rightarrow> int" where
  "native_invocation_exp i = rat_as_i64 (u_expiration (ii_invocation i))"

definition native_invocation_not_before :: "InvocationInfo \<Rightarrow> int option" where
  "native_invocation_not_before i = map_option rat_as_i64 (u_not_before (ii_invocation i))"

definition native_invocation_nonce :: "InvocationInfo \<Rightarrow> (EncryptionServiceError, string) result" where
  "native_invocation_nonce i = ok_or (u_nonce (ii_invocation i)) (InvalidBody ''missing nonce'')"

definition native_invocation_cid :: "externals \<Rightarrow> InvocationInfo \<Rightarrow> string" where
  "native_invocation_cid X i = cid_display X (to_cid (hash_bytes X (u_raw (ii_invocation i))) RAW_CODEC)"

definition record_native_audit ::
  "externals \<Rightarrow> crypto \<Rightarrow> EncryptionService \<Rightarrow> time \<Rightarrow> InvocationInfo \<Rightarrow> NetworkId \<Rightarrow> DecryptFacts \<Rightarrow> string \<Rightarrow> enc_db \<Rightarrow> enc_db" where
  "record_native_audit X C sv now i network_id facts outcome db =
     insert_audit
       \<lparr>au_request_hash = hash_hex C (native_invocation_cid X i @ df_body_hash facts),
        au_requester = ii_invoker i, au_network_id = network_id_display network_id, au_node_id = sv_node_did sv,
        au_outcome = outcome, au_decided_at = now_rfc3339 C now\<rparr> db"

definition verify_network_admin_authorized ::
  "externals \<Rightarrow> crypto \<Rightarrow> EncryptionService \<Rightarrow> time \<Rightarrow> enc_db \<Rightarrow> NetworkId \<Rightarrow> string \<Rightarrow> InvocationInfo \<Rightarrow> json \<Rightarrow>
   enc_db \<times> (EncryptionServiceError, unit) result" where
  "verify_network_admin_authorized X C sv now db network_id action i body =
     (let checks =
        rbind (native_fact (admin_facts_from_value C) i) (\<lambda>facts.
        if af_ty facts \<noteq> NETWORK_ADMIN_TYPE then Inl WrongInvocationType
        else if u_audience (ii_invocation i) \<noteq> sv_node_did sv then Inl AudienceMismatch
        else if af_target_node facts \<noteq> sv_node_did sv then Inl TargetNodeMismatch
        else if af_network_id facts \<noteq> network_id then Inl NetworkMismatch
        else if af_action facts \<noteq> action then Inl EncUnauthorized
        else
          rbind (ok_or (find (\<lambda>c. cap_ability c = action) (ii_capabilities i)) EncUnauthorized) (\<lambda>cap.
          if \<not> network_id_matches X (resource_type_display (cap_resource cap)) network_id then Inl NetworkMismatch
          else if canonical_hash C body \<noteq> af_body_hash facts then Inl (HashMismatch ''bodyHash'')
          else native_invocation_nonce i))
      in case checks of
           Inl e \<Rightarrow> (db, Inl e)
         | Inr nonce \<Rightarrow> consume_nonce C now db (ii_invoker i) nonce (native_invocation_exp i))"

definition decrypt_authorized_checks ::
  "externals \<Rightarrow> crypto \<Rightarrow> EncryptionService \<Rightarrow> time \<Rightarrow> enc_db \<Rightarrow> NetworkId \<Rightarrow> InvocationInfo \<Rightarrow> json \<Rightarrow>
   DecryptRequestBody \<Rightarrow> DecryptFacts \<Rightarrow>
   (string option \<times> EncryptionServiceError, NetworkDescriptor \<times> string \<times> string) result" where
  "decrypt_authorized_checks X C sv now db network_id i body_value body facts =
     (if rb_ty body \<noteq> DECRYPT_REQUEST_TYPE \<or> df_ty facts \<noteq> DECRYPT_REQUEST_TYPE
      then Inl (None, WrongInvocationType)
      else if u_audience (ii_invocation i) \<noteq> sv_node_did sv then Inl (Some ''denied:audience'', AudienceMismatch)
      else if df_target_node facts \<noteq> sv_node_did sv \<or> rb_target_node body \<noteq> sv_node_did sv
      then Inl (Some ''denied:target-node'', TargetNodeMismatch)
      else if df_network_id facts \<noteq> network_id \<or> rb_network_id body \<noteq> network_id
      then Inl (None, NetworkMismatch)
      else
        rbind (ok_or (find (\<lambda>c. cap_ability c = DECRYPT_ACTION) (ii_capabilities i)) (None, EncUnauthorized)) (\<lambda>cap.
        if \<not> network_id_matches X (resource_type_display (cap_resource cap)) network_id then Inl (None, NetworkMismatch)
        else
        rbind (map_err (Pair None) (get_network db network_id)) (\<lambda>descriptor.
        rbind (map_err (map_prod Some id) (network_usable descriptor)) (\<lambda>_.
        if ds_alg descriptor \<noteq> rb_alg body \<or> ds_key_version descriptor \<noteq> rb_key_version body
        then Inl (None, AlgKeyVersionMismatch)
        else if ds_alg descriptor \<noteq> df_alg facts \<or> ds_key_version descriptor \<noteq> df_key_version facts
        then Inl (None, AlgKeyVersionMismatch)
        else
        rbind (map_err (Pair None) (validate_invocation_time sv now (native_invocation_not_before i) (native_invocation_exp i))) (\<lambda>_.
        rbind (ok_or (base64_decode C (rb_receiver_public_key body)) (None, Base64Error ''invalid base64'')) (\<lambda>receiver.
        rbind (ok_or (base64_decode C (rb_encrypted_symmetric_key body)) (None, Base64Error ''invalid base64'')) (\<lambda>wrapped.
        rbind (map_err (map_prod Some id) (hash_bindings C body_value body facts)) (\<lambda>_.
        Inr (descriptor, wrapped, receiver)))))))))"

definition decrypt_authorized ::
  "externals \<Rightarrow> crypto \<Rightarrow> EncryptionService \<Rightarrow> time \<Rightarrow> enc_db \<Rightarrow> NetworkId \<Rightarrow> InvocationInfo \<Rightarrow> json \<Rightarrow>
   enc_db \<times> (EncryptionServiceError, DecryptResponseBody \<times> string) result" where
  "decrypt_authorized X C sv now db network_id i body_value =
     (case body_from_value C body_value of
        Inl e \<Rightarrow> (db, Inl (InvalidBody e))
      | Inr body \<Rightarrow>
          (case native_fact (decrypt_facts_from_value C) i of
             Inl e \<Rightarrow> (db, Inl e)
           | Inr facts \<Rightarrow>
               (case decrypt_authorized_checks X C sv now db network_id i body_value body facts of
                  Inl (None, e) \<Rightarrow> (db, Inl e)
                | Inl (Some outcome, e) \<Rightarrow> (record_native_audit X C sv now i network_id facts outcome db, Inl e)
                | Inr (descriptor, wrapped, receiver) \<Rightarrow>
                    (let cid = native_invocation_cid X i;
                         request_hash = hash_hex C (cid @ canonical_hash C body_value)
                     in case native_invocation_nonce i of
                          Inl e \<Rightarrow> (db, Inl e)
                        | Inr nonce \<Rightarrow>
                            (case consume_nonce C now db (ii_invoker i) nonce (native_invocation_exp i) of
                               (db1, Inl e) \<Rightarrow>
                                 (record_native_audit X C sv now i network_id facts ''denied:replay'' db1, Inl e)
                             | (db1, Inr _) \<Rightarrow>
                                 (case decrypt_response C sv db1 network_id body descriptor wrapped receiver cid request_hash of
                                    Inl e \<Rightarrow> (db1, Inl e)
                                  | Inr response \<Rightarrow>
                                      (record_native_audit X C sv now i network_id facts ''allowed'' db1,
                                       Inr (response, request_hash))))))))"

end
