(* ===== verification/Encryption_History.thy ===== *)
theory Encryption_History
  imports Encryption_Network
begin

text \<open>
  What the operations of the encryption service keep: used nonces stay used, a network keeps its keys,
  and a revoked network stays revoked, over every run of the service.
\<close>

section \<open>Runs\<close>

text \<open>One operation of the service; the service value varies because it carries the random draw of the call.\<close>

inductive enc_step :: "externals \<Rightarrow> crypto \<Rightarrow> enc_db \<Rightarrow> enc_db \<Rightarrow> bool" for X C where
  create: "enc_step X C db (fst (create_one_of_one_network X C sv now db name owner threshold))"
| revoke: "enc_step X C db (fst (revoke_network C now db n))"
| admin: "enc_step X C db (fst (verify_network_admin_invocation X C sv now db n action i body))"
| admin_native: "enc_step X C db (fst (verify_network_admin_authorized X C sv now db n action j body))"
| decrypt: "enc_step X C db (fst (service_decrypt X C sv now db n e body))"
| decrypt_native: "enc_step X C db (fst (decrypt_authorized X C sv now db n j body))"

abbreviation enc_run :: "externals \<Rightarrow> crypto \<Rightarrow> enc_db \<Rightarrow> enc_db \<Rightarrow> bool" where
  "enc_run X C \<equiv> (enc_step X C)\<^sup>*\<^sup>*"

definition nonce_used :: "enc_db \<Rightarrow> string \<Rightarrow> string \<Rightarrow> bool" where
  "nonce_used db requester nonce \<longleftrightarrow> (\<exists>r \<in> set (nonces db). no_requester_did r = requester \<and> no_nonce r = nonce)"

section \<open>Effects\<close>

named_theorems enc_effects "what an operation leaves of each table"

lemma insert_audit_effects [enc_effects, simp]:
  "networks (insert_audit row db) = networks db"
  "nonces (insert_audit row db) = nonces db"
  "members (insert_audit row db) = members db"
  by (simp_all add: insert_audit_def)

lemma record_audit_effects [enc_effects, simp]:
  "networks (record_audit C sv now i n outcome db) = networks db"
  "nonces (record_audit C sv now i n outcome db) = nonces db"
  "networks (record_native_audit X C sv now j n facts outcome db) = networks db"
  "nonces (record_native_audit X C sv now j n facts outcome db) = nonces db"
  by (simp_all add: record_audit_def record_native_audit_def)

lemma consume_nonce_cases:
  obtains (replay) "nonce_used db requester nonce" "consume_nonce C now db requester nonce e = (db, Inl NonceReplay)"
  | (fresh) row where "\<not> nonce_used db requester nonce" "no_requester_did row = requester" "no_nonce row = nonce"
      "consume_nonce C now db requester nonce e = (db\<lparr>nonces := nonces db @ [row]\<rparr>, Inr ())"
proof (cases "nonce_used db requester nonce")
  case True
  then show ?thesis using replay by (simp add: consume_nonce_def nonce_used_def list_ex_iff)
next
  case False
  let ?row = "\<lparr>no_requester_did = requester, no_nonce = nonce, no_expires_at = nonce_expiry C now e\<rparr>"
  from False have "consume_nonce C now db requester nonce e = (db\<lparr>nonces := nonces db @ [?row]\<rparr>, Inr ())"
    by (auto simp: consume_nonce_def nonce_used_def list_ex_iff)
  with False show ?thesis using fresh [of ?row] by simp
qed

lemma consume_nonce_networks [enc_effects]: "networks (fst (consume_nonce C now db requester nonce e)) = networks db"
  by (simp add: consume_nonce_def)

lemma consume_nonce_nonces [enc_effects]:
  "set (nonces db) \<subseteq> set (nonces (fst (consume_nonce C now db requester nonce e)))"
  by (auto simp: consume_nonce_def)

text \<open>
  The outcomes of a decryption: refused before the nonce, refused as a replay, failed after the nonce,
  or answered. The last three have passed every check.
\<close>

lemma service_decrypt_cases:
  obtains (refused) e where "snd (service_decrypt X C sv now db n i v) = Inl e"
      "networks (fst (service_decrypt X C sv now db n i v)) = networks db"
      "nonces (fst (service_decrypt X C sv now db n i v)) = nonces db"
  | (spent) body descriptor wrapped receiver db1 where
      "body_from_value C v = Inr body"
      "decrypt_checks X C sv now db n i v body = Inr (descriptor, wrapped, receiver)"
      "\<not> nonce_used db (en_issuer i) (en_nonce i)"
      "consume_nonce C now db (en_issuer i) (en_nonce i) (en_exp i) = (db1, Inr ())"
      "networks (fst (service_decrypt X C sv now db n i v)) = networks db1"
      "nonces (fst (service_decrypt X C sv now db n i v)) = nonces db1"
      "map_sum id fst (snd (service_decrypt X C sv now db n i v)) =
         decrypt_response C sv db1 n body descriptor wrapped receiver (invocation_cid C decrypt_facts_value i)
           (hash_hex C (invocation_cid C decrypt_facts_value i @ canonical_hash C v))"
proof (cases "body_from_value C v")
  case (Inl e)
  then show ?thesis using refused by (simp add: service_decrypt_def)
next
  case body: (Inr body)
  show ?thesis
  proof (cases "decrypt_checks X C sv now db n i v body")
    case (Inl p)
    then show ?thesis using refused body by (cases p; cases "fst p") (simp_all add: service_decrypt_def)
  next
    case (Inr p)
    obtain descriptor wrapped receiver where p: "p = (descriptor, wrapped, receiver)" by (cases p)
    show ?thesis
    proof (cases rule: consume_nonce_cases [of db "en_issuer i" "en_nonce i" C now "en_exp i"])
      case replay
      then show ?thesis using refused body Inr p by (simp add: service_decrypt_def Let_def)
    next
      case (fresh row)
      show ?thesis
        by (rule spent [OF body _ fresh(1,4)]) (use body Inr p fresh in \<open>auto simp: service_decrypt_def Let_def split: sum.split\<close>)
    qed
  qed
qed

lemma decrypt_authorized_cases:
  obtains (refused) e where "snd (decrypt_authorized X C sv now db n i v) = Inl e"
      "networks (fst (decrypt_authorized X C sv now db n i v)) = networks db"
      "nonces (fst (decrypt_authorized X C sv now db n i v)) = nonces db"
  | (spent) body facts descriptor wrapped receiver nonce db1 where
      "body_from_value C v = Inr body" "native_fact (decrypt_facts_from_value C) i = Inr facts"
      "decrypt_authorized_checks X C sv now db n i v body facts = Inr (descriptor, wrapped, receiver)"
      "native_invocation_nonce i = Inr nonce" "\<not> nonce_used db (ii_invoker i) nonce"
      "consume_nonce C now db (ii_invoker i) nonce (native_invocation_exp i) = (db1, Inr ())"
      "networks (fst (decrypt_authorized X C sv now db n i v)) = networks db1"
      "nonces (fst (decrypt_authorized X C sv now db n i v)) = nonces db1"
proof (cases "body_from_value C v")
  case (Inl e)
  then show ?thesis using refused by (simp add: decrypt_authorized_def)
next
  case body: (Inr body)
  show ?thesis
  proof (cases "native_fact (decrypt_facts_from_value C) i")
    case (Inl e)
    then show ?thesis using refused body by (simp add: decrypt_authorized_def)
  next
    case facts: (Inr facts)
    show ?thesis
    proof (cases "decrypt_authorized_checks X C sv now db n i v body facts")
      case (Inl p)
      then show ?thesis using refused body facts by (cases p; cases "fst p") (simp_all add: decrypt_authorized_def)
    next
      case (Inr p)
      obtain descriptor wrapped receiver where p: "p = (descriptor, wrapped, receiver)" by (cases p)
      show ?thesis
      proof (cases "native_invocation_nonce i")
        case (Inl e)
        then show ?thesis using refused body facts Inr p by (simp add: decrypt_authorized_def Let_def)
      next
        case nonce: (Inr nonce)
        show ?thesis
        proof (cases rule: consume_nonce_cases [of db "ii_invoker i" nonce C now "native_invocation_exp i"])
          case replay
          then show ?thesis using refused body facts Inr p nonce by (simp add: decrypt_authorized_def Let_def)
        next
          case (fresh row)
          show ?thesis
            by (rule spent [OF body facts _ nonce fresh(1,4)])
              (use body facts Inr p nonce fresh in \<open>simp_all add: decrypt_authorized_def Let_def split: sum.split\<close>)
        qed
      qed
    qed
  qed
qed

section \<open>Invariants of a run\<close>

lemma admin_effects [enc_effects]:
  "networks (fst (verify_network_admin_invocation X C sv now db n action i body)) = networks db"
  "set (nonces db) \<subseteq> set (nonces (fst (verify_network_admin_invocation X C sv now db n action i body)))"
  "networks (fst (verify_network_admin_authorized X C sv now db n action j body)) = networks db"
  "set (nonces db) \<subseteq> set (nonces (fst (verify_network_admin_authorized X C sv now db n action j body)))"
  by (auto simp: verify_network_admin_invocation_def verify_network_admin_authorized_def Let_def
      consume_nonce_networks consume_nonce_nonces [THEN subsetD] split: sum.split)

lemma service_decrypt_effects [enc_effects]:
  "networks (fst (service_decrypt X C sv now db n i v)) = networks db"
  "set (nonces db) \<subseteq> set (nonces (fst (service_decrypt X C sv now db n i v)))"
proof -
  have "networks (fst (service_decrypt X C sv now db n i v)) = networks db \<and>
      set (nonces db) \<subseteq> set (nonces (fst (service_decrypt X C sv now db n i v)))"
  proof (cases rule: service_decrypt_cases [of X C sv now db n i v])
    case (spent body descriptor wrapped receiver db1)
    with consume_nonce_networks [of C now db "en_issuer i" "en_nonce i" "en_exp i"]
      consume_nonce_nonces [of db C now "en_issuer i" "en_nonce i" "en_exp i"] show ?thesis by simp
  qed simp
  then show "networks (fst (service_decrypt X C sv now db n i v)) = networks db"
    and "set (nonces db) \<subseteq> set (nonces (fst (service_decrypt X C sv now db n i v)))" by blast+
qed

lemma decrypt_authorized_effects [enc_effects]:
  "networks (fst (decrypt_authorized X C sv now db n i v)) = networks db"
  "set (nonces db) \<subseteq> set (nonces (fst (decrypt_authorized X C sv now db n i v)))"
proof -
  have "networks (fst (decrypt_authorized X C sv now db n i v)) = networks db \<and>
      set (nonces db) \<subseteq> set (nonces (fst (decrypt_authorized X C sv now db n i v)))"
  proof (cases rule: decrypt_authorized_cases [of X C sv now db n i v])
    case (spent body facts descriptor wrapped receiver nonce db1)
    with consume_nonce_networks [of C now db "ii_invoker i" nonce "native_invocation_exp i"]
      consume_nonce_nonces [of db C now "ii_invoker i" nonce "native_invocation_exp i"] show ?thesis by simp
  qed simp
  then show "networks (fst (decrypt_authorized X C sv now db n i v)) = networks db"
    and "set (nonces db) \<subseteq> set (nonces (fst (decrypt_authorized X C sv now db n i v)))" by blast+
qed

lemma create_effects:
  "nonces (fst (create_one_of_one_network X C sv now db name owner threshold)) = nonces db"
  "\<exists>rows. networks (fst (create_one_of_one_network X C sv now db name owner threshold)) = networks db @ rows"
  by (auto simp: create_one_of_one_network_def Let_def split: sum.split)

text \<open>What later states keep of the row of a network: its keys, and that it is revoked.\<close>

definition kept_row :: "network_row \<Rightarrow> network_row \<Rightarrow> bool" where
  "kept_row r r' \<longleftrightarrow>
     nw_public_key r' = nw_public_key r \<and> nw_sealed_private_key r' = nw_sealed_private_key r \<and>
     nw_owner_did r' = nw_owner_did r \<and> (nw_state r = ''revoked'' \<longrightarrow> nw_state r' = ''revoked'')"

lemma kept_row_refl [simp]: "kept_row r r"
  by (simp add: kept_row_def)

lemma kept_row_trans: "kept_row a b \<Longrightarrow> kept_row b c \<Longrightarrow> kept_row a c"
  by (auto simp: kept_row_def)

lemma revoke_effects:
  assumes "find_network db n = Some r"
  shows "nonces (fst (revoke_network C now db m)) = nonces db"
    and "\<exists>r'. find_network (fst (revoke_network C now db m)) n = Some r' \<and> kept_row r r' \<and>
      (m = n \<longrightarrow> nw_state r' = ''revoked'')"
proof -
  show "nonces (fst (revoke_network C now db m)) = nonces db"
    by (simp add: revoke_network_def split: option.split)
  let ?f = "\<lambda>r. if nw_network_id r = network_id_display m
    then r\<lparr>nw_state := network_state_str Revoked, nw_updated_at := now_rfc3339 C now\<rparr> else r"
  have id: "nw_network_id r = network_id_display n"
    using assms by (auto simp: find_network_def find_Some_iff)
  show "\<exists>r'. find_network (fst (revoke_network C now db m)) n = Some r' \<and> kept_row r r' \<and>
      (m = n \<longrightarrow> nw_state r' = ''revoked'')"
  proof (cases "find_network db m")
    case None
    with assms have "m \<noteq> n" by auto
    with None assms show ?thesis by (simp add: revoke_network_def)
  next
    case (Some r0)
    have "find (\<lambda>r. nw_network_id r = network_id_display n) (map ?f (networks db)) = Some (?f r)"
      using assms by (intro find_map_same) (auto simp: find_network_def)
    then have "find_network (fst (revoke_network C now db m)) n = Some (?f r)"
      by (simp add: revoke_network_def Some) (simp add: find_network_def)
    with id show ?thesis by (auto simp: kept_row_def)
  qed
qed

lemma enc_step_nonces: "enc_step X C db db' \<Longrightarrow> set (nonces db) \<subseteq> set (nonces db')"
proof (induction rule: enc_step.induct)
  case (revoke db now n)
  then show ?case by (simp add: revoke_network_def split: option.split)
qed (auto simp: create_effects dest: admin_effects(2,4) [THEN subsetD] service_decrypt_effects(2) [THEN subsetD]
    decrypt_authorized_effects(2) [THEN subsetD])

lemma enc_step_network:
  assumes "enc_step X C db db'" and "find_network db n = Some r"
  shows "\<exists>r'. find_network db' n = Some r' \<and> kept_row r r'"
  using assms
proof (induction rule: enc_step.induct)
  case (create db sv now name owner threshold)
  with create_effects(2) [of X C sv now db name owner threshold] show ?case
    by (auto simp: find_network_def find_append)
next
  case (revoke db now m)
  with revoke_effects(2) [OF revoke, of C now m] show ?case by blast
qed (auto simp: find_network_def enc_effects)

lemma enc_run_nonce_used: "enc_run X C db db' \<Longrightarrow> nonce_used db d k \<Longrightarrow> nonce_used db' d k"
  by (induction rule: rtranclp_induct) (auto simp: nonce_used_def dest: enc_step_nonces)

lemma enc_run_network:
  "enc_run X C db db' \<Longrightarrow> find_network db n = Some r \<Longrightarrow> \<exists>r'. find_network db' n = Some r' \<and> kept_row r r'"
proof (induction rule: rtranclp_induct)
  case base
  then show ?case by auto
next
  case (step db1 db2)
  then obtain r1 where "find_network db1 n = Some r1" "kept_row r r1" by blast
  with enc_step_network [OF step(2), of n r1] show ?case using kept_row_trans by blast
qed

section \<open>Answered requests\<close>

lemma network_usable_active: "network_usable d = Inr u \<Longrightarrow> ds_state d = Active"
  by (auto simp: network_usable_def split: NetworkState.splits)

lemma get_network_active:
  assumes "get_network db n = Inr d" and "ds_state d = Active"
  shows "\<exists>r. find_network db n = Some r \<and> nw_state r = ''active''"
  using assms by (auto simp: get_network_def network_state_parse_def split: if_splits)

lemma spent_nonce:
  assumes "consume_nonce C now db requester nonce e = (db1, Inr ())"
  shows "nonce_used db1 requester nonce"
  using assms by (auto simp: consume_nonce_def nonce_used_def split: if_splits)

lemma map_sum_Inr: "map_sum id fst m = Inr a \<longleftrightarrow> (\<exists>b. m = Inr (a, b))"
  by (cases m) auto

lemma service_decrypt_answered:
  assumes "service_decrypt X C sv now db n i v = (db', Inr (response, h))"
  obtains body descriptor wrapped receiver db1 where
    "body_from_value C v = Inr body"
    "decrypt_checks X C sv now db n i v body = Inr (descriptor, wrapped, receiver)"
    "\<not> nonce_used db (en_issuer i) (en_nonce i)" "nonce_used db' (en_issuer i) (en_nonce i)"
    "decrypt_response C sv db1 n body descriptor wrapped receiver (invocation_cid C decrypt_facts_value i)
       (hash_hex C (invocation_cid C decrypt_facts_value i @ canonical_hash C v)) = Inr response"
    "networks db1 = networks db"
proof (cases rule: service_decrypt_cases [of X C sv now db n i v])
  case (refused e)
  with assms show ?thesis by simp
next
  case (spent body descriptor wrapped receiver db1)
  have "nonce_used db' (en_issuer i) (en_nonce i)"
    using spent_nonce [OF spent(4)] spent(6) assms by (simp add: nonce_used_def)
  moreover have "networks db1 = networks db"
    using spent(5) service_decrypt_effects(1) [of X C sv now db n i v] by simp
  ultimately show ?thesis using that spent assms by simp
qed

lemma service_decrypt_audits:
  assumes "service_decrypt X C sv now db n i v = (db', Inr (response, h))"
  shows "h = hash_hex C (invocation_cid C decrypt_facts_value i @ canonical_hash C v)"
    and "audits db' = audits (record_audit C sv now i n ''allowed'' db)"
  using assms
  by (auto simp: service_decrypt_def Let_def consume_nonce_def record_audit_def insert_audit_def
      split: sum.splits prod.splits option.splits if_splits)

lemma create_network_row:
  assumes "create_one_of_one_network X C sv now db name owner threshold = (db', Inr d)"
  shows "\<exists>g r. kb_generate (sv_backend sv) = Inr g \<and> find_network db' (ds_network_id d) = Some r \<and>
    nw_sealed_private_key r = Some (gk_sealed_private_key g) \<and> ds_public_encryption_key d = gk_public_key g"
  using assms
  by (auto simp: create_one_of_one_network_def Let_def find_network_def find_snoc split: sum.splits if_splits)

lemma unwrap_wrapped:
  assumes "wrap_to_public_key X C b (x25519_public C a) p = Inr w" and "x25519_law C" and "aes_law X"
  shows "unwrap_with_secret X C a w = Inr p"
proof -
  have w: "w = x25519_public C b @ encrypt X (x25519_shared C b (x25519_public C a)) p"
    using assms(1) by (simp add: wrap_to_public_key_def split: if_splits)
  moreover have "x25519_shared C a (x25519_public C b) = x25519_shared C b (x25519_public C a)" "length (x25519_public C b) = 32"
    using assms(2) by (auto simp: x25519_law_def)
  ultimately show ?thesis using decrypt_encrypt [OF assms(3)] by (simp add: unwrap_with_secret_def)
qed

end
