(* ===== verification/Encryption_Routes.thy ===== *)
theory Encryption_Routes
  imports Encryption_History Node_Api Authority_History
begin

text \<open>
  The endpoints of the encryption networks: \<open>tinycloud-node-server/src/routes/encryption.rs\<close>. An
  endpoint that changes something first has the node invoke the token of the request, as any other
  invocation and with nothing to write, and then runs the service. The two read the clock on their own.
  The texts of the error answers and the metrics are left out; the decoder that \<open>serde\<close> derives for the
  body of a creation is a parameter.
\<close>

section \<open>Endpoints\<close>

datatype route_status = BadRequest | Unauthorized | NotFound | Conflict | InternalServerError

fun map_service_err :: "EncryptionServiceError \<Rightarrow> route_status" where
  "map_service_err NetworkNotFound = NotFound"
| "map_service_err NetworkAlreadyExists = Conflict"
| "map_service_err EncDb = InternalServerError"
| "map_service_err (Backend _) = InternalServerError"
| "map_service_err (Signing _) = InternalServerError"
| "map_service_err AudienceMismatch = Unauthorized"
| "map_service_err TargetNodeMismatch = Unauthorized"
| "map_service_err OwnerMismatch = Unauthorized"
| "map_service_err NetworkMismatch = Unauthorized"
| "map_service_err EncUnauthorized = Unauthorized"
| "map_service_err NetworkRevoked = Unauthorized"
| "map_service_err NonceReplay = Unauthorized"
| "map_service_err EncryptionServiceError.Expired = Unauthorized"
| "map_service_err NotYetValid = Unauthorized"
| "map_service_err (SignatureInvalid _) = Unauthorized"
| "map_service_err WrongInvocationType = Unauthorized"
| "map_service_err AlgKeyVersionMismatch = Unauthorized"
| "map_service_err (HashMismatch _) = Unauthorized"
| "map_service_err (NetworkNotActive _) = Conflict"
| "map_service_err (InvalidBody _) = BadRequest"
| "map_service_err (Base64Error _) = BadRequest"

text \<open>What the endpoints share: the database of the node, its blocks and the tables of the service.\<close>

record 'b node_state =
  ns_db :: database
  ns_blocks :: 'b
  ns_enc :: enc_db

definition verify_auth ::
  "externals \<Rightarrow> decoders \<Rightarrow> 'b blocks \<Rightarrow> time \<Rightarrow> 'b node_state \<Rightarrow> InvocationInfo \<times> string \<Rightarrow> string \<Rightarrow>
   (route_status, unit) result \<times> 'b node_state" where
  "verify_auth X D B now st invocation node_did =
     (if u_audience (ii_invocation (fst invocation)) \<noteq> node_did then (Inl Unauthorized, st)
      else
        (case invoke X D B now (ns_db st) (ns_blocks st) invocation [] of
           (Inl _, b) \<Rightarrow> (Inl Unauthorized, st\<lparr>ns_blocks := b\<rparr>)
         | (Inr (_, db), b) \<Rightarrow> (Inr (), st\<lparr>ns_db := db, ns_blocks := b\<rparr>)))"

definition decrypt_route ::
  "externals \<Rightarrow> decoders \<Rightarrow> 'b blocks \<Rightarrow> crypto \<Rightarrow> EncryptionService \<Rightarrow> time \<Rightarrow> time \<Rightarrow> 'b node_state \<Rightarrow>
   string \<Rightarrow> InvocationInfo \<times> string \<Rightarrow> json \<Rightarrow> (route_status, DecryptResponseBody) result \<times> 'b node_state" where
  "decrypt_route X D B C sv now later st network_id invocation body =
     (case verify_auth X D B now st invocation (sv_node_did sv) of
        (Inl e, st) \<Rightarrow> (Inl e, st)
      | (Inr _, st) \<Rightarrow>
          (case network_id_from_str X network_id of
             Inl _ \<Rightarrow> (Inl BadRequest, st)
           | Inr net \<Rightarrow>
               (case decrypt_authorized X C sv later (ns_enc st) net (fst invocation) body of
                  (enc, Inl e) \<Rightarrow> (Inl (map_service_err e), st\<lparr>ns_enc := enc\<rparr>)
                | (enc, Inr (response, _)) \<Rightarrow> (Inr response, st\<lparr>ns_enc := enc\<rparr>))))"

definition revoke_route ::
  "externals \<Rightarrow> decoders \<Rightarrow> 'b blocks \<Rightarrow> crypto \<Rightarrow> EncryptionService \<Rightarrow> time \<Rightarrow> time \<Rightarrow> 'b node_state \<Rightarrow>
   string \<Rightarrow> InvocationInfo \<times> string \<Rightarrow> (route_status, unit) result \<times> 'b node_state" where
  "revoke_route X D B C sv now later st network_id invocation =
     (case verify_auth X D B now st invocation (sv_node_did sv) of
        (Inl e, st) \<Rightarrow> (Inl e, st)
      | (Inr _, st) \<Rightarrow>
          (case network_id_from_str X network_id of
             Inl _ \<Rightarrow> (Inl BadRequest, st)
           | Inr net \<Rightarrow>
               (case verify_network_admin_authorized X C sv later (ns_enc st) net NETWORK_REVOKE_ACTION (fst invocation)
                       (JObject []) of
                  (enc, Inl e) \<Rightarrow> (Inl (map_service_err e), st\<lparr>ns_enc := enc\<rparr>)
                | (enc, Inr _) \<Rightarrow>
                    (case revoke_network C later enc net of
                       (enc, Inl e) \<Rightarrow> (Inl (map_service_err e), st\<lparr>ns_enc := enc\<rparr>)
                     | (enc, Inr _) \<Rightarrow> (Inr (), st\<lparr>ns_enc := enc\<rparr>)))))"

record CreateNetworkBody =
  cb_name :: string
  cb_owner_did :: string
  cb_threshold :: "int \<times> int"

definition create_route ::
  "externals \<Rightarrow> decoders \<Rightarrow> 'b blocks \<Rightarrow> crypto \<Rightarrow> EncryptionService \<Rightarrow> (json \<Rightarrow> CreateNetworkBody option) \<Rightarrow>
   time \<Rightarrow> time \<Rightarrow> 'b node_state \<Rightarrow> InvocationInfo \<times> string \<Rightarrow> json \<Rightarrow>
   (route_status, NetworkDescriptor) result \<times> 'b node_state" where
  "create_route X D B C sv from_value now later st invocation body_value =
     (case verify_auth X D B now st invocation (sv_node_did sv) of
        (Inl e, st) \<Rightarrow> (Inl e, st)
      | (Inr _, st) \<Rightarrow>
          (case from_value body_value of
             None \<Rightarrow> (Inl BadRequest, st)
           | Some body \<Rightarrow>
               (case network_id_new X (cb_owner_did body) (cb_name body) of
                  Inl _ \<Rightarrow> (Inl BadRequest, st)
                | Inr net \<Rightarrow>
                    (case verify_network_admin_authorized X C sv later (ns_enc st) net NETWORK_CREATE_ACTION (fst invocation)
                            body_value of
                       (enc, Inl e) \<Rightarrow> (Inl (map_service_err e), st\<lparr>ns_enc := enc\<rparr>)
                     | (enc, Inr _) \<Rightarrow>
                         (case create_one_of_one_network X C sv later enc (cb_name body) (cb_owner_did body)
                                 (cb_threshold body) of
                            (enc, Inl e) \<Rightarrow> (Inl (map_service_err e), st\<lparr>ns_enc := enc\<rparr>)
                          | (enc, Inr descriptor) \<Rightarrow> (Inr descriptor, st\<lparr>ns_enc := enc\<rparr>))))))"

definition get_network_route ::
  "externals \<Rightarrow> 'b node_state \<Rightarrow> string \<Rightarrow> (route_status, NetworkDescriptor) result" where
  "get_network_route X st network_id =
     (case network_id_from_str X network_id of
        Inl _ \<Rightarrow> Inl BadRequest
      | Inr net \<Rightarrow> map_err map_service_err (get_network (ns_enc st) net))"

text \<open>The descriptor that the discovery record is rendered from.\<close>

definition well_known_network ::
  "externals \<Rightarrow> 'b node_state \<Rightarrow> string \<Rightarrow> string option \<Rightarrow> (route_status, NetworkDescriptor) result" where
  "well_known_network X st name owner = map_err map_service_err (get_network_by_name X (ns_enc st) name owner)"

section \<open>What the invocation of the token shows\<close>

lemma chain_loop_same:
  "parent_delegations db1 = parent_delegations db \<Longrightarrow> chain_loop db1 visited frontier = chain_loop db visited frontier"
proof (induction db visited frontier rule: chain_loop.induct)
  case (2 db visited current frontier)
  then show ?case by (auto simp: Let_def parent_links_def split: sum.splits)
qed simp

lemma chain_clean_same:
  assumes "delegations db1 = delegations db" and "parent_delegations db1 = parent_delegations db"
    and "revocations db1 = revocations db"
  shows "chain_clean db1 now h = chain_clean db now h"
proof -
  have "ancestor_chain_ids db1 h = ancestor_chain_ids db h"
    unfolding ancestor_chain_ids_def ancestor_chain_ids_for_roots_def Let_def chain_loop_same [OF assms(2)] ..
  moreover have "is_revoked db1 = is_revoked db" using assms(3) by (intro ext) (simp add: is_revoked_def)
  ultimately show ?thesis using assms(1) by (simp add: chain_clean_def)
qed

lemma authorises_same:
  assumes "prepared db db1"
  shows "authorises X db1 now i c p pc = authorises X db now i c p pc"
  using prepared_grows [OF assms] chain_clean_same [of db1 db] by (simp add: authorises_def)

text \<open>
  The actor \<open>a\<close> owns the network, or a delegation cited by the invocation grants the capability, is
  unrevoked and in its window with all the walk visits, and goes back to a delegation by the owner.
\<close>

definition network_authority ::
  "externals \<Rightarrow> database \<Rightarrow> time \<Rightarrow> InvocationInfo \<Rightarrow> capability \<Rightarrow> NetworkId \<Rightarrow> bool" where
  "network_authority X db now i c net \<longleftrightarrow>
     did_principal_matches X (owner_did net) (ii_invoker i) \<or>
     (\<exists>p pc d rt. authorises X db now i c p pc \<and> d_id d = d_id p \<and> rooted X db d rt (row_grant pc) \<and>
        did_principal_matches X (owner_did net) (delegator rt))"

lemma network_root:
  assumes "is_root_authority X r actor" and "network_id_matches X (resource_type_display r) net"
  shows "did_principal_matches X (owner_did net) actor"
proof (cases r)
  case (TinyCloud t)
  then have "\<not> prefix NETWORK_ID_PREFIX (resource_type_display r)"
    by (simp add: resource_display_def space_display_def NETWORK_ID_PREFIX_def)
  then have "\<not> network_id_matches X (resource_type_display r) net"
    by (auto simp: network_id_matches_def network_id_from_str_def strip_prefix_def network_id_display_def)
  with assms(2) show ?thesis by blast
next
  case (Other uri)
  with assms show ?thesis by (auto simp: is_root_authority_def network_id_matches_def split: sum.splits)
qed

lemma verify_auth_ok:
  assumes "verify_auth X D B now st (i, ser) node = (Inr u, st')"
  obtains r where "u_audience (ii_invocation i) = node"
    "transact X now (ns_db st) [EInvocation (i, ser) (List.map_filter (cap_op X []) (ii_capabilities i))] = Inr (r, ns_db st')"
    "ns_enc st' = ns_enc st"
proof -
  from assms obtain commit outs db b where
    run: "invoke_with_options X D B now (ns_db st) (ns_blocks st) (i, ser) [] default_options = (Inr ((commit, outs), db), b)"
    and aud: "u_audience (ii_invocation i) = node" and st': "st' = st\<lparr>ns_db := db, ns_blocks := b\<rparr>"
    by (auto simp: verify_auth_def invoke_def split: if_splits prod.splits sum.splits)
  from run have "transact X now (ns_db st) [EInvocation (i, ser) (List.map_filter (cap_op X []) (ii_capabilities i))] = Inr (commit, db)"
    by (rule invoke_cases) simp
  with that aud st' show ?thesis by simp
qed

text \<open>
  An invoked token is signed and in its time, and its capability on a network is backed by the owner
  of the network.
\<close>

lemma invoked_authority:
  assumes "reachable X db" and "transact X now db [EInvocation (i, ser) ops] = Inr (r, db')"
    and "c \<in> set (ii_capabilities i)" and "network_id_matches X (resource_type_display (cap_resource c)) net"
  shows "verify_invocation X now (ii_invocation i) = Inr () \<and> network_authority X db now i c net"
  using assms(2)
proof (rule transact_run)
  fix db1 orders cids
  assume prep: "prepared db db1"
    and run: "try_fold (process_event X now orders) (db1, []) (hashed X [EInvocation (i, ser) ops]) = Inr (db', cids)"
  from run obtain h vops where "invocation_process X now db1 (i, ser) vops = Inr (h, db')"
    by (auto split: sum.splits)
  then have ok: "verify_invocation X now (ii_invocation i) = Inr ()" "invocation_validate X db1 now i = Inr ()"
    by (simp_all add: invocation_process_ok)
  have "network_authority X db now i c net"
  proof (cases "is_root_authority X (cap_resource c) (ii_invoker i)")
    case True
    with network_root [OF _ assms(4)] show ?thesis by (simp add: network_authority_def)
  next
    case False
    from invocation_validate_parents(3) [OF ok(2) assms(3) False]
    obtain p pc where "authorises X db1 now i c p pc" by blast
    then have auth: "authorises X db now i c p pc" using authorises_same [OF prep] by simp
    then have "pc \<in> set (abilities db)" "ab_delegation pc = d_id p"
      and ext: "resource_extends X (cap_resource c) (ab_resource pc)"
      by (simp_all add: authorises_def grant_within_def cap_within_def)
    with reachable_grounded [OF assms(1)] reachable_ids_ok [OF assms(1)] grounded_rooted
    obtain d rt where "d_id d = d_id p" and rt: "rooted X db d rt (row_grant pc)"
      unfolding abilities_grounded_def by metis
    moreover have "is_root_authority X (cap_resource c) (delegator rt)"
      using rt is_root_authority_extends [OF ext] by (simp add: rooted_def)
    then have "did_principal_matches X (owner_did net) (delegator rt)" using assms(4) by (rule network_root)
    ultimately show ?thesis using auth unfolding network_authority_def by blast
  qed
  with ok show ?thesis by blast
qed

section \<open>What an answer shows\<close>

text \<open>The checks of the service before it releases a key.\<close>

lemma decrypt_authorized_answered:
  assumes "decrypt_authorized X C sv now db net i v = (db', Inr r)"
  obtains c facts nonce row where "c \<in> set (ii_capabilities i)" "cap_ability c = DECRYPT_ACTION"
    "network_id_matches X (resource_type_display (cap_resource c)) net"
    "native_fact (decrypt_facts_from_value C) i = Inr facts" "df_network_id facts = net"
    "df_target_node facts = sv_node_did sv" "df_body_hash facts = canonical_hash C v"
    "find_network db net = Some row" "nw_state row = ''active''"
    "validate_invocation_time sv now (native_invocation_not_before i) (native_invocation_exp i) = Inr ()"
    "u_nonce (ii_invocation i) = Some nonce" "\<not> nonce_used db (ii_invoker i) nonce" "nonce_used db' (ii_invoker i) nonce"
proof (cases rule: decrypt_authorized_cases [of X C sv now db net i v])
  case (refused e)
  with assms show ?thesis by simp
next
  case (spent body facts descriptor wrapped receiver nonce db1)
  from spent(3) obtain c where c: "find (\<lambda>c. cap_ability c = DECRYPT_ACTION) (ii_capabilities i) = Some c"
    and match: "network_id_matches X (resource_type_display (cap_resource c)) net"
    and facts: "df_network_id facts = net" "df_target_node facts = sv_node_did sv"
    and live: "get_network db net = Inr descriptor" "network_usable descriptor = Inr ()"
    and time: "validate_invocation_time sv now (native_invocation_not_before i) (native_invocation_exp i) = Inr ()"
    and hashes: "hash_bindings C v body facts = Inr ()"
    unfolding decrypt_authorized_checks_def by (auto split: if_splits)
  from get_network_active [OF live(1) network_usable_active [OF live(2)]]
  obtain row where "find_network db net = Some row" "nw_state row = ''active''" by blast
  moreover have "df_body_hash facts = canonical_hash C v"
    using hashes by (auto simp: hash_bindings_def Let_def split: if_splits)
  moreover have "u_nonce (ii_invocation i) = Some nonce"
    using spent(4) by (auto simp: native_invocation_nonce_def)
  moreover have "nonce_used db' (ii_invoker i) nonce"
    using spent(5,6,8) assms
    by (cases rule: consume_nonce_cases [of db "ii_invoker i" nonce C now "native_invocation_exp i"])
      (auto simp: nonce_used_def)
  ultimately show ?thesis
    using that spent(2,5) find_SomeD [OF c] match facts time by blast
qed

lemma admin_authorized_ok:
  assumes "verify_network_admin_authorized X C sv now db net action i v = (db', Inr u)"
  obtains c facts nonce where "c \<in> set (ii_capabilities i)" "cap_ability c = action"
    "network_id_matches X (resource_type_display (cap_resource c)) net"
    "native_fact (admin_facts_from_value C) i = Inr facts" "af_network_id facts = net" "af_action facts = action"
    "af_body_hash facts = canonical_hash C v"
    "u_nonce (ii_invocation i) = Some nonce" "\<not> nonce_used db (ii_invoker i) nonce" "nonce_used db' (ii_invoker i) nonce"
proof -
  from assms obtain facts c nonce where facts: "native_fact (admin_facts_from_value C) i = Inr facts" "af_network_id facts = net"
      "af_action facts = action" "af_body_hash facts = canonical_hash C v"
    and c: "find (\<lambda>c. cap_ability c = action) (ii_capabilities i) = Some c"
    and match: "network_id_matches X (resource_type_display (cap_resource c)) net"
    and nonce: "native_invocation_nonce i = Inr nonce"
    and spent: "consume_nonce C now db (ii_invoker i) nonce (native_invocation_exp i) = (db', Inr u)"
    by (auto simp: verify_network_admin_authorized_def Let_def split: sum.splits if_splits)
  have "\<not> nonce_used db (ii_invoker i) nonce" "nonce_used db' (ii_invoker i) nonce"
    using spent by (cases rule: consume_nonce_cases [of db "ii_invoker i" nonce C now "native_invocation_exp i"];
      auto simp: nonce_used_def)+
  with that facts find_SomeD [OF c] match nonce show ?thesis by (auto simp: native_invocation_nonce_def)
qed

end
