(* ===== verification/Encryption_Properties.thy ===== *)
theory Encryption_Properties
  imports Encryption_Routes Node_Properties
begin

text \<open>
  What the owner of an encryption network can rely on, and where the audit log falls short.
\<close>

section \<open>A network to exercise them\<close>

definition padded :: "string \<Rightarrow> string" where
  "padded s = take 32 (s @ replicate 32 (CHR ''0''))"

definition network0 :: NetworkId where
  "network0 = \<lparr>owner_did = owner_did0, network_name = ''n''\<rparr>"

definition node_did0 :: string where "node_did0 = ''did:key:n''"

definition symmetric0 :: string where "symmetric0 = ''k''"

definition wrapped0 :: string where
  "wrapped0 = padded ''e'' @ encrypt sample_ext (padded ''e'' @ padded ''s'') symmetric0"

definition body0 :: "string \<Rightarrow> DecryptRequestBody" where
  "body0 target = \<lparr>rb_ty = DECRYPT_REQUEST_TYPE, rb_target_node = target, rb_network_id = network0,
     rb_alg = ALG_X25519_AES256GCM, rb_key_version = 1, rb_encrypted_symmetric_key = wrapped0,
     rb_encrypted_symmetric_key_hash = ''2265'', rb_receiver_public_key = padded ''r'',
     rb_receiver_public_key_hash = ''2272''\<rparr>"

fun integer_text :: "number \<Rightarrow> string" where
  "integer_text (PosInt n) = show_nat n"
| "integer_text (NegInt i) = CHR ''-'' # show_nat (nat (- i))"
| "integer_text (Float q) = []"

definition crypto0 :: crypto where
  "crypto0 =
     \<lparr>sha256 = take 2,
      x25519_public = padded,
      x25519_shared = (\<lambda>a b. if padded a \<le> padded b then padded a @ padded b else padded b @ padded a),
      base64_encode = (\<lambda>s. s), base64_decode = Some,
      multibase_decode = (\<lambda>_. Inr (CHR 0xED # replicate 32 (CHR ''k''))),
      ed25519_key = Inr, ed25519_verify = (\<lambda>_ _ s. s = ''sig''),
      rfc3339 = (\<lambda>_. Some ''t''), timestamp_ok = (\<lambda>_. True),
      texts = \<lparr>json_string = write_string, json_number = integer_text\<rparr>,
      body_from_value = (\<lambda>v. case v of JString t \<Rightarrow> Inr (body0 t) | _ \<Rightarrow> Inl ''not a body''),
      decrypt_facts_from_value = (\<lambda>_. None), admin_facts_from_value = (\<lambda>_. None)\<rparr>"

definition service0 :: "string \<Rightarrow> EncryptionService" where
  "service0 draw = \<lparr>sv_node_did = node_did0, sv_node_keypair = None,
     sv_backend = local_backend sample_ext crypto0 ''seal'' draw, sv_invocation_ttl_seconds = DEFAULT_INVOCATION_TTL_SECONDS\<rparr>"

definition request0 :: DecryptInvocation where
  "request0 = \<lparr>en_issuer = owner_did0, en_audience = node_did0,
     en_att = [\<lparr>ic_with = network_id_display network0, ic_can = DECRYPT_ACTION, ic_nb = []\<rparr>],
     en_facts = \<lparr>df_ty = DECRYPT_REQUEST_TYPE, df_target_node = node_did0, df_network_id = network0,
       df_body_hash = canonical_hash crypto0 (JString node_did0), df_encrypted_symmetric_key_hash = ''2265'',
       df_receiver_public_key_hash = ''2272'', df_alg = ALG_X25519_AES256GCM, df_key_version = 1\<rparr>,
     en_nonce = ''1'', en_not_before = None, en_exp = 100, en_proof_cid = [], en_sig = ''sig''\<rparr>"

definition empty_enc_db :: enc_db where
  "empty_enc_db = \<lparr>networks = [], ceremonies = [], members = [], nonces = [], audits = []\<rparr>"

definition network_db0 :: enc_db where
  "network_db0 = fst (create_one_of_one_network sample_ext crypto0 (service0 (padded ''s'')) 0 empty_enc_db ''n'' owner_did0 (1, 1))"

definition answer0 :: "enc_db \<times> (EncryptionServiceError, DecryptResponseBody \<times> string) result" where
  "answer0 = service_decrypt sample_ext crypto0 (service0 (padded ''d'')) 0 network_db0 network0 request0 (JString node_did0)"

lemma answer0_ok: "is_ok (snd answer0)"
  by code_simp

lemma answer0_answered: "\<exists>db' response h. answer0 = (db', Inr (response, h))"
  using answer0_ok by (metis is_ok_iff surj_pair snd_conv)

lemma padded_length [simp]: "length (padded s) = 32"
  by (simp add: padded_def)

lemma padded_idem [simp]: "padded (padded s) = padded s"
  by (simp add: padded_def)

lemma crypto0_law: "x25519_law crypto0"
  by (auto simp: x25519_law_def crypto0_def)

lemma sample_aes_law: "aes_law sample_ext"
  by (simp add: aes_law_def sample_ext_def)







section \<open>Properties\<close>





text \<open>C34: Decryption by signed envelope. \<open>service_decrypt\<close>, the form of the protocol without delegations,
  releases a key only for an envelope that the owner of the network signed, for this node and this
  network, that names the decryption of the network among its capabilities, is inside its window of
  at most the configured life, whose hash of the body is that of the body sent, while the network is
  active, and whose nonce was never used before and is used afterwards.\<close>

theorem envelope_authorised:
  assumes "service_decrypt X C sv now db n i v = (db', Inr (response, h))"
  shows "did_principal_matches X (en_issuer i) (owner_did n) \<and> en_audience i = sv_node_did sv \<and>
    df_network_id (en_facts i) = n \<and> df_target_node (en_facts i) = sv_node_did sv \<and>
    (\<exists>cap \<in> set (en_att i). ic_can cap = DECRYPT_ACTION \<and> network_id_matches X (ic_with cap) n) \<and>
    (\<exists>key sig. did_key_public_key C (en_issuer i) = Inr key \<and> base64_decode C (en_sig i) = Some sig \<and>
       ed25519_verify C key (canonical_json_bytes (texts C) (unsigned_payload decrypt_facts_value i)) sig) \<and>
    (\<exists>row. find_network db n = Some row \<and> nw_state row = ''active'') \<and>
    (\<forall>nbf. en_not_before i = Some nbf \<longrightarrow> nbf \<le> unix_timestamp now) \<and>
    unix_timestamp now < en_exp i \<and> en_exp i \<le> unix_timestamp now + sv_invocation_ttl_seconds sv \<and>
    canonical_hash C v = df_body_hash (en_facts i) \<and>
    \<not> nonce_used db (en_issuer i) (en_nonce i) \<and> nonce_used db' (en_issuer i) (en_nonce i)"
  using assms
proof (rule service_decrypt_answered)
  fix body descriptor wrapped receiver db1
  assume "decrypt_checks X C sv now db n i v body = Inr (descriptor, wrapped, receiver)"
    and nonce: "\<not> nonce_used db (en_issuer i) (en_nonce i)" "nonce_used db' (en_issuer i) (en_nonce i)"
  then obtain cap where
    head: "en_audience i = sv_node_did sv" "df_network_id (en_facts i) = n" "df_target_node (en_facts i) = sv_node_did sv"
    and sig: "verify_signature C (en_issuer i) (en_sig i) (unsigned_payload decrypt_facts_value i) = Inr ()"
    and cap: "find (\<lambda>c. ic_can c = DECRYPT_ACTION) (en_att i) = Some cap" "network_id_matches X (ic_with cap) n"
    and owner: "did_principal_matches X (en_issuer i) (owner_did n)"
    and net: "get_network db n = Inr descriptor" "network_usable descriptor = Inr ()"
    and window: "validate_invocation_time sv now (en_not_before i) (en_exp i) = Inr ()"
    and hashes: "hash_bindings C v body (en_facts i) = Inr ()"
    unfolding decrypt_checks_def by (auto split: if_splits)
  have "\<exists>cap \<in> set (en_att i). ic_can cap = DECRYPT_ACTION \<and> network_id_matches X (ic_with cap) n"
    using cap by (auto simp: find_Some_iff)
  moreover have "\<exists>key sig. did_key_public_key C (en_issuer i) = Inr key \<and> base64_decode C (en_sig i) = Some sig \<and>
      ed25519_verify C key (canonical_json_bytes (texts C) (unsigned_payload decrypt_facts_value i)) sig"
    using sig by (auto simp: verify_signature_def split: if_splits)
  moreover have "\<exists>row. find_network db n = Some row \<and> nw_state row = ''active''"
    using get_network_active [OF net(1) network_usable_active [OF net(2)]] .
  moreover have "(\<forall>nbf. en_not_before i = Some nbf \<longrightarrow> nbf \<le> unix_timestamp now) \<and>
      unix_timestamp now < en_exp i \<and> en_exp i \<le> unix_timestamp now + sv_invocation_ttl_seconds sv"
    using window by (auto simp: validate_invocation_time_def Let_def split: if_splits)
  moreover have "canonical_hash C v = df_body_hash (en_facts i)"
    using hashes by (auto simp: hash_bindings_def Let_def split: if_splits)
  ultimately show ?thesis using head owner nonce by blast
qed

theorem envelope_authorised_witness:
  "\<exists>db' response h. service_decrypt sample_ext crypto0 (service0 (padded ''d'')) 0 network_db0 network0 request0
     (JString node_did0) = (db', Inr (response, h)) \<and>
     did_principal_matches sample_ext (en_issuer request0) (owner_did network0) \<and>
     nonce_used db' (en_issuer request0) (en_nonce request0)"
  using answer0_answered envelope_authorised unfolding answer0_def by metis

text \<open>C35: One use per nonce. After a key was released for a request, no later request with the same
  issuer and nonce is answered, whatever the service did in between: not for this network, not for
  another, not as a native invocation and not as a request to administer a network in either form.\<close>

theorem decrypt_once:
  assumes "service_decrypt X C sv now db n i v = (db1, Inr r)" and "enc_run X C db1 db2"
  shows "(\<forall>sv' now' n' i' v'. en_issuer i' = en_issuer i \<and> en_nonce i' = en_nonce i \<longrightarrow>
      \<not> is_ok (snd (service_decrypt X C sv' now' db2 n' i' v'))) \<and>
    (\<forall>sv' now' n' action i' v'. en_issuer i' = en_issuer i \<and> en_nonce i' = en_nonce i \<longrightarrow>
      \<not> is_ok (snd (verify_network_admin_invocation X C sv' now' db2 n' action i' v'))) \<and>
    (\<forall>sv' now' n' j v'. ii_invoker j = en_issuer i \<and> u_nonce (ii_invocation j) = Some (en_nonce i) \<longrightarrow>
      \<not> is_ok (snd (decrypt_authorized X C sv' now' db2 n' j v'))) \<and>
    (\<forall>sv' now' n' action j v'. ii_invoker j = en_issuer i \<and> u_nonce (ii_invocation j) = Some (en_nonce i) \<longrightarrow>
      \<not> is_ok (snd (verify_network_admin_authorized X C sv' now' db2 n' action j v')))"
proof -
  obtain response h where r: "r = (response, h)" by (cases r)
  have "nonce_used db1 (en_issuer i) (en_nonce i)"
    using assms(1) unfolding r by (rule service_decrypt_answered)
  with assms(2) have used: "nonce_used db2 (en_issuer i) (en_nonce i)" by (rule enc_run_nonce_used)
  have h1: "\<not> is_ok (snd (service_decrypt X C sv' now' db2 n' i' v'))"
    if "en_issuer i' = en_issuer i" "en_nonce i' = en_nonce i" for sv' now' n' i' v'
    by (cases rule: service_decrypt_cases [of X C sv' now' db2 n' i' v']) (use that used in simp_all)
  have h2: "\<not> is_ok (snd (verify_network_admin_invocation X C sv' now' db2 n' action i' v'))"
    if "en_issuer i' = en_issuer i" "en_nonce i' = en_nonce i" for sv' now' n' action and i' :: NetworkAdminInvocation and v'
    using that used
    by (cases rule: consume_nonce_cases [of db2 "en_issuer i'" "en_nonce i'" C now' "en_exp i'"])
      (auto simp: verify_network_admin_invocation_def Let_def split: sum.splits)
  have h3: "\<not> is_ok (snd (decrypt_authorized X C sv' now' db2 n' j v'))"
    if "ii_invoker j = en_issuer i" "u_nonce (ii_invocation j) = Some (en_nonce i)" for sv' now' n' j v'
    by (cases rule: decrypt_authorized_cases [of X C sv' now' db2 n' j v'])
      (use that used in \<open>simp_all add: native_invocation_nonce_def\<close>)
  have h4: "\<not> is_ok (snd (verify_network_admin_authorized X C sv' now' db2 n' action j v'))"
    if "ii_invoker j = en_issuer i" "u_nonce (ii_invocation j) = Some (en_nonce i)" for sv' now' n' action j v'
  proof
    assume "is_ok (snd (verify_network_admin_authorized X C sv' now' db2 n' action j v'))"
    then obtain db' where "verify_network_admin_authorized X C sv' now' db2 n' action j v' = (db', Inr ())"
      by (cases "verify_network_admin_authorized X C sv' now' db2 n' action j v'") (auto simp: is_ok_iff)
    then show False by (rule admin_authorized_ok) (use that used in simp)
  qed
  show ?thesis by (intro conjI allI impI; elim conjE) (rule h1 h2 h3 h4; assumption)+
qed

theorem decrypt_once_witness:
  "\<exists>db1 r. service_decrypt sample_ext crypto0 (service0 (padded ''d'')) 0 network_db0 network0 request0
     (JString node_did0) = (db1, Inr r) \<and>
     \<not> is_ok (snd (service_decrypt sample_ext crypto0 (service0 (padded ''d'')) 0 db1 network0 request0 (JString node_did0)))"
  using answer0_answered decrypt_once [OF _ rtranclp.rtrancl_refl] unfolding answer0_def by metis

text \<open>C36: Revocation of a network is final. Once a network is revoked no request for it is answered, by
  either path, in any later state of the service.\<close>

theorem revoked_network_stays:
  assumes "revoke_network C now db n = (db1, Inr u)" and "enc_run X C db1 db2"
  shows "\<not> is_ok (snd (service_decrypt X C sv now' db2 n i v)) \<and> \<not> is_ok (snd (decrypt_authorized X C sv now' db2 n j v))"
proof -
  from assms(1) obtain r where r: "find_network db n = Some r"
    by (auto simp: revoke_network_def split: option.splits)
  from revoke_effects(2) [OF r, of C now n] assms(1) obtain r1 where "find_network db1 n = Some r1" "nw_state r1 = ''revoked''"
    by auto
  with enc_run_network [OF assms(2)] obtain r2 where r2: "find_network db2 n = Some r2" "nw_state r2 = ''revoked''"
    by (auto simp: kept_row_def)
  have no: False if "get_network db2 n = Inr d" "network_usable d = Inr ()" for d
    using get_network_active [OF that(1) network_usable_active [OF that(2)]] r2 by simp
  have "\<not> is_ok (snd (service_decrypt X C sv now' db2 n i v))"
  proof (cases rule: service_decrypt_cases [of X C sv now' db2 n i v])
    case (spent body d wrapped receiver db1)
    then have "get_network db2 n = Inr d" "network_usable d = Inr ()"
      unfolding decrypt_checks_def by (auto split: if_splits)
    with no show ?thesis by blast
  qed simp
  moreover have "\<not> is_ok (snd (decrypt_authorized X C sv now' db2 n j v))"
  proof (cases rule: decrypt_authorized_cases [of X C sv now' db2 n j v])
    case (spent body facts d wrapped receiver nonce db1)
    then have "get_network db2 n = Inr d" "network_usable d = Inr ()"
      unfolding decrypt_authorized_checks_def by (auto split: if_splits)
    with no show ?thesis by blast
  qed simp
  ultimately show ?thesis by blast
qed

theorem revoked_network_stays_witness:
  "\<exists>db1. revoke_network crypto0 0 network_db0 network0 = (db1, Inr ()) \<and>
     \<not> is_ok (snd (service_decrypt sample_ext crypto0 (service0 (padded ''d'')) 0 db1 network0 request0 (JString node_did0)))"
proof -
  have "is_ok (snd (revoke_network crypto0 0 network_db0 network0))" by code_simp
  then obtain db1 where "revoke_network crypto0 0 network_db0 network0 = (db1, Inr ())"
    by (cases "revoke_network crypto0 0 network_db0 network0") (auto simp: is_ok_iff)
  with revoked_network_stays [OF this rtranclp.rtrancl_refl] show ?thesis by blast
qed

text \<open>C37: Released keys are readable. A symmetric key that a client wrapped for the public key a network
  was created with is, in every later state of the service, rewrapped so that the receiver's
  secret unwraps the very key.\<close>

theorem released_key_readable:
  assumes "x25519_law C" and "aes_law X" and "length secret = 32"
    and "create_one_of_one_network X C sv now db name owner threshold = (db1, Inr d)"
    and "sv_backend sv = local_backend X C seal secret"
    and "wrap_to_public_key X C ephemeral (ds_public_encryption_key d) key = Inr wrapped"
    and "enc_run X C db1 db2" and "sv_backend sv' = local_backend X C seal draw"
  shows "\<exists>out. rewrapped_key sv' db2 (ds_network_id d) wrapped (x25519_public C receiver) = Inr out \<and>
    unwrap_with_secret X C receiver out = Inr key"
proof -
  obtain r1 where r1: "find_network db1 (ds_network_id d) = Some r1" "nw_sealed_private_key r1 = Some (encrypt X seal secret)"
    and public: "ds_public_encryption_key d = x25519_public C secret"
    using create_network_row [OF assms(4)] assms(5) by (auto simp: local_backend_def)
  from enc_run_network [OF assms(7) r1(1)] obtain r2 where r2: "find_network db2 (ds_network_id d) = Some r2"
    "nw_sealed_private_key r2 = Some (encrypt X seal secret)" using r1(2) by (auto simp: kept_row_def)
  have wrapped: "unwrap_with_secret X C a w = Inr p"
    if "wrap_to_public_key X C b (x25519_public C a) p = Inr w" for a b p w
    using that assms(1,2) by (rule unwrap_wrapped)
  have "kb_unwrap (sv_backend sv') (encrypt X seal secret) wrapped = Inr key"
    using wrapped [of ephemeral secret key wrapped] assms(2,3,6,8) public
    by (simp add: local_backend_def open_private_def decrypt_encrypt)
  moreover obtain out where out: "wrap_to_public_key X C draw (x25519_public C receiver) key = Inr out"
    using assms(1) by (simp add: wrap_to_public_key_def x25519_law_def)
  ultimately have "rewrapped_key sv' db2 (ds_network_id d) wrapped (x25519_public C receiver) = Inr out"
    using r2 assms(8) by (auto simp: rewrapped_key_def local_backend_def)
  with wrapped [OF out] show ?thesis by blast
qed

theorem released_key_readable_witness:
  "\<exists>d wrapped out. snd (create_one_of_one_network sample_ext crypto0 (service0 (padded ''s'')) 0 empty_enc_db ''n'' owner_did0 (1, 1)) = Inr d \<and>
     wrap_to_public_key sample_ext crypto0 ''e'' (ds_public_encryption_key d) ''key'' = Inr wrapped \<and>
     rewrapped_key (service0 ''d'') network_db0 (ds_network_id d) wrapped (x25519_public crypto0 ''r'') = Inr out \<and>
     unwrap_with_secret sample_ext crypto0 ''r'' out = Inr ''key''"
proof -
  let ?create = "create_one_of_one_network sample_ext crypto0 (service0 (padded ''s'')) 0 empty_enc_db ''n'' owner_did0 (1, 1)"
  have "is_ok (snd ?create)" by code_simp
  then obtain d where create: "?create = (network_db0, Inr d)"
    by (cases ?create) (auto simp: network_db0_def is_ok_iff)
  have "is_ok (wrap_to_public_key sample_ext crypto0 ''e'' (ds_public_encryption_key (projr (snd ?create))) ''key'')" by code_simp
  with create obtain wrapped where wrapped: "wrap_to_public_key sample_ext crypto0 ''e'' (ds_public_encryption_key d) ''key'' = Inr wrapped"
    by (auto simp: is_ok_iff)
  have "length (padded ''s'') = 32" by code_simp
  from released_key_readable [OF crypto0_law sample_aes_law this create _ wrapped rtranclp.rtrancl_refl,
      of "''seal''" "service0 ''d''" "''d''" "''r''"] create wrapped
  show ?thesis by (auto simp: service0_def)
qed

text \<open>C38: A lost audit record. Take an envelope of the owner that is about to be answered. Whoever knows
  its contents can send a copy first, at an earlier time, for any network and with any signature, also
  an invalid one, and with a body that names another node. The copy is refused and recorded as
  denied. When the real envelope is then answered nothing is recorded: the only record with its
  request hash says it was denied.\<close>

theorem audit_hides_allowed:
  assumes "body_from_value C v' = Inr body'" and "rb_ty body' = DECRYPT_REQUEST_TYPE"
    and "rb_target_node body' \<noteq> sv_node_did sv" and "sv_node_did sv' = sv_node_did sv"
    and "service_decrypt X C sv now (fst (service_decrypt X C sv' now' db n' (i\<lparr>en_sig := forged\<rparr>) v')) n i v =
      (db2, Inr (response, h))"
    and "\<forall>row \<in> set (audits db). au_request_hash row \<noteq> h"
  shows "\<not> is_ok (snd (service_decrypt X C sv' now' db n' (i\<lparr>en_sig := forged\<rparr>) v')) \<and>
    (\<exists>row \<in> set (audits db2). au_request_hash row = h \<and> au_outcome row = ''denied:target-node'' \<and>
      (\<forall>row' \<in> set (audits db2). au_request_hash row' = h \<longrightarrow> row' = row))"
proof -
  let ?i = "i\<lparr>en_sig := forged\<rparr>"
  let ?first = "service_decrypt X C sv' now' db n' ?i v'"
  obtain body descriptor wrapped receiver where
    checks: "decrypt_checks X C sv now (fst ?first) n i v body = Inr (descriptor, wrapped, receiver)"
    using assms(5) by (rule service_decrypt_answered)
  then have facts: "df_ty (en_facts i) = DECRYPT_REQUEST_TYPE" "en_audience i = sv_node_did sv"
    and "hash_bindings C v body (en_facts i) = Inr ()"
    unfolding decrypt_checks_def by (auto split: if_splits)
  then have hash: "df_body_hash (en_facts i) = canonical_hash C v"
    by (auto simp: hash_bindings_def Let_def split: if_splits)
  have cid: "invocation_cid C decrypt_facts_value ?i = invocation_cid C decrypt_facts_value i"
    by (simp add: invocation_cid_def unsigned_payload_def)
  have h: "h = hash_hex C (invocation_cid C decrypt_facts_value i @ canonical_hash C v)"
    and db2: "audits db2 = audits (record_audit C sv now i n ''allowed'' (fst ?first))"
    using service_decrypt_audits [OF assms(5)] by simp_all
  have "decrypt_checks X C sv' now' db n' ?i v' body' = Inl (Some ''denied:target-node'', TargetNodeMismatch)"
    using assms(2-4) facts by (simp add: decrypt_checks_def)
  then have first: "?first = (record_audit C sv' now' ?i n' ''denied:target-node'' db, Inl TargetNodeMismatch)"
    using assms(1) by (simp add: service_decrypt_def)
  have "\<exists>row \<in> set (audits db2). au_request_hash row = h \<and> au_outcome row = ''denied:target-node'' \<and>
      (\<forall>row' \<in> set (audits db2). au_request_hash row' = h \<longrightarrow> row' = row)"
    unfolding db2 first using assms(6) h hash cid
    by (auto simp: record_audit_def insert_audit_def list_ex_iff)
  with first show ?thesis by simp
qed

theorem audit_hides_allowed_witness:
  "\<exists>db2 response h. service_decrypt sample_ext crypto0 (service0 (padded ''d'')) 0
       (fst (service_decrypt sample_ext crypto0 (service0 (padded ''d'')) 0 network_db0 network0
         (request0\<lparr>en_sig := ''forged''\<rparr>) (JString ''m'')))
       network0 request0 (JString node_did0) = (db2, Inr (response, h)) \<and>
     (\<exists>row \<in> set (audits db2). au_request_hash row = h \<and> au_outcome row = ''denied:target-node'')"
proof -
  let ?run = "service_decrypt sample_ext crypto0 (service0 (padded ''d'')) 0
       (fst (service_decrypt sample_ext crypto0 (service0 (padded ''d'')) 0 network_db0 network0
         (request0\<lparr>en_sig := ''forged''\<rparr>) (JString ''m'')))
       network0 request0 (JString node_did0)"
  have "is_ok (snd ?run)" by code_simp
  then obtain db2 response h where run: "?run = (db2, Inr (response, h))"
    by (cases ?run) (auto simp: is_ok_iff)
  have body: "body_from_value crypto0 (JString ''m'') = Inr (body0 ''m'')" by (simp add: crypto0_def)
  have "audits network_db0 = []" by code_simp
  with audit_hides_allowed [OF body _ _ _ run] have "\<exists>row \<in> set (audits db2). au_request_hash row = h \<and> au_outcome row = ''denied:target-node''"
    by (simp add: body0_def service0_def node_did0_def) blast
  with run show ?thesis by blast
qed

end
