(* ===== verification/Webhook_Delivery.thy ===== *)
theory Webhook_Delivery
  imports Write_Hooks Column_Encryption
begin

text \<open>
  Webhooks after they are queued: the subscription and delivery operations of
  \<open>tinycloud-core/src/db.rs\<close> and the dispatcher of
  \<open>tinycloud-node-server/src/webhook_dispatcher.rs\<close>, which posts due deliveries, marks the outcome and
  schedules the retries. The receivers are a parameter: what a post returns is an argument of each
  round. So is the database connection, which may refuse to load the due deliveries or to write the
  outcome of one: the dispatcher only logs such an error. Every operation takes the current time once.
\<close>

text \<open>
  What the \<open>time\<close>, \<open>hmac\<close> and \<open>serde_json\<close> crates contribute: the RFC 3339 text of a time, HMAC-SHA256
  under a key (which may refuse the key) and the JSON text of a payload.
\<close>

record web =
  rfc3339 :: "time \<Rightarrow> string"
  hmac_sha256 :: "string \<Rightarrow> string \<Rightarrow> byte list option"
  payload_json :: "KvWebhookPayload \<Rightarrow> string"

text \<open>
  Documented behaviour: HMAC accepts keys of every length; the texts of two times at least a second
  apart compare as the times do (within a second the fraction is trimmed, so they need not).
\<close>

definition hmac_law :: "web \<Rightarrow> bool" where
  "hmac_law W \<longleftrightarrow> (\<forall>k m. hmac_sha256 W k m \<noteq> None)"

definition rfc3339_law :: "web \<Rightarrow> bool" where
  "rfc3339_law W \<longleftrightarrow> (\<forall>s t. s + SECOND \<le> t \<longrightarrow> rfc3339 W s \<le> rfc3339 W t)"

section \<open>Subscriptions\<close>

definition normalize_hook_prefix :: "string \<Rightarrow> string option" where
  "normalize_hook_prefix pre =
     (let trimmed = trim_matches_char (CHR ''/'') pre in if trimmed = [] then None else Some trimmed)"

text \<open>The SQL pattern match behind \<open>starts_with\<close>: the text is not escaped, so its wildcards stay active.\<close>

function sql_like :: "(char \<Rightarrow> char) \<Rightarrow> string \<Rightarrow> string \<Rightarrow> bool" where
  "sql_like f [] s = (s = [])"
| "sql_like f (p # ps) s =
     (if p = CHR ''%'' then sql_like f ps s \<or> (case s of [] \<Rightarrow> False | _ # s' \<Rightarrow> sql_like f (p # ps) s')
      else (case s of [] \<Rightarrow> False | c # s' \<Rightarrow> (p = CHR ''_'' \<or> f p = f c) \<and> sql_like f ps s'))"
  by pat_completeness auto
termination
  by (relation "measure (\<lambda>(f, p, s). length p + length s)") auto

definition count_active_hook_subscriptions :: "database \<Rightarrow> string \<Rightarrow> nat" where
  "count_active_hook_subscriptions db space_id =
     length (filter (\<lambda>s. hs_space_id s = space_id \<and> hs_active s) (hook_subscriptions db))"

definition create_hook_subscription ::
  "database \<Rightarrow> hook_subscription_row \<Rightarrow> (DbErr, database \<times> hook_subscription_row) result" where
  "create_hook_subscription db model =
     rbind (insert_row hs_id (\<lambda>_. True) model (hook_subscriptions db)) (\<lambda>t.
     Inr (db\<lparr>hook_subscriptions := t\<rparr>, model))"

definition enqueue_hook_deliveries :: "database \<Rightarrow> hook_delivery_row list \<Rightarrow> database" where
  "enqueue_hook_deliveries db models =
     (if models = [] then db
      else db\<lparr>hook_deliveries := insert_new_rows hd_id models (hook_deliveries db)\<rparr>)"

definition list_active_hook_subscriptions ::
  "externals \<Rightarrow> database \<Rightarrow> string \<Rightarrow> string \<Rightarrow> string option \<Rightarrow> hook_subscription_row list" where
  "list_active_hook_subscriptions X db space_id target_service pre =
     sort_key hs_created_at
       (filter (\<lambda>s. hs_space_id s = space_id \<and> hs_target_service s = target_service \<and> hs_active s \<and>
           (case Option.bind pre normalize_hook_prefix of
              None \<Rightarrow> True
            | Some p \<Rightarrow>
                (case hs_path_prefix s of
                   None \<Rightarrow> False
                 | Some q \<Rightarrow> q = p \<or> sql_like (like_fold X) (p @ ''/%'') q)))
         (hook_subscriptions db))"

definition find_hook_subscription :: "database \<Rightarrow> string \<Rightarrow> hook_subscription_row option" where
  "find_hook_subscription db subscription_id = find (\<lambda>s. hs_id s = subscription_id) (hook_subscriptions db)"

definition deactivate_hook_subscription :: "database \<Rightarrow> string \<Rightarrow> database" where
  "deactivate_hook_subscription db subscription_id =
     db\<lparr>hook_subscriptions :=
        map (\<lambda>s. if hs_id s = subscription_id then s\<lparr>hs_active := False\<rparr> else s) (hook_subscriptions db)\<rparr>"

section \<open>Deliveries\<close>

definition HOOK_DELIVERY_STATUS_RETRYING :: string where "HOOK_DELIVERY_STATUS_RETRYING = ''retrying''"
definition HOOK_DELIVERY_STATUS_DELIVERED :: string where "HOOK_DELIVERY_STATUS_DELIVERED = ''delivered''"
definition HOOK_DELIVERY_STATUS_DEAD_LETTER :: string where "HOOK_DELIVERY_STATUS_DEAD_LETTER = ''dead_letter''"

lemmas delivery_status_defs = HOOK_DELIVERY_STATUS_PENDING_def HOOK_DELIVERY_STATUS_RETRYING_def
  HOOK_DELIVERY_STATUS_DELIVERED_def HOOK_DELIVERY_STATUS_DEAD_LETTER_def

record PendingWebhookDelivery =
  pw_id :: string
  pw_subscription_id :: string
  pw_event_id :: string
  pw_payload_json :: string
  pw_attempts :: int
  pw_callback_url :: string
  pw_encrypted_secret :: string
  pw_secret_key_id :: string
  pw_subscription_active :: bool

definition open_delivery :: "hook_delivery_row \<Rightarrow> bool" where
  "open_delivery d \<longleftrightarrow> hd_status d = HOOK_DELIVERY_STATUS_PENDING \<or> hd_status d = HOOK_DELIVERY_STATUS_RETRYING"

definition due_delivery :: "web \<Rightarrow> time \<Rightarrow> hook_delivery_row \<Rightarrow> bool" where
  "due_delivery W now d \<longleftrightarrow>
     open_delivery d \<and>
     (case hd_next_attempt_at d of None \<Rightarrow> True | Some t \<Rightarrow> rfc3339 W t \<le> rfc3339 W now)"

definition pending_of :: "web \<Rightarrow> hook_delivery_row \<Rightarrow> hook_subscription_row \<Rightarrow> PendingWebhookDelivery" where
  "pending_of W d s =
     \<lparr>pw_id = hd_id d, pw_subscription_id = hd_subscription_id d, pw_event_id = hd_event_id d,
      pw_payload_json = payload_json W (hd_payload d), pw_attempts = hd_attempts d,
      pw_callback_url = hs_callback_url s, pw_encrypted_secret = hs_encrypted_secret s,
      pw_secret_key_id = hs_secret_key_id s, pw_subscription_active = hs_active s\<rparr>"

definition list_due_webhook_deliveries :: "web \<Rightarrow> time \<Rightarrow> database \<Rightarrow> nat \<Rightarrow> PendingWebhookDelivery list" where
  "list_due_webhook_deliveries W now db limit =
     List.map_filter (\<lambda>d. map_option (pending_of W d) (find_hook_subscription db (hd_subscription_id d)))
       (take limit (sort_key (\<lambda>d. (rfc3339 W (hd_created_at d), hd_attempts d))
         (filter (due_delivery W now) (hook_deliveries db))))"

definition update_delivery :: "string \<Rightarrow> (hook_delivery_row \<Rightarrow> hook_delivery_row) \<Rightarrow> database \<Rightarrow> database" where
  "update_delivery delivery_id f db =
     db\<lparr>hook_deliveries := map (\<lambda>d. if hd_id d = delivery_id then f d else d) (hook_deliveries db)\<rparr>"

text \<open>The answer of the database to a write: the error is one of the connection.\<close>

definition written :: "bool \<Rightarrow> database \<Rightarrow> (DbErr, database) result" where
  "written taken db = (if taken then Inr db else Inl (DbCustom ''connection''))"

definition mark_webhook_delivery_delivered ::
  "bool \<Rightarrow> time \<Rightarrow> string \<Rightarrow> int \<Rightarrow> database \<Rightarrow> (DbErr, database) result" where
  "mark_webhook_delivery_delivered taken now delivery_id attempts db =
     written taken (update_delivery delivery_id
       (\<lambda>d. d\<lparr>hd_status := HOOK_DELIVERY_STATUS_DELIVERED, hd_attempts := attempts, hd_next_attempt_at := None,
              hd_last_error := None, hd_delivered_at := Some now\<rparr>) db)"

definition mark_webhook_delivery_failed ::
  "bool \<Rightarrow> string \<Rightarrow> int \<Rightarrow> time option \<Rightarrow> string \<Rightarrow> bool \<Rightarrow> database \<Rightarrow> (DbErr, database) result" where
  "mark_webhook_delivery_failed taken delivery_id attempts next_attempt_at last_error dead_letter db =
     written taken (update_delivery delivery_id
       (\<lambda>d. d\<lparr>hd_status := (if dead_letter then HOOK_DELIVERY_STATUS_DEAD_LETTER else HOOK_DELIVERY_STATUS_RETRYING),
              hd_attempts := attempts, hd_next_attempt_at := next_attempt_at,
              hd_last_error := Some last_error, hd_delivered_at := None\<rparr>) db)"

section \<open>The dispatcher\<close>

definition PRIMARY_SECRET_KEY_ID :: string where "PRIMARY_SECRET_KEY_ID = ''primary''"
definition DISPATCH_BATCH_SIZE :: nat where "DISPATCH_BATCH_SIZE = 32"

record WebhookDispatcher =
  wd_encryption :: string
  wd_max_attempts :: int

definition dispatcher_new :: "nat \<Rightarrow> string \<Rightarrow> WebhookDispatcher" where
  "dispatcher_new webhook_max_attempts encryption =
     \<lparr>wd_encryption = encryption, wd_max_attempts = int (max webhook_max_attempts 1)\<rparr>"

record webhook_request =
  wr_url :: string
  wr_delivery_id :: string
  wr_event_id :: string
  wr_subscription_id :: string
  wr_signature :: string
  wr_body :: string

record http_response =
  rp_status :: nat
  rp_status_display :: string

definition is_success :: "http_response \<Rightarrow> bool" where
  "is_success r \<longleftrightarrow> 200 \<le> rp_status r \<and> rp_status r < 300"

type_synonym post = "webhook_request \<Rightarrow> (string, http_response) result"

definition retry_delay_for_attempt :: "int \<Rightarrow> int" where
  "retry_delay_for_attempt attempt_number =
     (if attempt_number = 2 then 30 * SECOND
      else if attempt_number = 3 then 120 * SECOND
      else if attempt_number = 4 then 600 * SECOND
      else if attempt_number = 5 then 3600 * SECOND
      else 0)"

definition sign_payload :: "externals \<Rightarrow> web \<Rightarrow> string \<Rightarrow> string \<Rightarrow> string option" where
  "sign_payload X W secret payload =
     map_option (\<lambda>mac. ''sha256='' @ hex_crate_encode X mac) (hmac_sha256 W secret payload)"

definition record_terminal_failure ::
  "bool \<Rightarrow> string \<Rightarrow> int \<Rightarrow> string \<Rightarrow> database \<Rightarrow> (DbErr, database) result" where
  "record_terminal_failure taken delivery_id attempts error db =
     mark_webhook_delivery_failed taken delivery_id attempts None error True db"

definition record_retryable_failure ::
  "bool \<Rightarrow> WebhookDispatcher \<Rightarrow> time \<Rightarrow> string \<Rightarrow> int \<Rightarrow> string \<Rightarrow> database \<Rightarrow> (DbErr, database) result" where
  "record_retryable_failure taken wd now delivery_id attempts error db =
     (let next_attempt_number = attempts + 1
      in if next_attempt_number > wd_max_attempts wd
         then mark_webhook_delivery_failed taken delivery_id attempts None error True db
         else mark_webhook_delivery_failed taken delivery_id attempts
                (Some (now + retry_delay_for_attempt next_attempt_number)) error False db)"

definition error_text :: "EncryptionError \<Rightarrow> string" where
  "error_text e = (case e of Decrypt \<Rightarrow> ''decryption failed: aead::Error'' | TooShort \<Rightarrow> ''encrypted data too short'')"

datatype DispatchError = DispatchDb DbErr | DispatchMac

text \<open>A post with what came of it: whether the receiver accepted it, and whether the outcome was written.\<close>

type_synonym posted = "webhook_request \<times> bool \<times> bool"

definition posted_with ::
  "webhook_request \<Rightarrow> bool \<Rightarrow> (DbErr, database) result \<Rightarrow> (DispatchError, database) result \<times> posted list" where
  "posted_with request accepted m = (map_err DispatchDb m, [(request, accepted, is_ok m)])"

text \<open>One attempt: the new database or the error, and what was posted.\<close>

definition dispatch_delivery ::
  "externals \<Rightarrow> web \<Rightarrow> WebhookDispatcher \<Rightarrow> post \<Rightarrow> bool \<Rightarrow> time \<Rightarrow> PendingWebhookDelivery \<Rightarrow> database \<Rightarrow>
   (DispatchError, database) result \<times> posted list" where
  "dispatch_delivery X W wd send taken now p db =
     (let current_attempt = pw_attempts p + 1;
          given_up = (\<lambda>error. (map_err DispatchDb (record_terminal_failure taken (pw_id p) current_attempt error db), []))
      in if \<not> pw_subscription_active p then given_up ''subscription inactive''
         else if pw_secret_key_id p \<noteq> PRIMARY_SECRET_KEY_ID
         then given_up (''unsupported webhook secret key id '' @ pw_secret_key_id p)
         else
           (case decrypt X (wd_encryption wd) (pw_encrypted_secret p) of
              Inl e \<Rightarrow> given_up (''secret decryption failed: '' @ error_text e)
            | Inr secret \<Rightarrow>
                (case sign_payload X W secret (pw_payload_json p) of
                   None \<Rightarrow> (Inl DispatchMac, [])
                 | Some signature \<Rightarrow>
                     (let request = \<lparr>wr_url = pw_callback_url p, wr_delivery_id = pw_id p, wr_event_id = pw_event_id p,
                            wr_subscription_id = pw_subscription_id p, wr_signature = signature,
                            wr_body = pw_payload_json p\<rparr>
                      in case send request of
                           Inr response \<Rightarrow>
                             (if is_success response
                              then posted_with request True
                                     (mark_webhook_delivery_delivered taken now (pw_id p) current_attempt db)
                              else posted_with request False
                                     (record_retryable_failure taken wd now (pw_id p) current_attempt
                                       (''callback returned '' @ rp_status_display response) db))
                         | Inl error \<Rightarrow>
                             posted_with request False
                               (record_retryable_failure taken wd now (pw_id p) current_attempt error db)))))"

text \<open>The error of an attempt is logged and the next delivery is tried.\<close>

definition dispatched ::
  "externals \<Rightarrow> web \<Rightarrow> WebhookDispatcher \<Rightarrow> post \<Rightarrow> bool \<Rightarrow> time \<Rightarrow> PendingWebhookDelivery \<Rightarrow> database \<Rightarrow>
   database \<times> posted list" where
  "dispatched X W wd send taken now p db =
     (case dispatch_delivery X W wd send taken now p db of
        (Inl _, posted) \<Rightarrow> (db, posted)
      | (Inr db', posted) \<Rightarrow> (db', posted))"

text \<open>The connection during a round: whether the list loads, and which deliveries it writes.\<close>

record connection =
  cn_loads :: bool
  cn_takes :: "string \<Rightarrow> bool"

fun dispatch_all ::
  "externals \<Rightarrow> web \<Rightarrow> WebhookDispatcher \<Rightarrow> post \<Rightarrow> connection \<Rightarrow> time \<Rightarrow> PendingWebhookDelivery list \<Rightarrow> database \<Rightarrow>
   database \<times> posted list" where
  "dispatch_all X W wd send cn now [] db = (db, [])"
| "dispatch_all X W wd send cn now (p # ps) db =
     (let (db1, posted1) = dispatched X W wd send (cn_takes cn (pw_id p)) now p db;
          (db2, posted2) = dispatch_all X W wd send cn now ps db1
      in (db2, posted1 @ posted2))"

definition dispatch_due_once ::
  "externals \<Rightarrow> web \<Rightarrow> WebhookDispatcher \<Rightarrow> post \<Rightarrow> connection \<Rightarrow> time \<Rightarrow> database \<Rightarrow> database \<times> posted list" where
  "dispatch_due_once X W wd send cn now db =
     (if cn_loads cn
      then dispatch_all X W wd send cn now (list_due_webhook_deliveries W now db DISPATCH_BATCH_SIZE) db
      else (db, []))"

text \<open>The loop of \<open>spawn_webhook_dispatcher\<close>, over the rounds it makes.\<close>

type_synonym dispatch_round = "post \<times> connection \<times> time"

fun dispatch_rounds ::
  "externals \<Rightarrow> web \<Rightarrow> WebhookDispatcher \<Rightarrow> dispatch_round list \<Rightarrow> database \<Rightarrow> database \<times> posted list" where
  "dispatch_rounds X W wd [] db = (db, [])"
| "dispatch_rounds X W wd ((send, cn, now) # rounds) db =
     (let (db1, posted1) = dispatch_due_once X W wd send cn now db;
          (db2, posted2) = dispatch_rounds X W wd rounds db1
      in (db2, posted1 @ posted2))"

end
