(* ===== verification/Webhook_History.thy ===== *)
theory Webhook_History
  imports Webhook_Delivery Transact
begin

text \<open>
  The life of a delivery: what one attempt does to its row, the steps that change the webhook tables
  with the posts they make, and the invariant that ties the posts of a delivery to its row.
\<close>

section \<open>One attempt\<close>

text \<open>The posts carry the secret of the subscription and its address.\<close>

definition signed_for :: "externals \<Rightarrow> web \<Rightarrow> WebhookDispatcher \<Rightarrow> database \<Rightarrow> webhook_request \<Rightarrow> bool" where
  "signed_for X W wd db r \<longleftrightarrow>
     (\<exists>s \<in> set (hook_subscriptions db). hs_id s = wr_subscription_id r \<and> hs_callback_url s = wr_url r \<and>
        hs_secret_key_id s = PRIMARY_SECRET_KEY_ID \<and>
        (\<exists>secret. decrypt X (wd_encryption wd) (hs_encrypted_secret s) = Inr secret \<and>
           sign_payload X W secret (wr_body r) = Some (wr_signature r)))"

definition settles :: "int \<Rightarrow> (hook_delivery_row \<Rightarrow> hook_delivery_row) \<Rightarrow> bool" where
  "settles n f \<longleftrightarrow>
     (\<forall>d. hd_id (f d) = hd_id d \<and> hd_subscription_id (f d) = hd_subscription_id d \<and> hd_attempts (f d) = n \<and>
          \<not> open_delivery (f d))"

definition postpones :: "int \<Rightarrow> time \<Rightarrow> (hook_delivery_row \<Rightarrow> hook_delivery_row) \<Rightarrow> bool" where
  "postpones n t f \<longleftrightarrow>
     (\<forall>d. hd_id (f d) = hd_id d \<and> hd_subscription_id (f d) = hd_subscription_id d \<and> hd_attempts (f d) = n \<and>
          hd_next_attempt_at (f d) = Some t)"

definition post_of :: "externals \<Rightarrow> web \<Rightarrow> WebhookDispatcher \<Rightarrow> PendingWebhookDelivery \<Rightarrow> webhook_request \<Rightarrow> bool" where
  "post_of X W wd p r \<longleftrightarrow>
     pw_subscription_active p \<and> pw_secret_key_id p = PRIMARY_SECRET_KEY_ID \<and>
     wr_delivery_id r = pw_id p \<and> wr_subscription_id r = pw_subscription_id p \<and> wr_url r = pw_callback_url p \<and>
     (\<exists>secret. decrypt X (wd_encryption wd) (pw_encrypted_secret p) = Inr secret \<and>
        sign_payload X W secret (wr_body r) = Some (wr_signature r))"

lemma marked_settles:
  "settles n (\<lambda>d. d\<lparr>hd_status := HOOK_DELIVERY_STATUS_DELIVERED, hd_attempts := n, hd_next_attempt_at := None,
     hd_last_error := None, hd_delivered_at := t\<rparr>)"
  "settles n (\<lambda>d. d\<lparr>hd_status := HOOK_DELIVERY_STATUS_DEAD_LETTER, hd_attempts := n, hd_next_attempt_at := None,
     hd_last_error := e, hd_delivered_at := None\<rparr>)"
  "postpones n t' (\<lambda>d. d\<lparr>hd_status := HOOK_DELIVERY_STATUS_RETRYING, hd_attempts := n, hd_next_attempt_at := Some t',
     hd_last_error := e, hd_delivered_at := None\<rparr>)"
  by (simp_all add: settles_def postpones_def open_delivery_def delivery_status_defs)

lemma dispatched_cases:
  obtains (dropped) f where
      "dispatched X W wd send taken now p db = (update_delivery (pw_id p) f db, [])" "settles (pw_attempts p + 1) f"
    | (final) f r ok where
      "dispatched X W wd send taken now p db = (update_delivery (pw_id p) f db, [(r, ok, True)])"
      "settles (pw_attempts p + 1) f" "post_of X W wd p r"
    | (again) f r where
      "dispatched X W wd send taken now p db = (update_delivery (pw_id p) f db, [(r, False, True)])"
      "postpones (pw_attempts p + 1) (now + retry_delay_for_attempt (pw_attempts p + 2)) f"
      "pw_attempts p + 1 < wd_max_attempts wd" "post_of X W wd p r"
    | (unsigned) "dispatched X W wd send taken now p db = (db, [])" "\<exists>k m. hmac_sha256 W k m = None"
    | (unwritten) posted where
      "dispatched X W wd send taken now p db = (db, posted)" "\<not> taken"
      "posted = [] \<or> (\<exists>r ok. posted = [(r, ok, False)] \<and> post_of X W wd p r)"
proof -
  let ?res = "dispatch_delivery X W wd send taken now p db" and ?n = "pw_attempts p + 1"
  note defs = dispatch_delivery_def Let_def
  note marks = mark_webhook_delivery_failed_def mark_webhook_delivery_delivered_def written_def
  have drop: thesis if "?res = (map_err DispatchDb (record_terminal_failure taken (pw_id p) ?n e db), [])" for e
  proof (cases taken)
    case True
    show ?thesis
      by (rule dropped) (use that True in \<open>auto simp: dispatched_def record_terminal_failure_def marks intro: marked_settles\<close>)
  next
    case False
    show ?thesis
      by (rule unwritten [of "[]"]) (use that False in \<open>auto simp: dispatched_def record_terminal_failure_def marks\<close>)
  qed
  show ?thesis
  proof (cases "pw_subscription_active p \<and> pw_secret_key_id p = PRIMARY_SECRET_KEY_ID")
    case False
    then show ?thesis
      by (cases "pw_subscription_active p") (auto simp: defs intro: drop)
  next
    case ok: True
    show ?thesis
    proof (cases "decrypt X (wd_encryption wd) (pw_encrypted_secret p)")
      case (Inl e)
      with ok show ?thesis by (auto simp: defs intro: drop)
    next
      case secret: (Inr secret)
      show ?thesis
      proof (cases "sign_payload X W secret (pw_payload_json p)")
        case None
        with ok secret show ?thesis
          by (intro unsigned) (auto simp: defs dispatched_def sign_payload_def)
      next
        case (Some signature)
        define r where "r = \<lparr>wr_url = pw_callback_url p, wr_delivery_id = pw_id p, wr_event_id = pw_event_id p,
          wr_subscription_id = pw_subscription_id p, wr_signature = signature, wr_body = pw_payload_json p\<rparr>"
        have post: "post_of X W wd p r" using ok secret Some by (simp add: post_of_def r_def)
        let ?fail = "\<lambda>e. posted_with r False (record_retryable_failure taken wd now (pw_id p) ?n e db)"
        have res: "?res = (case send r of
            Inr response \<Rightarrow> (if is_success response
              then posted_with r True (mark_webhook_delivery_delivered taken now (pw_id p) ?n db)
              else ?fail (''callback returned '' @ rp_status_display response))
          | Inl error \<Rightarrow> ?fail error)"
          using ok secret Some unfolding r_def by (simp add: dispatch_delivery_def Let_def)
        then obtain acc m where run: "?res = posted_with r acc m"
          and m: "m = mark_webhook_delivery_delivered taken now (pw_id p) ?n db \<or>
            (\<exists>e. \<not> acc \<and> m = record_retryable_failure taken wd now (pw_id p) ?n e db)"
          by (auto split: sum.splits if_splits)
        show ?thesis
        proof (cases taken)
          case False
          with m obtain e where "m = Inl e"
            by (auto simp: record_retryable_failure_def marks Let_def)
          with run False post show ?thesis
            by (intro unwritten [of "[(r, acc, False)]"]) (auto simp: dispatched_def posted_with_def)
        next
          case True
          from m consider "m = mark_webhook_delivery_delivered taken now (pw_id p) ?n db"
            | e where "\<not> acc" "m = record_retryable_failure taken wd now (pw_id p) ?n e db" by blast
          then show ?thesis
          proof cases
            case 1
            with run True post show ?thesis
              by (intro final) (auto simp: dispatched_def posted_with_def marks intro: marked_settles)
          next
            case 2
            show ?thesis
            proof (cases "?n < wd_max_attempts wd")
              case True
              with 2 run \<open>taken\<close> post show ?thesis
                by (intro again) (auto simp: dispatched_def posted_with_def record_retryable_failure_def marks Let_def
                  add.commute intro: marked_settles)
            next
              case False
              with 2 run \<open>taken\<close> post show ?thesis
                by (intro final) (auto simp: dispatched_def posted_with_def record_retryable_failure_def marks Let_def
                  intro: marked_settles)
            qed
          qed
        qed
      qed
    qed
  qed
qed

section \<open>Posts and rows\<close>

type_synonym trace = "posted list"

definition posts :: "trace \<Rightarrow> string \<Rightarrow> nat" where
  "posts tr i = length (filter (\<lambda>e. wr_delivery_id (fst e) = i) tr)"

text \<open>The posts whose outcome the database did not take.\<close>

definition unrecorded :: "trace \<Rightarrow> string \<Rightarrow> nat" where
  "unrecorded tr i = length (filter (\<lambda>e. wr_delivery_id (fst e) = i \<and> \<not> snd (snd e)) tr)"

abbreviation accepted :: "posted \<Rightarrow> bool" where
  "accepted e \<equiv> fst (snd e) \<and> snd (snd e)"

definition delivered_in :: "trace \<Rightarrow> string \<Rightarrow> bool" where
  "delivered_in tr i \<longleftrightarrow> (\<exists>e \<in> set tr. wr_delivery_id (fst e) = i \<and> accepted e)"

text \<open>After a delivery was accepted and this was recorded, nothing is posted for it.\<close>

fun quiet :: "trace \<Rightarrow> bool" where
  "quiet [] = True"
| "quiet (e # es) = ((accepted e \<longrightarrow> posts es (wr_delivery_id (fst e)) = 0) \<and> quiet es)"

lemma posts_append [simp]: "posts (tr @ tr') i = posts tr i + posts tr' i"
  by (simp add: posts_def)

lemma posts_single [simp]: "posts [e] i = (if wr_delivery_id (fst e) = i then 1 else 0)"
  by (simp add: posts_def)

lemma posts_Nil [simp]: "posts [] i = 0"
  by (simp add: posts_def)

lemma unrecorded_simps [simp]:
  "unrecorded [] i = 0" "unrecorded (tr @ tr') i = unrecorded tr i + unrecorded tr' i"
  "unrecorded [e] i = (if wr_delivery_id (fst e) = i \<and> \<not> snd (snd e) then 1 else 0)"
  by (simp_all add: unrecorded_def)

lemma quiet_snoc: "quiet (tr @ [e]) \<longleftrightarrow> quiet tr \<and> \<not> delivered_in tr (wr_delivery_id (fst e))"
  by (induction tr) (auto simp: delivered_in_def)

definition delivery_ok :: "WebhookDispatcher \<Rightarrow> trace \<Rightarrow> hook_delivery_row \<Rightarrow> bool" where
  "delivery_ok wd tr d \<longleftrightarrow>
     int (posts tr (hd_id d)) \<le> hd_attempts d + int (unrecorded tr (hd_id d)) \<and> 0 \<le> hd_attempts d \<and>
     hd_attempts d \<le> wd_max_attempts wd \<and>
     (open_delivery d \<longrightarrow> hd_attempts d < wd_max_attempts wd \<and> \<not> delivered_in tr (hd_id d))"

definition posts_inv :: "externals \<Rightarrow> web \<Rightarrow> WebhookDispatcher \<Rightarrow> trace \<Rightarrow> database \<Rightarrow> bool" where
  "posts_inv X W wd tr db \<longleftrightarrow>
     distinct (map hd_id (hook_deliveries db)) \<and> quiet tr \<and>
     (\<forall>e \<in> set tr. wr_delivery_id (fst e) \<in> hd_id ` set (hook_deliveries db) \<and> signed_for X W wd db (fst e)) \<and>
     (\<forall>d \<in> set (hook_deliveries db). delivery_ok wd tr d)"

text \<open>What the dispatcher works on is the state of an open row and of its subscription.\<close>

definition listed :: "web \<Rightarrow> database \<Rightarrow> PendingWebhookDelivery \<Rightarrow> bool" where
  "listed W db p \<longleftrightarrow>
     (\<exists>d \<in> set (hook_deliveries db). \<exists>s. open_delivery d \<and>
        find_hook_subscription db (hd_subscription_id d) = Some s \<and> p = pending_of W d s)"

lemma pending_of_simps [simp]:
  "pw_id (pending_of W d s) = hd_id d" "pw_attempts (pending_of W d s) = hd_attempts d"
  "pw_subscription_id (pending_of W d s) = hd_subscription_id d" "pw_callback_url (pending_of W d s) = hs_callback_url s"
  "pw_secret_key_id (pending_of W d s) = hs_secret_key_id s" "pw_encrypted_secret (pending_of W d s) = hs_encrypted_secret s"
  "pw_subscription_active (pending_of W d s) = hs_active s"
  by (simp_all add: pending_of_def)

lemma find_hook_subscription_Some:
  "find_hook_subscription db i = Some s \<Longrightarrow> s \<in> set (hook_subscriptions db) \<and> hs_id s = i"
  by (auto simp: find_hook_subscription_def find_Some_iff)

lemma listed_signed: "listed W db p \<Longrightarrow> post_of X W wd p r \<Longrightarrow> signed_for X W wd db r"
  unfolding listed_def post_of_def signed_for_def by (auto dest!: find_hook_subscription_Some)

lemma update_delivery_tables [simp]:
  "hook_subscriptions (update_delivery i f db) = hook_subscriptions db"
  "hook_deliveries (update_delivery i f db) = map (\<lambda>d. if hd_id d = i then f d else d) (hook_deliveries db)"
  "find_hook_subscription (update_delivery i f db) = find_hook_subscription db"
  "signed_for X W wd (update_delivery i f db) = signed_for X W wd db"
  by (simp_all add: update_delivery_def find_hook_subscription_def signed_for_def fun_eq_iff)

lemma update_ids: "(\<And>d. hd_id (f d) = hd_id d) \<Longrightarrow>
  map hd_id (hook_deliveries (update_delivery i f db)) = map hd_id (hook_deliveries db)"
  by simp

lemma update_id: "update_delivery i id db = db"
proof -
  have "map (\<lambda>d. if hd_id d = i then id d else d) (hook_deliveries db) = hook_deliveries db"
    by (rule map_idI) simp
  then show ?thesis by (simp add: update_delivery_def)
qed

lemma dispatched_row:
  "\<exists>f. fst (dispatched X W wd send taken now p db) = update_delivery (pw_id p) f db \<and> (\<forall>d. hd_id (f d) = hd_id d \<and>
     hd_subscription_id (f d) = hd_subscription_id d)"
proof (cases rule: dispatched_cases [of X W wd send taken now p db])
  case unsigned
  with update_id [of "pw_id p" db] show ?thesis by (intro exI [of _ id]) simp
next
  case (unwritten posted)
  with update_id [of "pw_id p" db] show ?thesis by (intro exI [of _ id]) simp
qed (auto simp: settles_def postpones_def)

lemma listed_other:
  assumes "listed W db q" and "pw_id q \<noteq> pw_id p"
  shows "listed W (fst (dispatched X W wd send taken now p db)) q"
proof -
  from dispatched_row [of X W wd send taken now p db] obtain f where
    f: "fst (dispatched X W wd send taken now p db) = update_delivery (pw_id p) f db" by blast
  from assms(1) obtain d s where d: "d \<in> set (hook_deliveries db)" "open_delivery d"
    "find_hook_subscription db (hd_subscription_id d) = Some s" "q = pending_of W d s" by (auto simp: listed_def)
  from d(1) have "(\<lambda>d. if hd_id d = pw_id p then f d else d) d \<in> set (hook_deliveries (update_delivery (pw_id p) f db))"
    by simp
  with assms(2) d have "d \<in> set (hook_deliveries (update_delivery (pw_id p) f db))" by simp
  with d show ?thesis unfolding f listed_def by auto
qed

lemma dispatched_inv:
  assumes "posts_inv X W wd tr db" and "listed W db p" and "dispatched X W wd send taken now p db = (db', posted)"
  shows "posts_inv X W wd (tr @ posted) db'"
proof -
  from assms(2) obtain d s where d: "d \<in> set (hook_deliveries db)" "open_delivery d" "p = pending_of W d s"
    by (auto simp: listed_def)
  have only: "d' = d" if "d' \<in> set (hook_deliveries db)" "hd_id d' = hd_id d" for d'
    using assms(1) d(1) that unfolding posts_inv_def by (metis distinct_map inj_onD)
  have row: "delivery_ok wd tr d" and quiet: "quiet tr" and dist: "distinct (map hd_id (hook_deliveries db))"
    and known: "\<And>e. e \<in> set tr \<Longrightarrow> wr_delivery_id (fst e) \<in> hd_id ` set (hook_deliveries db) \<and> signed_for X W wd db (fst e)"
    and rows: "\<And>d'. d' \<in> set (hook_deliveries db) \<Longrightarrow> delivery_ok wd tr d'"
    using assms(1) d(1) unfolding posts_inv_def by blast+
  have keep: "posts_inv X W wd (tr @ posted) (update_delivery (hd_id d) f db)"
    if ids: "\<And>x. hd_id (f x) = hd_id x" and new: "delivery_ok wd (tr @ posted) (f d)" and q: "quiet (tr @ posted)"
      and mine: "\<And>e. e \<in> set posted \<Longrightarrow> wr_delivery_id (fst e) = hd_id d \<and> signed_for X W wd db (fst e)" for f
  proof -
    have "delivery_ok wd (tr @ posted) (if hd_id d' = hd_id d then f d' else d')" if "d' \<in> set (hook_deliveries db)" for d'
    proof (cases "hd_id d' = hd_id d")
      case True
      with only [OF that] new show ?thesis by simp
    next
      case False
      then have "posts posted (hd_id d') = 0" "unrecorded posted (hd_id d') = 0" "\<not> delivered_in posted (hd_id d')"
        using mine by (auto simp: posts_def unrecorded_def delivered_in_def filter_empty_conv)
      with False rows [OF that] show ?thesis by (auto simp: delivery_ok_def delivered_in_def)
    qed
    moreover have "hd_id ` set (hook_deliveries (update_delivery (hd_id d) f db)) = hd_id ` set (hook_deliveries db)"
      using update_ids [of f "hd_id d" db, OF ids] by (metis list.set_map)
    ultimately show ?thesis
      unfolding posts_inv_def using dist ids q known mine d(1) by (auto simp: comp_def if_distrib cong: if_cong)
  qed
  have nd: "\<not> delivered_in tr (hd_id d)" and lt: "hd_attempts d < wd_max_attempts wd" "0 \<le> hd_attempts d"
      "int (posts tr (hd_id d)) \<le> hd_attempts d + int (unrecorded tr (hd_id d))"
    using row d(2) by (auto simp: delivery_ok_def)
  show ?thesis
  proof (cases rule: dispatched_cases [of X W wd send taken now p db])
    case (dropped f)
    have "posts_inv X W wd (tr @ posted) (update_delivery (hd_id d) f db)"
      by (rule keep) (use dropped assms(3) d(3) lt quiet in \<open>auto simp: settles_def delivery_ok_def\<close>)
    with dropped assms(3) d(3) show ?thesis by simp
  next
    case (final f r ok)
    then have post: "wr_delivery_id r = hd_id d" "signed_for X W wd db r"
      using d(3) listed_signed [OF assms(2)] by (auto simp: post_of_def)
    have "posts_inv X W wd (tr @ posted) (update_delivery (hd_id d) f db)"
      by (rule keep) (use final post assms(3) d(3) lt quiet nd in \<open>auto simp: settles_def delivery_ok_def quiet_snoc\<close>)
    with final assms(3) d(3) show ?thesis by simp
  next
    case (again f r)
    then have post: "wr_delivery_id r = hd_id d" "signed_for X W wd db r"
      using d(3) listed_signed [OF assms(2)] by (auto simp: post_of_def)
    have "posts_inv X W wd (tr @ posted) (update_delivery (hd_id d) f db)"
      by (rule keep) (use again post assms(3) d(3) lt quiet nd in \<open>auto simp: postpones_def delivery_ok_def quiet_snoc delivered_in_def\<close>)
    with again assms(3) d(3) show ?thesis by simp
  next
    case unsigned
    with assms(1,3) show ?thesis by simp
  next
    case (unwritten lost)
    have res: "db' = db" "posted = lost" using unwritten(1) assms(3) by simp_all
    from unwritten(3) show ?thesis
    proof (elim disjE exE conjE)
      assume "lost = []"
      with res assms(1) show ?thesis by simp
    next
      fix r ok assume lost: "lost = [(r, ok, False)]" and "post_of X W wd p r"
      then have post: "wr_delivery_id r = hd_id d" "signed_for X W wd db r"
        using d(3) listed_signed [OF assms(2)] by (auto simp: post_of_def)
      have "posts_inv X W wd (tr @ posted) (update_delivery (hd_id d) id db)"
        by (rule keep) (use res(2) lost post lt quiet nd in \<open>auto simp: delivery_ok_def quiet_snoc delivered_in_def\<close>)
      then show ?thesis by (simp add: res update_id)
    qed
  qed
qed

lemma dispatch_all_inv:
  assumes "posts_inv X W wd tr db" and "list_all (listed W db) ps" and "distinct (map pw_id ps)"
    and "dispatch_all X W wd send cn now ps db = (db', posted)"
  shows "posts_inv X W wd (tr @ posted) db'"
  using assms
proof (induction ps arbitrary: tr db posted)
  case Nil
  then show ?case by simp
next
  case (Cons p ps)
  obtain db1 posted1 where one: "dispatched X W wd send (cn_takes cn (pw_id p)) now p db = (db1, posted1)" by fastforce
  obtain posted2 where rest: "dispatch_all X W wd send cn now ps db1 = (db', posted2)" and posted: "posted = posted1 @ posted2"
    using Cons.prems(4) one by (auto split: prod.splits)
  have "posts_inv X W wd (tr @ posted1) db1"
    using Cons.prems(1,2) one by (intro dispatched_inv) auto
  moreover have "list_all (listed W db1) ps"
    using Cons.prems(2,3) listed_other [of W db _ p X wd send "cn_takes cn (pw_id p)" now] one by (auto simp: list_all_iff image_iff)
  ultimately have "posts_inv X W wd ((tr @ posted1) @ posted2) db'"
    using Cons.prems(3) rest by (intro Cons.IH) auto
  with posted show ?case by simp
qed

section \<open>Steps\<close>

text \<open>
  What changes the webhook tables, with the posts it makes: transactions and SQL writes queue
  deliveries, subscriptions come and are switched off, and the dispatcher makes its rounds.
\<close>

inductive wh_step :: "externals \<Rightarrow> web \<Rightarrow> WebhookDispatcher \<Rightarrow> database \<Rightarrow> trace \<Rightarrow> database \<Rightarrow> bool" for X W wd where
  commit: "transact X now db events = Inr (r, db') \<Longrightarrow> wh_step X W wd db [] db'"
| queue: "list_all queued_delivery rows \<Longrightarrow> wh_step X W wd db [] (enqueue_hook_deliveries db rows)"
| subscribe: "create_hook_subscription db row = Inr (db', row') \<Longrightarrow> wh_step X W wd db [] db'"
| deactivate: "wh_step X W wd db [] (deactivate_hook_subscription db subscription_id)"
| dispatch: "dispatch_due_once X W wd send cn now db = (db', posted) \<Longrightarrow> wh_step X W wd db posted db'"

inductive wh_run :: "externals \<Rightarrow> web \<Rightarrow> WebhookDispatcher \<Rightarrow> database \<Rightarrow> trace \<Rightarrow> database \<Rightarrow> bool" for X W wd where
  start: "wh_run X W wd db [] db"
| step: "wh_run X W wd db tr db' \<Longrightarrow> wh_step X W wd db' posted db'' \<Longrightarrow> wh_run X W wd db (tr @ posted) db''"

text \<open>A transaction keeps the subscriptions and adds queued deliveries.\<close>

definition queues :: "database \<Rightarrow> database \<Rightarrow> bool" where
  "queues db db' \<longleftrightarrow>
     hook_subscriptions db' = hook_subscriptions db \<and>
     (\<exists>rs. list_all queued_delivery rs \<and> hook_deliveries db' = insert_new_rows hd_id rs (hook_deliveries db))"

lemma queues_same:
  "hook_subscriptions db' = hook_subscriptions db \<Longrightarrow> hook_deliveries db' = hook_deliveries db \<Longrightarrow> queues db db'"
  unfolding queues_def by (auto intro: exI [of _ "[]"])

lemma queues_refl: "queues db db"
  by (rule queues_same) simp_all

lemma queues_trans: "queues db db' \<Longrightarrow> queues db' db'' \<Longrightarrow> queues db db''"
  unfolding queues_def by (metis insert_new_rows_append list_all_append)

lemma save_actors_hooks [simp]:
  "hook_subscriptions (save_actors as db) = hook_subscriptions db" "hook_deliveries (save_actors as db) = hook_deliveries db"
  by (simp_all add: save_actors_def)

lemma delegation_process_queues:
  "delegation_process X now db (d, ser) = Inr (h, db') \<Longrightarrow> queues db db'"
  by (drule delegation_process_ok [THEN iffD1]) (auto elim!: delegation_save_cases intro!: queues_same)

lemma revocation_process_queues:
  "revocation_process X now db (r, ser) = Inr (h, db') \<Longrightarrow> queues db db'"
  by (auto elim!: revocation_process_cases intro!: queues_same)

lemma invocation_process_queues:
  assumes "invocation_process X now db (i, ser) vops = Inr (h, db')"
  shows "queues db db'"
proof -
  have "invocation_save X db i now ser vops = Inr (h, db')" using assms by (simp add: invocation_process_ok)
  then show ?thesis
  proof (cases rule: invocation_save_cases)
    case known
    then show ?thesis by (auto intro: queues_same)
  next
    case (fresh db2)
    from save_operations_frame [OF fresh(3)] have "queues db db2"
      by (auto simp: same_but_kv_def recorded_def intro: queues_same)
    moreover from fresh(4) have "queues db2 db'" by (auto simp: same_but_deliveries_def queues_def)
    ultimately show ?thesis by (rule queues_trans)
  qed
qed

interpretation queue_events: event_invariant X "queues db0" for X db0
proof
  fix db db1 assume "prepared db db1" "queues db0 db"
  then show "queues db0 db1" by (auto simp: prepared_def queues_def)
next
  fix now db d ser h db' assume "delegation_process X now db (d, ser) = Inr (h, db')" "queues db0 db"
  then show "queues db0 db'" using delegation_process_queues queues_trans by blast
next
  fix now db i ser vops h db' assume "invocation_process X now db (i, ser) vops = Inr (h, db')" "queues db0 db"
  then show "queues db0 db'" using invocation_process_queues queues_trans by blast
next
  fix now db rv ser h db' assume "revocation_process X now db (rv, ser) = Inr (h, db')" "queues db0 db"
  then show "queues db0 db'" using revocation_process_queues queues_trans by blast
qed

lemma transact_queues: "transact X now db events = Inr (r, db') \<Longrightarrow> queues db db'"
  using queue_events.transact_keeps queues_refl by blast

section \<open>The invariant along a run\<close>

lemma queues_inv:
  assumes "posts_inv X W wd tr db" and "queues db db'" and "1 \<le> wd_max_attempts wd"
  shows "posts_inv X W wd tr db'"
proof -
  from assms(2) obtain rs where rs: "list_all queued_delivery rs"
    and rows: "hook_deliveries db' = insert_new_rows hd_id rs (hook_deliveries db)"
    and subs: "hook_subscriptions db' = hook_subscriptions db" by (auto simp: queues_def)
  have "posts_inv X W wd tr (db\<lparr>hook_deliveries := insert_new_rows hd_id rs (hook_deliveries db)\<rparr>)"
    using assms(1) rs
  proof (induction rs arbitrary: db)
    case (Cons d rs)
    let ?db1 = "db\<lparr>hook_deliveries := hook_deliveries db @ [d]\<rparr>"
    show ?case
    proof (cases "hd_id d \<in> hd_id ` set (hook_deliveries db)")
      case True
      with Cons show ?thesis by simp
    next
      case False
      then have none: "posts tr (hd_id d) = 0" "\<not> delivered_in tr (hd_id d)"
        using Cons.prems(1) by (auto simp: posts_inv_def posts_def delivered_in_def filter_empty_conv)
      with Cons.prems assms(3) have "delivery_ok wd tr d" by (simp add: delivery_ok_def queued_delivery_def)
      with Cons.prems(1) False have "posts_inv X W wd tr ?db1" by (auto simp: posts_inv_def signed_for_def)
      with Cons.IH [of ?db1] Cons.prems(2) False show ?thesis by simp
    qed
  qed simp
  then show ?thesis using rows subs by (simp add: posts_inv_def signed_for_def)
qed

lemma list_due_listed:
  assumes "distinct (map hd_id (hook_deliveries db))"
  shows "list_all (listed W db) (list_due_webhook_deliveries W now db n)"
    and "distinct (map pw_id (list_due_webhook_deliveries W now db n))"
proof -
  let ?ds = "take n (sort_key (\<lambda>d. (rfc3339 W (hd_created_at d), hd_attempts d)) (filter (due_delivery W now) (hook_deliveries db)))"
  let ?f = "\<lambda>d. map_option (pending_of W d) (find_hook_subscription db (hd_subscription_id d))"
  have due: "d \<in> set (hook_deliveries db) \<and> open_delivery d" if "d \<in> set ?ds" for d
    using in_set_takeD [OF that] by (auto simp: due_delivery_def)
  show "list_all (listed W db) (list_due_webhook_deliveries W now db n)"
    unfolding list_all_iff
  proof
    fix p assume "p \<in> set (list_due_webhook_deliveries W now db n)"
    then obtain d where d: "d \<in> set ?ds" "?f d = Some p"
      unfolding list_due_webhook_deliveries_def set_map_filter by blast
    from d(2) obtain s where "find_hook_subscription db (hd_subscription_id d) = Some s" "p = pending_of W d s" by auto
    with due [OF d(1)] show "listed W db p" unfolding listed_def by blast
  qed
  have "distinct (map hd_id (filter (due_delivery W now) (hook_deliveries db)))"
    using assms by (rule distinct_map_filter)
  then have "distinct (map hd_id ?ds)"
    unfolding take_map [symmetric] by (intro distinct_take) (simp add: distinct_map)
  moreover have "distinct (map pw_id (List.map_filter ?f ds))" if "distinct (map hd_id ds)" for ds
    using that by (induction ds) (auto simp: map_filter_def image_iff)
  ultimately show "distinct (map pw_id (list_due_webhook_deliveries W now db n))"
    unfolding list_due_webhook_deliveries_def by blast
qed

lemma wh_step_inv:
  assumes "wh_step X W wd db posted db'" and "posts_inv X W wd tr db" and "1 \<le> wd_max_attempts wd"
  shows "posts_inv X W wd (tr @ posted) db'"
  using assms(1)
proof cases
  case (commit now events r)
  then show ?thesis using queues_inv [OF assms(2) transact_queues assms(3)] by simp
next
  case (queue rows)
  then have "queues db db'" by (auto simp: queues_def enqueue_hook_deliveries_def intro: exI [of _ "[]"])
  with queue(1) queues_inv [OF assms(2) _ assms(3)] show ?thesis by simp
next
  case (subscribe row row')
  then obtain t where "db' = db\<lparr>hook_subscriptions := hook_subscriptions db @ [t]\<rparr>"
    by (auto simp: create_hook_subscription_def insert_row_def split: if_splits)
  with subscribe(1) assms(2) show ?thesis by (auto simp: posts_inv_def signed_for_def)
next
  case (deactivate i)
  have "signed_for X W wd db' r" if "signed_for X W wd db r" for r
  proof -
    from that obtain s where s: "s \<in> set (hook_subscriptions db)" "hs_id s = wr_subscription_id r \<and> hs_callback_url s = wr_url r \<and>
        hs_secret_key_id s = PRIMARY_SECRET_KEY_ID \<and>
        (\<exists>secret. decrypt X (wd_encryption wd) (hs_encrypted_secret s) = Inr secret \<and>
           sign_payload X W secret (wr_body r) = Some (wr_signature r))" by (auto simp: signed_for_def)
    let ?s = "if hs_id s = i then s\<lparr>hs_active := False\<rparr> else s"
    from s(1) have "?s \<in> set (hook_subscriptions db')" by (auto simp: deactivate deactivate_hook_subscription_def)
    with s(2) show ?thesis unfolding signed_for_def by (intro bexI [of _ ?s]) auto
  qed
  with deactivate assms(2) show ?thesis by (auto simp: posts_inv_def deactivate_hook_subscription_def)
next
  case (dispatch send cn now)
  show ?thesis
  proof (cases "cn_loads cn")
    case True
    with dispatch show ?thesis
      using assms(2) list_due_listed [of db W]
      by (intro dispatch_all_inv) (auto simp: dispatch_due_once_def posts_inv_def)
  next
    case False
    with dispatch assms(2) show ?thesis by (simp add: dispatch_due_once_def)
  qed
qed

lemma wh_run_inv:
  assumes "wh_run X W wd db tr db'" and "hook_deliveries db = []" and "1 \<le> wd_max_attempts wd"
  shows "posts_inv X W wd tr db'"
  using assms
proof (induction rule: wh_run.induct)
  case (start db)
  then show ?case by (simp add: posts_inv_def)
next
  case (step db tr db' posted db'')
  then show ?case by (intro wh_step_inv) auto
qed

section \<open>Progress\<close>

text \<open>A listed delivery is settled, or tried once more later.\<close>

definition advanced :: "WebhookDispatcher \<Rightarrow> time \<Rightarrow> hook_delivery_row \<Rightarrow> hook_delivery_row \<Rightarrow> bool" where
  "advanced wd now d d' \<longleftrightarrow>
     \<not> open_delivery d' \<or>
     hd_attempts d' = hd_attempts d + 1 \<and> hd_attempts d' < wd_max_attempts wd \<and>
     (\<exists>t. hd_next_attempt_at d' = Some t \<and> t \<le> now + 3600 * SECOND)"

lemma retry_delay_bound: "retry_delay_for_attempt n \<le> 3600 * SECOND"
  by (simp add: retry_delay_for_attempt_def SECOND_def)

definition healthy :: connection where
  "healthy = \<lparr>cn_loads = True, cn_takes = (\<lambda>_. True)\<rparr>"

lemma dispatched_advances:
  assumes "hmac_law W" and "p = pending_of W d s"
  shows "\<exists>f. fst (dispatched X W wd send True now p db) = update_delivery (hd_id d) f db \<and>
    (\<forall>x. hd_id (f x) = hd_id x \<and> hd_subscription_id (f x) = hd_subscription_id x \<and> advanced wd now d (f x))"
proof (cases rule: dispatched_cases [of X W wd send True now p db])
  case (again f r)
  with retry_delay_bound [of "pw_attempts p + 2"] assms(2) show ?thesis
    by (intro exI [of _ f]) (auto simp: postpones_def advanced_def)
next
  case unsigned
  then have False using assms(1) unfolding hmac_law_def by blast
  then show ?thesis ..
qed (use assms(2) in \<open>auto simp: settles_def advanced_def\<close>)

lemma dispatch_all_advances:
  assumes "hmac_law W" and "list_all (listed W db) ps" and "distinct (map pw_id ps)"
    and "distinct (map hd_id (hook_deliveries db))"
  shows "\<exists>g. hook_deliveries (fst (dispatch_all X W wd send healthy now ps db)) = map g (hook_deliveries db) \<and>
    hook_subscriptions (fst (dispatch_all X W wd send healthy now ps db)) = hook_subscriptions db \<and>
    (\<forall>d \<in> set (hook_deliveries db). hd_id (g d) = hd_id d \<and> hd_subscription_id (g d) = hd_subscription_id d \<and>
       (if hd_id d \<in> pw_id ` set ps then advanced wd now d (g d) else g d = d))"
  using assms
proof (induction ps arbitrary: db)
  case Nil
  then show ?case by (intro exI [of _ id]) simp
next
  case (Cons p ps)
  obtain e s where e: "e \<in> set (hook_deliveries db)" "p = pending_of W e s"
    using Cons.prems(2) by (auto simp: listed_def)
  define db1 where "db1 = fst (dispatched X W wd send True now p db)"
  obtain f where f: "db1 = update_delivery (hd_id e) f db"
    "\<And>x. hd_id (f x) = hd_id x \<and> hd_subscription_id (f x) = hd_subscription_id x \<and> advanced wd now e (f x)"
    using dispatched_advances [OF Cons.prems(1) e(2), of X wd send now db] by (auto simp: db1_def)
  let ?u = "\<lambda>d. if hd_id d = hd_id e then f d else d"
  have "list_all (listed W db1) ps"
    using Cons.prems(2,3) listed_other [of W db _ p X wd send True now] by (auto simp: list_all_iff image_iff db1_def)
  moreover have "distinct (map hd_id (hook_deliveries db1))"
    using Cons.prems(4) f by (simp add: comp_def if_distrib cong: if_cong)
  ultimately obtain g where g: "hook_deliveries (fst (dispatch_all X W wd send healthy now ps db1)) = map g (hook_deliveries db1)"
    "hook_subscriptions (fst (dispatch_all X W wd send healthy now ps db1)) = hook_subscriptions db1"
    "\<And>d. d \<in> set (hook_deliveries db1) \<Longrightarrow> hd_id (g d) = hd_id d \<and> hd_subscription_id (g d) = hd_subscription_id d \<and>
       (if hd_id d \<in> pw_id ` set ps then advanced wd now d (g d) else g d = d)"
    using Cons.IH [of db1] Cons.prems(1,3) by auto
  have whole: "fst (dispatch_all X W wd send healthy now (p # ps) db) = fst (dispatch_all X W wd send healthy now ps db1)"
    by (simp add: db1_def healthy_def case_prod_unfold Let_def)
  have "hd_id (g (?u d)) = hd_id d \<and> hd_subscription_id (g (?u d)) = hd_subscription_id d \<and>
      (if hd_id d \<in> pw_id ` set (p # ps) then advanced wd now d (g (?u d)) else g (?u d) = d)"
    if d: "d \<in> set (hook_deliveries db)" for d
  proof -
    have u: "?u d \<in> set (hook_deliveries db1)" using d f(1) by simp
    note gd = g(3) [OF u]
    show ?thesis
    proof (cases "hd_id d = hd_id e")
      case True
      with Cons.prems(4) d e(1) have "d = e" by (metis distinct_map inj_onD)
      moreover have "hd_id e \<notin> pw_id ` set ps" using Cons.prems(3) e(2) by auto
      ultimately show ?thesis using gd f(2) e(2) by auto
    next
      case False
      with gd e(2) show ?thesis by auto
    qed
  qed
  moreover have "hook_deliveries (fst (dispatch_all X W wd send healthy now (p # ps) db)) = map (g \<circ> ?u) (hook_deliveries db)"
    using whole g(1) f(1) by simp
  moreover have "hook_subscriptions (fst (dispatch_all X W wd send healthy now (p # ps) db)) = hook_subscriptions db"
    using whole g(2) f(1) by simp
  ultimately show ?case by (intro exI [of _ "g \<circ> ?u"]) simp
qed

text \<open>When the open deliveries fit in a batch and are due, a round advances every one of them.\<close>

definition dispatchable :: "database \<Rightarrow> bool" where
  "dispatchable db \<longleftrightarrow>
     distinct (map hd_id (hook_deliveries db)) \<and> length (hook_deliveries db) \<le> DISPATCH_BATCH_SIZE \<and>
     (\<forall>d \<in> set (hook_deliveries db). find_hook_subscription db (hd_subscription_id d) \<noteq> None)"

definition scheduled :: "WebhookDispatcher \<Rightarrow> nat \<Rightarrow> time \<Rightarrow> database \<Rightarrow> bool" where
  "scheduled wd k t0 db \<longleftrightarrow>
     (\<forall>d \<in> set (hook_deliveries db). open_delivery d \<longrightarrow> int k \<le> hd_attempts d \<and> hd_attempts d < wd_max_attempts wd \<and>
        (\<forall>t. hd_next_attempt_at d = Some t \<longrightarrow> t \<le> t0 + 3600 * SECOND))"

lemma round_advances:
  assumes "hmac_law W" and "rfc3339_law W" and "dispatchable db" and "scheduled wd k t0 db"
    and "t0 + 3601 * SECOND \<le> now"
  shows "dispatchable (fst (dispatch_due_once X W wd send healthy now db)) \<and>
    scheduled wd (Suc k) now (fst (dispatch_due_once X W wd send healthy now db))"
proof -
  let ?ps = "list_due_webhook_deliveries W now db DISPATCH_BATCH_SIZE" and ?db' = "fst (dispatch_due_once X W wd send healthy now db)"
  have dist: "distinct (map hd_id (hook_deliveries db))" using assms(3) by (simp add: dispatchable_def)
  note ps = list_due_listed [OF dist, of W now DISPATCH_BATCH_SIZE]
  obtain g where rows: "hook_deliveries ?db' = map g (hook_deliveries db)" "hook_subscriptions ?db' = hook_subscriptions db"
    and g: "\<And>d. d \<in> set (hook_deliveries db) \<Longrightarrow> hd_id (g d) = hd_id d \<and> hd_subscription_id (g d) = hd_subscription_id d \<and>
       (if hd_id d \<in> pw_id ` set ?ps then advanced wd now d (g d) else g d = d)"
    using dispatch_all_advances [OF assms(1) ps dist, of X wd send now] by (auto simp: dispatch_due_once_def healthy_def)
  have all: "hd_id d \<in> pw_id ` set ?ps" if d: "d \<in> set (hook_deliveries db)" "open_delivery d" for d
  proof -
    have "due_delivery W now d"
      unfolding due_delivery_def using d(2)
    proof (intro conjI)
      have "rfc3339 W t \<le> rfc3339 W now" if "hd_next_attempt_at d = Some t" for t
      proof -
        have "t + SECOND \<le> now" using assms(4,5) d that by (fastforce simp: scheduled_def)
        with assms(2) show ?thesis by (simp add: rfc3339_law_def)
      qed
      then show "case hd_next_attempt_at d of None \<Rightarrow> True | Some t \<Rightarrow> rfc3339 W t \<le> rfc3339 W now"
        by (simp split: option.splits)
    qed
    moreover have "length (filter (due_delivery W now) (hook_deliveries db)) \<le> DISPATCH_BATCH_SIZE"
      using assms(3) by (auto simp: dispatchable_def intro: order_trans [OF length_filter_le])
    moreover obtain s where "find_hook_subscription db (hd_subscription_id d) = Some s"
      using assms(3) d(1) by (auto simp: dispatchable_def)
    ultimately have "pending_of W d s \<in> set ?ps"
      using d(1) unfolding list_due_webhook_deliveries_def set_map_filter by auto
    then show ?thesis by (metis image_eqI pending_of_simps(1))
  qed
  have "dispatchable ?db'"
    using assms(3) g rows(2) unfolding dispatchable_def rows(1) find_hook_subscription_def
    by (simp add: comp_def cong: map_cong)
  moreover have "scheduled wd (Suc k) now ?db'"
    unfolding scheduled_def
  proof (intro ballI impI)
    fix d' assume d': "d' \<in> set (hook_deliveries ?db')" "open_delivery d'"
    then obtain d where d: "d \<in> set (hook_deliveries db)" "d' = g d" unfolding rows(1) by auto
    have "open_delivery d"
    proof (rule ccontr)
      assume closed: "\<not> open_delivery d"
      have "hd_id d \<notin> pw_id ` set ?ps"
      proof
        assume "hd_id d \<in> pw_id ` set ?ps"
        then obtain p where "p \<in> set ?ps" "pw_id p = hd_id d" by auto
        then obtain e where "e \<in> set (hook_deliveries db)" "open_delivery e" "hd_id e = hd_id d"
          using ps(1) by (auto simp: list_all_iff listed_def)
        with d(1) dist closed show False by (metis distinct_map inj_onD)
      qed
      with g [OF d(1)] d(2) d'(2) closed show False by simp
    qed
    with assms(4) d(1) have "int k \<le> hd_attempts d" by (simp add: scheduled_def)
    moreover have "advanced wd now d d'" using g [OF d(1)] all [OF d(1) \<open>open_delivery d\<close>] d(2) by simp
    ultimately show "int (Suc k) \<le> hd_attempts d' \<and> hd_attempts d' < wd_max_attempts wd \<and>
        (\<forall>t. hd_next_attempt_at d' = Some t \<longrightarrow> t \<le> now + 3600 * SECOND)"
      using d'(2) by (auto simp: advanced_def)
  qed
  ultimately show ?thesis by blast
qed

text \<open>Rounds more than an hour apart, in which the database answers.\<close>

fun spaced :: "time \<Rightarrow> dispatch_round list \<Rightarrow> bool" where
  "spaced t0 [] = True"
| "spaced t0 ((send, cn, now) # rounds) = (cn = healthy \<and> t0 + 3601 * SECOND \<le> now \<and> spaced now rounds)"

lemma rounds_advance:
  assumes "hmac_law W" and "rfc3339_law W" and "dispatchable db" and "scheduled wd k t0 db" and "spaced t0 rounds"
  shows "\<exists>t1. scheduled wd (k + length rounds) t1 (fst (dispatch_rounds X W wd rounds db))"
  using assms(3-5)
proof (induction rounds arbitrary: db k t0)
  case Nil
  then show ?case by auto
next
  case (Cons r rounds)
  obtain send cn now where r: "r = (send, cn, now)" by (cases r)
  let ?db1 = "fst (dispatch_due_once X W wd send healthy now db)"
  have "dispatchable ?db1 \<and> scheduled wd (Suc k) now ?db1"
    using Cons.prems r by (intro round_advances [OF assms(1,2)]) auto
  with Cons.IH [of ?db1 "Suc k" now] Cons.prems(3) r show ?case
    by (simp add: case_prod_unfold Let_def)
qed

end
