(* ===== verification/Hook_Routes.thy ===== *)
theory Hook_Routes
  imports Webhook_Delivery
begin

text \<open>
  The hook endpoints of the node: \<open>tinycloud-node-server/src/hooks.rs\<close> (tickets for the event stream,
  scopes, the count of open streams) and \<open>tinycloud-node-server/src/routes/hooks.rs\<close> (minting a
  ticket, streaming events, registering, listing and removing webhooks). The handlers get the
  invocation as it was decoded from the request header.
\<close>

datatype status =
    StNoContent | StBadRequest | StUnauthorized | StForbidden | StNotFound | StTooManyRequests | StInternalServerError

type_synonym 'a response = "(status \<times> string, 'a) result"

section \<open>Subscriptions and tickets\<close>

record HookSubscription =
  sub_space :: string
  sub_service :: string
  sub_path_prefix :: "string option"
  sub_abilities :: "string list"

record HookTicketRequest =
  tr_subscriptions :: "HookSubscription list"
  tr_ttl_seconds :: "nat option"

record HookTicketClaims =
  hc_v :: nat
  hc_sub :: string
  hc_scopes :: "HookSubscription list"
  hc_iat :: int
  hc_exp :: int
  hc_parent_exp :: int

text \<open>
  What the \<open>serde_json\<close>, \<open>base64\<close>, \<open>time\<close> and \<open>url\<close> crates contribute to the routes: the JSON text of
  claims and of a list of abilities, unpadded URL-safe Base64, the RFC 3339 text of a Unix time (when
  it has one) and the URL parser, which says what is wrong with a text that is no URL.
\<close>

record hook_texts =
  claims_json :: "HookTicketClaims \<Rightarrow> string"
  claims_parse :: "string \<Rightarrow> HookTicketClaims option"
  abilities_json :: "string list \<Rightarrow> string"
  base64url :: "string \<Rightarrow> string"
  base64url_decode :: "string \<Rightarrow> string option"
  unix_rfc3339 :: "int \<Rightarrow> string option"
  url_error :: "string \<Rightarrow> string option"

text \<open>Documented behaviour: the codecs invert each other, and Base64 text has no dot.\<close>

definition hook_texts_law :: "hook_texts \<Rightarrow> bool" where
  "hook_texts_law H \<longleftrightarrow>
     (\<forall>c. claims_parse H (claims_json H c) = Some c) \<and>
     (\<forall>s. base64url_decode H (base64url H s) = Some s \<and> CHR ''.'' \<notin> set (base64url H s))"

record WriteEvent =
  we_event_type :: string
  we_id :: string
  we_space :: string
  we_service :: string
  we_ability :: string
  we_path :: "string option"
  we_actor :: string
  we_epoch :: string
  we_event_index :: nat
  we_timestamp :: string

record HooksConfig =
  max_ticket_ttl_seconds :: nat
  max_scopes_per_ticket :: nat
  max_active_sse_streams :: nat
  sse_broadcast_capacity :: nat
  max_webhook_subscriptions_per_space :: nat
  webhook_timeout_seconds :: nat
  webhook_max_attempts :: nat

record HookRuntime =
  ticket_key :: string
  hook_config :: HooksConfig
  active_streams :: nat

definition bytes_text :: "byte list \<Rightarrow> string" where
  "bytes_text bs = map (\<lambda>b. char_of (unat b)) bs"

definition sign_ticket :: "web \<Rightarrow> hook_texts \<Rightarrow> HookRuntime \<Rightarrow> HookTicketClaims \<Rightarrow> (string, string) result" where
  "sign_ticket W H rt claims =
     (let encoded_payload = base64url H (claims_json H claims)
      in rbind (ok_or (hmac_sha256 W (ticket_key rt) encoded_payload) ''Invalid Length'') (\<lambda>signature.
         Inr (encoded_payload @ ''.'' @ base64url H (bytes_text signature))))"

definition verify_ticket :: "web \<Rightarrow> hook_texts \<Rightarrow> HookRuntime \<Rightarrow> string \<Rightarrow> (string, HookTicketClaims) result" where
  "verify_ticket W H rt ticket =
     rbind (ok_or (split_once ticket (CHR ''.'')) ''invalid ticket format'') (\<lambda>(encoded_payload, encoded_signature).
     rbind (ok_or (hmac_sha256 W (ticket_key rt) encoded_payload) ''Invalid Length'') (\<lambda>mac.
     rbind (ok_or (base64url_decode H encoded_signature) ''invalid ticket signature'') (\<lambda>signature.
     if signature \<noteq> bytes_text mac then Inl ''invalid ticket signature''
     else
       rbind (ok_or (base64url_decode H encoded_payload) ''invalid ticket payload'') (\<lambda>payload.
       ok_or (claims_parse H payload) ''invalid ticket payload''))))"

definition try_acquire_stream :: "HookRuntime \<Rightarrow> (string, HookRuntime) result" where
  "try_acquire_stream rt =
     (if active_streams rt \<ge> max_active_sse_streams (hook_config rt) then Inl ''too many active hook streams''
      else Inr (rt\<lparr>active_streams := active_streams rt + 1\<rparr>))"

definition drop_lease :: "HookRuntime \<Rightarrow> HookRuntime" where
  "drop_lease rt = rt\<lparr>active_streams := active_streams rt - 1\<rparr>"

definition matches_scope :: "WriteEvent \<Rightarrow> HookSubscription \<Rightarrow> bool" where
  "matches_scope event scope \<longleftrightarrow>
     we_space event = sub_space scope \<and> we_service event = sub_service scope \<and>
     (sub_abilities scope = [] \<or> we_ability event \<in> set (sub_abilities scope)) \<and>
     (case (sub_path_prefix scope, we_path event) of
        (None, _) \<Rightarrow> True
      | (Some pre, Some path) \<Rightarrow> path = pre \<or> starts_with path (pre @ ''/'')
      | (Some pre, None) \<Rightarrow> pre = [])"

definition normalize_path_prefix :: "string option \<Rightarrow> string option" where
  "normalize_path_prefix path_prefix =
     Option.bind path_prefix (\<lambda>pre.
       let trimmed = trim_matches_char (CHR ''/'') pre in if trimmed = [] then None else Some trimmed)"

definition hook_scope_path :: "string \<Rightarrow> string option \<Rightarrow> string" where
  "hook_scope_path service path_prefix =
     (case path_prefix of
        Some pre \<Rightarrow> (if pre \<noteq> [] then service @ ''/'' @ pre else service)
      | None \<Rightarrow> service)"

section \<open>Checks of a scope\<close>

text \<open>The services of a build without the optional DuckDB support.\<close>

definition validate_subscription :: "HookSubscription \<Rightarrow> unit response" where
  "validate_subscription subscription =
     (if sub_service subscription \<noteq> ''kv'' \<and> sub_service subscription \<noteq> ''sql''
      then Inl (StBadRequest, ''Unsupported hook service'')
      else
        (let allowed_abilities = (if sub_service subscription = ''kv'' then [''tinycloud.kv/put'', ''tinycloud.kv/del'']
                                  else [''tinycloud.sql/write''])
         in if list_ex (\<lambda>ability. ability \<notin> set allowed_abilities) (sub_abilities subscription)
            then Inl (StBadRequest, ''hook ability filter does not match service'')
            else Inr ()))"

definition scope_extends :: "string \<Rightarrow> string \<Rightarrow> bool" where
  "scope_extends requested_scope authorized_scope \<longleftrightarrow>
     requested_scope = authorized_scope \<or> starts_with requested_scope (authorized_scope @ ''/'')"

definition is_hook_action_authorized :: "InvocationInfo \<Rightarrow> HookSubscription \<Rightarrow> Ability \<Rightarrow> bool" where
  "is_hook_action_authorized invocation subscription ability \<longleftrightarrow>
     (let requested_scope = hook_scope_path (sub_service subscription) (sub_path_prefix subscription)
      in list_ex (\<lambda>c. case cap_resource c of
             TinyCloud r \<Rightarrow>
               cap_ability c = ability \<and> res_service r = ''hooks'' \<and> space_display (res_space r) = sub_space subscription \<and>
               (case res_path r of Some path \<Rightarrow> scope_extends requested_scope path | None \<Rightarrow> True)
           | _ \<Rightarrow> False) (ii_capabilities invocation))"

section \<open>The event stream\<close>

definition invocation_expiry :: "InvocationInfo \<Rightarrow> int" where
  "invocation_expiry invocation = rat_as_i64 (of_int (floor (u_expiration (ii_invocation invocation))))"

definition find_parent_expiry :: "database \<Rightarrow> InvocationInfo \<Rightarrow> int option" where
  "find_parent_expiry db invocation =
     (if ii_parents invocation = [] then None
      else
        (let expiries = map unix_timestamp (List.map_filter d_expiry
               (filter (\<lambda>d. d_id d \<in> cid_hash ` set (ii_parents invocation)) (delegations db)))
         in if expiries = [] then None else Some (Min (set expiries))))"

definition checked_subscription :: "InvocationInfo \<Rightarrow> HookSubscription \<Rightarrow> HookSubscription response" where
  "checked_subscription invocation subscription =
     (let subscription' = subscription\<lparr>sub_path_prefix := normalize_path_prefix (sub_path_prefix subscription)\<rparr>
      in rbind (validate_subscription subscription') (\<lambda>_.
         if \<not> is_hook_action_authorized invocation subscription' ''tinycloud.hooks/subscribe''
         then Inl (StForbidden, ''requested hook scope is not authorized'')
         else Inr subscription'))"

text \<open>\<open>u64 as i64\<close>, and the two fields of the answer: the ticket and when it ends.\<close>

definition u64_as_i64 :: "nat \<Rightarrow> int" where
  "u64_as_i64 n = (if int n < 9223372036854775808 then int n else int n - 18446744073709551616)"

definition mint_hook_ticket ::
  "web \<Rightarrow> hook_texts \<Rightarrow> HookRuntime \<Rightarrow> time \<Rightarrow> database \<Rightarrow> InvocationInfo \<Rightarrow> HookTicketRequest \<Rightarrow> (string \<times> string) response" where
  "mint_hook_ticket W H rt now db invocation request =
     (if tr_subscriptions request = [] then Inl (StBadRequest, ''at least one subscription is required'')
      else if length (tr_subscriptions request) > max_scopes_per_ticket (hook_config rt)
      then Inl (StBadRequest, ''too many requested hook scopes'')
      else
        rbind (try_map (checked_subscription invocation) (tr_subscriptions request)) (\<lambda>subscriptions.
        let invocation_exp = invocation_expiry invocation;
            parent_exp = (case find_parent_expiry db invocation of Some e \<Rightarrow> e | None \<Rightarrow> invocation_exp);
            max_ttl = max_ticket_ttl_seconds (hook_config rt);
            requested_ttl = u64_as_i64 (min (case tr_ttl_seconds request of Some t \<Rightarrow> t | None \<Rightarrow> max_ttl) max_ttl);
            expiry = min (min (unix_timestamp now + requested_ttl) invocation_exp) parent_exp
        in if expiry \<le> unix_timestamp now then Inl (StUnauthorized, ''hook ticket expired immediately'')
           else
             rbind (map_err (Pair StInternalServerError)
               (sign_ticket W H rt \<lparr>hc_v = 1, hc_sub = ii_invoker invocation, hc_scopes = subscriptions,
                  hc_iat = unix_timestamp now, hc_exp = expiry, hc_parent_exp = parent_exp\<rparr>)) (\<lambda>ticket.
             rbind (ok_or (unix_rfc3339 H expiry) (StInternalServerError, ''timestamp out of range'')) (\<lambda>expires_at.
             Inr (ticket, expires_at)))))"

text \<open>
  Opening a stream: the claims and the time it ends. The lease is taken before the deadline is
  checked and given back when the request fails.
\<close>

definition hook_events ::
  "web \<Rightarrow> hook_texts \<Rightarrow> time \<Rightarrow> HookRuntime \<Rightarrow> string \<Rightarrow> HookRuntime \<times> (HookTicketClaims \<times> time) response" where
  "hook_events W H now rt ticket =
     (case verify_ticket W H rt ticket of
        Inl e \<Rightarrow> (rt, Inl (StUnauthorized, e))
      | Inr claims \<Rightarrow>
          (case try_acquire_stream rt of
             Inl e \<Rightarrow> (rt, Inl (StTooManyRequests, e))
           | Inr rt1 \<Rightarrow>
               (let now_ts = unix_timestamp now;
                    deadline = min (min (hc_exp claims) (hc_parent_exp claims))
                      (now_ts + u64_as_i64 (max_ticket_ttl_seconds (hook_config rt)))
                in if deadline \<le> now_ts then (drop_lease rt1, Inl (StUnauthorized, ''hook ticket expired''))
                   else (rt1, Inr (claims, now + (deadline - now_ts) * SECOND)))))"

text \<open>What the stream yields of the events published while it is open.\<close>

definition stream_events :: "HookTicketClaims \<Rightarrow> time \<Rightarrow> (time \<times> WriteEvent) list \<Rightarrow> WriteEvent list" where
  "stream_events claims ends published =
     filter (\<lambda>event. list_ex (matches_scope event) (hc_scopes claims))
       (map snd (filter (\<lambda>e. fst e < ends) published))"

section \<open>Webhooks\<close>

record HookWebhookRequest =
  hw_space :: string
  hw_service :: string
  hw_path_prefix :: "string option"
  hw_abilities :: "string list"
  hw_callback_url :: string
  hw_secret :: string

definition normalize_webhook_request :: "hook_texts \<Rightarrow> HookWebhookRequest \<Rightarrow> HookSubscription response" where
  "normalize_webhook_request H request =
     (let subscription = \<lparr>sub_space = hw_space request, sub_service = hw_service request,
            sub_path_prefix = normalize_path_prefix (hw_path_prefix request), sub_abilities = hw_abilities request\<rparr>
      in rbind (validate_subscription subscription) (\<lambda>_.
         if list_all is_whitespace (utf8_chars (hw_callback_url request)) then Inl (StBadRequest, ''callbackUrl is required'')
         else if hw_secret request = [] then Inl (StBadRequest, ''secret is required'')
         else
           (case url_error H (hw_callback_url request) of
              Some e \<Rightarrow> Inl (StBadRequest, ''invalid callbackUrl: '' @ e)
            | None \<Rightarrow> Inr subscription)))"

definition hook_subscription_id ::
  "externals \<Rightarrow> string \<Rightarrow> HookSubscription \<Rightarrow> string \<Rightarrow> string \<Rightarrow> string" where
  "hook_subscription_id X subscriber_did subscription callback_url created_at =
     cid_display X (to_cid (hash_bytes X
       (subscriber_did @ '':'' @ sub_space subscription @ '':'' @ sub_service subscription @ '':'' @
        (case sub_path_prefix subscription of Some p \<Rightarrow> p | None \<Rightarrow> []) @ '':'' @ callback_url @ '':'' @ created_at)) RAW_CODEC)"

definition set_abilities :: "hook_texts \<Rightarrow> string list \<Rightarrow> string option" where
  "set_abilities H as = (if as = [] then None else Some (abilities_json H as))"

record HookWebhookResponse =
  hp_id :: string
  hp_subscriber_did :: string
  hp_space :: string
  hp_service :: string
  hp_path_prefix :: "string option"
  hp_abilities :: "string list"
  hp_callback_url :: string
  hp_secret_key_id :: string
  hp_active :: bool
  hp_created_at :: string

definition webhook_response_from_model :: "externals \<Rightarrow> hook_subscription_row \<Rightarrow> HookWebhookResponse response" where
  "webhook_response_from_model X model =
     rbind (ok_or (subscription_abilities X model) (StInternalServerError, ''invalid abilities'')) (\<lambda>abilities.
     Inr \<lparr>hp_id = hs_id model, hp_subscriber_did = hs_subscriber_did model, hp_space = hs_space_id model,
          hp_service = hs_target_service model, hp_path_prefix = hs_path_prefix model, hp_abilities = abilities,
          hp_callback_url = hs_callback_url model, hp_secret_key_id = hs_secret_key_id model,
          hp_active = hs_active model, hp_created_at = hs_created_at model\<rparr>)"

definition HOOK_WEBHOOK_SECRET_KEY_ID :: string where "HOOK_WEBHOOK_SECRET_KEY_ID = ''primary''"

text \<open>\<open>key\<close> is the key of the webhook encryption the node is configured with.\<close>

definition create_webhook ::
  "externals \<Rightarrow> web \<Rightarrow> hook_texts \<Rightarrow> string \<Rightarrow> HookRuntime \<Rightarrow> time \<Rightarrow> database \<Rightarrow> InvocationInfo \<Rightarrow> HookWebhookRequest \<Rightarrow>
   (database \<times> HookWebhookResponse) response" where
  "create_webhook X W H key rt now db invocation request =
     rbind (normalize_webhook_request H request) (\<lambda>normalized.
     if \<not> is_hook_action_authorized invocation normalized ''tinycloud.hooks/register''
     then Inl (StForbidden, ''webhook scope is not authorized'')
     else if count_active_hook_subscriptions db (sub_space normalized)
               \<ge> max_webhook_subscriptions_per_space (hook_config rt)
     then Inl (StTooManyRequests, ''webhook subscription limit reached for space'')
     else
       (let created_at = rfc3339 W now;
            model = \<lparr>hs_id = hook_subscription_id X (ii_invoker invocation) normalized (hw_callback_url request) created_at,
              hs_subscriber_did = ii_invoker invocation, hs_space_id = sub_space normalized,
              hs_target_service = sub_service normalized, hs_path_prefix = sub_path_prefix normalized,
              hs_abilities_json = set_abilities H (sub_abilities normalized),
              hs_callback_url = hw_callback_url request, hs_encrypted_secret = encrypt X key (hw_secret request),
              hs_secret_key_id = HOOK_WEBHOOK_SECRET_KEY_ID, hs_active = True, hs_created_at = created_at\<rparr>
        in rbind (map_err (\<lambda>_. (StInternalServerError, ''database error'')) (create_hook_subscription db model)) (\<lambda>(db', saved).
           rbind (webhook_response_from_model X saved) (\<lambda>response. Inr (db', response)))))"

definition list_webhooks ::
  "externals \<Rightarrow> database \<Rightarrow> InvocationInfo \<Rightarrow> string \<Rightarrow> string \<Rightarrow> string option \<Rightarrow> HookWebhookResponse list response" where
  "list_webhooks X db invocation space service pre =
     (let normalized_prefix = normalize_path_prefix pre;
          requested_scope = \<lparr>sub_space = space, sub_service = service, sub_path_prefix = normalized_prefix, sub_abilities = []\<rparr>
      in rbind (validate_subscription requested_scope) (\<lambda>_.
         if \<not> is_hook_action_authorized invocation requested_scope ''tinycloud.hooks/list''
         then Inl (StForbidden, ''webhook scope is not authorized'')
         else try_map (webhook_response_from_model X)
                (list_active_hook_subscriptions X db space service normalized_prefix)))"

definition delete_webhook :: "externals \<Rightarrow> database \<Rightarrow> InvocationInfo \<Rightarrow> string \<Rightarrow> database response" where
  "delete_webhook X db invocation subscription_id =
     rbind (ok_or (find_hook_subscription db subscription_id) (StNotFound, ''webhook subscription not found'')) (\<lambda>subscription.
     rbind (ok_or (subscription_abilities X subscription) (StInternalServerError, ''invalid abilities'')) (\<lambda>abilities.
     let requested_scope = \<lparr>sub_space = hs_space_id subscription, sub_service = hs_target_service subscription,
           sub_path_prefix = hs_path_prefix subscription, sub_abilities = abilities\<rparr>
     in if \<not> is_hook_action_authorized invocation requested_scope ''tinycloud.hooks/unregister''
        then Inl (StForbidden, ''webhook scope is not authorized'')
        else Inr (deactivate_hook_subscription db subscription_id)))"

end
