(* ===== verification/Hook_Properties.thy ===== *)
theory Hook_Properties
  imports Webhook_History Hook_Routes Sample_Node "HOL-Library.Countable"
begin

text \<open>
  What the hooks of a node guarantee: how often and to whom webhooks are posted, that they settle,
  and what an event ticket gives access to.
\<close>

section \<open>Scopes\<close>

text \<open>The events a capability on hooks speaks about.\<close>

definition hook_cap_covers :: "capability \<Rightarrow> WriteEvent \<Rightarrow> bool" where
  "hook_cap_covers c event \<longleftrightarrow>
     (\<exists>r. cap_resource c = TinyCloud r \<and> res_service r = ''hooks'' \<and> space_display (res_space r) = we_space event \<and>
        (\<forall>p. res_path r = Some p \<longrightarrow> scope_extends (hook_scope_path (we_service event) (we_path event)) p))"

lemma scope_extends_trans: "scope_extends a b \<Longrightarrow> scope_extends b c \<Longrightarrow> scope_extends a c"
  unfolding scope_extends_def starts_with_iff by (metis append.assoc)

lemma matches_scope_path:
  assumes "matches_scope event scope" and "sub_path_prefix scope \<noteq> Some []"
  shows "scope_extends (hook_scope_path (we_service event) (we_path event))
    (hook_scope_path (sub_service scope) (sub_path_prefix scope))"
  using assms
  by (auto simp: matches_scope_def hook_scope_path_def scope_extends_def starts_with_iff split: option.splits if_splits)

lemma normalize_path_prefix_nonempty [simp]: "normalize_path_prefix p \<noteq> Some []"
  by (cases p) (auto simp: normalize_path_prefix_def Let_def)

lemma authorized_covers:
  assumes "is_hook_action_authorized i scope a" and "matches_scope event scope" and "sub_path_prefix scope \<noteq> Some []"
  shows "\<exists>c \<in> set (ii_capabilities i). cap_ability c = a \<and> hook_cap_covers c event"
proof -
  let ?scope = "hook_scope_path (sub_service scope) (sub_path_prefix scope)"
  from assms(1) obtain c where "c \<in> set (ii_capabilities i)" and "case cap_resource c of
      TinyCloud r \<Rightarrow> cap_ability c = a \<and> res_service r = ''hooks'' \<and> space_display (res_space r) = sub_space scope \<and>
        (case res_path r of Some path \<Rightarrow> scope_extends ?scope path | None \<Rightarrow> True)
    | _ \<Rightarrow> False"
    unfolding is_hook_action_authorized_def Let_def list_ex_iff by blast
  then obtain r where c: "c \<in> set (ii_capabilities i)" "cap_resource c = TinyCloud r" "cap_ability c = a"
    "res_service r = ''hooks''" "space_display (res_space r) = sub_space scope"
    and "case res_path r of Some path \<Rightarrow> scope_extends ?scope path | None \<Rightarrow> True"
    by (cases "cap_resource c") auto
  then have p: "scope_extends ?scope p" if "res_path r = Some p" for p using that by simp
  have "hook_cap_covers c event"
    unfolding hook_cap_covers_def
    using c p scope_extends_trans [OF matches_scope_path [OF assms(2,3)]] assms(2) by (auto simp: matches_scope_def)
  with c show ?thesis by blast
qed

lemma split_once_dot: "CHR ''.'' \<notin> set a \<Longrightarrow> split_once (a @ CHR ''.'' # b) (CHR ''.'') = Some (a, b)"
  by (induction a) auto

lemma verify_signed_ticket:
  assumes "hook_texts_law H" and "sign_ticket W H rt claims = Inr ticket"
  shows "verify_ticket W H rt ticket = Inr claims"
  using assms by (auto simp: hook_texts_law_def sign_ticket_def verify_ticket_def Let_def split_once_dot)

lemma quiet_iff: "quiet tr \<Longrightarrow> tr = xs @ e # ys \<Longrightarrow> accepted e \<Longrightarrow> posts ys (wr_delivery_id (fst e)) = 0"
  by (induction xs arbitrary: tr) auto

text \<open>A minted ticket opens a stream while one is free.\<close>

lemma minted_ticket_opens:
  assumes "hook_texts_law H" and "mint_hook_ticket W H rt now db i request = Inr (ticket, ends)"
    and "active_streams rt < max_active_sse_streams (hook_config rt)"
    and "0 < u64_as_i64 (max_ticket_ttl_seconds (hook_config rt))"
  shows "\<exists>rt2 claims close. hook_events W H now rt ticket = (rt2, Inr (claims, close))"
proof -
  obtain c0 where "sign_ticket W H rt c0 = Inr ticket" "unix_timestamp now < hc_exp c0" "hc_exp c0 \<le> hc_parent_exp c0"
    using assms(2) by (auto simp: mint_hook_ticket_def Let_def not_le simp del: min_less_iff_conj split: if_splits)
  with assms(3,4) verify_signed_ticket [OF assms(1)] show ?thesis
    by (auto simp: hook_events_def try_acquire_stream_def Let_def)
qed

section \<open>A sample\<close>

definition sample_web :: web where
  "sample_web = \<lparr>rfc3339 = (\<lambda>_. ''t''), hmac_sha256 = (\<lambda>k m. Some [of_nat (length k)]), payload_json = pl_id\<rparr>"

instance HookSubscription_ext :: (countable) countable
  by (rule countable_classI [of "\<lambda>r. to_nat (sub_space r, sub_service r, sub_path_prefix r, sub_abilities r, HookSubscription.more r)"])
    simp

instance HookTicketClaims_ext :: (countable) countable
  by (rule countable_classI [of "\<lambda>r. to_nat (hc_v r, hc_sub r, hc_scopes r, hc_iat r, hc_exp r, hc_parent_exp r, HookTicketClaims.more r)"])
    simp

definition sample_texts :: hook_texts where
  "sample_texts = \<lparr>claims_json = (\<lambda>c. replicate (to_nat c) (CHR ''x'')), claims_parse = (\<lambda>s. Some (from_nat (length s))),
     abilities_json = concat, base64url = (\<lambda>s. replicate (to_nat s) (CHR ''x'')),
     base64url_decode = (\<lambda>s. Some (from_nat (length s))), unix_rfc3339 = (\<lambda>t. Some ''t''), url_error = (\<lambda>s. None)\<rparr>"

lemma sample_texts_law: "hook_texts_law sample_texts"
  by (simp add: hook_texts_law_def sample_texts_def)

definition sample_runtime :: HookRuntime where
  "sample_runtime = \<lparr>ticket_key = ''k'',
     hook_config = \<lparr>max_ticket_ttl_seconds = 60, max_scopes_per_ticket = 2, max_active_sse_streams = 1,
       sse_broadcast_capacity = 4, max_webhook_subscriptions_per_space = 5, webhook_timeout_seconds = 1, webhook_max_attempts = 1\<rparr>, active_streams = 0\<rparr>"

definition hook_invocation :: "string \<Rightarrow> Ability \<Rightarrow> InvocationInfo" where
  "hook_invocation raw ability =
     \<lparr>ii_capabilities = [sample_cap ''hooks'' (Some ''kv/docs'') ability], ii_invoker = second_did, ii_parents = [],
      ii_invocation = sample_token raw second_did ''did:key:n'' [] 80\<rparr>"

definition hook_request :: HookWebhookRequest where
  "hook_request = \<lparr>hw_space = space_display sample_space, hw_service = ''kv'', hw_path_prefix = Some ''docs/'',
     hw_abilities = [], hw_callback_url = ''http://b'', hw_secret = ''s''\<rparr>"

section \<open>Properties\<close>

text \<open>C39: Bounded webhooks. However transactions, registrations and rounds of the dispatcher interleave, and
  whatever the database refuses to load or to write, a delivery is posted at most the configured number
  of times (and at least one is allowed) plus the number of its posts whose outcome the database did
  not take. Nothing is posted for it after the receiver accepted it and this was written, and every
  post goes to the address of the subscription and is signed with its secret.\<close>

theorem webhook_posts_bounded:
  assumes "wh_run X W wd db tr db'" and "hook_deliveries db = []" and "wd = dispatcher_new n key"
  shows "(\<forall>i. posts tr i \<le> max n 1 + unrecorded tr i) \<and>
    (\<forall>xs e ys. tr = xs @ e # ys \<and> accepted e \<longrightarrow> posts ys (wr_delivery_id (fst e)) = 0) \<and>
    (\<forall>e \<in> set tr. signed_for X W wd db' (fst e))"
proof -
  have inv: "posts_inv X W wd tr db'"
    using assms by (intro wh_run_inv) (auto simp: dispatcher_new_def)
  have "posts tr i \<le> max n 1 + unrecorded tr i" for i
  proof (cases "posts tr i = 0")
    case False
    then obtain e where "e \<in> set tr" "wr_delivery_id (fst e) = i" by (auto simp: posts_def filter_empty_conv)
    with inv obtain d where "d \<in> set (hook_deliveries db')" "hd_id d = i" by (auto simp: posts_inv_def)
    with inv have "int (posts tr i) \<le> hd_attempts d + int (unrecorded tr i)" "hd_attempts d \<le> wd_max_attempts wd"
      by (auto simp: posts_inv_def delivery_ok_def)
    with assms(3) show ?thesis by (simp add: dispatcher_new_def)
  qed simp
  moreover have "\<forall>xs e ys. tr = xs @ e # ys \<and> accepted e \<longrightarrow> posts ys (wr_delivery_id (fst e)) = 0"
    using quiet_iff inv unfolding posts_inv_def by blast
  moreover have "\<forall>e \<in> set tr. signed_for X W wd db' (fst e)" using inv by (auto simp: posts_inv_def)
  ultimately show ?thesis by blast
qed

definition sample_subscription :: hook_subscription_row where
  "sample_subscription = \<lparr>hs_id = ''w'', hs_subscriber_did = second_did, hs_space_id = space_display sample_space,
     hs_target_service = ''kv'', hs_path_prefix = None, hs_abilities_json = None, hs_callback_url = ''http://b'',
     hs_encrypted_secret = encrypt sample_ext ''key'' ''s'', hs_secret_key_id = ''primary'', hs_active = True, hs_created_at = ''t''\<rparr>"

definition sample_delivery :: hook_delivery_row where
  "sample_delivery = \<lparr>hd_id = ''q'', hd_subscription_id = ''w'', hd_event_id = ''e'',
     hd_payload = \<lparr>pl_event_type = ''write'', pl_id = ''e'', pl_space = [], pl_service = ''kv'', pl_ability = [], pl_path = None,
       pl_actor = [], pl_epoch = [], pl_event_index = 0, pl_timestamp = 0\<rparr>,
     hd_status = ''pending'', hd_attempts = 0, hd_next_attempt_at = None, hd_last_error = None, hd_created_at = 0,
     hd_delivered_at = None\<rparr>"

definition sample_hooks_db :: database where
  "sample_hooks_db = empty_db\<lparr>hook_subscriptions := [sample_subscription], hook_deliveries := [sample_delivery]\<rparr>"

definition refuse :: post where
  "refuse r = Inl ''down''"

lemma sample_hooks_run: "wh_run sample_ext sample_web wd empty_db [] sample_hooks_db"
proof -
  let ?db1 = "empty_db\<lparr>hook_subscriptions := [sample_subscription]\<rparr>"
  have "wh_step sample_ext sample_web wd empty_db [] ?db1"
    by (rule wh_step.subscribe [of _ sample_subscription _ sample_subscription])
      (simp add: create_hook_subscription_def insert_row_def empty_db_def)
  moreover have "wh_step sample_ext sample_web wd ?db1 [] (enqueue_hook_deliveries ?db1 [sample_delivery])"
    by (rule wh_step.queue) (simp add: queued_delivery_def sample_delivery_def delivery_status_defs)
  moreover have "enqueue_hook_deliveries ?db1 [sample_delivery] = sample_hooks_db"
    by (simp add: enqueue_hook_deliveries_def sample_hooks_db_def empty_db_def)
  ultimately show ?thesis
    using wh_run.step [OF wh_run.step [OF wh_run.start]] by fastforce
qed

theorem webhook_posts_bounded_witness:
  "\<exists>tr db'. wh_run sample_ext sample_web (dispatcher_new 1 ''key'') empty_db tr db' \<and> posts tr ''q'' = 2 \<and>
     posts tr ''q'' \<le> max 1 1 + unrecorded tr ''q''"
proof -
  let ?wd = "dispatcher_new 1 ''key''" and ?deaf = "\<lparr>cn_loads = True, cn_takes = (\<lambda>_. False)\<rparr>"
  obtain db1 tr1 where d1: "dispatch_due_once sample_ext sample_web ?wd refuse ?deaf 0 sample_hooks_db = (db1, tr1)" by fastforce
  obtain db2 tr2 where d2: "dispatch_due_once sample_ext sample_web ?wd refuse healthy 0 db1 = (db2, tr2)" by fastforce
  have "snd (dispatch_rounds sample_ext sample_web ?wd [(refuse, ?deaf, 0), (refuse, healthy, 0)] sample_hooks_db) = tr1 @ tr2"
    by (simp only: dispatch_rounds.simps d1 d2 Let_def prod.case append_Nil2 snd_conv)
  moreover have "posts (snd (dispatch_rounds sample_ext sample_web ?wd [(refuse, ?deaf, 0), (refuse, healthy, 0)] sample_hooks_db)) ''q'' = 2"
    by code_simp
  ultimately have two: "posts (tr1 @ tr2) ''q'' = 2" by metis
  have run: "wh_run sample_ext sample_web ?wd empty_db (tr1 @ tr2) db2"
    using wh_run.step [OF wh_run.step [OF sample_hooks_run wh_step.dispatch [OF d1]] wh_step.dispatch [OF d2]] by simp
  then have "posts (tr1 @ tr2) ''q'' \<le> max 1 1 + unrecorded (tr1 @ tr2) ''q''"
    using webhook_posts_bounded [OF run _ refl] by (simp add: empty_db_def del: posts_append unrecorded_simps)
  with run two show ?thesis by blast
qed

text \<open>C40: Webhooks settle. When the deliveries fit in one batch and each has its subscription, as many
  rounds as attempts are allowed, each more than an hour after the one before and with a database that
  answers, leave none of them open: each was accepted or given up, whatever the receivers answer and
  whatever the database did before.\<close>

theorem webhook_settles:
  assumes "hmac_law W" and "rfc3339_law W" and "wh_run X W wd db tr db1" and "hook_deliveries db = []"
    and "wd = dispatcher_new n key" and "length (hook_deliveries db1) \<le> DISPATCH_BATCH_SIZE"
    and "\<forall>d \<in> set (hook_deliveries db1). find_hook_subscription db1 (hd_subscription_id d) \<noteq> None"
    and "\<forall>d \<in> set (hook_deliveries db1). \<forall>t. hd_next_attempt_at d = Some t \<longrightarrow> t \<le> t0 + 3600 * SECOND"
    and "spaced t0 rounds" and "max n 1 \<le> length rounds"
  shows "\<forall>d \<in> set (hook_deliveries (fst (dispatch_rounds X W wd rounds db1))).
    hd_status d \<noteq> HOOK_DELIVERY_STATUS_PENDING \<and> hd_status d \<noteq> HOOK_DELIVERY_STATUS_RETRYING"
proof -
  have inv: "posts_inv X W wd tr db1"
    using assms(3-5) by (intro wh_run_inv) (auto simp: dispatcher_new_def)
  have "dispatchable db1" using inv assms(6,7) by (simp add: posts_inv_def dispatchable_def)
  moreover have "scheduled wd 0 t0 db1"
    unfolding scheduled_def
  proof (intro ballI impI)
    fix d assume d: "d \<in> set (hook_deliveries db1)" "open_delivery d"
    then have "delivery_ok wd tr d" using inv by (simp add: posts_inv_def)
    with d assms(8) show "int 0 \<le> hd_attempts d \<and> hd_attempts d < wd_max_attempts wd \<and>
        (\<forall>t. hd_next_attempt_at d = Some t \<longrightarrow> t \<le> t0 + 3600 * SECOND)"
      by (auto simp: delivery_ok_def)
  qed
  ultimately obtain t1 where "scheduled wd (length rounds) t1 (fst (dispatch_rounds X W wd rounds db1))"
    using rounds_advance [OF assms(1,2) _ _ assms(9), of db1 wd 0 X] by auto
  moreover have "wd_max_attempts wd \<le> int (length rounds)" using assms(5,10) by (simp add: dispatcher_new_def)
  ultimately show ?thesis by (fastforce simp: scheduled_def open_delivery_def)
qed

theorem webhook_settles_witness:
  "sample_hooks_db \<noteq> fst (dispatch_rounds sample_ext sample_web (dispatcher_new 1 ''key'') [(refuse, healthy, 3601 * SECOND)] sample_hooks_db) \<and>
   list_all (\<lambda>d. hd_status d \<noteq> HOOK_DELIVERY_STATUS_RETRYING)
     (hook_deliveries (fst (dispatch_rounds sample_ext sample_web (dispatcher_new 1 ''key'') [(refuse, healthy, 3601 * SECOND)] sample_hooks_db)))"
proof -
  have laws: "hmac_law sample_web" "rfc3339_law sample_web" by (simp_all add: hmac_law_def rfc3339_law_def sample_web_def)
  have "\<forall>d \<in> set (hook_deliveries (fst (dispatch_rounds sample_ext sample_web (dispatcher_new 1 ''key'')
      [(refuse, healthy, 3601 * SECOND)] sample_hooks_db))). hd_status d \<noteq> HOOK_DELIVERY_STATUS_PENDING \<and> hd_status d \<noteq> HOOK_DELIVERY_STATUS_RETRYING"
    by (rule webhook_settles [OF laws sample_hooks_run _ refl, where ?t0.0 = 0])
      (simp_all add: empty_db_def sample_hooks_db_def DISPATCH_BATCH_SIZE_def find_hook_subscription_def
        sample_delivery_def sample_subscription_def)
  moreover have "\<not> list_all (\<lambda>d. hd_status d \<noteq> HOOK_DELIVERY_STATUS_PENDING) (hook_deliveries sample_hooks_db)" by code_simp
  ultimately show ?thesis unfolding list_all_iff by auto
qed

text \<open>Tickets keep to their scope and time. An event stream opened with a minted ticket yields only events
  that a subscribe capability of the invocation covers, it opens only before the ticket ends and closes
  within a second after, and a ticket ends no later than the configured life, the invocation and the
  cited delegations.\<close>

theorem hook_ticket_scoped:
  assumes "hook_texts_law H" and "mint_hook_ticket W H rt now db i request = Inr (ticket, ends)"
    and "hook_events W H later rt1 ticket = (rt2, Inr (claims, close))" and "ticket_key rt1 = ticket_key rt"
  shows "(\<forall>event \<in> set (stream_events claims close published). \<exists>c \<in> set (ii_capabilities i).
      cap_ability c = ''tinycloud.hooks/subscribe'' \<and> hook_cap_covers c event) \<and>
    unix_timestamp later < hc_exp claims \<and> close < (hc_exp claims + 1) * SECOND \<and>
    hc_exp claims \<le> unix_timestamp now + int (max_ticket_ttl_seconds (hook_config rt)) \<and>
    hc_exp claims \<le> invocation_expiry i \<and> (\<forall>e. find_parent_expiry db i = Some e \<longrightarrow> hc_exp claims \<le> e)"
proof -
  obtain scopes c0 where scopes: "try_map (checked_subscription i) (tr_subscriptions request) = Inr scopes"
    and signed: "sign_ticket W H rt c0 = Inr ticket" and c0: "hc_scopes c0 = scopes"
    "hc_exp c0 \<le> unix_timestamp now + u64_as_i64 (min (case tr_ttl_seconds request of Some t \<Rightarrow> t
       | None \<Rightarrow> max_ticket_ttl_seconds (hook_config rt)) (max_ticket_ttl_seconds (hook_config rt)))"
    "hc_exp c0 \<le> invocation_expiry i" "\<forall>e. find_parent_expiry db i = Some e \<longrightarrow> hc_exp c0 \<le> e"
    using assms(2) by (auto simp: mint_hook_ticket_def Let_def split: if_splits)
  have "verify_ticket W H rt1 ticket = Inr c0"
    using verify_signed_ticket [OF assms(1) signed] assms(4) by (simp add: verify_ticket_def)
  with assms(3) have opened: "claims = c0" "unix_timestamp later < hc_exp c0"
    "close = later + (min (min (hc_exp c0) (hc_parent_exp c0)) (unix_timestamp later +
       u64_as_i64 (max_ticket_ttl_seconds (hook_config rt1))) - unix_timestamp later) * SECOND"
    by (auto simp: hook_events_def Let_def split: sum.splits if_splits)
  have "close \<le> later + (hc_exp c0 - unix_timestamp later) * SECOND"
    unfolding opened(3) by (intro add_left_mono mult_right_mono) (auto simp: SECOND_def)
  moreover have "later < (unix_timestamp later + 1) * SECOND"
    by (simp add: unix_timestamp_def SECOND_def)
  ultimately have close: "close < (hc_exp c0 + 1) * SECOND" by (simp add: algebra_simps)
  have ttl: "u64_as_i64 (min a b) \<le> int b" for a b
    using of_nat_mono [of "min a b" b] by (auto simp: u64_as_i64_def)
  have "\<exists>c \<in> set (ii_capabilities i). cap_ability c = ''tinycloud.hooks/subscribe'' \<and> hook_cap_covers c event"
    if "event \<in> set (stream_events claims close published)" for event
  proof -
    from that opened(1) c0(1) obtain scope where scope: "scope \<in> set scopes" "matches_scope event scope"
      by (auto simp: stream_events_def list_ex_iff)
    from try_map_Inr_set [OF scopes scope(1)] obtain s where "checked_subscription i s = Inr scope" by (elim bexE)
    then have "is_hook_action_authorized i scope ''tinycloud.hooks/subscribe''" "sub_path_prefix scope \<noteq> Some []"
      by (auto simp: checked_subscription_def Let_def split: if_splits)
    with scope(2) show ?thesis by (intro authorized_covers)
  qed
  with opened c0 close ttl show ?thesis by (auto intro: order_trans)
qed

theorem hook_ticket_scoped_witness:
  "\<exists>ticket ends rt2 claims close. mint_hook_ticket sample_web sample_texts sample_runtime 0 empty_db
       (hook_invocation ''h'' ''tinycloud.hooks/subscribe'')
       \<lparr>tr_subscriptions = [\<lparr>sub_space = space_display sample_space, sub_service = ''kv'', sub_path_prefix = Some ''docs'',
          sub_abilities = []\<rparr>], tr_ttl_seconds = None\<rparr> = Inr (ticket, ends) \<and>
     hook_events sample_web sample_texts 0 sample_runtime ticket = (rt2, Inr (claims, close)) \<and>
     hc_exp claims \<le> invocation_expiry (hook_invocation ''h'' ''tinycloud.hooks/subscribe'')"
proof -
  let ?i = "hook_invocation ''h'' ''tinycloud.hooks/subscribe''"
  let ?r = "\<lparr>tr_subscriptions = [\<lparr>sub_space = space_display sample_space, sub_service = ''kv'', sub_path_prefix = Some ''docs'',
          sub_abilities = []\<rparr>], tr_ttl_seconds = None\<rparr>"
  have "is_ok (mint_hook_ticket sample_web sample_texts sample_runtime 0 empty_db ?i ?r)" by code_simp
  then obtain ticket ends where t: "mint_hook_ticket sample_web sample_texts sample_runtime 0 empty_db ?i ?r = Inr (ticket, ends)"
    by (auto simp: is_ok_iff)
  obtain rt2 claims close where "hook_events sample_web sample_texts 0 sample_runtime ticket = (rt2, Inr (claims, close))"
    using minted_ticket_opens [OF sample_texts_law t] by (auto simp: sample_runtime_def u64_as_i64_def)
  with hook_ticket_scoped [OF sample_texts_law t this refl] t show ?thesis by blast
qed

end
