(* ===== verification/Policy_Delegation.thy ===== *)
theory Policy_Delegation
  imports Policy_Capability Events
begin

text \<open>
  The artifacts of the policy authority kernel: \<open>PolicyDelegation\<close> and the checks of its wire form in
  \<open>tinycloud-core/src/policy_authority/mod.rs\<close>, and the cryptographic boundary of
  \<open>policy_authority/verifier.rs\<close> with the detached Ed25519 check of
  \<open>tinycloud-auth/src/share_email_evidence.rs\<close>.
\<close>

section \<open>Data\<close>

datatype DelegationRole = PolicyAuthority | PolicyEnforcement | PolicySessionRoot | PolicySessionDescendant

datatype PolicyMode = PolicySource | ConditionalMint | ModeAttenuable | ModeTerminal

record PolicyDelegation =
  dg_schema :: string
  dg_role :: DelegationRole
  dg_cid :: string
  dg_issuer :: string
  dg_audience :: string
  dg_capabilities :: "json list"
  dg_proofs :: "string list"
  dg_not_before :: string
  dg_expires_at :: string
  dg_mode :: PolicyMode
  dg_facts :: "(string, string) btree"
  dg_suite :: string
  dg_signature :: string

datatype AuthorityError =
    SchemaInvalid | CanonicalizationMismatch | TimestampNoncanonical | CapabilityNoncanonical | ProofSetUnmatched
  | RoleModeMismatch | ConditionalMintNotParent | AuthOwnerMismatch | PolicyMismatch | FactsMismatch | WrongEnforcer
  | WrongAudience | ClaimantMismatch | CapabilityHashMismatch | CapabilityBroadened | DecisionContextMismatch
  | AuditDigestMismatch | PolicyDecisionExpired | AttestationBindingMismatch | AttestationExpired | ChallengeNotFound
  | ChallengeConsumed | ChallengeExpired | SessionTimeInvalid | SessionRedelegationInvalid | TerminalParent
  | DescendantParentMismatch | DescendantAuthorityRootsMismatch | AuthorityStateUnavailable | DelegationRevoked
  | DelegationAncestorRevoked | AncestryTooDeep | TransactionFailed

text \<open>
  The document the streaming JSON parser hands to the visitor: entries in the order of the text, with
  repeated keys, and where the text stops being JSON.
\<close>

datatype raw_json =
    RawNull
  | RawBool bool
  | RawI64 int
  | RawU64 nat
  | RawF64 rat
  | RawString string
  | RawSeq "raw_json list"
  | RawMap "(string \<times> raw_json) list"
  | RawError

text \<open>
  What third-party code contributes: NFC, SHA-256, the decimal text of a double, the RFC 3339 parser
  and printer of the \<open>time\<close> crate, the JSON parser (with whether the text ends after the document),
  the encoder and the derived decoder of an artifact, URL-safe Base64, hexadecimal decoding, Multibase,
  Ed25519 and the recovery of a secp256k1 public key (uncompressed, without its tag byte).
\<close>

record kernel_ext =
  k_nfc :: "string \<Rightarrow> string"
  k_sha256 :: "string \<Rightarrow> string"
  k_ryu :: "rat \<Rightarrow> string"
  k_parse_time :: "string \<Rightarrow> time option"
  k_format_time :: "time \<Rightarrow> string option"
  k_json_parse :: "string \<Rightarrow> raw_json \<times> bool"
  k_artifact_text :: "PolicyDelegation \<Rightarrow> string"
  k_artifact_from_value :: "json \<Rightarrow> PolicyDelegation option"
  k_base64url :: "string \<Rightarrow> string"
  k_base64url_decode :: "string \<Rightarrow> string option"
  k_hex_decode :: "string \<Rightarrow> string option"
  k_multibase_decode :: "string \<Rightarrow> string option"
  k_ed25519_verify :: "string \<Rightarrow> string \<Rightarrow> string \<Rightarrow> bool"
  k_recover_key :: "string \<Rightarrow> string \<Rightarrow> nat \<Rightarrow> string option"

section \<open>Strict JSON\<close>

definition MAX_SAFE_JSON_INTEGER :: int where
  "MAX_SAFE_JSON_INTEGER = 9007199254740991"

text \<open>The visitor. The error says whether the text was not canonical.\<close>

fun strict_value :: "(string \<Rightarrow> string) \<Rightarrow> raw_json \<Rightarrow> (AuthorityError, json) result"
  and strict_seq :: "(string \<Rightarrow> string) \<Rightarrow> raw_json list \<Rightarrow> (AuthorityError, json list) result"
  and strict_map :: "(string \<Rightarrow> string) \<Rightarrow> (string, json) btree \<Rightarrow> (string \<times> raw_json) list \<Rightarrow>
    (AuthorityError, (string, json) btree) result" where
  "strict_value nfc RawNull = Inr JNull"
| "strict_value nfc (RawBool b) = Inr (JBool b)"
| "strict_value nfc (RawI64 i) =
     (if \<bar>i\<bar> > MAX_SAFE_JSON_INTEGER then Inl SchemaInvalid
      else Inr (JNumber (if i < 0 then NegInt i else PosInt (nat i))))"
| "strict_value nfc (RawU64 n) =
     (if int n > MAX_SAFE_JSON_INTEGER then Inl SchemaInvalid else Inr (JNumber (PosInt n)))"
| "strict_value nfc (RawF64 q) =
     (if of_int (floor q) = q \<and> \<bar>q\<bar> > of_int MAX_SAFE_JSON_INTEGER then Inl SchemaInvalid
      else Inr (JNumber (Float q)))"
| "strict_value nfc (RawString s) = (if nfc s \<noteq> s then Inl CanonicalizationMismatch else Inr (JString s))"
| "strict_value nfc (RawSeq vs) = rbind (strict_seq nfc vs) (\<lambda>values. Inr (JArray values))"
| "strict_value nfc (RawMap es) = rbind (strict_map nfc [] es) (\<lambda>object. Inr (JObject object))"
| "strict_value nfc RawError = Inl SchemaInvalid"
| "strict_seq nfc [] = Inr []"
| "strict_seq nfc (v # vs) =
     rbind (strict_value nfc v) (\<lambda>value. rbind (strict_seq nfc vs) (\<lambda>values. Inr (value # values)))"
| "strict_map nfc object [] = Inr object"
| "strict_map nfc object ((key, v) # es) =
     (if nfc key \<noteq> key then Inl CanonicalizationMismatch
      else if key \<in> fst ` set object then Inl SchemaInvalid
      else rbind (strict_value nfc v) (\<lambda>value. strict_map nfc (bm_insert key value object) es))"

definition strict_json_value :: "kernel_ext \<Rightarrow> string \<Rightarrow> (AuthorityError, json) result" where
  "strict_json_value K bytes =
     (let (raw, complete) = k_json_parse K bytes
      in rbind (strict_value (k_nfc K) raw) (\<lambda>value.
         if complete then Inr value else Inl SchemaInvalid))"

section \<open>Times, capabilities and facts\<close>

definition canonical_time :: "kernel_ext \<Rightarrow> string \<Rightarrow> (AuthorityError, time) result" where
  "canonical_time K value =
     (if length value \<noteq> 20 \<or> \<not> ends_with_char value (CHR ''Z'') then Inl TimestampNoncanonical
      else ok_or (k_parse_time K value) TimestampNoncanonical)"

definition action_allowed :: "string \<Rightarrow> string \<Rightarrow> bool" where
  "action_allowed service action \<longleftrightarrow>
     (if service = ''tinycloud.kv'' then
        action \<in> set [''tinycloud.kv/get'', ''tinycloud.kv/list'', ''tinycloud.kv/metadata'', ''tinycloud.kv/put'',
          ''tinycloud.kv/delete'']
      else if service = ''tinycloud.sql'' then
        action \<in> set [''tinycloud.sql/read'', ''tinycloud.sql/select'', ''tinycloud.sql/write'']
      else if service = ''tinycloud.vfs'' then
        action \<in> set [''tinycloud.vfs/get'', ''tinycloud.vfs/list'', ''tinycloud.vfs/metadata'', ''tinycloud.vfs/put'',
          ''tinycloud.vfs/delete'']
      else False)"

definition canonical_capability :: "kernel_ext \<Rightarrow> json \<Rightarrow> (AuthorityError, PolicyCapability) result" where
  "canonical_capability K value =
     rbind (map_err (\<lambda>_. CapabilityNoncanonical) (policy_parse (k_nfc K) value)) (\<lambda>capability.
     if \<not> list_all (action_allowed (pc_service capability)) (pc_actions capability) then Inl CapabilityNoncanonical
     else if canonical_value capability \<noteq> value then Inl CapabilityNoncanonical
     else Inr capability)"

definition canonical_capabilities :: "kernel_ext \<Rightarrow> json list \<Rightarrow> (AuthorityError, PolicyCapability list) result" where
  "canonical_capabilities K values = try_map (canonical_capability K) values"

definition capability_set_contained :: "kernel_ext \<Rightarrow> json list \<Rightarrow> json list \<Rightarrow> (AuthorityError, bool) result" where
  "capability_set_contained K children parents =
     rbind (canonical_capabilities K children) (\<lambda>children.
     rbind (canonical_capabilities K parents) (\<lambda>parents.
     Inr (list_all (\<lambda>child. list_ex (\<lambda>parent. is_ok (policy_contains parent child)) parents) children)))"

definition POLICY_PREFIX :: string where "POLICY_PREFIX = ''xyz.tinycloud.policy/''"
definition EIP191_SUITE :: string where "EIP191_SUITE = ''eip191-secp256k1-sha256-jcs-v1''"
definition ED25519_SUITE :: string where "ED25519_SUITE = ''eddsa-ed25519-sha256-jcs-v1''"

definition AUTHORITY_FACTS :: "string list" where
  "AUTHORITY_FACTS = [''ownerDid'', ''policyId'', ''policyDigestHex'', ''capabilityCeilingHashHex'']"

definition ENFORCEMENT_FACTS :: "string list" where
  "ENFORCEMENT_FACTS = [''ownerDid'', ''policyId'', ''policyDigestHex'', ''capabilityCeilingHashHex'', ''enforcerDid'',
     ''nodeAudience'', ''attestationBindingDigestHex'', ''maxSessionTtlSeconds'', ''sessionMode'',
     ''maxRedelegationDepth'', ''auditProfile'']"

definition SESSION_FACTS :: "string list" where
  "SESSION_FACTS = [''ownerDid'', ''policyId'', ''policyDigestHex'', ''capabilityCeilingHashHex'', ''capabilityHashHex'',
     ''enforcerDid'', ''nodeAudience'', ''rootClaimantDid'', ''sessionSubjectDid'', ''policyDelegationCid'',
     ''enforcementDelegationCid'', ''attestationBindingDigestHex'', ''claimInvocationDigestHex'', ''vpDigestHex'',
     ''decisionContextDigestHex'', ''issuanceAuditDigestHex'', ''issuanceId'', ''remainingRedelegationDepth'',
     ''auditProfile'']"

definition fact :: "PolicyDelegation \<Rightarrow> string \<Rightarrow> (AuthorityError, string) result" where
  "fact d name = ok_or (map_of (dg_facts d) (POLICY_PREFIX @ name)) FactsMismatch"

text \<open>\<open>str::parse\<close> for an unsigned type whose values are below the bound.\<close>

fun unsigned_digits :: "int \<Rightarrow> int \<Rightarrow> string \<Rightarrow> int option" where
  "unsigned_digits bound acc [] = Some acc"
| "unsigned_digits bound acc (c # cs) =
     (case digit_value c of
        None \<Rightarrow> None
      | Some d \<Rightarrow>
          (let acc' = acc * 10 + int d in if acc' < bound then unsigned_digits bound acc' cs else None))"

definition parse_unsigned :: "int \<Rightarrow> string \<Rightarrow> int option" where
  "parse_unsigned bound s =
     (let digits = (case s of c # cs \<Rightarrow> (if c = CHR ''+'' then cs else s) | [] \<Rightarrow> [])
      in if digits = [] then None else unsigned_digits bound 0 digits)"

definition depth_of :: "PolicyDelegation \<Rightarrow> (AuthorityError, int) result" where
  "depth_of d =
     rbind (fact d ''remainingRedelegationDepth'') (\<lambda>v.
     ok_or (Option.bind (parse_unsigned 256 v) (\<lambda>n. if n \<le> 8 then Some n else None)) SessionRedelegationInvalid)"

definition decimal_fact :: "PolicyDelegation \<Rightarrow> string \<Rightarrow> (AuthorityError, int) result" where
  "decimal_fact d name =
     rbind (fact d name) (\<lambda>v.
     if v \<noteq> ''0'' \<and> starts_with v ''0'' then Inl FactsMismatch
     else ok_or (parse_unsigned 18446744073709551616 v) FactsMismatch)"

definition capability_hash :: "kernel_ext \<Rightarrow> PolicyDelegation \<Rightarrow> (AuthorityError, string) result" where
  "capability_hash K d =
     rbind (canonical_capabilities K (dg_capabilities d)) (\<lambda>caps.
     Inr (requested_capabilities_hash_hex (k_sha256 K) (k_ryu K) caps))"

definition DELEGATION_SCHEMA :: string where
  "DELEGATION_SCHEMA = ''xyz.tinycloud.policy/enforcement-delegation/v1''"

definition validate_wire_shape :: "kernel_ext \<Rightarrow> PolicyDelegation \<Rightarrow> (AuthorityError, unit) result" where
  "validate_wire_shape K d =
     (if dg_schema d \<noteq> DELEGATION_SCHEMA \<or> dg_cid d = [] \<or> dg_issuer d = [] \<or> dg_audience d = [] \<or>
         dg_capabilities d = []
      then Inl SchemaInvalid
      else
        rbind (canonical_time K (dg_not_before d)) (\<lambda>_.
        rbind (canonical_time K (dg_expires_at d)) (\<lambda>_.
        rbind (canonical_capabilities K (dg_capabilities d)) (\<lambda>_.
        if \<not> distinct (dg_proofs d) then Inl ProofSetUnmatched
        else
          (let session_mode = (dg_mode d = ModeAttenuable \<or> dg_mode d = ModeTerminal);
               (mode_ok, proof_count, fact_names, suite) =
                 (case dg_role d of
                    PolicyAuthority \<Rightarrow> (dg_mode d = PolicySource, 0, AUTHORITY_FACTS, EIP191_SUITE)
                  | PolicyEnforcement \<Rightarrow> (dg_mode d = ConditionalMint, 0, ENFORCEMENT_FACTS, EIP191_SUITE)
                  | PolicySessionRoot \<Rightarrow> (session_mode, 2, SESSION_FACTS, ED25519_SUITE)
                  | PolicySessionDescendant \<Rightarrow>
                      (session_mode, 1, SESSION_FACTS @ [''rootSessionDelegationCid'', ''immediateParentDelegationCid''],
                       ED25519_SUITE))
           in if \<not> mode_ok \<or> dg_suite d \<noteq> suite then Inl RoleModeMismatch
              else if length (dg_proofs d) \<noteq> proof_count then Inl ProofSetUnmatched
              else if fst ` set (dg_facts d) \<noteq> (\<lambda>name. POLICY_PREFIX @ name) ` set fact_names then Inl FactsMismatch
              else Inr ())))))"

definition policy_delegation_from_json :: "kernel_ext \<Rightarrow> string \<Rightarrow> (AuthorityError, PolicyDelegation) result" where
  "policy_delegation_from_json K bytes =
     rbind (strict_json_value K bytes) (\<lambda>value.
     rbind (ok_or (k_artifact_from_value K value) SchemaInvalid) (\<lambda>artifact.
     rbind (validate_wire_shape K artifact) (\<lambda>_.
     Inr artifact)))"

definition dg_starts :: "kernel_ext \<Rightarrow> PolicyDelegation \<Rightarrow> (AuthorityError, time) result" where
  "dg_starts K d = canonical_time K (dg_not_before d)"

definition dg_ends :: "kernel_ext \<Rightarrow> PolicyDelegation \<Rightarrow> (AuthorityError, time) result" where
  "dg_ends K d = canonical_time K (dg_expires_at d)"

section \<open>The verifier\<close>

fun role_wire :: "DelegationRole \<Rightarrow> string" where
  "role_wire PolicyAuthority = ''policy-authority''"
| "role_wire PolicyEnforcement = ''policy-enforcement''"
| "role_wire PolicySessionRoot = ''policy-session-root''"
| "role_wire PolicySessionDescendant = ''policy-session-descendant''"

fun mode_wire :: "PolicyMode \<Rightarrow> string" where
  "mode_wire PolicySource = ''policy-source''"
| "mode_wire ConditionalMint = ''conditional-mint''"
| "mode_wire ModeAttenuable = ''attenuable''"
| "mode_wire ModeTerminal = ''terminal''"

definition delegation_value :: "PolicyDelegation \<Rightarrow> (string, json) btree" where
  "delegation_value d =
     [(''audienceDid'', JString (dg_audience d)),
      (''capabilities'', JArray (dg_capabilities d)),
      (''delegationCid'', JString (dg_cid d)),
      (''delegationMode'', JString (mode_wire (dg_mode d))),
      (''expiresAt'', JString (dg_expires_at d)),
      (''facts'', JObject (map (\<lambda>(k, v). (k, JString v)) (dg_facts d))),
      (''issuerDid'', JString (dg_issuer d)),
      (''notBefore'', JString (dg_not_before d)),
      (''proofCids'', JArray (map JString (dg_proofs d))),
      (''role'', JString (role_wire (dg_role d))),
      (''schema'', JString (dg_schema d)),
      (''signature'', JObject [(''suite'', JString (dg_suite d)), (''value'', JString (dg_signature d))])]"

definition canonical_unsigned :: "kernel_ext \<Rightarrow> PolicyDelegation \<Rightarrow> string" where
  "canonical_unsigned K d =
     canonicalize (k_ryu K)
       (JObject (filter (\<lambda>e. fst e \<noteq> ''signature'' \<and> fst e \<noteq> ''delegationCid'') (delegation_value d)))"

definition canonical_cid :: "kernel_ext \<Rightarrow> PolicyDelegation \<Rightarrow> string" where
  "canonical_cid K d = canonicalize (k_ryu K) (JObject (filter (\<lambda>e. fst e \<noteq> ''delegationCid'') (delegation_value d)))"

definition cid_for_artifact :: "externals \<Rightarrow> kernel_ext \<Rightarrow> PolicyDelegation \<Rightarrow> string" where
  "cid_for_artifact X K d = cid_display X (to_cid (hash_bytes X (canonical_cid K d)) RAW_CODEC)"

definition ROOT_DOMAIN :: string where
  "ROOT_DOMAIN = ''xyz.tinycloud.policy/enforcement-delegation/v1'' @ [CHR 0x00]"

definition signing_bytes :: "kernel_ext \<Rightarrow> string \<Rightarrow> string" where
  "signing_bytes K payload = k_sha256 K (ROOT_DOMAIN @ payload)"

text \<open>\<open>rsplit(':').next()\<close>: what follows the last colon.\<close>

definition after_last_colon :: "string \<Rightarrow> string" where
  "after_last_colon s = rev (takeWhile (\<lambda>c. c \<noteq> CHR '':'') (rev s))"

definition eip191_preimage :: "string \<Rightarrow> string" where
  "eip191_preimage d = CHR 0x19 # ''Ethereum Signed Message:'' @ CHR 0x0A # ''32'' @ d"

definition verify_eip191 ::
  "externals \<Rightarrow> kernel_ext \<Rightarrow> PolicyDelegation \<Rightarrow> string \<Rightarrow> string \<Rightarrow> (AuthorityError, unit) result" where
  "verify_eip191 X K artifact payload signature =
     (if length signature \<noteq> 65 then Inl SchemaInvalid
      else
        (let v = (of_char (signature ! 64) :: nat)
         in rbind (if v = 27 \<or> v = 28 then Inr (v - 27) else if v = 0 \<or> v = 1 then Inr v else Inl SchemaInvalid) (\<lambda>recovery.
            let hash = map (\<lambda>b. char_of (unat b)) (keccak256 X (eip191_preimage (signing_bytes K payload)))
            in rbind (ok_or (k_recover_key K hash (take 64 signature) recovery) SchemaInvalid) (\<lambda>public.
               let address = keccak256 X public
               in rbind (ok_or (Option.bind (strip_prefix (after_last_colon (dg_issuer artifact)) ''0x'') (\<lambda>hex.
                       Option.bind (k_hex_decode K hex) (\<lambda>bytes. if length bytes = 20 then Some bytes else None)))
                     SchemaInvalid) (\<lambda>expected.
                  if map (\<lambda>b. char_of (unat b)) (drop 12 address) \<noteq> expected then Inl AuthOwnerMismatch else Inr ())))))"

definition GROUP_ORDER :: string where
  "GROUP_ORDER =
     [CHR 0xED, CHR 0xD3, CHR 0xF5, CHR 0x5C, CHR 0x1A, CHR 0x63, CHR 0x12, CHR 0x58, CHR 0xD6, CHR 0x9C, CHR 0xF7,
      CHR 0xA2, CHR 0xDE, CHR 0xF9, CHR 0xDE, CHR 0x14] @ replicate 15 (CHR 0x00) @ [CHR 0x10]"

definition canonical_signature_s :: "string \<Rightarrow> bool" where
  "canonical_signature_s signature \<longleftrightarrow> length signature = 64 \<and> rev (drop 32 signature) < rev GROUP_ORDER"

definition evidence_public_key :: "kernel_ext \<Rightarrow> string \<Rightarrow> string option" where
  "evidence_public_key K did =
     Option.bind (strip_prefix did ''did:key:z'') (\<lambda>encoded.
     Option.bind (k_multibase_decode K (CHR ''z'' # encoded)) (\<lambda>bytes.
     if length bytes \<noteq> 34 \<or> take 2 bytes \<noteq> [CHR 0xED, CHR 0x01] then None else Some (drop 2 bytes)))"

definition verify_detached_ed25519 :: "kernel_ext \<Rightarrow> string \<Rightarrow> string \<Rightarrow> string \<Rightarrow> bool" where
  "verify_detached_ed25519 K signer_did message signature \<longleftrightarrow>
     (case evidence_public_key K signer_did of
        None \<Rightarrow> False
      | Some key \<Rightarrow> canonical_signature_s signature \<and> k_ed25519_verify K key message signature)"

definition verify_ed25519 ::
  "kernel_ext \<Rightarrow> PolicyDelegation \<Rightarrow> string \<Rightarrow> string \<Rightarrow> (AuthorityError, unit) result" where
  "verify_ed25519 K artifact payload signature =
     (if length signature \<noteq> 64 then Inl SchemaInvalid
      else if verify_detached_ed25519 K (dg_issuer artifact) (signing_bytes K payload) signature then Inr ()
      else Inl SchemaInvalid)"

definition verify_artifact :: "externals \<Rightarrow> kernel_ext \<Rightarrow> PolicyDelegation \<Rightarrow> (AuthorityError, unit) result" where
  "verify_artifact X K artifact =
     (let payload = canonical_unsigned K artifact
      in if dg_cid artifact \<noteq> cid_for_artifact X K artifact then Inl SchemaInvalid
         else
           rbind (ok_or (k_base64url_decode K (dg_signature artifact)) SchemaInvalid) (\<lambda>signature.
           if k_base64url K signature \<noteq> dg_signature artifact then Inl SchemaInvalid
           else if dg_suite artifact = EIP191_SUITE then verify_eip191 X K artifact payload signature
           else if dg_suite artifact = ED25519_SUITE then verify_ed25519 K artifact payload signature
           else Inl SchemaInvalid))"

definition verifier_verify :: "externals \<Rightarrow> kernel_ext \<Rightarrow> string \<Rightarrow> (AuthorityError, PolicyDelegation) result" where
  "verifier_verify X K bytes =
     rbind (policy_delegation_from_json K bytes) (\<lambda>artifact.
     rbind (verify_artifact X K artifact) (\<lambda>_.
     Inr artifact))"

text \<open>\<open>signer\<close> is the configured key: its DID and how it signs.\<close>

definition sign_and_verify_root ::
  "externals \<Rightarrow> kernel_ext \<Rightarrow> string \<times> (string \<Rightarrow> string) \<Rightarrow> PolicyDelegation \<Rightarrow> (AuthorityError, PolicyDelegation) result" where
  "sign_and_verify_root X K signer artifact =
     (if dg_role artifact \<noteq> PolicySessionRoot \<or> dg_suite artifact \<noteq> ED25519_SUITE \<or> dg_issuer artifact \<noteq> fst signer
      then Inl WrongEnforcer
      else
        (let signature = snd signer (signing_bytes K (canonical_unsigned K artifact));
             artifact1 = artifact\<lparr>dg_suite := ED25519_SUITE, dg_signature := k_base64url K signature\<rparr>;
             artifact2 = artifact1\<lparr>dg_cid := cid_for_artifact X K artifact1\<rparr>
         in rbind (verifier_verify X K (k_artifact_text K artifact2)) (\<lambda>verified.
            if dg_issuer verified \<noteq> fst signer then Inl WrongEnforcer else Inr verified)))"

end
