(* ===== verification/Policy_Kernel.thy ===== *)
theory Policy_Kernel
  imports Policy_Delegation
begin

text \<open>
  The equations of the policy authority kernel, \<open>tinycloud-core/src/policy_authority/mod.rs\<close>: the exact
  email policy and its decision, challenges, issuance audits, status transitions, the checks of an
  authority pair, of a session root and of a descendant, and the reference store in memory with the
  walk over its edges.
\<close>

section \<open>Conditions\<close>

text \<open>
  A chain of conditions joined by \<open>||\<close>, each of which may end the function through \<open>?\<close>, and the early
  return it guards.
\<close>

fun any_of :: "('e, bool) result list \<Rightarrow> ('e, bool) result" where
  "any_of [] = Inr False"
| "any_of (c # cs) = rbind c (\<lambda>b. if b then Inr True else any_of cs)"

definition reject :: "'e \<Rightarrow> ('e, bool) result list \<Rightarrow> ('e, unit) result" where
  "reject e cs = rbind (any_of cs) (\<lambda>b. if b then Inl e else Inr ())"

definition fact_differs :: "PolicyDelegation \<Rightarrow> string \<Rightarrow> string \<Rightarrow> (AuthorityError, bool) result" where
  "fact_differs d name v = rbind (fact d name) (\<lambda>x. Inr (x \<noteq> v))"

definition facts_differ :: "PolicyDelegation \<Rightarrow> PolicyDelegation \<Rightarrow> string \<Rightarrow> (AuthorityError, bool) result" where
  "facts_differ d d' name = rbind (fact d name) (\<lambda>x. rbind (fact d' name) (\<lambda>y. Inr (x \<noteq> y)))"

lemma any_of_False: "any_of cs = Inr False \<longleftrightarrow> (\<forall>c \<in> set cs. c = Inr False)"
  by (induction cs) (auto split: if_splits)

lemma reject_ok [simp]: "reject e cs = Inr u \<longleftrightarrow> (\<forall>c \<in> set cs. c = Inr False)"
  by (auto simp: reject_def any_of_False [symmetric] split: if_splits)

lemma fact_differs_False [simp]: "fact_differs d name v = Inr False \<longleftrightarrow> fact d name = Inr v"
  by (auto simp: fact_differs_def)

lemma facts_differ_False [simp]:
  "facts_differ d d' name = Inr False \<longleftrightarrow> (\<exists>v. fact d name = Inr v \<and> fact d' name = Inr v)"
  by (auto simp: facts_differ_def)

section \<open>Data\<close>

datatype PolicyGrantMode = GrantAttenuable | GrantTerminal

fun grant_mode_str :: "PolicyGrantMode \<Rightarrow> string" where
  "grant_mode_str GrantAttenuable = ''attenuable''"
| "grant_mode_str GrantTerminal = ''terminal''"

record VerifiedAttestedEnforcerBinding =
  eb_digest_hex :: string
  eb_enforcer :: string
  eb_audience :: string
  eb_expires :: time

record VerifiedPolicyState =
  vp_owner :: string
  vp_policy_id :: string
  vp_digest_hex :: string
  vp_ceiling_hex :: string
  vp_grant_mode :: PolicyGrantMode
  vp_max_ttl :: int
  vp_checked :: time
  vp_expires :: time

record DecisionContext =
  dc_owner :: string
  dc_policy_id :: string
  dc_policy_digest :: string
  dc_ceiling :: string
  dc_enforcer :: string
  dc_audience :: string
  dc_claimant :: string
  dc_challenge :: string
  dc_nonce_hash :: string
  dc_requested :: string
  dc_claim_digest :: string
  dc_vp_digest :: string

record TrustedPolicyDecision =
  td_context :: DecisionContext
  td_digest_hex :: string
  td_evaluated :: time
  td_valid_until :: time

record ChallengeState =
  ch_id :: string
  ch_nonce_hash :: string
  ch_owner :: string
  ch_policy_id :: string
  ch_policy_digest :: string
  ch_policy_cid :: string
  ch_enforcement_cid :: string
  ch_enforcer :: string
  ch_audience :: string
  ch_claimant :: string
  ch_requested :: string
  ch_issued :: time
  ch_expires :: time
  ch_consumed :: "time option"

record IssuanceBindings =
  ib_now :: time
  ib_claim_issued :: time
  ib_claim_expires :: time
  ib_challenge :: string
  ib_nonce_hash :: string
  ib_claimant :: string
  ib_requested :: string
  ib_claim_digest :: string
  ib_vp_digest :: string

record IssuanceAudit =
  ia_schema :: string
  ia_issuance :: string
  ia_owner :: string
  ia_policy_id :: string
  ia_policy_digest :: string
  ia_policy_cid :: string
  ia_enforcement_cid :: string
  ia_enforcer :: string
  ia_audience :: string
  ia_claimant :: string
  ia_capability_hash :: string
  ia_challenge :: string
  ia_nonce_hash :: string
  ia_claim_digest :: string
  ia_vp_digest :: string
  ia_context_digest :: string
  ia_decision :: string
  ia_issued :: string
  ia_expires :: string
  ia_digest_hex :: string
  ia_session :: string

datatype EdgeKind = EdgeAuthority | EdgeImmediate

record VerifiedEdge =
  ve_child :: string
  ve_parent :: string
  ve_kind :: EdgeKind
  ve_position :: nat

record AuthorityStatus =
  st_checked :: time
  st_fresh_until :: time
  st_sequence :: nat
  st_revoked :: "time option"

definition MAX_STATUS_AGE :: time where
  "MAX_STATUS_AGE = 300 * SECOND"

definition MAX_ANCESTRY_DEPTH :: nat where
  "MAX_ANCESTRY_DEPTH = 64"

section \<open>Decisions and audits\<close>

definition DECISION_CONTEXT_DOMAIN :: string where
  "DECISION_CONTEXT_DOMAIN = ''xyz.tinycloud.policy/DecisionContext/v1'' @ [CHR 0x00]"

definition ISSUANCE_AUDIT_DOMAIN :: string where
  "ISSUANCE_AUDIT_DOMAIN = ''xyz.tinycloud.policy/IssuanceAudit/v1'' @ [CHR 0x00]"

definition context_value :: "DecisionContext \<Rightarrow> json" where
  "context_value c = JObject
     [(''capabilityCeilingHashHex'', JString (dc_ceiling c)),
      (''challengeId'', JString (dc_challenge c)),
      (''challengeNonceHashHex'', JString (dc_nonce_hash c)),
      (''claimInvocationDigestHex'', JString (dc_claim_digest c)),
      (''claimantDid'', JString (dc_claimant c)),
      (''enforcerDid'', JString (dc_enforcer c)),
      (''nodeAudience'', JString (dc_audience c)),
      (''ownerDid'', JString (dc_owner c)),
      (''policyDigestHex'', JString (dc_policy_digest c)),
      (''policyId'', JString (dc_policy_id c)),
      (''requestedCapabilitiesHashHex'', JString (dc_requested c)),
      (''vpDigestHex'', JString (dc_vp_digest c))]"

definition context_digest_hex :: "kernel_ext \<Rightarrow> DecisionContext \<Rightarrow> string" where
  "context_digest_hex K c =
     hex_encode (k_sha256 K (DECISION_CONTEXT_DOMAIN @ canonicalize (k_ryu K) (context_value c)))"

definition from_evaluation :: "kernel_ext \<Rightarrow> DecisionContext \<Rightarrow> time \<Rightarrow> time \<Rightarrow> TrustedPolicyDecision" where
  "from_evaluation K c evaluated_at valid_until =
     \<lparr>td_context = c, td_digest_hex = context_digest_hex K c, td_evaluated = evaluated_at, td_valid_until = valid_until\<rparr>"

text \<open>The fields of an audit without its digest and the session.\<close>

definition audit_value :: "IssuanceAudit \<Rightarrow> json" where
  "audit_value a = JObject
     [(''capabilityHashHex'', JString (ia_capability_hash a)),
      (''challengeId'', JString (ia_challenge a)),
      (''challengeNonceHashHex'', JString (ia_nonce_hash a)),
      (''claimInvocationDigestHex'', JString (ia_claim_digest a)),
      (''claimantDid'', JString (ia_claimant a)),
      (''decision'', JString (ia_decision a)),
      (''decisionContextDigestHex'', JString (ia_context_digest a)),
      (''enforcementDelegationCid'', JString (ia_enforcement_cid a)),
      (''enforcerDid'', JString (ia_enforcer a)),
      (''expiresAt'', JString (ia_expires a)),
      (''issuanceId'', JString (ia_issuance a)),
      (''issuedAt'', JString (ia_issued a)),
      (''nodeAudience'', JString (ia_audience a)),
      (''ownerDid'', JString (ia_owner a)),
      (''policyDelegationCid'', JString (ia_policy_cid a)),
      (''policyDigestHex'', JString (ia_policy_digest a)),
      (''policyId'', JString (ia_policy_id a)),
      (''schema'', JString (ia_schema a)),
      (''vpDigestHex'', JString (ia_vp_digest a))]"

definition recompute_digest_hex :: "kernel_ext \<Rightarrow> IssuanceAudit \<Rightarrow> string" where
  "recompute_digest_hex K a =
     hex_encode (k_sha256 K (ISSUANCE_AUDIT_DOMAIN @ canonicalize (k_ryu K) (audit_value a)))"

definition AUDIT_SCHEMA :: string where
  "AUDIT_SCHEMA = ''xyz.tinycloud.policy/issuance-audit/v1''"

text \<open>\<open>canonical_time_string\<close>; printing a time in UTC is expected not to fail, so the panic is the empty text.\<close>

definition canonical_time_string :: "kernel_ext \<Rightarrow> time \<Rightarrow> string" where
  "canonical_time_string K t = (case k_format_time K t of Some s \<Rightarrow> s | None \<Rightarrow> [])"

definition build_verified ::
  "kernel_ext \<Rightarrow> string \<Rightarrow> PolicyDelegation \<Rightarrow> PolicyDelegation \<Rightarrow> string \<Rightarrow> string \<Rightarrow> string \<Rightarrow> string \<Rightarrow> string \<Rightarrow>
   string \<Rightarrow> string \<Rightarrow> time \<Rightarrow> time \<Rightarrow> (AuthorityError, IssuanceAudit) result" where
  "build_verified K issuance policy enforcement claimant caps_hash challenge nonce_hash claim_digest vp_digest
     context_digest issued_at expires_at =
     rbind (fact policy ''ownerDid'') (\<lambda>owner.
     rbind (fact policy ''policyId'') (\<lambda>policy_id.
     rbind (fact policy ''policyDigestHex'') (\<lambda>policy_digest.
     rbind (fact enforcement ''nodeAudience'') (\<lambda>audience.
     let audit = \<lparr>ia_schema = AUDIT_SCHEMA, ia_issuance = issuance, ia_owner = owner, ia_policy_id = policy_id,
           ia_policy_digest = policy_digest, ia_policy_cid = dg_cid policy, ia_enforcement_cid = dg_cid enforcement,
           ia_enforcer = dg_audience enforcement, ia_audience = audience, ia_claimant = claimant,
           ia_capability_hash = caps_hash, ia_challenge = challenge, ia_nonce_hash = nonce_hash,
           ia_claim_digest = claim_digest, ia_vp_digest = vp_digest, ia_context_digest = context_digest,
           ia_decision = ''allow'', ia_issued = canonical_time_string K issued_at,
           ia_expires = canonical_time_string K expires_at, ia_digest_hex = [], ia_session = []\<rparr>
     in Inr (audit\<lparr>ia_digest_hex := recompute_digest_hex K audit\<rparr>)))))"

section \<open>The exact email policy\<close>

definition email_local_char :: "char \<Rightarrow> bool" where
  "email_local_char c \<longleftrightarrow>
     is_ascii_alphanumeric c \<or>
     c \<in> set [CHR ''!'', CHR ''#'', CHR ''$'', CHR ''%'', CHR ''&'', CHR 0x27, CHR ''*'', CHR ''+'', CHR ''-'', CHR ''/'', CHR ''='',
       CHR ''?'', CHR ''^'', CHR ''_'', CHR 0x60, CHR ''{'', CHR ''|'', CHR ''}'', CHR ''~'', CHR ''.'']"

definition email_label_ok :: "string \<Rightarrow> bool" where
  "email_label_ok label \<longleftrightarrow>
     label \<noteq> [] \<and> length label \<le> 63 \<and> \<not> starts_with label ''-'' \<and> \<not> ends_with_char label (CHR ''-'') \<and>
     list_all (\<lambda>c. is_ascii_alphanumeric c \<or> c = CHR ''-'') label"

definition normalize_email :: "string \<Rightarrow> string option" where
  "normalize_email input =
     (if \<not> list_all (\<lambda>c. (of_char c :: nat) < 128) input \<or> length input > 254 then None
      else case split_once input (CHR ''@'') of
        None \<Rightarrow> None
      | Some (local, domain) \<Rightarrow>
          (if local = [] \<or> length local > 64 \<or> domain = [] \<or> length domain > 253 \<or> count_list input (CHR ''@'') \<noteq> 1 \<or>
              starts_with local ''.'' \<or> ends_with_char local (CHR ''.'') \<or> contains_str local ''..'' \<or>
              \<not> list_all email_local_char local
           then None
           else if \<not> list_all email_label_ok (split_char domain (CHR ''.'')) then None
           else Some (local @ ''@'' @ map ascii_lower_char domain)))"

record ExactEmailPolicyEvaluation =
  ev_policy :: PolicyDelegation
  ev_enforcement :: PolicyDelegation
  ev_policy_state :: json
  ev_sender :: string
  ev_email :: string
  ev_holder :: string
  ev_source :: json
  ev_source_digest :: string
  ev_action :: string
  ev_resource :: string
  ev_owner :: string
  ev_enforcer :: string
  ev_audience :: string
  ev_context :: DecisionContext
  ev_now :: time
  ev_credential_expires :: time
  ev_policy_expires :: time

definition policy_state_from_verified ::
  "PolicyDelegation \<Rightarrow> PolicyDelegation \<Rightarrow> time \<Rightarrow> time \<Rightarrow> (AuthorityError, VerifiedPolicyState) result" where
  "policy_state_from_verified policy enforcement checked_at expires_at =
     rbind (fact enforcement ''sessionMode'') (\<lambda>mode.
     rbind (if mode = ''attenuable'' then Inr GrantAttenuable else if mode = ''terminal'' then Inr GrantTerminal
            else Inl FactsMismatch) (\<lambda>grant_mode.
     rbind (fact policy ''ownerDid'') (\<lambda>owner.
     rbind (fact policy ''policyId'') (\<lambda>policy_id.
     rbind (fact policy ''policyDigestHex'') (\<lambda>digest_hex.
     rbind (fact policy ''capabilityCeilingHashHex'') (\<lambda>ceiling.
     rbind (decimal_fact enforcement ''maxSessionTtlSeconds'') (\<lambda>max_ttl.
     Inr \<lparr>vp_owner = owner, vp_policy_id = policy_id, vp_digest_hex = digest_hex, vp_ceiling_hex = ceiling,
       vp_grant_mode = grant_mode, vp_max_ttl = max_ttl, vp_checked = checked_at, vp_expires = expires_at\<rparr>)))))))"

definition validate_authority_pair ::
  "kernel_ext \<Rightarrow> PolicyDelegation \<Rightarrow> PolicyDelegation \<Rightarrow> VerifiedPolicyState \<Rightarrow> string \<Rightarrow> (AuthorityError, unit) result" where
  "validate_authority_pair K policy enforcement ps node =
     rbind (validate_wire_shape K policy) (\<lambda>_.
     rbind (validate_wire_shape K enforcement) (\<lambda>_.
     rbind (reject RoleModeMismatch
       [Inr (dg_role policy \<noteq> PolicyAuthority), Inr (dg_mode policy \<noteq> PolicySource), Inr (dg_proofs policy \<noteq> []),
        Inr (dg_role enforcement \<noteq> PolicyEnforcement), Inr (dg_mode enforcement \<noteq> ConditionalMint),
        Inr (dg_proofs enforcement \<noteq> [])]) (\<lambda>_.
     rbind (reject AuthOwnerMismatch
       [Inr (dg_issuer policy \<noteq> dg_issuer enforcement), facts_differ policy enforcement ''ownerDid'',
        fact_differs policy ''ownerDid'' (dg_issuer policy)]) (\<lambda>_.
     rbind (reject PolicyMismatch
       [rbind (fact policy ''policyId'') (\<lambda>v. Inr (\<not> starts_with v ''pol_'')),
        fact_differs enforcement ''nodeAudience'' (dg_audience policy)]) (\<lambda>_.
     rbind (try_all (\<lambda>name. reject PolicyMismatch [facts_differ policy enforcement name])
       [''policyId'', ''policyDigestHex'', ''capabilityCeilingHashHex'']) (\<lambda>_.
     rbind (reject CapabilityHashMismatch
       [Inr (dg_capabilities policy \<noteq> dg_capabilities enforcement),
        rbind (capability_hash K policy) (\<lambda>h. fact_differs policy ''capabilityCeilingHashHex'' h)]) (\<lambda>_.
     rbind (reject PolicyMismatch
       [fact_differs policy ''ownerDid'' (vp_owner ps), fact_differs policy ''policyId'' (vp_policy_id ps),
        fact_differs policy ''policyDigestHex'' (vp_digest_hex ps),
        fact_differs policy ''capabilityCeilingHashHex'' (vp_ceiling_hex ps)]) (\<lambda>_.
     rbind (reject WrongEnforcer
       [fact_differs enforcement ''enforcerDid'' (dg_audience enforcement), Inr (dg_audience enforcement \<noteq> node)]) (\<lambda>_.
     rbind (decimal_fact enforcement ''maxSessionTtlSeconds'') (\<lambda>ttl.
     rbind (decimal_fact enforcement ''maxRedelegationDepth'') (\<lambda>depth.
     rbind (reject FactsMismatch
       [Inr (\<not> (1 \<le> ttl \<and> ttl \<le> 300)), Inr (depth > 8), fact_differs enforcement ''auditProfile'' ''vp-digest-v1'']) (\<lambda>_.
     reject PolicyMismatch
       [Inr (ttl > vp_max_ttl ps), fact_differs enforcement ''sessionMode'' (grant_mode_str (vp_grant_mode ps)),
        Inr (vp_grant_mode ps = GrantTerminal \<and> depth \<noteq> 0)]))))))))))))"

definition EMAIL_POLICY_KEYS :: "string list" where
  "EMAIL_POLICY_KEYS = [''type'', ''version'', ''recipientEmail'', ''contentSource'', ''contentSourceDigest'', ''action'',
     ''resource'', ''expiresAt'', ''issuerDid'']"

definition evaluate_exact_email_policy ::
  "kernel_ext \<Rightarrow> ExactEmailPolicyEvaluation \<Rightarrow> (AuthorityError, TrustedPolicyDecision) result" where
  "evaluate_exact_email_policy K ev =
     rbind (ok_or (as_object (ev_policy_state ev)) SchemaInvalid) (\<lambda>object.
     if length object \<noteq> length EMAIL_POLICY_KEYS \<or> list_ex (\<lambda>e. fst e \<notin> set EMAIL_POLICY_KEYS) object \<or>
        obj_get_as as_str object ''type'' \<noteq> Some ''TinyCloudSharePolicy'' \<or> obj_get_as as_u64 object ''version'' \<noteq> Some 1
     then Inl SchemaInvalid
     else
       rbind (ok_or (obj_get_as as_str object ''recipientEmail'') PolicyMismatch) (\<lambda>recipient.
       rbind (ok_or (normalize_email recipient) PolicyMismatch) (\<lambda>normalized_recipient.
       if normalized_recipient \<noteq> ev_email ev \<or> obj_get object ''contentSource'' \<noteq> Some (ev_source ev) \<or>
          obj_get_as as_str object ''contentSourceDigest'' \<noteq> Some (ev_source_digest ev) \<or>
          obj_get_as as_str object ''action'' \<noteq> Some (ev_action ev) \<or>
          obj_get_as as_str object ''resource'' \<noteq> Some (ev_resource ev) \<or>
          obj_get_as as_str object ''issuerDid'' \<noteq> Some (ev_sender ev)
       then Inl PolicyMismatch
       else
         rbind (ok_or (Option.bind (obj_get_as as_str object ''expiresAt'') (k_parse_time K)) PolicyDecisionExpired) (\<lambda>policy_expiry.
         if policy_expiry < ev_policy_expires ev \<or> ev_now ev \<ge> policy_expiry \<or> ev_credential_expires ev \<le> ev_now ev \<or>
            ev_credential_expires ev < policy_expiry
         then Inl PolicyDecisionExpired
         else
           rbind (reject PolicyMismatch
             [Inr (dc_claimant (ev_context ev) \<noteq> ev_holder ev), Inr (dc_owner (ev_context ev) \<noteq> ev_owner ev),
              Inr (dc_enforcer (ev_context ev) \<noteq> ev_enforcer ev), Inr (dc_audience (ev_context ev) \<noteq> ev_audience ev),
              Inr (dg_audience (ev_policy ev) \<noteq> ev_audience ev), Inr (dg_audience (ev_enforcement ev) \<noteq> ev_enforcer ev),
              fact_differs (ev_enforcement ev) ''nodeAudience'' (ev_audience ev),
              fact_differs (ev_enforcement ev) ''enforcerDid'' (ev_enforcer ev)]) (\<lambda>_.
           rbind (policy_state_from_verified (ev_policy ev) (ev_enforcement ev) (ev_now ev) policy_expiry) (\<lambda>ps.
           rbind (validate_authority_pair K (ev_policy ev) (ev_enforcement ev) ps (ev_enforcer ev)) (\<lambda>_.
           Inr (from_evaluation K (ev_context ev) (ev_now ev) policy_expiry))))))))"

section \<open>Challenges\<close>

definition validate_challenge_lifetime_for_read :: "ChallengeState \<Rightarrow> (AuthorityError, unit) result" where
  "validate_challenge_lifetime_for_read c =
     (if ch_expires c \<le> ch_issued c \<or> ch_expires c - ch_issued c > 300 * SECOND then Inl ChallengeExpired else Inr ())"

definition validate_challenge_lifetime :: "ChallengeState \<Rightarrow> (AuthorityError, unit) result" where
  "validate_challenge_lifetime c =
     (if ch_consumed c \<noteq> None then Inl ChallengeExpired else validate_challenge_lifetime_for_read c)"

text \<open>\<open>ChallengeState::from_verified\<close> on the challenge with its fields filled in, not consumed.\<close>

definition challenge_from_verified :: "ChallengeState \<Rightarrow> (AuthorityError, ChallengeState) result" where
  "challenge_from_verified c =
     (let challenge = c\<lparr>ch_consumed := None\<rparr>
      in rbind (validate_challenge_lifetime challenge) (\<lambda>_. Inr challenge))"

definition validate_challenge ::
  "ChallengeState \<Rightarrow> PolicyDelegation \<Rightarrow> PolicyDelegation \<Rightarrow> IssuanceBindings \<Rightarrow> string \<Rightarrow> (AuthorityError, unit) result" where
  "validate_challenge c policy enforcement b node =
     (if ch_expires c \<le> ch_issued c \<or> ch_expires c - ch_issued c > 300 * SECOND then Inl ChallengeExpired
      else
        rbind (reject ChallengeNotFound
          [Inr (ch_id c \<noteq> ib_challenge b), Inr (ch_nonce_hash c \<noteq> ib_nonce_hash b),
           fact_differs policy ''ownerDid'' (ch_owner c), fact_differs policy ''policyId'' (ch_policy_id c),
           fact_differs policy ''policyDigestHex'' (ch_policy_digest c), Inr (ch_policy_cid c \<noteq> dg_cid policy),
           Inr (ch_enforcement_cid c \<noteq> dg_cid enforcement), Inr (ch_enforcer c \<noteq> node),
           fact_differs enforcement ''nodeAudience'' (ch_audience c), Inr (ch_claimant c \<noteq> ib_claimant b),
           Inr (ch_requested c \<noteq> ib_requested b)]) (\<lambda>_.
        if ib_now b < ch_issued c \<or> ib_now b \<ge> ch_expires c then Inl ChallengeExpired else Inr ()))"

section \<open>Session roots and descendants\<close>

definition valid_prefixed_base32 :: "string \<Rightarrow> string \<Rightarrow> nat \<Rightarrow> bool" where
  "valid_prefixed_base32 value pre suffix_len =
     (case strip_prefix value pre of
        None \<Rightarrow> False
      | Some tail \<Rightarrow> length tail = suffix_len \<and> list_all (\<lambda>c. is_ascii_lower c \<or> CHR ''2'' \<le> c \<and> c \<le> CHR ''7'') tail)"

definition session_mode :: "int \<Rightarrow> PolicyMode" where
  "session_mode depth = (if depth > 0 then ModeAttenuable else ModeTerminal)"

text \<open>The audit record of an issuance, with its digest.\<close>

definition root_audit ::
  "kernel_ext \<Rightarrow> PolicyDelegation \<Rightarrow> PolicyDelegation \<Rightarrow> ChallengeState \<Rightarrow> PolicyDelegation \<Rightarrow> TrustedPolicyDecision \<Rightarrow>
   IssuanceBindings \<Rightarrow> string \<Rightarrow> string \<Rightarrow> string \<Rightarrow> string \<Rightarrow> string \<Rightarrow> string \<Rightarrow> string \<Rightarrow> IssuanceAudit" where
  "root_audit K policy enforcement challenge session_root decision b node issuance owner policy_id policy_digest audience caps_hash =
     (let audit = \<lparr>ia_schema = AUDIT_SCHEMA, ia_issuance = issuance, ia_owner = owner, ia_policy_id = policy_id,
           ia_policy_digest = policy_digest, ia_policy_cid = dg_cid policy, ia_enforcement_cid = dg_cid enforcement,
           ia_enforcer = node, ia_audience = audience, ia_claimant = ib_claimant b, ia_capability_hash = caps_hash,
           ia_challenge = ch_id challenge, ia_nonce_hash = ch_nonce_hash challenge, ia_claim_digest = ib_claim_digest b,
           ia_vp_digest = ib_vp_digest b, ia_context_digest = td_digest_hex decision, ia_decision = ''allow'',
           ia_issued = dg_not_before session_root, ia_expires = dg_expires_at session_root, ia_digest_hex = [],
           ia_session = dg_cid session_root\<rparr>
      in audit\<lparr>ia_digest_hex := recompute_digest_hex K audit\<rparr>)"

text \<open>\<open>validate_root\<close> in its order: the proofs and parties, the facts and capabilities, the decision, the times, the audit.\<close>

definition root_parties ::
  "kernel_ext \<Rightarrow> PolicyDelegation \<Rightarrow> PolicyDelegation \<Rightarrow> VerifiedPolicyState \<Rightarrow> ChallengeState \<Rightarrow> PolicyDelegation \<Rightarrow>
   IssuanceBindings \<Rightarrow> string \<Rightarrow> (AuthorityError, unit) result" where
  "root_parties K policy enforcement ps challenge session_root b node =
     rbind (validate_wire_shape K session_root) (\<lambda>_.
     if vp_checked ps > ib_now b \<or> ib_now b - vp_checked ps > MAX_STATUS_AGE \<or> ib_now b \<ge> vp_expires ps
     then Inl AuthorityStateUnavailable
     else
     rbind (validate_challenge challenge policy enforcement b node) (\<lambda>_.
     if dg_role session_root \<noteq> PolicySessionRoot \<or> dg_proofs session_root \<noteq> [dg_cid policy, dg_cid enforcement]
     then Inl ProofSetUnmatched
     else
     rbind (depth_of session_root) (\<lambda>depth.
     rbind (reject SessionRedelegationInvalid
       [Inr (dg_mode session_root \<noteq> session_mode depth),
        rbind (decimal_fact enforcement ''maxRedelegationDepth'') (\<lambda>n. Inr (depth \<noteq> n))]) (\<lambda>_.
     rbind (reject WrongEnforcer
       [Inr (dg_issuer session_root \<noteq> dg_audience enforcement),
        fact_differs session_root ''enforcerDid'' (dg_audience enforcement), Inr (dg_issuer session_root \<noteq> node)]) (\<lambda>_.
     rbind (reject WrongAudience [facts_differ session_root enforcement ''nodeAudience'']) (\<lambda>_.
     reject ClaimantMismatch
       [Inr (dg_audience session_root \<noteq> ib_claimant b), fact_differs session_root ''rootClaimantDid'' (ib_claimant b),
        fact_differs session_root ''sessionSubjectDid'' (ib_claimant b)]))))))"

definition root_claims ::
  "kernel_ext \<Rightarrow> PolicyDelegation \<Rightarrow> PolicyDelegation \<Rightarrow> PolicyDelegation \<Rightarrow> VerifiedAttestedEnforcerBinding \<Rightarrow>
   TrustedPolicyDecision \<Rightarrow> IssuanceBindings \<Rightarrow> string \<Rightarrow> (AuthorityError, string \<times> string \<times> string \<times> string) result" where
  "root_claims K policy enforcement session_root binding decision b node =
     rbind (fact policy ''ownerDid'') (\<lambda>owner.
     rbind (fact policy ''policyId'') (\<lambda>policy_id.
     rbind (fact policy ''policyDigestHex'') (\<lambda>policy_digest.
     rbind (fact policy ''capabilityCeilingHashHex'') (\<lambda>ceiling.
     rbind (try_all (\<lambda>(name, expected). reject FactsMismatch [fact_differs session_root name expected])
       [(''ownerDid'', owner), (''policyId'', policy_id), (''policyDigestHex'', policy_digest),
        (''capabilityCeilingHashHex'', ceiling), (''policyDelegationCid'', dg_cid policy),
        (''enforcementDelegationCid'', dg_cid enforcement), (''attestationBindingDigestHex'', eb_digest_hex binding),
        (''claimInvocationDigestHex'', ib_claim_digest b), (''vpDigestHex'', ib_vp_digest b),
        (''decisionContextDigestHex'', td_digest_hex decision)]) (\<lambda>_.
     rbind (reject CapabilityBroadened
       [rbind (capability_hash K session_root) (\<lambda>h. fact_differs session_root ''capabilityHashHex'' h),
        rbind (capability_hash K session_root) (\<lambda>h. Inr (h \<noteq> ib_requested b)),
        rbind (capability_set_contained K (dg_capabilities session_root) (dg_capabilities policy)) (\<lambda>ok. Inr (\<not> ok)),
        rbind (capability_set_contained K (dg_capabilities session_root) (dg_capabilities enforcement)) (\<lambda>ok. Inr (\<not> ok))]) (\<lambda>_.
     rbind (reject AttestationBindingMismatch
       [Inr (eb_enforcer binding \<noteq> dg_audience enforcement), fact_differs enforcement ''nodeAudience'' (eb_audience binding),
        Inr (eb_enforcer binding \<noteq> node),
        fact_differs enforcement ''attestationBindingDigestHex'' (eb_digest_hex binding)]) (\<lambda>_.
     if ib_now b \<ge> eb_expires binding then Inl AttestationExpired
     else Inr (owner, policy_id, policy_digest, ceiling))))))))"

definition root_decision ::
  "kernel_ext \<Rightarrow> TrustedPolicyDecision \<Rightarrow> IssuanceBindings \<Rightarrow> string \<Rightarrow> string \<Rightarrow> string \<times> string \<times> string \<times> string \<Rightarrow>
   (AuthorityError, unit) result" where
  "root_decision K decision b node audience claims =
     (let (owner, policy_id, policy_digest, ceiling) = claims;
          expected_context = \<lparr>dc_owner = owner, dc_policy_id = policy_id, dc_policy_digest = policy_digest, dc_ceiling = ceiling,
            dc_enforcer = node, dc_audience = audience, dc_claimant = ib_claimant b, dc_challenge = ib_challenge b,
            dc_nonce_hash = ib_nonce_hash b, dc_requested = ib_requested b, dc_claim_digest = ib_claim_digest b,
            dc_vp_digest = ib_vp_digest b\<rparr>
      in if td_context decision \<noteq> expected_context \<or> td_digest_hex decision \<noteq> context_digest_hex K expected_context
         then Inl DecisionContextMismatch
         else if td_evaluated decision > ib_now b \<or> ib_now b \<ge> td_valid_until decision then Inl PolicyDecisionExpired
         else Inr ())"

definition root_times ::
  "kernel_ext \<Rightarrow> PolicyDelegation \<Rightarrow> PolicyDelegation \<Rightarrow> VerifiedPolicyState \<Rightarrow> ChallengeState \<Rightarrow> PolicyDelegation \<Rightarrow>
   TrustedPolicyDecision \<Rightarrow> IssuanceBindings \<Rightarrow> (AuthorityError, unit) result" where
  "root_times K policy enforcement ps challenge session_root decision b =
     rbind (dg_starts K session_root) (\<lambda>not_before.
     rbind (dg_ends K session_root) (\<lambda>expires_at.
     rbind (decimal_fact enforcement ''maxSessionTtlSeconds'') (\<lambda>max_ttl.
     let ttl_end = not_before + min max_ttl (vp_max_ttl ps) * SECOND
     in
     rbind (dg_ends K policy) (\<lambda>policy_ends.
     rbind (dg_ends K enforcement) (\<lambda>enforcement_ends.
     let maximum_expiry = foldr min [policy_ends, enforcement_ends, vp_expires ps, ch_expires challenge, ib_claim_expires b,
           td_valid_until decision] ttl_end
     in
     reject SessionTimeInvalid
       [rbind (dg_starts K policy) (\<lambda>t. Inr (not_before < t)), rbind (dg_starts K enforcement) (\<lambda>t. Inr (not_before < t)),
        Inr (not_before < ib_now b), Inr (not_before < ib_claim_issued b), Inr (not_before < td_evaluated decision),
        Inr (expires_at > maximum_expiry), Inr (not_before \<ge> expires_at)])))))"

definition validate_root ::
  "kernel_ext \<Rightarrow> PolicyDelegation \<Rightarrow> PolicyDelegation \<Rightarrow> VerifiedPolicyState \<Rightarrow> ChallengeState \<Rightarrow> PolicyDelegation \<Rightarrow>
   VerifiedAttestedEnforcerBinding \<Rightarrow> TrustedPolicyDecision \<Rightarrow> IssuanceBindings \<Rightarrow> string \<Rightarrow>
   (AuthorityError, IssuanceAudit) result" where
  "validate_root K policy enforcement ps challenge session_root binding decision b node =
     rbind (root_parties K policy enforcement ps challenge session_root b node) (\<lambda>_.
     rbind (root_claims K policy enforcement session_root binding decision b node) (\<lambda>claims.
     rbind (fact enforcement ''nodeAudience'') (\<lambda>audience.
     rbind (root_decision K decision b node audience claims) (\<lambda>_.
     rbind (root_times K policy enforcement ps challenge session_root decision b) (\<lambda>_.
     rbind (fact session_root ''issuanceId'') (\<lambda>issuance.
     if \<not> valid_prefixed_base32 issuance ''peiss_'' 26 then Inl SchemaInvalid
     else
     rbind (fact session_root ''capabilityHashHex'') (\<lambda>caps_hash.
     let (owner, policy_id, policy_digest, ceiling) = claims;
         audit = root_audit K policy enforcement challenge session_root decision b node issuance owner policy_id policy_digest
           audience caps_hash
     in rbind (reject AuditDigestMismatch [fact_differs session_root ''issuanceAuditDigestHex'' (ia_digest_hex audit)]) (\<lambda>_.
     Inr audit))))))))"

definition MUTABLE_FACTS :: "string list" where
  "MUTABLE_FACTS = [''capabilityHashHex'', ''sessionSubjectDid'', ''remainingRedelegationDepth'',
     ''rootSessionDelegationCid'', ''immediateParentDelegationCid'']"

definition validate_descendant ::
  "kernel_ext \<Rightarrow> PolicyDelegation \<Rightarrow> PolicyDelegation \<Rightarrow> PolicyDelegation \<Rightarrow> (AuthorityError, unit) result" where
  "validate_descendant K child parent session_root =
     rbind (validate_wire_shape K child) (\<lambda>_.
     rbind (validate_wire_shape K parent) (\<lambda>_.
     rbind (validate_wire_shape K session_root) (\<lambda>_.
     rbind (reject DescendantParentMismatch
       [Inr (dg_role child \<noteq> PolicySessionDescendant), Inr (dg_proofs child \<noteq> [dg_cid parent]),
        fact_differs child ''immediateParentDelegationCid'' (dg_cid parent)]) (\<lambda>_.
     if dg_mode parent = ConditionalMint then Inl ConditionalMintNotParent
     else if dg_mode parent = ModeTerminal then Inl TerminalParent
     else if \<not> (dg_role parent = PolicySessionRoot \<or> dg_role parent = PolicySessionDescendant) then Inl RoleModeMismatch
     else
     rbind (reject SessionRedelegationInvalid
       [Inr (dg_issuer child \<noteq> dg_audience parent), fact_differs child ''sessionSubjectDid'' (dg_audience child)]) (\<lambda>_.
     rbind (reject DescendantAuthorityRootsMismatch
       [fact_differs child ''rootSessionDelegationCid'' (dg_cid session_root),
        facts_differ child session_root ''policyDelegationCid'',
        facts_differ child session_root ''enforcementDelegationCid'']) (\<lambda>_.
     rbind (try_all (\<lambda>(key, value).
         if key \<notin> set (map (\<lambda>name. POLICY_PREFIX @ name) MUTABLE_FACTS) \<and> map_of (dg_facts child) key \<noteq> Some value
         then Inl DescendantAuthorityRootsMismatch else Inr ()) (dg_facts parent)) (\<lambda>_.
     rbind (depth_of parent) (\<lambda>parent_depth.
     rbind (depth_of child) (\<lambda>child_depth.
     if parent_depth = 0 \<or> child_depth + 1 \<noteq> parent_depth \<or> dg_mode child \<noteq> session_mode child_depth
     then Inl SessionRedelegationInvalid
     else
     rbind (reject CapabilityBroadened
       [rbind (capability_hash K child) (\<lambda>h. fact_differs child ''capabilityHashHex'' h),
        rbind (capability_set_contained K (dg_capabilities child) (dg_capabilities parent)) (\<lambda>ok. Inr (\<not> ok))]) (\<lambda>_.
     reject SessionTimeInvalid
       [rbind (dg_starts K child) (\<lambda>a. rbind (dg_starts K parent) (\<lambda>b. Inr (a \<le> b))),
        rbind (dg_ends K child) (\<lambda>a. rbind (dg_ends K parent) (\<lambda>b. Inr (a \<ge> b))),
        rbind (dg_starts K child) (\<lambda>a. rbind (dg_ends K child) (\<lambda>b. Inr (a \<ge> b)))]))))))))))"

section \<open>Status and edges\<close>

definition validate_status_transition :: "AuthorityStatus \<Rightarrow> AuthorityStatus \<Rightarrow> (AuthorityError, unit) result" where
  "validate_status_transition previous status =
     (if st_sequence status \<le> st_sequence previous \<or> st_checked status < st_checked previous \<or>
         st_revoked previous \<noteq> None \<and> st_revoked status \<noteq> st_revoked previous \<or>
         (\<exists>r \<in> set_option (st_revoked status). r < st_checked previous \<or> r > st_checked status)
      then Inl AuthorityStateUnavailable else Inr ())"

definition initial_status :: "time \<Rightarrow> AuthorityStatus" where
  "initial_status now =
     \<lparr>st_checked = now, st_fresh_until = now + MAX_STATUS_AGE, st_sequence = 0, st_revoked = None\<rparr>"

definition validate_persisted_edge_shape ::
  "PolicyDelegation \<Rightarrow> VerifiedEdge list \<Rightarrow> (AuthorityError, unit) result" where
  "validate_persisted_edge_shape a es =
     (case dg_role a of
        PolicySessionRoot \<Rightarrow>
          (if length es \<noteq> 2 \<or> ve_kind (es ! 0) \<noteq> EdgeAuthority \<or> ve_position (es ! 0) \<noteq> 0 \<or>
              ve_kind (es ! 1) \<noteq> EdgeAuthority \<or> ve_position (es ! 1) \<noteq> 1 \<or>
              ve_parent (es ! 0) \<noteq> dg_proofs a ! 0 \<or> ve_parent (es ! 1) \<noteq> dg_proofs a ! 1
           then Inl AuthorityStateUnavailable else Inr ())
      | PolicySessionDescendant \<Rightarrow>
          (if length es \<noteq> 1 \<or> ve_kind (es ! 0) \<noteq> EdgeImmediate \<or> ve_position (es ! 0) \<noteq> 0 \<or>
              ve_parent (es ! 0) \<noteq> dg_proofs a ! 0
           then Inl AuthorityStateUnavailable else Inr ())
      | _ \<Rightarrow> (if es \<noteq> [] then Inl AuthorityStateUnavailable else Inr ()))"

section \<open>The reference store\<close>

record MemoryState =
  ms_artifacts :: "string \<Rightarrow> PolicyDelegation option"
  ms_edges :: "VerifiedEdge list"
  ms_challenges :: "string \<Rightarrow> ChallengeState option"
  ms_audits :: "string \<Rightarrow> IssuanceAudit option"
  ms_statuses :: "string \<Rightarrow> AuthorityStatus option"
  ms_fail_next :: bool

definition empty_memory :: MemoryState where
  "empty_memory = \<lparr>ms_artifacts = Map.empty, ms_edges = [], ms_challenges = Map.empty, ms_audits = Map.empty,
     ms_statuses = Map.empty, ms_fail_next = False\<rparr>"

definition mem_insert_verified_authority ::
  "PolicyDelegation \<Rightarrow> AuthorityStatus \<Rightarrow> MemoryState \<Rightarrow> (AuthorityError, MemoryState) result" where
  "mem_insert_verified_authority a status s =
     (if ms_artifacts s (dg_cid a) \<noteq> None \<or> ms_statuses s (dg_cid a) \<noteq> None then Inl AuthorityStateUnavailable
      else Inr (s\<lparr>ms_statuses := (ms_statuses s)(dg_cid a \<mapsto> status), ms_artifacts := (ms_artifacts s)(dg_cid a \<mapsto> a)\<rparr>))"

definition mem_insert_challenge :: "ChallengeState \<Rightarrow> MemoryState \<Rightarrow> (AuthorityError, MemoryState) result" where
  "mem_insert_challenge c s =
     rbind (validate_challenge_lifetime c) (\<lambda>_.
     if ms_challenges s (ch_id c) \<noteq> None then Inl ChallengeConsumed
     else Inr (s\<lparr>ms_challenges := (ms_challenges s)(ch_id c \<mapsto> c)\<rparr>))"

definition mem_set_status :: "string \<Rightarrow> AuthorityStatus \<Rightarrow> MemoryState \<Rightarrow> (AuthorityError, MemoryState) result" where
  "mem_set_status cid status s =
     rbind (ok_or (ms_statuses s cid) AuthorityStateUnavailable) (\<lambda>previous.
     rbind (validate_status_transition previous status) (\<lambda>_.
     Inr (s\<lparr>ms_statuses := (ms_statuses s)(cid \<mapsto> status)\<rparr>)))"

definition revoked_error :: "bool \<Rightarrow> AuthorityError" where
  "revoked_error ancestor = (if ancestor then DelegationAncestorRevoked else AuthorityError.DelegationRevoked)"

definition ensure_live_in_memory ::
  "kernel_ext \<Rightarrow> MemoryState \<Rightarrow> string \<Rightarrow> time \<Rightarrow> bool \<Rightarrow> (AuthorityError, unit) result" where
  "ensure_live_in_memory K s cid now ancestor =
     rbind (ok_or (ms_artifacts s cid) AuthorityStateUnavailable) (\<lambda>a.
     rbind (reject SessionTimeInvalid
       [rbind (dg_starts K a) (\<lambda>t. Inr (now < t)), rbind (dg_ends K a) (\<lambda>t. Inr (now \<ge> t))]) (\<lambda>_.
     rbind (ok_or (ms_statuses s cid) AuthorityStateUnavailable) (\<lambda>status.
     if now - st_checked status > MAX_STATUS_AGE \<or> st_checked status > now \<or> st_fresh_until status \<le> now \<or>
        st_fresh_until status - st_checked status > MAX_STATUS_AGE \<or>
        (\<exists>r \<in> set_option (st_revoked status). r > st_checked status)
     then Inl AuthorityStateUnavailable
     else if \<exists>r \<in> set_option (st_revoked status). r \<le> now then Inl (revoked_error ancestor)
     else Inr ())))"

definition edges_of :: "string \<Rightarrow> VerifiedEdge list \<Rightarrow> VerifiedEdge list" where
  "edges_of cid es = filter (\<lambda>e. ve_child e = cid) es"

text \<open>
  \<open>walk_memory_edges\<close>. The first argument is \<open>MAX_ANCESTRY_DEPTH + 1 - depth\<close>: at zero the depth is past the
  bound. A vertex is on the path while its parents are walked and leaves it afterwards.
\<close>

fun walk_memory_edges ::
  "nat \<Rightarrow> kernel_ext \<Rightarrow> MemoryState \<Rightarrow> time \<Rightarrow> string \<Rightarrow> bool \<Rightarrow> string list \<Rightarrow> (AuthorityError, unit) result" where
  "walk_memory_edges 0 K s now cid ancestor visiting = Inl AncestryTooDeep"
| "walk_memory_edges (Suc n) K s now cid ancestor visiting =
     (if cid \<in> set visiting then Inl AncestryTooDeep
      else
        rbind (ensure_live_in_memory K s cid now ancestor) (\<lambda>_.
        rbind (ok_or (ms_artifacts s cid) AuthorityStateUnavailable) (\<lambda>a.
        let es = sort_key ve_position (edges_of cid (ms_edges s))
        in rbind (validate_persisted_edge_shape a es) (\<lambda>_.
           try_all (\<lambda>e. walk_memory_edges n K s now (ve_parent e) True (cid # visiting)) es))))"

definition mem_issue_root ::
  "kernel_ext \<Rightarrow> string \<Rightarrow> PolicyDelegation \<Rightarrow> PolicyDelegation \<Rightarrow> VerifiedPolicyState \<Rightarrow> PolicyDelegation \<Rightarrow>
   VerifiedAttestedEnforcerBinding \<Rightarrow> TrustedPolicyDecision \<Rightarrow> IssuanceBindings \<Rightarrow> MemoryState \<Rightarrow>
   MemoryState \<times> (AuthorityError, unit) result" where
  "mem_issue_root K node policy enforcement ps session_root binding decision b s =
     (case
        rbind (validate_authority_pair K policy enforcement ps node) (\<lambda>_.
        rbind (ensure_live_in_memory K s (dg_cid policy) (ib_now b) False) (\<lambda>_.
        rbind (ensure_live_in_memory K s (dg_cid enforcement) (ib_now b) False) (\<lambda>_.
        if ms_artifacts s (dg_cid policy) \<noteq> Some policy \<or> ms_artifacts s (dg_cid enforcement) \<noteq> Some enforcement
        then Inl AuthorityStateUnavailable
        else
        rbind (ok_or (ms_challenges s (ib_challenge b)) ChallengeNotFound) (\<lambda>challenge.
        if ch_consumed challenge \<noteq> None then Inl ChallengeConsumed
        else
        rbind (validate_root K policy enforcement ps challenge session_root binding decision b node) (\<lambda>audit.
        Inr (challenge, audit)))))) of
        Inl e \<Rightarrow> (s, Inl e)
      | Inr (challenge, audit) \<Rightarrow>
          (if ms_fail_next s then (s\<lparr>ms_fail_next := False\<rparr>, Inl TransactionFailed)
           else
             (s\<lparr>ms_artifacts := (ms_artifacts s)(dg_cid session_root \<mapsto> session_root),
                ms_statuses := (ms_statuses s)(dg_cid session_root \<mapsto> initial_status (ib_now b)),
                ms_edges := ms_edges s @
                  [\<lparr>ve_child = dg_cid session_root, ve_parent = dg_proofs session_root ! 0, ve_kind = EdgeAuthority, ve_position = 0\<rparr>,
                   \<lparr>ve_child = dg_cid session_root, ve_parent = dg_proofs session_root ! 1, ve_kind = EdgeAuthority, ve_position = 1\<rparr>],
                ms_audits := (ms_audits s)(ia_issuance audit \<mapsto> audit),
                ms_challenges := (ms_challenges s)(ib_challenge b \<mapsto> challenge\<lparr>ch_consumed := Some (ib_now b)\<rparr>)\<rparr>,
              Inr ())))"

definition root_cid_of :: "PolicyDelegation \<Rightarrow> (AuthorityError, string) result" where
  "root_cid_of parent =
     (if dg_role parent = PolicySessionRoot then Inr (dg_cid parent) else fact parent ''rootSessionDelegationCid'')"

definition mem_persist_descendant ::
  "kernel_ext \<Rightarrow> PolicyDelegation \<Rightarrow> time \<Rightarrow> MemoryState \<Rightarrow> MemoryState \<times> (AuthorityError, unit) result" where
  "mem_persist_descendant K descendant now s =
     (case
        rbind (ok_or (case dg_proofs descendant of [] \<Rightarrow> None | c # _ \<Rightarrow> Some c) DescendantParentMismatch) (\<lambda>parent_cid.
        rbind (ok_or (ms_artifacts s parent_cid) DescendantParentMismatch) (\<lambda>parent.
        if dg_mode parent = ConditionalMint then Inl ConditionalMintNotParent
        else
        rbind (root_cid_of parent) (\<lambda>root_cid.
        rbind (ok_or (ms_artifacts s root_cid) DescendantAuthorityRootsMismatch) (\<lambda>session_root.
        rbind (validate_descendant K descendant parent session_root) (\<lambda>_.
        rbind (walk_memory_edges (MAX_ANCESTRY_DEPTH + 1) K s now (dg_cid parent) False []) (\<lambda>_.
        Inr parent_cid)))))) of
        Inl e \<Rightarrow> (s, Inl e)
      | Inr parent_cid \<Rightarrow>
          (if ms_fail_next s then (s\<lparr>ms_fail_next := False\<rparr>, Inl TransactionFailed)
           else
             (s\<lparr>ms_artifacts := (ms_artifacts s)(dg_cid descendant \<mapsto> descendant),
                ms_statuses := (ms_statuses s)(dg_cid descendant \<mapsto> initial_status now),
                ms_edges := ms_edges s @
                  [\<lparr>ve_child = dg_cid descendant, ve_parent = parent_cid, ve_kind = EdgeImmediate, ve_position = 0\<rparr>]\<rparr>,
              Inr ())))"

text \<open>
  \<open>walk_verified_edges\<close>: it reads the edges in the order they were stored, checks liveness before the path,
  and does not look at the position of a descendant's edge.
\<close>

definition verified_edge_shape :: "PolicyDelegation \<Rightarrow> VerifiedEdge list \<Rightarrow> (AuthorityError, unit) result" where
  "verified_edge_shape a es =
     (case dg_role a of
        PolicySessionRoot \<Rightarrow> validate_persisted_edge_shape a es
      | PolicySessionDescendant \<Rightarrow>
          (if length es \<noteq> 1 \<or> ve_kind (es ! 0) \<noteq> EdgeImmediate \<or> ve_parent (es ! 0) \<noteq> dg_proofs a ! 0
           then Inl AuthorityStateUnavailable else Inr ())
      | _ \<Rightarrow> (if es \<noteq> [] then Inl AuthorityStateUnavailable else Inr ()))"

fun walk_verified_edges ::
  "nat \<Rightarrow> kernel_ext \<Rightarrow> MemoryState \<Rightarrow> time \<Rightarrow> string \<Rightarrow> bool \<Rightarrow> string list \<Rightarrow> (AuthorityError, unit) result" where
  "walk_verified_edges 0 K s now cid ancestor visiting = Inl AncestryTooDeep"
| "walk_verified_edges (Suc n) K s now cid ancestor visiting =
     rbind (ensure_live_in_memory K s cid now ancestor) (\<lambda>_.
     if cid \<in> set visiting then Inl AncestryTooDeep
     else
       (let es = edges_of cid (ms_edges s)
        in rbind (ok_or (ms_artifacts s cid) AuthorityStateUnavailable) (\<lambda>a.
           rbind (verified_edge_shape a es) (\<lambda>_.
           try_all (\<lambda>e. walk_verified_edges n K s now (ve_parent e) True (cid # visiting)) es))))"

definition mem_validate_for_invocation :: "kernel_ext \<Rightarrow> MemoryState \<Rightarrow> string \<Rightarrow> time \<Rightarrow> (AuthorityError, unit) result" where
  "mem_validate_for_invocation K s cid now = walk_verified_edges (MAX_ANCESTRY_DEPTH + 1) K s now cid False []"

end
