(* ===== verification/Policy_Store.thy ===== *)
theory Policy_Store
  imports Policy_Kernel
begin

text \<open>
  The database store of the policy authority kernel, \<open>tinycloud-core/src/policy_authority/database.rs\<close>, over
  the tables of \<open>models/policy_*.rs\<close>. A JSON column holds the value it encodes. An operation returns the
  tables it commits; on an error the transaction is rolled back and nothing changes.
\<close>

section \<open>Tables\<close>

record policy_delegation_row =
  pr_cid :: string
  pr_role :: string
  pr_mode :: string
  pr_artifact :: PolicyDelegation
  pr_not_before :: string
  pr_expires_at :: string
  pr_checked_at :: string
  pr_fresh_until :: "string option"
  pr_sequence :: int
  pr_revoked_at :: "string option"

record StoredChallenge =
  sc_id :: string
  sc_nonce_hash :: string
  sc_owner :: string
  sc_policy_id :: string
  sc_policy_digest :: string
  sc_policy_cid :: string
  sc_enforcement_cid :: string
  sc_enforcer :: string
  sc_audience :: string
  sc_claimant :: string
  sc_requested :: string
  sc_issued_at :: string
  sc_expires_at :: string

record policy_challenge_row =
  pk_id :: string
  pk_challenge :: StoredChallenge
  pk_nonce_hash :: string
  pk_issued_at :: string
  pk_expires_at :: string
  pk_consumed_at :: "string option"

record policy_edge_row =
  pe_child :: string
  pe_position :: int
  pe_parent :: string
  pe_kind :: string

record policy_audit_row =
  pa_issuance :: string
  pa_session :: string
  pa_audit :: IssuanceAudit

record policy_db =
  pdb_delegations :: "policy_delegation_row list"
  pdb_challenges :: "policy_challenge_row list"
  pdb_audits :: "policy_audit_row list"
  pdb_edges :: "policy_edge_row list"

definition empty_policy_db :: policy_db where
  "empty_policy_db = \<lparr>pdb_delegations = [], pdb_challenges = [], pdb_audits = [], pdb_edges = []\<rparr>"

text \<open>An insertion fails on a primary key, a unique column or a foreign key.\<close>

definition insert_delegation :: "policy_delegation_row \<Rightarrow> policy_db \<Rightarrow> (AuthorityError, policy_db) result" where
  "insert_delegation row db =
     (if list_ex (\<lambda>r. pr_cid r = pr_cid row) (pdb_delegations db) then Inl TransactionFailed
      else Inr (db\<lparr>pdb_delegations := pdb_delegations db @ [row]\<rparr>))"

definition has_delegation :: "policy_db \<Rightarrow> string \<Rightarrow> bool" where
  "has_delegation db cid \<longleftrightarrow> list_ex (\<lambda>r. pr_cid r = cid) (pdb_delegations db)"

definition insert_audit_row :: "policy_audit_row \<Rightarrow> policy_db \<Rightarrow> (AuthorityError, policy_db) result" where
  "insert_audit_row row db =
     (if list_ex (\<lambda>r. pa_issuance r = pa_issuance row \<or> pa_session r = pa_session row) (pdb_audits db) \<or>
         \<not> has_delegation db (pa_session row)
      then Inl TransactionFailed else Inr (db\<lparr>pdb_audits := pdb_audits db @ [row]\<rparr>))"

definition insert_edge :: "policy_edge_row \<Rightarrow> policy_db \<Rightarrow> (AuthorityError, policy_db) result" where
  "insert_edge row db =
     (if list_ex (\<lambda>r. pe_child r = pe_child row \<and> pe_position r = pe_position row) (pdb_edges db) \<or>
         \<not> has_delegation db (pe_child row) \<or> \<not> has_delegation db (pe_parent row)
      then Inl TransactionFailed else Inr (db\<lparr>pdb_edges := pdb_edges db @ [row]\<rparr>))"

definition insert_challenge_row :: "policy_challenge_row \<Rightarrow> policy_db \<Rightarrow> (AuthorityError, policy_db) result" where
  "insert_challenge_row row db =
     (if list_ex (\<lambda>r. pk_id r = pk_id row) (pdb_challenges db) then Inl TransactionFailed
      else Inr (db\<lparr>pdb_challenges := pdb_challenges db @ [row]\<rparr>))"

section \<open>Columns\<close>

definition db_time :: "kernel_ext \<Rightarrow> time \<Rightarrow> (AuthorityError, string) result" where
  "db_time K t = ok_or (k_format_time K t) TimestampNoncanonical"

definition db_time_parse :: "kernel_ext \<Rightarrow> string \<Rightarrow> (AuthorityError, time) result" where
  "db_time_parse K s = ok_or (k_parse_time K s) AuthorityStateUnavailable"

text \<open>\<open>option.map(f).transpose()\<close>.\<close>

fun transposed :: "('a \<Rightarrow> ('e, 'b) result) \<Rightarrow> 'a option \<Rightarrow> ('e, 'b option) result" where
  "transposed f None = Inr None"
| "transposed f (Some x) = rbind (f x) (\<lambda>y. Inr (Some y))"

text \<open>\<open>i64::try_from\<close> of a \<open>u64\<close>.\<close>

definition i64_of :: "AuthorityError \<Rightarrow> nat \<Rightarrow> (AuthorityError, int) result" where
  "i64_of e n = (if int n < 9223372036854775808 then Inr (int n) else Inl e)"

record status_columns =
  sx_checked_at :: string
  sx_fresh_until :: string
  sx_sequence :: int
  sx_revoked_at :: "string option"

definition status_columns_of ::
  "kernel_ext \<Rightarrow> AuthorityError \<Rightarrow> AuthorityStatus \<Rightarrow> (AuthorityError, status_columns) result" where
  "status_columns_of K e status =
     rbind (db_time K (st_checked status)) (\<lambda>checked.
     rbind (db_time K (st_fresh_until status)) (\<lambda>fresh.
     rbind (i64_of e (st_sequence status)) (\<lambda>n.
     rbind (transposed (db_time K) (st_revoked status)) (\<lambda>revoked.
     Inr \<lparr>sx_checked_at = checked, sx_fresh_until = fresh, sx_sequence = n, sx_revoked_at = revoked\<rparr>))))"

definition artifact_model ::
  "kernel_ext \<Rightarrow> PolicyDelegation \<Rightarrow> AuthorityStatus \<Rightarrow> (AuthorityError, policy_delegation_row) result" where
  "artifact_model K a status =
     rbind (status_columns_of K SchemaInvalid status) (\<lambda>c.
     Inr \<lparr>pr_cid = dg_cid a, pr_role = role_wire (dg_role a), pr_mode = mode_wire (dg_mode a), pr_artifact = a,
       pr_not_before = dg_not_before a, pr_expires_at = dg_expires_at a, pr_checked_at = sx_checked_at c,
       pr_fresh_until = Some (sx_fresh_until c), pr_sequence = sx_sequence c, pr_revoked_at = sx_revoked_at c\<rparr>)"

definition artifact_from_model :: "kernel_ext \<Rightarrow> policy_delegation_row \<Rightarrow> (AuthorityError, PolicyDelegation) result" where
  "artifact_from_model K row =
     (let a = pr_artifact row
      in rbind (validate_wire_shape K a) (\<lambda>_.
         if dg_cid a \<noteq> pr_cid row \<or> role_wire (dg_role a) \<noteq> pr_role row \<or> mode_wire (dg_mode a) \<noteq> pr_mode row \<or>
            dg_not_before a \<noteq> pr_not_before row \<or> dg_expires_at a \<noteq> pr_expires_at row
         then Inl AuthorityStateUnavailable else Inr a))"

definition status_from_model :: "kernel_ext \<Rightarrow> policy_delegation_row \<Rightarrow> (AuthorityError, AuthorityStatus) result" where
  "status_from_model K row =
     rbind (db_time_parse K (pr_checked_at row)) (\<lambda>checked.
     rbind (transposed (db_time_parse K) (pr_fresh_until row)) (\<lambda>fresh.
     rbind (if pr_sequence row < 0 then Inl AuthorityStateUnavailable else Inr (nat (pr_sequence row))) (\<lambda>n.
     rbind (transposed (db_time_parse K) (pr_revoked_at row)) (\<lambda>revoked.
     let status = \<lparr>st_checked = checked, st_fresh_until = (case fresh of Some t \<Rightarrow> t | None \<Rightarrow> checked + MAX_STATUS_AGE),
           st_sequence = n, st_revoked = revoked\<rparr>
     in if st_fresh_until status \<le> st_checked status \<or> st_fresh_until status - st_checked status > MAX_STATUS_AGE
        then Inl AuthorityStateUnavailable
        else if \<exists>r \<in> set_option (st_revoked status). r > st_checked status then Inl AuthorityStateUnavailable
        else Inr status))))"

definition stored_challenge :: "kernel_ext \<Rightarrow> ChallengeState \<Rightarrow> (AuthorityError, StoredChallenge) result" where
  "stored_challenge K c =
     rbind (db_time K (ch_issued c)) (\<lambda>issued.
     rbind (db_time K (ch_expires c)) (\<lambda>expires.
     Inr \<lparr>sc_id = ch_id c, sc_nonce_hash = ch_nonce_hash c, sc_owner = ch_owner c, sc_policy_id = ch_policy_id c,
       sc_policy_digest = ch_policy_digest c, sc_policy_cid = ch_policy_cid c, sc_enforcement_cid = ch_enforcement_cid c,
       sc_enforcer = ch_enforcer c, sc_audience = ch_audience c, sc_claimant = ch_claimant c, sc_requested = ch_requested c,
       sc_issued_at = issued, sc_expires_at = expires\<rparr>))"

definition loaded_challenge :: "kernel_ext \<Rightarrow> StoredChallenge \<Rightarrow> (AuthorityError, ChallengeState) result" where
  "loaded_challenge K c =
     rbind (db_time_parse K (sc_issued_at c)) (\<lambda>issued.
     rbind (db_time_parse K (sc_expires_at c)) (\<lambda>expires.
     Inr \<lparr>ch_id = sc_id c, ch_nonce_hash = sc_nonce_hash c, ch_owner = sc_owner c, ch_policy_id = sc_policy_id c,
       ch_policy_digest = sc_policy_digest c, ch_policy_cid = sc_policy_cid c, ch_enforcement_cid = sc_enforcement_cid c,
       ch_enforcer = sc_enforcer c, ch_audience = sc_audience c, ch_claimant = sc_claimant c, ch_requested = sc_requested c,
       ch_issued = issued, ch_expires = expires, ch_consumed = None\<rparr>))"

definition challenge_from_model :: "kernel_ext \<Rightarrow> policy_challenge_row \<Rightarrow> (AuthorityError, ChallengeState) result" where
  "challenge_from_model K row =
     rbind (loaded_challenge K (pk_challenge row)) (\<lambda>c.
     rbind (reject AuthorityStateUnavailable
       [Inr (ch_id c \<noteq> pk_id row), Inr (ch_nonce_hash c \<noteq> pk_nonce_hash row),
        rbind (db_time K (ch_issued c)) (\<lambda>s. Inr (s \<noteq> pk_issued_at row)),
        rbind (db_time K (ch_expires c)) (\<lambda>s. Inr (s \<noteq> pk_expires_at row))]) (\<lambda>_.
     rbind (transposed (db_time_parse K) (pk_consumed_at row)) (\<lambda>consumed.
     let c = c\<lparr>ch_consumed := consumed\<rparr>
     in rbind (validate_challenge_lifetime_for_read c) (\<lambda>_. Inr c))))"

definition edge_from_model :: "policy_edge_row \<Rightarrow> (AuthorityError, VerifiedEdge) result" where
  "edge_from_model row =
     rbind (if pe_kind row = ''authority'' then Inr EdgeAuthority else if pe_kind row = ''immediate'' then Inr EdgeImmediate
            else Inl AuthorityStateUnavailable) (\<lambda>kind.
     rbind (if 0 \<le> pe_position row \<and> pe_position row < 256 then Inr (nat (pe_position row)) else Inl AuthorityStateUnavailable) (\<lambda>n.
     Inr \<lparr>ve_child = pe_child row, ve_parent = pe_parent row, ve_kind = kind, ve_position = n\<rparr>))"

section \<open>Reading\<close>

definition authority_row :: "policy_db \<Rightarrow> string \<Rightarrow> (AuthorityError, policy_delegation_row) result" where
  "authority_row db cid = ok_or (find (\<lambda>r. pr_cid r = cid) (pdb_delegations db)) AuthorityStateUnavailable"

definition artifact_on :: "kernel_ext \<Rightarrow> policy_db \<Rightarrow> string \<Rightarrow> (AuthorityError, PolicyDelegation) result" where
  "artifact_on K db cid = rbind (authority_row db cid) (artifact_from_model K)"

definition challenge_on :: "kernel_ext \<Rightarrow> policy_db \<Rightarrow> string \<Rightarrow> (AuthorityError, ChallengeState) result" where
  "challenge_on K db cid =
     rbind (ok_or (find (\<lambda>r. pk_id r = cid) (pdb_challenges db)) ChallengeNotFound) (challenge_from_model K)"

definition audit_on :: "policy_db \<Rightarrow> string \<Rightarrow> (AuthorityError, IssuanceAudit) result" where
  "audit_on db issuance =
     rbind (ok_or (find (\<lambda>r. pa_issuance r = issuance) (pdb_audits db)) AuthorityStateUnavailable) (\<lambda>row. Inr (pa_audit row))"

definition edges_on :: "policy_db \<Rightarrow> string \<Rightarrow> (AuthorityError, VerifiedEdge list) result" where
  "edges_on db cid = try_map edge_from_model (sort_key pe_position (filter (\<lambda>e. pe_child e = cid) (pdb_edges db)))"

definition ensure_live_model ::
  "kernel_ext \<Rightarrow> policy_delegation_row \<Rightarrow> time \<Rightarrow> bool \<Rightarrow> (AuthorityError, PolicyDelegation) result" where
  "ensure_live_model K row now ancestor =
     rbind (artifact_from_model K row) (\<lambda>a.
     rbind (reject SessionTimeInvalid
       [rbind (dg_starts K a) (\<lambda>t. Inr (now < t)), rbind (dg_ends K a) (\<lambda>t. Inr (now \<ge> t))]) (\<lambda>_.
     rbind (status_from_model K row) (\<lambda>status.
     if st_checked status > now \<or> now - st_checked status > MAX_STATUS_AGE \<or> st_fresh_until status \<le> now \<or>
        st_fresh_until status - st_checked status > MAX_STATUS_AGE
     then Inl AuthorityStateUnavailable
     else if \<exists>r \<in> set_option (st_revoked status). r \<le> now then Inl (revoked_error ancestor)
     else Inr a)))"

definition ensure_live_on ::
  "kernel_ext \<Rightarrow> policy_db \<Rightarrow> string \<Rightarrow> time \<Rightarrow> bool \<Rightarrow> (AuthorityError, PolicyDelegation) result" where
  "ensure_live_on K db cid now ancestor = rbind (authority_row db cid) (\<lambda>row. ensure_live_model K row now ancestor)"

definition validate_persisted_edges :: "PolicyDelegation \<Rightarrow> VerifiedEdge list \<Rightarrow> (AuthorityError, unit) result" where
  "validate_persisted_edges a es = validate_persisted_edge_shape a es"

section \<open>Walks over the edges\<close>

text \<open>
  Each walk keeps a stack and the vertices it has visited, and stops when it meets one again. It ends because
  every vertex is on the first stack or the parent of an edge.
\<close>

definition walk_measure :: "policy_db \<Rightarrow> (string \<times> 'a) list \<Rightarrow> string list \<Rightarrow> nat" where
  "walk_measure db stack visited = card ((fst ` set stack \<union> pe_parent ` set (pdb_edges db)) - set visited)"

lemma walk_measure_less:
  assumes "cid \<notin> set visited" and "\<And>p. p \<in> set stack' \<Longrightarrow> p \<in> set stack \<or> fst p \<in> pe_parent ` set (pdb_edges db)"
  shows "walk_measure db stack' (cid # visited) < walk_measure db ((cid, x) # stack) visited"
proof -
  have "fst ` set stack' \<subseteq> fst ` set stack \<union> pe_parent ` set (pdb_edges db)" using assms(2) by blast
  with assms(1) show ?thesis unfolding walk_measure_def by (intro psubset_card_mono) auto
qed

lemma edge_from_model_ok:
  "edge_from_model row = Inr e \<longleftrightarrow>
     ve_child e = pe_child row \<and> ve_parent e = pe_parent row \<and> int (ve_position e) = pe_position row \<and> ve_position e < 256 \<and>
     (ve_kind e = EdgeAuthority \<and> pe_kind row = ''authority'' \<or> ve_kind e = EdgeImmediate \<and> pe_kind row = ''immediate'')"
  by (cases e) (auto simp: edge_from_model_def split: if_splits)

lemma edges_on_parents:
  assumes "edges_on db cid = Inr es" and "e \<in> set es"
  shows "ve_child e = cid \<and> ve_parent e \<in> pe_parent ` set (pdb_edges db)"
proof -
  from assms obtain row where "row \<in> set (pdb_edges db)" "pe_child row = cid" "edge_from_model row = Inr e"
    unfolding edges_on_def by (fastforce dest: try_map_Inr_set [of edge_from_model _ es e])
  then show ?thesis by (auto simp: edge_from_model_ok)
qed

declare rbind_cong [fundef_cong]

function ancestry_loop :: "policy_db \<Rightarrow> (string \<times> nat) list \<Rightarrow> string list \<Rightarrow> (AuthorityError, string list) result" where
  "ancestry_loop db [] visited = Inr visited"
| "ancestry_loop db ((cid, depth) # stack) visited =
     (if depth > MAX_ANCESTRY_DEPTH \<or> cid \<in> set visited then Inl AncestryTooDeep
      else
        rbind (edges_on db cid) (\<lambda>es.
        ancestry_loop db (rev (map (\<lambda>e. (ve_parent e, depth + 1)) es) @ stack) (cid # visited)))"
  by pat_completeness auto
termination
  by (relation "measure (\<lambda>(db, stack, visited). walk_measure db stack visited)")
    (auto intro!: walk_measure_less dest: edges_on_parents)

definition ancestry_cids :: "policy_db \<Rightarrow> string \<Rightarrow> (AuthorityError, string list) result" where
  "ancestry_cids db cid = ancestry_loop db [(cid, 0)] []"

text \<open>The walk of \<open>validate_for_invocation\<close>, with the artifacts it read.\<close>

function validate_loop ::
  "kernel_ext \<Rightarrow> policy_db \<Rightarrow> time \<Rightarrow> (string \<times> bool \<times> nat) list \<Rightarrow> (string \<times> PolicyDelegation) list \<Rightarrow>
   (AuthorityError, (string \<times> PolicyDelegation) list) result" where
  "validate_loop K db now [] ancestry = Inr ancestry"
| "validate_loop K db now ((cid, ancestor, depth) # stack) ancestry =
     (if depth > MAX_ANCESTRY_DEPTH \<or> cid \<in> set (map fst ancestry) then Inl AncestryTooDeep
      else
        rbind (ensure_live_on K db cid now ancestor) (\<lambda>a.
        rbind (edges_on db cid) (\<lambda>es.
        rbind (validate_persisted_edges a es) (\<lambda>_.
        validate_loop K db now (map (\<lambda>e. (ve_parent e, True, depth + 1)) es @ stack) ((cid, a) # ancestry)))))"
  by pat_completeness auto
termination
  by (relation "measure (\<lambda>(K, db, now, stack, ancestry). walk_measure db stack (map fst ancestry))")
    (auto intro!: walk_measure_less dest: edges_on_parents)

definition validate_for_invocation :: "kernel_ext \<Rightarrow> policy_db \<Rightarrow> string \<Rightarrow> time \<Rightarrow> (AuthorityError, unit) result" where
  "validate_for_invocation K db cid now = rbind (validate_loop K db now [(cid, False, 0)] []) (\<lambda>_. Inr ())"

function locked_loop ::
  "policy_db \<Rightarrow> (string \<times> PolicyDelegation) list \<Rightarrow> (string \<times> nat) list \<Rightarrow> string list \<Rightarrow> (AuthorityError, string list) result" where
  "locked_loop db locked [] visited = Inr visited"
| "locked_loop db locked ((cid, depth) # stack) visited =
     (if depth > MAX_ANCESTRY_DEPTH \<or> cid \<in> set visited then Inl AncestryTooDeep
      else
        rbind (ok_or (map_of locked cid) AuthorityStateUnavailable) (\<lambda>a.
        rbind (edges_on db cid) (\<lambda>es.
        rbind (validate_persisted_edges a es) (\<lambda>_.
        if list_ex (\<lambda>e. map_of locked (ve_parent e) = None) es then Inl AuthorityStateUnavailable
        else locked_loop db locked (map (\<lambda>e. (ve_parent e, depth + 1)) es @ stack) (cid # visited)))))"
  by pat_completeness auto
termination
  by (relation "measure (\<lambda>(db, locked, stack, visited). walk_measure db stack visited)")
    (auto intro!: walk_measure_less dest: edges_on_parents)

definition validate_locked_ancestry ::
  "policy_db \<Rightarrow> string \<Rightarrow> (string \<times> PolicyDelegation) list \<Rightarrow> (AuthorityError, unit) result" where
  "validate_locked_ancestry db start locked =
     rbind (locked_loop db locked [(start, 0)] []) (\<lambda>visited.
     if length visited \<noteq> length locked then Inl AuthorityStateUnavailable else Inr ())"

definition validate_for_invocation_in_transaction ::
  "kernel_ext \<Rightarrow> policy_db \<Rightarrow> string \<Rightarrow> time \<Rightarrow> (AuthorityError, unit) result" where
  "validate_for_invocation_in_transaction K db cid now =
     rbind (validate_loop K db now [(cid, False, 0)] []) (\<lambda>ancestry. validate_locked_ancestry db cid ancestry)"

section \<open>Status\<close>

definition with_status :: "status_columns \<Rightarrow> policy_delegation_row \<Rightarrow> policy_delegation_row" where
  "with_status c row = row\<lparr>pr_checked_at := sx_checked_at c, pr_fresh_until := Some (sx_fresh_until c),
     pr_sequence := sx_sequence c, pr_revoked_at := sx_revoked_at c\<rparr>"

text \<open>
  \<open>update_many\<close> with a filter, and the number of rows it changed. A comparison with a column that is
  \<open>NULL\<close> is not true.
\<close>

definition update_status ::
  "(policy_delegation_row \<Rightarrow> bool) \<Rightarrow> status_columns \<Rightarrow> policy_db \<Rightarrow> policy_db \<times> nat" where
  "update_status matches c db =
     (db\<lparr>pdb_delegations := map (\<lambda>r. if matches r then with_status c r else r) (pdb_delegations db)\<rparr>,
      length (filter matches (pdb_delegations db)))"

definition same_freshness :: "policy_delegation_row \<Rightarrow> policy_delegation_row \<Rightarrow> bool" where
  "same_freshness row r \<longleftrightarrow> pr_fresh_until row \<noteq> None \<and> pr_fresh_until r = pr_fresh_until row"

definition unchanged_since :: "string \<Rightarrow> policy_delegation_row \<Rightarrow> policy_delegation_row \<Rightarrow> bool" where
  "unchanged_since cid row r \<longleftrightarrow>
     pr_cid r = cid \<and> pr_sequence r = pr_sequence row \<and> pr_checked_at r = pr_checked_at row \<and> same_freshness row r \<and>
     pr_revoked_at r = pr_revoked_at row"

text \<open>
  \<open>set_status\<close>: up to eight attempts, each of which reads the row, and updates it only if its status is still
  what was read. An attempt is given by the tables it reads, the answer of the database to the update and the
  commit, and the tables the update meets.
\<close>

datatype db_answer = Answered | Conflict | Failure

definition MAX_ATTEMPTS :: nat where "MAX_ATTEMPTS = 8"

fun set_status_loop ::
  "kernel_ext \<Rightarrow> string \<Rightarrow> AuthorityStatus \<Rightarrow> (policy_db \<times> db_answer \<times> policy_db) list \<Rightarrow> (AuthorityError, policy_db) result" where
  "set_status_loop K cid status [] = Inl AuthorityStateUnavailable"
| "set_status_loop K cid status ((seen, answer, current) # attempts) =
     rbind (authority_row seen cid) (\<lambda>row.
     rbind (status_from_model K row) (\<lambda>previous.
     rbind (validate_status_transition previous status) (\<lambda>_.
     rbind (status_columns_of K AuthorityStateUnavailable status) (\<lambda>c.
     case answer of
       Failure \<Rightarrow> Inl TransactionFailed
     | Conflict \<Rightarrow> (if attempts = [] then Inl TransactionFailed else set_status_loop K cid status attempts)
     | Answered \<Rightarrow>
         (let (db', affected) = update_status (unchanged_since cid row) c current
          in if affected = 1 then Inr db' else set_status_loop K cid status attempts)))))"

definition set_status ::
  "kernel_ext \<Rightarrow> string \<Rightarrow> AuthorityStatus \<Rightarrow> (policy_db \<times> db_answer \<times> policy_db) list \<Rightarrow> (AuthorityError, policy_db) result" where
  "set_status K cid status attempts = set_status_loop K cid status (take MAX_ATTEMPTS attempts)"

definition apply_status_in_transaction ::
  "kernel_ext \<Rightarrow> string \<Rightarrow> AuthorityStatus \<Rightarrow> time \<Rightarrow> policy_db \<Rightarrow> (AuthorityError, policy_db) result" where
  "apply_status_in_transaction K cid observation now db =
     (if st_checked observation > now \<or> st_fresh_until observation \<le> now \<or> now - st_checked observation > MAX_STATUS_AGE \<or>
         st_fresh_until observation - st_checked observation > MAX_STATUS_AGE
      then Inl AuthorityStateUnavailable
      else
        rbind (authority_row db cid) (\<lambda>row.
        rbind (status_from_model K row) (\<lambda>previous.
        if observation = previous then Inr db
        else
          rbind (validate_status_transition previous observation) (\<lambda>_.
          rbind (status_columns_of K SchemaInvalid observation) (\<lambda>c.
          let (db', affected) = update_status (\<lambda>r. pr_cid r = cid \<and> pr_sequence r = int (st_sequence previous) \<and>
                pr_checked_at r = pr_checked_at row \<and> same_freshness row r) c db
          in if affected \<noteq> 1 then Inl AuthorityStateUnavailable else Inr db')))))"

section \<open>Writing\<close>

definition insert_verified_authority ::
  "kernel_ext \<Rightarrow> PolicyDelegation \<Rightarrow> AuthorityStatus \<Rightarrow> policy_db \<Rightarrow> (AuthorityError, policy_db) result" where
  "insert_verified_authority K a status db = rbind (artifact_model K a status) (\<lambda>row. insert_delegation row db)"

definition admit_verified_authority_in_transaction ::
  "kernel_ext \<Rightarrow> PolicyDelegation \<Rightarrow> AuthorityStatus \<Rightarrow> time \<Rightarrow> policy_db \<Rightarrow> (AuthorityError, policy_db) result" where
  "admit_verified_authority_in_transaction K a observation now db =
     (case find (\<lambda>r. pr_cid r = dg_cid a) (pdb_delegations db) of
        Some row \<Rightarrow>
          rbind (artifact_from_model K row) (\<lambda>stored.
          if stored \<noteq> a then Inl AuthorityStateUnavailable
          else apply_status_in_transaction K (dg_cid a) observation now db)
      | None \<Rightarrow>
          (if st_checked observation > now \<or> st_fresh_until observation \<le> now \<or> now - st_checked observation > MAX_STATUS_AGE
           then Inl AuthorityStateUnavailable
           else rbind (artifact_model K a observation) (\<lambda>row. insert_delegation row db)))"

definition insert_challenge :: "kernel_ext \<Rightarrow> ChallengeState \<Rightarrow> policy_db \<Rightarrow> (AuthorityError, policy_db) result" where
  "insert_challenge K c db =
     rbind (validate_challenge_lifetime c) (\<lambda>_.
     rbind (stored_challenge K c) (\<lambda>stored.
     rbind (db_time K (ch_issued c)) (\<lambda>issued.
     rbind (db_time K (ch_expires c)) (\<lambda>expires.
     rbind (transposed (db_time K) (ch_consumed c)) (\<lambda>consumed.
     insert_challenge_row \<lparr>pk_id = ch_id c, pk_challenge = stored, pk_nonce_hash = ch_nonce_hash c, pk_issued_at = issued,
       pk_expires_at = expires, pk_consumed_at = consumed\<rparr> db)))))"

text \<open>The lifetime check has refused a consumed challenge, so both forms store no consumption.\<close>

definition insert_challenge_in_transaction ::
  "kernel_ext \<Rightarrow> ChallengeState \<Rightarrow> policy_db \<Rightarrow> (AuthorityError, policy_db) result" where
  "insert_challenge_in_transaction K c db =
     rbind (validate_challenge_lifetime c) (\<lambda>_.
     rbind (stored_challenge K c) (\<lambda>stored.
     rbind (db_time K (ch_issued c)) (\<lambda>issued.
     rbind (db_time K (ch_expires c)) (\<lambda>expires.
     insert_challenge_row \<lparr>pk_id = ch_id c, pk_challenge = stored, pk_nonce_hash = ch_nonce_hash c, pk_issued_at = issued,
       pk_expires_at = expires, pk_consumed_at = None\<rparr> db))))"

definition consume_challenge :: "string \<Rightarrow> string \<Rightarrow> policy_db \<Rightarrow> policy_db \<times> nat" where
  "consume_challenge cid consumed db =
     (let open_row = (\<lambda>r. pk_id r = cid \<and> pk_consumed_at r = None)
      in (db\<lparr>pdb_challenges := map (\<lambda>r. if open_row r then r\<lparr>pk_consumed_at := Some consumed\<rparr> else r) (pdb_challenges db)\<rparr>,
          length (filter open_row (pdb_challenges db))))"

definition authority_edge :: "PolicyDelegation \<Rightarrow> nat \<Rightarrow> policy_edge_row" where
  "authority_edge a n =
     \<lparr>pe_child = dg_cid a, pe_position = int n, pe_parent = dg_proofs a ! n, pe_kind = ''authority''\<rparr>"

definition persist_root_in_transaction ::
  "kernel_ext \<Rightarrow> PolicyDelegation \<Rightarrow> IssuanceAudit \<Rightarrow> string \<Rightarrow> time \<Rightarrow> policy_db \<Rightarrow> (AuthorityError, policy_db) result" where
  "persist_root_in_transaction K a audit challenge_id consumed_at db =
     (let authority_cids = dedup (sort (dg_proofs a))
      in if length authority_cids \<noteq> 2 then Inl ProofSetUnmatched
      else
        rbind (try_all (\<lambda>cid. rbind (ensure_live_on K db cid consumed_at False) (\<lambda>_. Inr ())) authority_cids) (\<lambda>_.
        rbind (ok_or (find (\<lambda>r. pk_id r = challenge_id) (pdb_challenges db)) ChallengeNotFound) (\<lambda>row.
        if pk_consumed_at row \<noteq> None then Inl ChallengeConsumed
        else
        rbind (challenge_from_model K row) (\<lambda>challenge.
        if consumed_at < ch_issued challenge \<or> consumed_at \<ge> ch_expires challenge then Inl ChallengeExpired
        else
        rbind (db_time K consumed_at) (\<lambda>consumed.
        let (db1, affected) = consume_challenge challenge_id consumed db
        in if affected \<noteq> 1 then Inl ChallengeConsumed
        else
        rbind (artifact_model K a (initial_status consumed_at)) (\<lambda>row.
        rbind (insert_delegation row db1) (\<lambda>db2.
        rbind (insert_audit_row \<lparr>pa_issuance = ia_issuance audit, pa_session = ia_session audit, pa_audit = audit\<rparr> db2) (\<lambda>db3.
        try_fold (\<lambda>db n. insert_edge (authority_edge a n) db) db3 [0..<length (dg_proofs a)]))))))))"

text \<open>
  Issuance in one transaction, and issuance that reads first: \<open>seen\<close> are the tables before the transaction of
  \<open>persist_root_atomic\<close>, which runs on \<open>db\<close>.
\<close>

definition issue_root_in_transaction ::
  "kernel_ext \<Rightarrow> string \<Rightarrow> PolicyDelegation \<Rightarrow> PolicyDelegation \<Rightarrow> VerifiedPolicyState \<Rightarrow> PolicyDelegation \<Rightarrow>
   VerifiedAttestedEnforcerBinding \<Rightarrow> TrustedPolicyDecision \<Rightarrow> IssuanceBindings \<Rightarrow> policy_db \<Rightarrow>
   (AuthorityError, policy_db) result" where
  "issue_root_in_transaction K node policy enforcement ps session_root binding decision b db =
     rbind (validate_authority_pair K policy enforcement ps node) (\<lambda>_.
     rbind (validate_for_invocation_in_transaction K db (dg_cid policy) (ib_now b)) (\<lambda>_.
     rbind (validate_for_invocation_in_transaction K db (dg_cid enforcement) (ib_now b)) (\<lambda>_.
     rbind (challenge_on K db (ib_challenge b)) (\<lambda>challenge.
     if ch_consumed challenge \<noteq> None then Inl ChallengeConsumed
     else
     rbind (validate_root K policy enforcement ps challenge session_root binding decision b node) (\<lambda>audit.
     persist_root_in_transaction K session_root audit (ib_challenge b) (ib_now b) db)))))"

definition issue_root ::
  "kernel_ext \<Rightarrow> string \<Rightarrow> PolicyDelegation \<Rightarrow> PolicyDelegation \<Rightarrow> VerifiedPolicyState \<Rightarrow> PolicyDelegation \<Rightarrow>
   VerifiedAttestedEnforcerBinding \<Rightarrow> TrustedPolicyDecision \<Rightarrow> IssuanceBindings \<Rightarrow> policy_db \<Rightarrow> policy_db \<Rightarrow>
   (AuthorityError, policy_db) result" where
  "issue_root K node policy enforcement ps session_root binding decision b seen db =
     rbind (validate_authority_pair K policy enforcement ps node) (\<lambda>_.
     rbind (validate_for_invocation K seen (dg_cid policy) (ib_now b)) (\<lambda>_.
     rbind (validate_for_invocation K seen (dg_cid enforcement) (ib_now b)) (\<lambda>_.
     rbind (challenge_on K seen (ib_challenge b)) (\<lambda>challenge.
     if ch_consumed challenge \<noteq> None then Inl ChallengeConsumed
     else
     rbind (validate_root K policy enforcement ps challenge session_root binding decision b node) (\<lambda>audit.
     persist_root_in_transaction K session_root audit (ib_challenge b) (ib_now b) db)))))"

definition sign_and_issue_root_in_transaction ::
  "externals \<Rightarrow> kernel_ext \<Rightarrow> string \<times> (string \<Rightarrow> string) \<Rightarrow> string \<Rightarrow> PolicyDelegation \<Rightarrow> PolicyDelegation \<Rightarrow>
   VerifiedPolicyState \<Rightarrow> PolicyDelegation \<Rightarrow> VerifiedAttestedEnforcerBinding \<Rightarrow> TrustedPolicyDecision \<Rightarrow> IssuanceBindings \<Rightarrow>
   policy_db \<Rightarrow> (AuthorityError, policy_db) result" where
  "sign_and_issue_root_in_transaction X K signer node policy enforcement ps session_root binding decision b db =
     rbind (sign_and_verify_root X K signer session_root) (\<lambda>verified.
     issue_root_in_transaction K node policy enforcement ps verified binding decision b db)"

definition immediate_edge :: "PolicyDelegation \<Rightarrow> policy_edge_row" where
  "immediate_edge a = \<lparr>pe_child = dg_cid a, pe_position = 0, pe_parent = dg_proofs a ! 0, pe_kind = ''immediate''\<rparr>"

definition persist_descendant_atomic ::
  "kernel_ext \<Rightarrow> PolicyDelegation \<Rightarrow> time \<Rightarrow> string list \<Rightarrow> policy_db \<Rightarrow> (AuthorityError, policy_db) result" where
  "persist_descendant_atomic K a verified_at ancestry db =
     (let parent_cid = dg_proofs a ! 0
      in rbind (try_map (\<lambda>cid.
             rbind (authority_row db cid) (\<lambda>row.
             rbind (ensure_live_model K row verified_at (cid \<noteq> parent_cid)) (\<lambda>verified.
             Inr (cid, verified)))) (dedup (sort ancestry))) (\<lambda>locked.
         rbind (validate_locked_ancestry db parent_cid locked) (\<lambda>_.
         rbind (artifact_model K a (initial_status verified_at)) (\<lambda>row.
         rbind (insert_delegation row db) (\<lambda>db1.
         insert_edge (immediate_edge a) db1)))))"

definition persist_descendant ::
  "kernel_ext \<Rightarrow> PolicyDelegation \<Rightarrow> time \<Rightarrow> policy_db \<Rightarrow> policy_db \<Rightarrow> (AuthorityError, policy_db) result" where
  "persist_descendant K descendant now seen db =
     rbind (ok_or (case dg_proofs descendant of [] \<Rightarrow> None | c # _ \<Rightarrow> Some c) DescendantParentMismatch) (\<lambda>parent_cid.
     rbind (ancestry_cids seen parent_cid) (\<lambda>ancestry.
     rbind (artifact_on K seen parent_cid) (\<lambda>parent.
     if dg_mode parent = ConditionalMint then Inl ConditionalMintNotParent
     else
     rbind (root_cid_of parent) (\<lambda>root_cid.
     rbind (artifact_on K seen root_cid) (\<lambda>session_root.
     rbind (validate_descendant K descendant parent session_root) (\<lambda>_.
     rbind (validate_for_invocation K seen (dg_cid parent) now) (\<lambda>_.
     persist_descendant_atomic K descendant now ancestry db)))))))"

end
