(* ===== verification/Policy_Graph.thy ===== *)
theory Policy_Graph
  imports Policy_Store
begin

text \<open>
  The authorization graph over the life of a policy store: what a walk over the edges establishes, the runs of
  the store as an inductive relation in which an operation may read tables that other operations have
  changed by the time it commits, and the invariant of the tables.
\<close>

section \<open>Rows, edges and liveness\<close>

definition row_at :: "policy_db \<Rightarrow> string \<Rightarrow> policy_delegation_row option" where
  "row_at db cid = find (\<lambda>r. pr_cid r = cid) (pdb_delegations db)"

definition challenge_at :: "policy_db \<Rightarrow> string \<Rightarrow> policy_challenge_row option" where
  "challenge_at db cid = find (\<lambda>r. pk_id r = cid) (pdb_challenges db)"

definition edge_rel :: "policy_db \<Rightarrow> string rel" where
  "edge_rel db = (\<lambda>e. (pe_child e, pe_parent e)) ` set (pdb_edges db)"

text \<open>
  A row is live when its artifact is in its time window, and its status was checked in the last five minutes,
  is still fresh and records no revocation.
\<close>

definition live_row :: "kernel_ext \<Rightarrow> policy_delegation_row \<Rightarrow> time \<Rightarrow> bool" where
  "live_row K row now \<longleftrightarrow>
     (\<exists>a since til status. artifact_from_model K row = Inr a \<and> dg_starts K a = Inr since \<and> dg_ends K a = Inr til \<and>
        since \<le> now \<and> now < til \<and> status_from_model K row = Inr status \<and> st_checked status \<le> now \<and>
        now \<le> st_checked status + MAX_STATUS_AGE \<and> now < st_fresh_until status \<and> st_revoked status = None)"

definition live :: "kernel_ext \<Rightarrow> policy_db \<Rightarrow> string \<Rightarrow> time \<Rightarrow> bool" where
  "live K db cid now \<longleftrightarrow> (\<exists>row. row_at db cid = Some row \<and> live_row K row now)"

lemma authority_row_at [simp]: "authority_row db cid = ok_or (row_at db cid) AuthorityStateUnavailable"
  by (simp add: authority_row_def row_at_def)

lemma artifact_on_ok [simp]:
  "artifact_on K db cid = Inr a \<longleftrightarrow> (\<exists>row. row_at db cid = Some row \<and> artifact_from_model K row = Inr a)"
  by (simp add: artifact_on_def)

lemma row_at_cid: "row_at db cid = Some r \<Longrightarrow> pr_cid r = cid"
  unfolding row_at_def by (auto dest: find_SomeD)

lemma has_delegation_at [simp]: "has_delegation db cid \<longleftrightarrow> row_at db cid \<noteq> None"
  by (auto simp: has_delegation_def row_at_def list_ex_iff find_None_iff)

lemma artifact_from_model_ok:
  "artifact_from_model K row = Inr a \<longleftrightarrow>
     a = pr_artifact row \<and> validate_wire_shape K a = Inr () \<and> dg_cid a = pr_cid row \<and> role_wire (dg_role a) = pr_role row \<and>
     mode_wire (dg_mode a) = pr_mode row \<and> dg_not_before a = pr_not_before row \<and> dg_expires_at a = pr_expires_at row"
  by (auto simp: artifact_from_model_def Let_def)

lemma transposed_ok [simp]:
  "transposed f x = Inr y \<longleftrightarrow> (case x of None \<Rightarrow> y = None | Some v \<Rightarrow> \<exists>w. f v = Inr w \<and> y = Some w)"
  by (cases x) auto

lemma status_from_model_ok:
  assumes "status_from_model K row = Inr s"
  shows "st_fresh_until s \<le> st_checked s + MAX_STATUS_AGE" and "st_revoked s = Some r \<Longrightarrow> r \<le> st_checked s"
    and "st_revoked s = None \<longleftrightarrow> pr_revoked_at row = None"
  using assms by (auto simp: status_from_model_def Let_def split: if_splits option.splits)

lemma ensure_live_model_ok:
  "ensure_live_model K row now ancestor = Inr a \<longleftrightarrow> artifact_from_model K row = Inr a \<and> live_row K row now"
proof
  assume ok: "ensure_live_model K row now ancestor = Inr a"
  then obtain since til status where a: "artifact_from_model K row = Inr a" "dg_starts K a = Inr since" "dg_ends K a = Inr til"
      "since \<le> now" "now < til" and status: "status_from_model K row = Inr status" "st_checked status \<le> now"
      "now \<le> st_checked status + MAX_STATUS_AGE" "now < st_fresh_until status"
    and revoked: "\<not> (\<exists>r \<in> set_option (st_revoked status). r \<le> now)"
    by (auto simp: ensure_live_model_def not_less not_le split: if_splits)
  from status_from_model_ok(2) [OF status(1)] status(2) revoked have "st_revoked status = None"
    by (cases "st_revoked status") auto
  with a status show "artifact_from_model K row = Inr a \<and> live_row K row now" unfolding live_row_def by blast
next
  assume ok: "artifact_from_model K row = Inr a \<and> live_row K row now"
  then obtain since til status where a: "artifact_from_model K row = Inr a" "dg_starts K a = Inr since" "dg_ends K a = Inr til"
      "since \<le> now" "now < til" and status: "status_from_model K row = Inr status" "st_checked status \<le> now"
      "now \<le> st_checked status + MAX_STATUS_AGE" "now < st_fresh_until status" "st_revoked status = None"
    unfolding live_row_def by auto
  with status_from_model_ok(1) [OF status(1)] show "ensure_live_model K row now ancestor = Inr a"
    by (auto simp: ensure_live_model_def)
qed

lemma ensure_live_on_ok:
  "ensure_live_on K db cid now ancestor = Inr a \<longleftrightarrow> artifact_on K db cid = Inr a \<and> live K db cid now"
  by (auto simp: ensure_live_on_def ensure_live_model_ok live_def)

lemma live_not_revoked: "live K db cid now \<Longrightarrow> row_at db cid = Some r \<Longrightarrow> pr_revoked_at r = None"
  using status_from_model_ok(3) by (fastforce simp: live_def live_row_def)

section \<open>Walks\<close>

lemma try_map_edges: "try_map edge_from_model rows = Inr es \<Longrightarrow> map ve_parent es = map pe_parent rows"
  by (induction rows arbitrary: es) (auto simp: edge_from_model_ok split: sum.splits)

lemma edges_on_rel: "edges_on db cid = Inr es \<Longrightarrow> edge_rel db `` {cid} = ve_parent ` set es"
proof -
  assume "edges_on db cid = Inr es"
  then have "map ve_parent es = map pe_parent (sort_key pe_position (filter (\<lambda>e. pe_child e = cid) (pdb_edges db)))"
    unfolding edges_on_def by (rule try_map_edges)
  then have "ve_parent ` set es = pe_parent ` set (filter (\<lambda>e. pe_child e = cid) (pdb_edges db))"
    by (metis set_map set_sort)
  then show ?thesis by (auto simp: edge_rel_def)
qed

lemma closed_reachable:
  assumes "\<And>x. x \<in> V \<Longrightarrow> R `` {x} \<subseteq> V" and "x \<in> V" and "(x, y) \<in> R\<^sup>*"
  shows "y \<in> V"
  using assms(3,2) by (induction rule: rtrancl_induct) (use assms(1) in auto)

lemma validate_loop_closed:
  assumes "validate_loop K db now stack ancestry = Inr visited"
  shows "fst ` set stack \<union> fst ` set ancestry \<subseteq> fst ` set visited \<and>
    (\<forall>x \<in> fst ` set visited - fst ` set ancestry. live K db x now \<and> edge_rel db `` {x} \<subseteq> fst ` set visited)"
  using assms
proof (induction K db now stack ancestry rule: validate_loop.induct)
  case (2 K db now cid ancestor depth stack ancestry)
  from 2(2) obtain a es where new: "\<not> (depth > MAX_ANCESTRY_DEPTH \<or> cid \<in> set (map fst ancestry))"
    and a: "ensure_live_on K db cid now ancestor = Inr a"
    and es: "edges_on db cid = Inr es" and shape: "validate_persisted_edges a es = Inr ()"
    and loop: "validate_loop K db now (map (\<lambda>e. (ve_parent e, True, depth + 1)) es @ stack) ((cid, a) # ancestry) = Inr visited"
    by (auto split: if_splits)
  note IH = 2(1) [OF new a es shape loop]
  then have "edge_rel db `` {cid} \<subseteq> fst ` set visited" by (simp add: edges_on_rel [OF es] image_Un image_image)
  moreover have "live K db cid now" using a by (simp add: ensure_live_on_ok)
  ultimately have "live K db x now \<and> edge_rel db `` {x} \<subseteq> fst ` set visited"
    if "x \<in> fst ` set visited - fst ` set ancestry" for x
    using that IH by (cases "x = cid") simp_all
  moreover have "fst ` set ((cid, ancestor, depth) # stack) \<union> fst ` set ancestry \<subseteq> fst ` set visited"
    using IH by (simp add: image_Un)
  ultimately show ?case by blast
qed auto

lemmas validate_loop_sound = validate_loop_closed [THEN conjunct1] validate_loop_closed [THEN conjunct2, THEN bspec]

lemma locked_loop_closed:
  assumes "locked_loop db locked stack visited = Inr seen"
  shows "fst ` set stack \<union> set visited \<subseteq> set seen \<and>
    (\<forall>x \<in> set seen - set visited. map_of locked x \<noteq> None \<and> edge_rel db `` {x} \<subseteq> set seen)"
  using assms
proof (induction db locked stack visited rule: locked_loop.induct)
  case (2 db locked cid depth stack visited)
  from 2(2) obtain a es where new: "\<not> (depth > MAX_ANCESTRY_DEPTH \<or> cid \<in> set visited)"
    and a: "ok_or (map_of locked cid) AuthorityStateUnavailable = Inr a"
    and es: "edges_on db cid = Inr es" and shape: "validate_persisted_edges a es = Inr ()"
    and known: "\<not> list_ex (\<lambda>e. map_of locked (ve_parent e) = None) es"
    and loop: "locked_loop db locked (map (\<lambda>e. (ve_parent e, depth + 1)) es @ stack) (cid # visited) = Inr seen"
    by (auto split: if_splits)
  note IH = 2(1) [OF new a es shape known loop]
  then have "edge_rel db `` {cid} \<subseteq> set seen" by (simp add: edges_on_rel [OF es] image_Un image_image)
  with a have "map_of locked x \<noteq> None \<and> edge_rel db `` {x} \<subseteq> set seen" if "x \<in> set seen - set visited" for x
    using that IH by (cases "x = cid") simp_all
  moreover have "fst ` set ((cid, depth) # stack) \<union> set visited \<subseteq> set seen"
    using IH by (simp add: image_Un)
  ultimately show ?case by blast
qed auto

lemmas locked_loop_sound = locked_loop_closed [THEN conjunct1] locked_loop_closed [THEN conjunct2, THEN bspec]

text \<open>What a successful walk says of every ancestor.\<close>

lemma validate_loop_live:
  assumes "validate_loop K db now [(cid, False, 0)] [] = Inr visited" and "(cid, x) \<in> (edge_rel db)\<^sup>*"
  shows "live K db x now"
proof -
  note sound = validate_loop_sound [OF assms(1)]
  have "x \<in> fst ` set visited"
    by (rule closed_reachable [OF _ _ assms(2)]) (use sound in auto)
  with sound(2) [of x] show ?thesis by simp
qed

lemma validate_for_invocation_live:
  assumes "validate_for_invocation K db cid now = Inr u \<or> validate_for_invocation_in_transaction K db cid now = Inr u"
    and "(cid, x) \<in> (edge_rel db)\<^sup>*"
  shows "live K db x now"
proof -
  from assms(1) obtain visited where "validate_loop K db now [(cid, False, 0)] [] = Inr visited"
    by (auto simp: validate_for_invocation_def validate_for_invocation_in_transaction_def simp del: validate_loop.simps)
  from validate_loop_live [OF this assms(2)] show ?thesis .
qed

lemma locked_ancestry_known:
  assumes "validate_locked_ancestry db cid locked = Inr u" and "(cid, x) \<in> (edge_rel db)\<^sup>*"
  shows "x \<in> fst ` set locked"
proof -
  from assms(1) obtain seen where loop: "locked_loop db locked [(cid, 0)] [] = Inr seen"
    by (auto simp: validate_locked_ancestry_def simp del: locked_loop.simps)
  note sound = locked_loop_sound [OF loop]
  have "x \<in> set seen" by (rule closed_reachable [OF _ _ assms(2)]) (use sound in auto)
  with sound(2) [of x] show ?thesis by (auto simp: map_of_eq_None_iff)
qed

section \<open>The locked walk agrees with the first\<close>

lemma validate_loop_keeps:
  "validate_loop K db now stack ancestry = Inr visited \<Longrightarrow>
     \<exists>front. visited = front @ ancestry \<and> distinct (map fst front) \<and> set (map fst front) \<inter> set (map fst ancestry) = {}"
proof (induction K db now stack ancestry rule: validate_loop.induct)
  case (2 K db now cid ancestor depth stack ancestry)
  from 2(2) obtain a es where new: "\<not> (depth > MAX_ANCESTRY_DEPTH \<or> cid \<in> set (map fst ancestry))"
    and a: "ensure_live_on K db cid now ancestor = Inr a"
    and es: "edges_on db cid = Inr es" and shape: "validate_persisted_edges a es = Inr ()"
    and loop: "validate_loop K db now (map (\<lambda>e. (ve_parent e, True, depth + 1)) es @ stack) ((cid, a) # ancestry) = Inr visited"
    by (auto split: if_splits)
  from 2(1) [OF new a es shape loop] obtain front where "visited = front @ (cid, a) # ancestry" "distinct (map fst front)"
    "set (map fst front) \<inter> set (map fst ((cid, a) # ancestry)) = {}" by blast
  with new show ?case by (intro exI [of _ "front @ [(cid, a)]"]) auto
qed auto

lemma locked_loop_agrees:
  assumes "validate_loop K db now stack ancestry = Inr visited" and "distinct (map fst visited)"
  shows "locked_loop db visited (map (\<lambda>(c, _, d). (c, d)) stack) (map fst ancestry) = Inr (map fst visited)"
  using assms
proof (induction K db now stack ancestry rule: validate_loop.induct)
  case (2 K db now cid ancestor depth stack ancestry)
  from 2(2) obtain a es where new: "\<not> (depth > MAX_ANCESTRY_DEPTH \<or> cid \<in> set (map fst ancestry))"
    and a: "ensure_live_on K db cid now ancestor = Inr a"
    and es: "edges_on db cid = Inr es" and shape: "validate_persisted_edges a es = Inr ()"
    and loop: "validate_loop K db now (map (\<lambda>e. (ve_parent e, True, depth + 1)) es @ stack) ((cid, a) # ancestry) = Inr visited"
    by (auto split: if_splits)
  from validate_loop_keeps [OF loop] have "(cid, a) \<in> set visited" by auto
  with 2(3) have known: "map_of visited cid = Some a" by (simp add: map_of_eq_Some_iff)
  have parents: "\<not> list_ex (\<lambda>e. map_of visited (ve_parent e) = None) es"
    using validate_loop_sound(1) [OF loop] by (simp add: list_ex_iff map_of_eq_None_iff image_Un image_image) blast
  from 2(1) [OF new a es shape loop 2(3)] new known es shape parents show ?case by (simp add: comp_def)
qed auto

end
