(* ===== verification/Policy_History.thy ===== *)
theory Policy_History
  imports Policy_Graph
begin

text \<open>
  The life of a policy store. An operation that reads before its transaction is given the tables it read and
  the tables it commits on; the second have evolved from the first by the operations of other requests.
  Authority rows come in as pairs that \<open>validate_authority_pair\<close> accepted, as the node admits them;
  \<open>insert_verified_authority\<close>, which only the tests of the repository call, is not an operation here.
\<close>

inductive evolves :: "kernel_ext \<Rightarrow> policy_db \<Rightarrow> policy_db \<Rightarrow> bool" for K where
  evolves_refl: "evolves K db db"
| evolves_admit:
    "evolves K db0 db \<Longrightarrow> validate_authority_pair K policy enforcement ps enforcer = Inr () \<Longrightarrow>
     a = policy \<or> a = enforcement \<Longrightarrow> admit_verified_authority_in_transaction K a observation now db = Inr db' \<Longrightarrow>
     evolves K db0 db'"
| evolves_apply:
    "evolves K db0 db \<Longrightarrow> apply_status_in_transaction K cid observation now db = Inr db' \<Longrightarrow> evolves K db0 db'"
| evolves_status:
    "(\<forall>x \<in> set attempts. evolves K db0 (snd (snd x))) \<Longrightarrow> set_status K cid status attempts = Inr db' \<Longrightarrow> evolves K db0 db'"
| evolves_challenge:
    "evolves K db0 db \<Longrightarrow> insert_challenge K c db = Inr db' \<or> insert_challenge_in_transaction K c db = Inr db' \<Longrightarrow>
     evolves K db0 db'"
| evolves_issue_in_transaction:
    "evolves K db0 db \<Longrightarrow> artifact_on K db (dg_cid policy) = Inr policy \<Longrightarrow> artifact_on K db (dg_cid enforcement) = Inr enforcement \<Longrightarrow>
     issue_root_in_transaction K node policy enforcement ps session_root binding decision b db = Inr db' \<Longrightarrow> evolves K db0 db'"
| evolves_issue:
    "evolves K db0 seen \<Longrightarrow> evolves K seen db \<Longrightarrow>
     artifact_on K seen (dg_cid policy) = Inr policy \<Longrightarrow> artifact_on K seen (dg_cid enforcement) = Inr enforcement \<Longrightarrow>
     issue_root K node policy enforcement ps session_root binding decision b seen db = Inr db' \<Longrightarrow> evolves K db0 db'"
| evolves_descend:
    "evolves K db0 seen \<Longrightarrow> evolves K seen db \<Longrightarrow> persist_descendant K descendant now seen db = Inr db' \<Longrightarrow>
     evolves K db0 db'"

section \<open>Growth\<close>

definition row_ext :: "policy_delegation_row \<Rightarrow> policy_delegation_row \<Rightarrow> bool" where
  "row_ext r r' \<longleftrightarrow> (pr_revoked_at r \<noteq> None \<longrightarrow> pr_revoked_at r' \<noteq> None) \<and> (r' = r \<or> (\<exists>c. r' = with_status c r))"

definition db_ext :: "policy_db \<Rightarrow> policy_db \<Rightarrow> bool" where
  "db_ext db db' \<longleftrightarrow>
     (\<forall>cid r. row_at db cid = Some r \<longrightarrow> (\<exists>r'. row_at db' cid = Some r' \<and> row_ext r r')) \<and>
     set (pdb_edges db) \<subseteq> set (pdb_edges db') \<and>
     (\<forall>cid c. challenge_at db cid = Some c \<longrightarrow> pk_consumed_at c \<noteq> None \<longrightarrow>
        (\<exists>c'. challenge_at db' cid = Some c' \<and> pk_consumed_at c' \<noteq> None)) \<and>
     set (pdb_audits db) \<subseteq> set (pdb_audits db')"

lemma with_status_static [simp]:
  "pr_cid (with_status c r) = pr_cid r" "pr_artifact (with_status c r) = pr_artifact r"
  "pr_revoked_at (with_status c r) = sx_revoked_at c" "with_status c (with_status c' r) = with_status c r"
  "artifact_from_model K (with_status c r) = artifact_from_model K r"
  by (simp_all add: with_status_def artifact_from_model_def)

lemma row_ext_refl [simp]: "row_ext r r"
  by (simp add: row_ext_def)

lemma row_ext_trans: "row_ext a b \<Longrightarrow> row_ext b c \<Longrightarrow> row_ext a c"
  by (auto simp: row_ext_def)

lemma row_ext_same:
  assumes "row_ext r r'"
  shows "artifact_from_model K r' = artifact_from_model K r" and "pr_artifact r' = pr_artifact r"
  using assms by (auto simp: row_ext_def)

lemma db_ext_refl [simp]: "db_ext db db"
  unfolding db_ext_def by (auto intro: row_ext_refl)

lemma db_extD:
  assumes "db_ext db db'"
  shows "row_at db cid = Some r \<Longrightarrow> \<exists>r'. row_at db' cid = Some r' \<and> row_ext r r'"
    and "set (pdb_edges db) \<subseteq> set (pdb_edges db')"
    and "challenge_at db cid = Some c \<Longrightarrow> pk_consumed_at c \<noteq> None \<Longrightarrow>
      \<exists>c'. challenge_at db' cid = Some c' \<and> pk_consumed_at c' \<noteq> None"
    and "set (pdb_audits db) \<subseteq> set (pdb_audits db')"
  using assms unfolding db_ext_def by blast+

lemma db_ext_trans:
  assumes "db_ext a b" and "db_ext b c"
  shows "db_ext a c"
proof -
  have "\<exists>r''. row_at c cid = Some r'' \<and> row_ext r r''" if r: "row_at a cid = Some r" for cid r
  proof -
    from db_extD(1) [OF assms(1) r] obtain r' where r': "row_at b cid = Some r'" "row_ext r r'" by blast
    from db_extD(1) [OF assms(2) r'(1)] r'(2) show ?thesis by (blast intro: row_ext_trans)
  qed
  moreover have "\<exists>y. challenge_at c cid = Some y \<and> pk_consumed_at y \<noteq> None"
    if x: "challenge_at a cid = Some x" "pk_consumed_at x \<noteq> None" for cid x
  proof -
    from db_extD(3) [OF assms(1) x] obtain y where "challenge_at b cid = Some y" "pk_consumed_at y \<noteq> None" by blast
    from db_extD(3) [OF assms(2) this] show ?thesis .
  qed
  ultimately show ?thesis
    using db_extD(2,4) [OF assms(1)] db_extD(2,4) [OF assms(2)] unfolding db_ext_def by (meson subset_trans)
qed

lemma db_ext_artifact: "db_ext db db' \<Longrightarrow> artifact_on K db cid = Inr a \<Longrightarrow> artifact_on K db' cid = Inr a"
  using row_ext_same(1) by (auto dest!: db_extD(1))

lemma db_ext_edges: "db_ext db db' \<Longrightarrow> edge_rel db \<subseteq> edge_rel db'"
  using db_extD(2) by (fastforce simp: edge_rel_def)

section \<open>The invariant\<close>

definition expected_edges :: "PolicyDelegation \<Rightarrow> policy_edge_row list" where
  "expected_edges a =
     (case dg_role a of
        PolicySessionRoot \<Rightarrow> [authority_edge a 0, authority_edge a 1]
      | PolicySessionDescendant \<Rightarrow> [immediate_edge a]
      | _ \<Rightarrow> [])"

definition is_session :: "PolicyDelegation \<Rightarrow> bool" where
  "is_session a \<longleftrightarrow> dg_role a = PolicySessionRoot \<or> dg_role a = PolicySessionDescendant"

text \<open>The facts a session keeps of its policy authority.\<close>

definition POLICY_FACTS :: "string list" where
  "POLICY_FACTS = [''ownerDid'', ''policyId'', ''policyDigestHex'', ''capabilityCeilingHashHex'']"

definition session_within :: "kernel_ext \<Rightarrow> PolicyDelegation \<Rightarrow> PolicyDelegation \<Rightarrow> PolicyDelegation \<Rightarrow> bool" where
  "session_within K d p e \<longleftrightarrow>
     dg_role p = PolicyAuthority \<and> dg_role e = PolicyEnforcement \<and>
     (dg_role d = PolicySessionRoot \<longrightarrow> dg_proofs d = [dg_cid p, dg_cid e]) \<and>
     capability_set_contained K (dg_capabilities d) (dg_capabilities p) = Inr True \<and>
     capability_set_contained K (dg_capabilities d) (dg_capabilities e) = Inr True \<and>
     (\<exists>ds de ps pe es ee. dg_starts K d = Inr ds \<and> dg_ends K d = Inr de \<and> dg_starts K p = Inr ps \<and> dg_ends K p = Inr pe \<and>
        dg_starts K e = Inr es \<and> dg_ends K e = Inr ee \<and> ps \<le> ds \<and> es \<le> ds \<and> ds < de \<and> de \<le> pe \<and> de \<le> ee) \<and>
     (\<forall>name \<in> set POLICY_FACTS. fact d name = fact p name \<and> is_ok (fact p name)) \<and>
     fact d ''policyDelegationCid'' = Inr (dg_cid p) \<and> fact d ''enforcementDelegationCid'' = Inr (dg_cid e) \<and>
     fact d ''enforcerDid'' = Inr (dg_audience e)"

definition grounded_session :: "kernel_ext \<Rightarrow> policy_db \<Rightarrow> PolicyDelegation \<Rightarrow> bool" where
  "grounded_session K db d \<longleftrightarrow>
     (\<exists>p e. artifact_on K db (dg_cid p) = Inr p \<and> artifact_on K db (dg_cid e) = Inr e \<and> session_within K d p e \<and>
        (dg_cid d, dg_cid p) \<in> (edge_rel db)\<^sup>+ \<and> (dg_cid d, dg_cid e) \<in> (edge_rel db)\<^sup>+) \<and>
     (\<exists>n r m. (dg_cid d, dg_cid r) \<in> edge_rel db ^^ n \<and> artifact_on K db (dg_cid r) = Inr r \<and>
        dg_role r = PolicySessionRoot \<and> depth_of d = Inr m \<and> m + int n \<le> 8)"

definition row_good :: "kernel_ext \<Rightarrow> policy_db \<Rightarrow> policy_delegation_row \<Rightarrow> bool" where
  "row_good K db r \<longleftrightarrow>
     artifact_from_model K r = Inr (pr_artifact r) \<and>
     filter (\<lambda>e. pe_child e = pr_cid r) (pdb_edges db) = expected_edges (pr_artifact r) \<and>
     (is_session (pr_artifact r) \<longrightarrow> grounded_session K db (pr_artifact r))"

definition store_ok :: "kernel_ext \<Rightarrow> policy_db \<Rightarrow> bool" where
  "store_ok K db \<longleftrightarrow>
     (\<forall>cid r. row_at db cid = Some r \<longrightarrow> row_good K db r) \<and>
     (\<forall>e \<in> set (pdb_edges db). row_at db (pe_child e) \<noteq> None \<and> row_at db (pe_parent e) \<noteq> None) \<and>
     acyclic (edge_rel db) \<and> distinct (map pr_cid (pdb_delegations db))"

lemma store_okD:
  assumes "store_ok K db"
  shows "row_at db cid = Some r \<Longrightarrow> row_good K db r"
    and "e \<in> set (pdb_edges db) \<Longrightarrow> row_at db (pe_child e) \<noteq> None"
    and "e \<in> set (pdb_edges db) \<Longrightarrow> row_at db (pe_parent e) \<noteq> None"
    and "acyclic (edge_rel db)"
    and "distinct (map pr_cid (pdb_delegations db))"
  using assms unfolding store_ok_def by blast+

lemma store_ok_empty: "store_ok K empty_policy_db"
  by (auto simp: store_ok_def empty_policy_db_def row_at_def edge_rel_def acyclic_def)

lemma grounded_session_mono:
  assumes "db_ext db db'" and "grounded_session K db d"
  shows "grounded_session K db' d"
proof -
  note edges = db_ext_edges [OF assms(1)]
  have path: "(x, y) \<in> (edge_rel db)\<^sup>+ \<Longrightarrow> (x, y) \<in> (edge_rel db')\<^sup>+" for x y using trancl_mono [OF _ edges] .
  have steps: "(x, y) \<in> edge_rel db ^^ n \<Longrightarrow> (x, y) \<in> edge_rel db' ^^ n" for x y n
    by (induction n arbitrary: y) (use edges in \<open>auto elim!: relpow_Suc_E\<close>)
  from assms(2) show ?thesis
    unfolding grounded_session_def using path steps db_ext_artifact [OF assms(1)] by blast
qed

text \<open>A status update.\<close>

lemma find_map_status:
  "find (\<lambda>r. pr_cid r = cid) (map (\<lambda>r. if m r then with_status c r else r) rows) =
     map_option (\<lambda>r. if m r then with_status c r else r) (find (\<lambda>r. pr_cid r = cid) rows)"
  by (induction rows) auto

lemma status_change:
  assumes "db' = fst (update_status m c db)"
    and "\<And>r. r \<in> set (pdb_delegations db) \<Longrightarrow> m r \<Longrightarrow> pr_revoked_at r \<noteq> None \<Longrightarrow> sx_revoked_at c \<noteq> None"
  shows "db_ext db db'" and "pdb_edges db' = pdb_edges db" and "store_ok K db \<Longrightarrow> store_ok K db'"
proof -
  have rows: "row_at db' cid = map_option (\<lambda>r. if m r then with_status c r else r) (row_at db cid)" for cid
    by (simp add: assms(1) update_status_def row_at_def find_map_status)
  show edges: "pdb_edges db' = pdb_edges db" by (simp add: assms(1) update_status_def)
  have "challenge_at db' cid = challenge_at db cid" for cid by (simp add: assms(1) update_status_def challenge_at_def)
  moreover have "pdb_audits db' = pdb_audits db" by (simp add: assms(1) update_status_def)
  moreover have "row_ext r (if m r then with_status c r else r)" if "row_at db cid = Some r" for cid r
  proof -
    from that have "r \<in> set (pdb_delegations db)" unfolding row_at_def by (auto dest: find_SomeD)
    with assms(2) show ?thesis by (auto simp: row_ext_def)
  qed
  ultimately show ext: "db_ext db db'" using edges rows unfolding db_ext_def by auto
  assume ok: "store_ok K db"
  have "row_good K db' r'" if "row_at db' cid = Some r'" for cid r'
  proof -
    from that rows obtain r where r: "row_at db cid = Some r" and r': "r' = (if m r then with_status c r else r)" by auto
    from store_okD(1) [OF ok r] r' edges grounded_session_mono [OF ext] show ?thesis
      by (auto simp: row_good_def)
  qed
  moreover have "edge_rel db' = edge_rel db" by (simp add: edge_rel_def edges)
  moreover have "map pr_cid (pdb_delegations db') = map pr_cid (pdb_delegations db)" by (simp add: assms(1) update_status_def)
  ultimately show "store_ok K db'"
    using store_okD(2-5) [OF ok] rows unfolding store_ok_def edges by auto
qed

lemma status_columns_revoked:
  "status_columns_of K e status = Inr c \<Longrightarrow> st_revoked status \<noteq> None \<Longrightarrow> sx_revoked_at c \<noteq> None"
  by (auto simp: status_columns_of_def split: option.splits)

lemma transition_revoked:
  "validate_status_transition previous status = Inr u \<Longrightarrow> st_revoked previous \<noteq> None \<Longrightarrow> st_revoked status = st_revoked previous"
  by (auto simp: validate_status_transition_def split: if_splits)

text \<open>Where the loop of \<open>set_status\<close> commits: on the tables of one attempt, whose row has the status the attempt read.\<close>

lemma set_status_loop_commits:
  assumes "set_status_loop K cid status attempts = Inr db'"
  shows "\<exists>seen answer current row previous c. (seen, answer, current) \<in> set attempts \<and> row_at seen cid = Some row \<and>
    status_from_model K row = Inr previous \<and> validate_status_transition previous status = Inr () \<and>
    status_columns_of K AuthorityStateUnavailable status = Inr c \<and> update_status (unchanged_since cid row) c current = (db', 1)"
  using assms
proof (induction attempts)
  case (Cons x attempts)
  obtain seen answer current where x: "x = (seen, answer, current)" by (cases x)
  from Cons.prems obtain row previous c where row: "row_at seen cid = Some row" "status_from_model K row = Inr previous"
      "validate_status_transition previous status = Inr ()" "status_columns_of K AuthorityStateUnavailable status = Inr c"
    and rest: "(case answer of Failure \<Rightarrow> Inl TransactionFailed
       | Conflict \<Rightarrow> (if attempts = [] then Inl TransactionFailed else set_status_loop K cid status attempts)
       | Answered \<Rightarrow> (let (db', affected) = update_status (unchanged_since cid row) c current
           in if affected = 1 then Inr db' else set_status_loop K cid status attempts)) = Inr db'"
    by (auto simp: x)
  obtain dbu n where u: "update_status (unchanged_since cid row) c current = (dbu, n)" by fastforce
  consider "answer = Answered" "n = 1" | "set_status_loop K cid status attempts = Inr db'"
    using rest u by (cases answer) (auto split: if_splits)
  then show ?case
  proof cases
    case 1
    with rest u have "update_status (unchanged_since cid row) c current = (db', 1)" by simp
    with row x show ?thesis by (metis list.set_intros(1))
  next
    case 2
    from Cons.IH [OF this] show ?thesis by (metis list.set_intros(2))
  qed
qed auto

lemma unchanged_row:
  assumes "store_ok K db" and "update_status (unchanged_since cid row) c db = (db', 1)"
  shows "\<exists>r. row_at db cid = Some r \<and> unchanged_since cid row r"
proof -
  from assms(2) have "length (filter (unchanged_since cid row) (pdb_delegations db)) = 1" by (simp add: update_status_def)
  then have "filter (unchanged_since cid row) (pdb_delegations db) \<noteq> []" by auto
  then obtain r where r: "r \<in> set (pdb_delegations db)" "unchanged_since cid row r" by (auto simp: filter_empty_conv)
  then obtain r' where r': "row_at db cid = Some r'"
    by (cases "row_at db cid") (auto simp: row_at_def find_None_iff unchanged_since_def)
  then have "r' \<in> set (pdb_delegations db)" "pr_cid r' = pr_cid r" using r(2) unfolding row_at_def
    by (auto dest: find_SomeD simp: unchanged_since_def)
  with r(1) store_okD(5) [OF assms(1)] have "r' = r" by (auto simp: distinct_map dest: inj_onD)
  with r' r show ?thesis by blast
qed

lemma set_status_changes:
  assumes "set_status K cid status attempts = Inr db'"
  shows "\<exists>x \<in> set attempts. db_ext (snd (snd x)) db' \<and> pdb_edges db' = pdb_edges (snd (snd x)) \<and>
    (store_ok K (snd (snd x)) \<longrightarrow> store_ok K db')"
proof -
  from assms set_status_loop_commits obtain seen answer current row previous c where
      x: "(seen, answer, current) \<in> set (take MAX_ATTEMPTS attempts)"
    and status: "status_from_model K row = Inr previous" "validate_status_transition previous status = Inr ()"
      "status_columns_of K AuthorityStateUnavailable status = Inr c"
    and u: "update_status (unchanged_since cid row) c current = (db', 1)"
    unfolding set_status_def by blast
  have keep: "sx_revoked_at c \<noteq> None" if "unchanged_since cid row r" "pr_revoked_at r \<noteq> None" for r
    using that status_from_model_ok(3) [OF status(1)] transition_revoked [OF status(2)] status_columns_revoked [OF status(3)]
    by (auto simp: unchanged_since_def)
  from u have "db' = fst (update_status (unchanged_since cid row) c current)" by simp
  note change = status_change [OF this keep]
  from x have "(seen, answer, current) \<in> set attempts" by (rule in_set_takeD)
  with change show ?thesis by (intro bexI [of _ "(seen, answer, current)"]) auto
qed

lemma apply_status_changes:
  assumes "apply_status_in_transaction K cid observation now db = Inr db'"
  shows "db_ext db db' \<and> pdb_edges db' = pdb_edges db \<and> (store_ok K db \<longrightarrow> store_ok K db')"
proof -
  from assms obtain row previous where row: "row_at db cid = Some row" "status_from_model K row = Inr previous"
    and rest: "(if observation = previous then Inr db
        else rbind (validate_status_transition previous observation) (\<lambda>_.
          rbind (status_columns_of K SchemaInvalid observation) (\<lambda>c.
          let (db', affected) = update_status (\<lambda>r. pr_cid r = cid \<and> pr_sequence r = int (st_sequence previous) \<and>
                pr_checked_at r = pr_checked_at row \<and> same_freshness row r) c db
          in if affected \<noteq> 1 then Inl AuthorityStateUnavailable else Inr db'))) = Inr db'"
    by (auto simp: apply_status_in_transaction_def split: if_splits)
  let ?m = "\<lambda>r. pr_cid r = cid \<and> pr_sequence r = int (st_sequence previous) \<and> pr_checked_at r = pr_checked_at row \<and> same_freshness row r"
  show ?thesis
  proof (cases "observation = previous")
    case True with rest show ?thesis by simp
  next
    case False
    with rest obtain c where status: "validate_status_transition previous observation = Inr ()"
        "status_columns_of K SchemaInvalid observation = Inr c"
      and u: "db' = fst (update_status ?m c db)" "snd (update_status ?m c db) = 1"
      by (cases "status_columns_of K SchemaInvalid observation") (auto simp: Let_def case_prod_beta split: if_splits)
    have one: "length (filter ?m (pdb_delegations db)) = 1" using u(2) by (simp add: update_status_def)
    have seq: "pr_sequence row = int (st_sequence previous)"
      using row(2) by (auto simp: status_from_model_def Let_def split: if_splits)
    have in_db: "row \<in> set (pdb_delegations db)" "pr_cid row = cid" using row(1) unfolding row_at_def by (auto dest: find_SomeD)
    have keep: "sx_revoked_at c \<noteq> None" if r: "r \<in> set (pdb_delegations db)" "?m r" "pr_revoked_at r \<noteq> None" for r
    proof -
      from r(2) have "same_freshness row row" by (auto simp: same_freshness_def)
      with in_db seq have "row \<in> set (filter ?m (pdb_delegations db))" by simp
      moreover from r have "r \<in> set (filter ?m (pdb_delegations db))" by simp
      ultimately have "r = row" using one by (metis (no_types, lifting) One_nat_def empty_iff length_0_conv length_Suc_conv set_ConsD set_empty)
      with r(3) status_from_model_ok(3) [OF row(2)] have "st_revoked previous \<noteq> None" by simp
      with transition_revoked [OF status(1) this] status_columns_revoked [OF status(2)] show ?thesis by simp
    qed
    have "db_ext db db'" by (rule status_change(1) [OF u(1)]) (rule keep)
    moreover have "pdb_edges db' = pdb_edges db" by (rule status_change(2) [OF u(1)]) (rule keep)
    moreover have "store_ok K db \<Longrightarrow> store_ok K db'" by (rule status_change(3) [OF u(1)]) (rule keep)
    ultimately show ?thesis by blast
  qed
qed

section \<open>New rows\<close>

lemma row_at_snoc:
  assumes "pdb_delegations db' = pdb_delegations db @ [row]"
  shows "row_at db' cid = (case row_at db cid of Some r \<Rightarrow> Some r | None \<Rightarrow> if pr_cid row = cid then Some row else None)"
  using assms by (auto simp: row_at_def find_append find_snoc split: option.split)

lemma artifact_model_ok:
  assumes "artifact_model K a status = Inr row"
  shows "pr_artifact row = a" and "pr_cid row = dg_cid a"
    and "validate_wire_shape K a = Inr () \<Longrightarrow> artifact_from_model K row = Inr a"
  using assms by (auto simp: artifact_model_def artifact_from_model_ok)

lemma insert_delegation_ok [simp]:
  "insert_delegation row db = Inr db' \<longleftrightarrow>
     row_at db (pr_cid row) = None \<and> db' = db\<lparr>pdb_delegations := pdb_delegations db @ [row]\<rparr>"
  by (auto simp: insert_delegation_def row_at_def find_None_iff list_ex_iff)

lemma expected_edges_child: "e \<in> set (expected_edges a) \<Longrightarrow> pe_child e = dg_cid a"
  by (auto simp: expected_edges_def authority_edge_def immediate_edge_def split: DelegationRole.splits)

definition added_row :: "kernel_ext \<Rightarrow> PolicyDelegation \<Rightarrow> AuthorityStatus \<Rightarrow> policy_db \<Rightarrow> policy_db \<Rightarrow> bool" where
  "added_row K a status db db' \<longleftrightarrow>
     row_at db (dg_cid a) = None \<and>
     (\<exists>row. artifact_model K a status = Inr row \<and> pdb_delegations db' = pdb_delegations db @ [row]) \<and>
     pdb_edges db' = pdb_edges db @ expected_edges a \<and>
     (\<forall>e \<in> set (expected_edges a). row_at db (pe_parent e) \<noteq> None) \<and>
     (\<forall>cid c. challenge_at db cid = Some c \<longrightarrow> pk_consumed_at c \<noteq> None \<longrightarrow>
        (\<exists>c'. challenge_at db' cid = Some c' \<and> pk_consumed_at c' \<noteq> None)) \<and>
     set (pdb_audits db) \<subseteq> set (pdb_audits db')"

lemma added_row_ext:
  assumes "added_row K a status db db'"
  shows "db_ext db db'" and "validate_wire_shape K a = Inr () \<Longrightarrow> artifact_on K db' (dg_cid a) = Inr a"
    and "edge_rel db' = edge_rel db \<union> {dg_cid a} \<times> pe_parent ` set (expected_edges a)"
proof -
  from assms obtain row where fresh: "row_at db (dg_cid a) = None" and row: "artifact_model K a status = Inr row"
    and del: "pdb_delegations db' = pdb_delegations db @ [row]" and edges: "pdb_edges db' = pdb_edges db @ expected_edges a"
    unfolding added_row_def by blast
  note at = row_at_snoc [OF del]
  show "db_ext db db'" using assms at edges unfolding added_row_def db_ext_def by (auto intro: row_ext_refl)
  show "validate_wire_shape K a = Inr () \<Longrightarrow> artifact_on K db' (dg_cid a) = Inr a"
    using at fresh artifact_model_ok [OF row] by simp
  show "edge_rel db' = edge_rel db \<union> {dg_cid a} \<times> pe_parent ` set (expected_edges a)"
  proof -
    have "(\<lambda>e. (pe_child e, pe_parent e)) ` set (expected_edges a) = (\<lambda>e. (dg_cid a, pe_parent e)) ` set (expected_edges a)"
      by (intro image_cong refl) (simp add: expected_edges_child)
    then show ?thesis unfolding edge_rel_def edges by auto
  qed
qed

lemma added_row_ok:
  assumes ok: "store_ok K db" and added: "added_row K a status db db'" and wire: "validate_wire_shape K a = Inr ()"
    and grounded: "is_session a \<Longrightarrow> grounded_session K db' a"
  shows "store_ok K db'"
proof -
  from added obtain row where fresh: "row_at db (dg_cid a) = None" and row: "artifact_model K a status = Inr row"
    and del: "pdb_delegations db' = pdb_delegations db @ [row]" and edges: "pdb_edges db' = pdb_edges db @ expected_edges a"
    and parents: "\<forall>e \<in> set (expected_edges a). row_at db (pe_parent e) \<noteq> None"
    unfolding added_row_def by blast
  note ext = added_row_ext(1) [OF added] and at = row_at_snoc [OF del] and model = artifact_model_ok [OF row]
  have own: "filter (\<lambda>e. pe_child e = dg_cid a) (expected_edges a) = expected_edges a"
    using expected_edges_child by (simp add: filter_id_conv)
  have none: "filter (\<lambda>e. pe_child e = dg_cid a) (pdb_edges db) = []"
    using store_okD(2) [OF ok] fresh by (metis (mono_tags, lifting) filter_False)
  have "row_good K db' r" if r: "row_at db' cid = Some r" for cid r
  proof (cases "row_at db cid")
    case (Some s)
    with r at have s: "row_at db cid = Some r" by simp
    from fresh s row_at_cid [OF s] have "pr_cid r \<noteq> dg_cid a" by auto
    then have "filter (\<lambda>e. pe_child e = pr_cid r) (expected_edges a) = []"
      using expected_edges_child by (fastforce simp: filter_empty_conv)
    with store_okD(1) [OF ok s] grounded_session_mono [OF ext] show ?thesis by (simp add: row_good_def edges)
  next
    case None
    with r at have "r = row" by (simp split: if_splits)
    with model wire grounded own none edges show ?thesis by (simp add: row_good_def)
  qed
  moreover have "row_at db' cid \<noteq> None" if "row_at db cid \<noteq> None" for cid using that at by auto
  moreover have "row_at db' (dg_cid a) \<noteq> None" using at model by (simp split: option.split)
  moreover have "acyclic (edge_rel db')"
  proof -
    have "dg_cid a \<notin> Range (edge_rel db)" using store_okD(3) [OF ok] fresh by (fastforce simp: edge_rel_def)
    moreover have "dg_cid a \<notin> pe_parent ` set (expected_edges a)" using parents fresh by auto
    ultimately show ?thesis
      unfolding added_row_ext(3) [OF added] by (intro acyclic_new_source store_okD(4) [OF ok])
  qed
  moreover have "distinct (map pr_cid (pdb_delegations db'))"
    using store_okD(5) [OF ok] fresh model(2) by (auto simp: del row_at_def find_None_iff)
  ultimately show ?thesis
    using store_okD(2,3) [OF ok] parents expected_edges_child unfolding store_ok_def edges by auto
qed

end
