(* ===== verification/Policy_Sessions.thy ===== *)
theory Policy_Sessions
  imports Policy_History
begin

text \<open>
  What issuance and redelegation establish: a session attenuates the policy authority and the enforcement it
  was issued under, along any number of redelegations, and the invariant of the tables holds in every run.
\<close>

section \<open>Attenuation\<close>

lemma capability_set_contained_ok:
  "capability_set_contained K cs ps = Inr True \<longleftrightarrow>
     (\<exists>children parents. canonical_capabilities K cs = Inr children \<and> canonical_capabilities K ps = Inr parents \<and>
        (\<forall>c \<in> set children. \<exists>p \<in> set parents. policy_contains p c = Inr ()))"
  by (auto simp: capability_set_contained_def list_all_iff list_ex_iff is_ok_iff)

lemma capability_set_contained_trans:
  assumes "capability_set_contained K as bs = Inr True" and "capability_set_contained K bs cs = Inr True"
  shows "capability_set_contained K as cs = Inr True"
proof -
  from assms obtain a b c where caps: "canonical_capabilities K as = Inr a" "canonical_capabilities K bs = Inr b"
      "canonical_capabilities K cs = Inr c"
    and ab: "\<forall>x \<in> set a. \<exists>y \<in> set b. policy_contains y x = Inr ()"
    and bc: "\<forall>y \<in> set b. \<exists>z \<in> set c. policy_contains z y = Inr ()"
    unfolding capability_set_contained_ok by auto
  have "\<exists>z \<in> set c. policy_contains z x = Inr ()" if "x \<in> set a" for x
  proof -
    from ab that obtain y where y: "y \<in> set b" "policy_contains y x = Inr ()" by blast
    with bc obtain z where "z \<in> set c" "policy_contains z y = Inr ()" by blast
    with y policy_contains_trans show ?thesis by blast
  qed
  with caps show ?thesis unfolding capability_set_contained_ok by blast
qed

lemma foldr_min_le: "foldr min xs (m :: time) \<le> m" "x \<in> set xs \<Longrightarrow> foldr min xs m \<le> x"
  by (induction xs) (auto simp: min_le_iff_disj)

lemma depth_of_bound: "depth_of d = Inr m \<Longrightarrow> m \<le> 8"
  by (auto simp: depth_of_def split: bind_splits if_splits)

lemma validate_authority_pair_ok:
  assumes "validate_authority_pair K p e ps node = Inr u"
  shows "validate_wire_shape K p = Inr ()" and "validate_wire_shape K e = Inr ()"
    and "dg_role p = PolicyAuthority" and "dg_role e = PolicyEnforcement"
  using assms by (auto simp: validate_authority_pair_def)

lemma root_audit_fields:
  fixes K p e challenge r decision b node issuance owner policy_id policy_digest audience caps_hash
  defines "audit \<equiv> root_audit K p e challenge r decision b node issuance owner policy_id policy_digest audience caps_hash"
  shows "ia_session audit = dg_cid r" and "ia_challenge audit = ch_id challenge" and "ia_issuance audit = issuance"
    and "ia_digest_hex audit = recompute_digest_hex K audit"
  by (simp_all add: audit_def root_audit_def Let_def recompute_digest_hex_def audit_value_def)

lemma validate_root_facts:
  assumes "validate_root K p e ps challenge r binding decision b node = Inr audit"
  shows "validate_wire_shape K r = Inr () \<and> dg_role r = PolicySessionRoot \<and> dg_proofs r = [dg_cid p, dg_cid e] \<and>
    (\<exists>m. depth_of r = Inr m) \<and>
    capability_set_contained K (dg_capabilities r) (dg_capabilities p) = Inr True \<and>
    capability_set_contained K (dg_capabilities r) (dg_capabilities e) = Inr True \<and>
    (\<exists>ds de ps pe es ee. dg_starts K r = Inr ds \<and> dg_ends K r = Inr de \<and> dg_starts K p = Inr ps \<and> dg_ends K p = Inr pe \<and>
        dg_starts K e = Inr es \<and> dg_ends K e = Inr ee \<and> ps \<le> ds \<and> es \<le> ds \<and> ds < de \<and> de \<le> pe \<and> de \<le> ee) \<and>
    (\<forall>name \<in> set POLICY_FACTS. fact r name = fact p name \<and> is_ok (fact p name)) \<and>
    fact r ''policyDelegationCid'' = Inr (dg_cid p) \<and> fact r ''enforcementDelegationCid'' = Inr (dg_cid e) \<and>
    fact r ''enforcerDid'' = Inr (dg_audience e) \<and>
    ia_session audit = dg_cid r \<and> ia_challenge audit = ib_challenge b \<and> fact r ''issuanceId'' = Inr (ia_issuance audit) \<and>
    fact r ''issuanceAuditDigestHex'' = Inr (recompute_digest_hex K audit)"
proof -
  from assms obtain claims audience issuance caps_hash where parties: "root_parties K p e ps challenge r b node = Inr ()"
    and claims: "root_claims K p e r binding decision b node = Inr claims"
    and times: "root_times K p e ps challenge r decision b = Inr ()" and issuance: "fact r ''issuanceId'' = Inr issuance"
    and audit: "audit = root_audit K p e challenge r decision b node issuance (fst claims) (fst (snd claims)) (fst (snd (snd claims)))
        audience caps_hash"
      "fact r ''issuanceAuditDigestHex'' = Inr (ia_digest_hex audit)"
    by (auto simp: validate_root_def Let_def split: if_splits)
  from parties have 1: "validate_wire_shape K r = Inr () \<and> dg_role r = PolicySessionRoot \<and> dg_proofs r = [dg_cid p, dg_cid e] \<and>
      (\<exists>m. depth_of r = Inr m) \<and> fact r ''enforcerDid'' = Inr (dg_audience e) \<and> ch_id challenge = ib_challenge b"
    by (auto simp: root_parties_def validate_challenge_def split: if_splits)
  from claims have 2: "capability_set_contained K (dg_capabilities r) (dg_capabilities p) = Inr True \<and>
      capability_set_contained K (dg_capabilities r) (dg_capabilities e) = Inr True \<and>
      (\<forall>name \<in> set POLICY_FACTS. fact r name = fact p name \<and> is_ok (fact p name)) \<and>
      fact r ''policyDelegationCid'' = Inr (dg_cid p) \<and> fact r ''enforcementDelegationCid'' = Inr (dg_cid e)"
    by (auto simp: root_claims_def POLICY_FACTS_def try_all_ok is_ok_iff simp del: try_all.simps split: if_splits)
  from times have 3: "\<exists>ds de ps pe es ee. dg_starts K r = Inr ds \<and> dg_ends K r = Inr de \<and> dg_starts K p = Inr ps \<and>
      dg_ends K p = Inr pe \<and> dg_starts K e = Inr es \<and> dg_ends K e = Inr ee \<and> ps \<le> ds \<and> es \<le> ds \<and> ds < de \<and> de \<le> pe \<and> de \<le> ee"
  proof -
    from times obtain ds de pe ee ttl_end where t: "dg_starts K r = Inr ds" "dg_ends K r = Inr de" "dg_ends K p = Inr pe" "dg_ends K e = Inr ee"
      and start: "rbind (dg_starts K p) (\<lambda>t. Inr (ds < t)) = Inr False" "rbind (dg_starts K e) (\<lambda>t. Inr (ds < t)) = Inr False"
      and bound: "\<not> de > foldr min [pe, ee, vp_expires ps, ch_expires challenge, ib_claim_expires b, td_valid_until decision] ttl_end"
        "\<not> ds \<ge> de"
      unfolding root_times_def Let_def rbind_eq_Inr reject_ok list.set ball_simps Inr_inject by blast
    from bound(1) foldr_min_le(2) [of pe "[pe, ee, vp_expires ps, ch_expires challenge, ib_claim_expires b, td_valid_until decision]" ttl_end]
      foldr_min_le(2) [of ee "[pe, ee, vp_expires ps, ch_expires challenge, ib_claim_expires b, td_valid_until decision]" ttl_end]
    have "de \<le> pe" "de \<le> ee" by (simp_all del: foldr.simps)
    with t start bound(2) show ?thesis by (auto simp: not_less not_le)
  qed
  from 1 2 3 audit issuance show ?thesis by (simp add: root_audit_fields)
qed

lemma validate_root_audit:
  assumes "validate_root K p e ps challenge r binding decision b node = Inr audit"
  shows "ia_session audit = dg_cid r \<and> fact r ''issuanceAuditDigestHex'' = Inr (recompute_digest_hex K audit)"
  using assms by (auto simp: validate_root_def Let_def root_audit_fields split: if_splits prod.splits)

lemma root_within:
  assumes "validate_root K p e ps challenge r binding decision b node = Inr audit"
    and "validate_authority_pair K p e state node = Inr u"
  shows "session_within K r p e"
  using validate_root_facts [OF assms(1)] validate_authority_pair_ok [OF assms(2)] unfolding session_within_def by blast

lemma kept_fact:
  assumes "try_all (\<lambda>(key, value).
      if key \<notin> set (map (\<lambda>name. POLICY_PREFIX @ name) MUTABLE_FACTS) \<and> map_of (dg_facts child) key \<noteq> Some value
      then Inl DescendantAuthorityRootsMismatch else Inr ()) (dg_facts parent) = Inr u"
    and "name \<notin> set MUTABLE_FACTS" and "fact parent name = Inr v"
  shows "fact child name = Inr v"
proof -
  from assms(3) have "(POLICY_PREFIX @ name, v) \<in> set (dg_facts parent)" by (auto simp: fact_def dest: map_of_SomeD)
  with assms(1,2) show ?thesis by (fastforce simp: try_all_ok fact_def split: if_splits)
qed

lemma validate_descendant_facts:
  assumes "validate_descendant K child parent r = Inr u"
  shows "validate_wire_shape K child = Inr () \<and> dg_role child = PolicySessionDescendant \<and> dg_proofs child = [dg_cid parent] \<and>
    is_session parent \<and> capability_set_contained K (dg_capabilities child) (dg_capabilities parent) = Inr True \<and>
    (\<exists>cs ce ps pe. dg_starts K child = Inr cs \<and> dg_ends K child = Inr ce \<and> dg_starts K parent = Inr ps \<and> dg_ends K parent = Inr pe \<and>
       ps < cs \<and> ce < pe \<and> cs < ce) \<and>
    (\<exists>m. depth_of child = Inr m \<and> depth_of parent = Inr (m + 1)) \<and>
    (\<forall>name v. name \<notin> set MUTABLE_FACTS \<longrightarrow> fact parent name = Inr v \<longrightarrow> fact child name = Inr v)"
proof -
  from assms obtain pd cd where 1: "validate_wire_shape K child = Inr ()" "dg_role child = PolicySessionDescendant"
      "dg_proofs child = [dg_cid parent]" "dg_role parent = PolicySessionRoot \<or> dg_role parent = PolicySessionDescendant"
    and facts: "try_all (\<lambda>(key, value).
      if key \<notin> set (map (\<lambda>name. POLICY_PREFIX @ name) MUTABLE_FACTS) \<and> map_of (dg_facts child) key \<noteq> Some value
      then Inl DescendantAuthorityRootsMismatch else Inr ()) (dg_facts parent) = Inr ()"
    and depth: "depth_of parent = Inr pd" "depth_of child = Inr cd" "cd + 1 = pd"
    and caps: "rbind (capability_set_contained K (dg_capabilities child) (dg_capabilities parent)) (\<lambda>ok. Inr (\<not> ok)) = Inr False"
    and times: "rbind (dg_starts K child) (\<lambda>a. rbind (dg_starts K parent) (\<lambda>b. Inr (a \<le> b))) = Inr False"
        "rbind (dg_ends K child) (\<lambda>a. rbind (dg_ends K parent) (\<lambda>b. Inr (a \<ge> b))) = Inr False"
        "rbind (dg_starts K child) (\<lambda>a. rbind (dg_ends K child) (\<lambda>b. Inr (a \<ge> b))) = Inr False"
    unfolding validate_descendant_def by (auto simp del: try_all.simps split: if_splits)
  from kept_fact [OF facts] have "\<forall>name v. name \<notin> set MUTABLE_FACTS \<longrightarrow> fact parent name = Inr v \<longrightarrow> fact child name = Inr v" by blast
  with 1 depth caps times show ?thesis by (auto simp: is_session_def)
qed

lemma descendant_within:
  assumes "validate_descendant K child parent r = Inr u" and "session_within K parent p e"
  shows "session_within K child p e"
proof -
  note child = validate_descendant_facts [OF assms(1)]
  have "\<forall>name \<in> set (POLICY_FACTS @ [''policyDelegationCid'', ''enforcementDelegationCid'', ''enforcerDid'']). name \<notin> set MUTABLE_FACTS"
    by (simp add: POLICY_FACTS_def MUTABLE_FACTS_def)
  with child have keep: "fact parent name = Inr v \<Longrightarrow> fact child name = Inr v"
    if "name \<in> set (POLICY_FACTS @ [''policyDelegationCid'', ''enforcementDelegationCid'', ''enforcerDid''])" for name v
    using that by blast
  from assms(2) have facts: "fact child name = fact p name \<and> is_ok (fact p name)" if "name \<in> set POLICY_FACTS" for name
    using that keep [of name] unfolding session_within_def is_ok_iff by fastforce
  have "fact child ''policyDelegationCid'' = Inr (dg_cid p)" "fact child ''enforcementDelegationCid'' = Inr (dg_cid e)"
      "fact child ''enforcerDid'' = Inr (dg_audience e)"
    using assms(2) keep unfolding session_within_def by simp_all
  moreover have "capability_set_contained K (dg_capabilities child) (dg_capabilities p) = Inr True"
      "capability_set_contained K (dg_capabilities child) (dg_capabilities e) = Inr True"
    using child assms(2) capability_set_contained_trans unfolding session_within_def by blast+
  moreover have "\<exists>ds de ps pe es ee. dg_starts K child = Inr ds \<and> dg_ends K child = Inr de \<and> dg_starts K p = Inr ps \<and> dg_ends K p = Inr pe \<and>
        dg_starts K e = Inr es \<and> dg_ends K e = Inr ee \<and> ps \<le> ds \<and> es \<le> ds \<and> ds < de \<and> de \<le> pe \<and> de \<le> ee"
    using child assms(2) unfolding session_within_def by fastforce
  moreover have "dg_role child \<noteq> PolicySessionRoot" using child by simp
  ultimately show ?thesis using facts assms(2) unfolding session_within_def by blast
qed

section \<open>What is written\<close>

lemma challenge_at_consume:
  assumes "pdb_challenges db' = map (\<lambda>r. if m r then r\<lparr>pk_consumed_at := Some t\<rparr> else r) (pdb_challenges db)"
  shows "challenge_at db' cid = map_option (\<lambda>r. if m r then r\<lparr>pk_consumed_at := Some t\<rparr> else r) (challenge_at db cid)"
proof -
  have "find (\<lambda>r. pk_id r = cid) (map (\<lambda>r. if m r then r\<lparr>pk_consumed_at := Some t\<rparr> else r) cs) =
      map_option (\<lambda>r. if m r then r\<lparr>pk_consumed_at := Some t\<rparr> else r) (find (\<lambda>r. pk_id r = cid) cs)" for cs
    by (induction cs) auto
  then show ?thesis by (simp add: challenge_at_def assms)
qed

lemma insert_edge_ok [simp]:
  "insert_edge e db = Inr db' \<longleftrightarrow>
     \<not> list_ex (\<lambda>r. pe_child r = pe_child e \<and> pe_position r = pe_position e) (pdb_edges db) \<and>
     row_at db (pe_child e) \<noteq> None \<and> row_at db (pe_parent e) \<noteq> None \<and> db' = db\<lparr>pdb_edges := pdb_edges db @ [e]\<rparr>"
  by (auto simp: insert_edge_def)

lemma insert_audit_row_ok [simp]:
  "insert_audit_row row db = Inr db' \<longleftrightarrow>
     \<not> list_ex (\<lambda>r. pa_issuance r = pa_issuance row \<or> pa_session r = pa_session row) (pdb_audits db) \<and>
     row_at db (pa_session row) \<noteq> None \<and> db' = db\<lparr>pdb_audits := pdb_audits db @ [row]\<rparr>"
  by (auto simp: insert_audit_row_def)

text \<open>The audit row of a session root.\<close>

definition audit_row_of :: "IssuanceAudit \<Rightarrow> policy_audit_row" where
  "audit_row_of audit = \<lparr>pa_issuance = ia_issuance audit, pa_session = ia_session audit, pa_audit = audit\<rparr>"

lemma persist_root_ok:
  assumes "persist_root_in_transaction K a audit chid t db = Inr db'"
    and a: "dg_proofs a = [cp, ce]" "dg_role a = PolicySessionRoot"
  shows "added_row K a (initial_status t) db db' \<and> live K db cp t \<and> live K db ce t \<and>
    pdb_audits db' = pdb_audits db @ [audit_row_of audit] \<and>
    \<not> list_ex (\<lambda>r. pa_issuance r = ia_issuance audit \<or> pa_session r = ia_session audit) (pdb_audits db) \<and>
    (\<exists>c. challenge_at db chid = Some c \<and> pk_consumed_at c = None) \<and>
    (\<exists>c. challenge_at db' chid = Some c \<and> pk_consumed_at c \<noteq> None)"
proof -
  let ?m = "\<lambda>r. pk_id r = chid \<and> pk_consumed_at r = None"
  from assms(1) obtain crow consumed row db3 where
      live: "\<forall>cid \<in> {cp, ce}. is_ok (rbind (ensure_live_on K db cid t False) (\<lambda>_. Inr ()))"
    and crow: "challenge_at db chid = Some crow" "pk_consumed_at crow = None"
    and row: "artifact_model K a (initial_status t) = Inr row" "row_at db (pr_cid row) = None"
    and db3: "db3 = db\<lparr>pdb_challenges := map (\<lambda>r. if ?m r then r\<lparr>pk_consumed_at := Some consumed\<rparr> else r) (pdb_challenges db),
        pdb_delegations := pdb_delegations db @ [row], pdb_audits := pdb_audits db @ [audit_row_of audit]\<rparr>"
    and audits: "\<not> list_ex (\<lambda>r. pa_issuance r = ia_issuance audit \<or> pa_session r = ia_session audit) (pdb_audits db)"
    and edges: "try_fold (\<lambda>db n. insert_edge (authority_edge a n) db) db3 [0, Suc 0] = Inr db'"
    by (auto simp: persist_root_in_transaction_def Let_def consume_challenge_def a try_all_ok challenge_at_def [symmetric]
        row_at_def audit_row_of_def simp del: try_fold.simps split: if_splits)
  from live have l: "live K db cp t" "live K db ce t" by (auto simp: is_ok_iff ensure_live_on_ok)
  then have parents: "row_at db cp \<noteq> None" "row_at db ce \<noteq> None" by (auto simp: live_def)
  have es: "expected_edges a = [authority_edge a 0, authority_edge a 1]" by (simp add: expected_edges_def a)
  from edges have db': "db' = db3\<lparr>pdb_edges := pdb_edges db3 @ expected_edges a\<rparr>"
    by (auto simp: es split: sum.splits)
  have chal: "challenge_at db' cid = map_option (\<lambda>r. if ?m r then r\<lparr>pk_consumed_at := Some consumed\<rparr> else r) (challenge_at db cid)" for cid
    by (rule challenge_at_consume) (simp add: db' db3)
  have id: "pk_id crow = chid" using crow(1) unfolding challenge_at_def by (auto dest: find_SomeD)
  have "added_row K a (initial_status t) db db'"
    unfolding added_row_def
  proof (intro conjI allI impI)
    show "row_at db (dg_cid a) = None" using row artifact_model_ok(2) by metis
    show "\<exists>row. artifact_model K a (initial_status t) = Inr row \<and> pdb_delegations db' = pdb_delegations db @ [row]"
      using row by (simp add: db' db3)
    show "pdb_edges db' = pdb_edges db @ expected_edges a" by (simp add: db' db3)
    show "\<forall>e \<in> set (expected_edges a). row_at db (pe_parent e) \<noteq> None" using parents by (simp add: es authority_edge_def a)
    show "\<exists>c'. challenge_at db' cid = Some c' \<and> pk_consumed_at c' \<noteq> None"
      if "challenge_at db cid = Some c" "pk_consumed_at c \<noteq> None" for cid c using that chal by auto
    show "set (pdb_audits db) \<subseteq> set (pdb_audits db')" by (auto simp: db' db3)
  qed
  moreover have "challenge_at db' chid = Some (crow\<lparr>pk_consumed_at := Some consumed\<rparr>)" using chal crow id by simp
  moreover have "pdb_audits db' = pdb_audits db @ [audit_row_of audit]" by (simp add: db' db3)
  ultimately show ?thesis using l audits crow by auto
qed

lemma persist_descendant_atomic_ok:
  assumes "persist_descendant_atomic K a t ancestry db = Inr db'"
    and a: "dg_proofs a = [cp]" "dg_role a = PolicySessionDescendant"
  shows "added_row K a (initial_status t) db db' \<and> (\<forall>x. (cp, x) \<in> (edge_rel db)\<^sup>* \<longrightarrow> live K db x t) \<and>
    pdb_audits db' = pdb_audits db \<and> pdb_challenges db' = pdb_challenges db"
proof -
  let ?f = "\<lambda>cid. rbind (authority_row db cid) (\<lambda>row. rbind (ensure_live_model K row t (cid \<noteq> cp)) (\<lambda>verified. Inr (cid, verified)))"
  from assms(1) obtain locked row where locked: "try_map ?f (dedup (sort ancestry)) = Inr locked"
    and walk: "validate_locked_ancestry db cp locked = Inr ()"
    and row: "artifact_model K a (initial_status t) = Inr row" "row_at db (pr_cid row) = None"
    and db': "db' = db\<lparr>pdb_delegations := pdb_delegations db @ [row], pdb_edges := pdb_edges db @ [immediate_edge a]\<rparr>"
    unfolding persist_descendant_atomic_def by (auto simp: Let_def a)
  have live: "live K db x t" if "(cp, x) \<in> (edge_rel db)\<^sup>*" for x
  proof -
    from locked_ancestry_known [OF walk that] obtain v where v: "(x, v) \<in> set locked" by auto
    from try_map_Inr_set [OF locked v] show ?thesis by (auto simp: ensure_live_model_ok live_def)
  qed
  then have "row_at db cp \<noteq> None" by (auto simp: live_def dest: live)
  then have "added_row K a (initial_status t) db db'"
    using row artifact_model_ok(2) [OF row(1)]
    by (auto simp: added_row_def expected_edges_def a db' immediate_edge_def challenge_at_def)
  with live show ?thesis by (auto simp: db')
qed

section \<open>Every step\<close>

text \<open>
  A step keeps the invariant and what was there, and adds edges at most from a new vertex to vertices all of
  whose ancestors are live.
\<close>

definition grows :: "kernel_ext \<Rightarrow> policy_db \<Rightarrow> policy_db \<Rightarrow> bool" where
  "grows K db db' \<longleftrightarrow>
     db_ext db db' \<and> store_ok K db' \<and>
     (edge_rel db' = edge_rel db \<or>
      (\<exists>c P. row_at db c = None \<and> edge_rel db' = edge_rel db \<union> {c} \<times> P \<and>
         (\<forall>p \<in> P. \<forall>x. (p, x) \<in> (edge_rel db)\<^sup>* \<longrightarrow> (\<exists>t. live K db x t))))"

definition kept :: "kernel_ext \<Rightarrow> policy_db \<Rightarrow> policy_db \<Rightarrow> bool" where
  "kept K db db' \<longleftrightarrow>
     db_ext db db' \<and> store_ok K db' \<and>
     (\<forall>cid r x. row_at db cid = Some r \<longrightarrow> pr_revoked_at r \<noteq> None \<longrightarrow> (x, cid) \<in> (edge_rel db')\<^sup>* \<longrightarrow> (x, cid) \<in> (edge_rel db)\<^sup>*)"

lemma db_ext_revoked:
  assumes "db_ext db db'" and "row_at db cid = Some r" and "pr_revoked_at r \<noteq> None"
  shows "\<exists>r'. row_at db' cid = Some r' \<and> pr_revoked_at r' \<noteq> None"
  using db_extD(1) [OF assms(1,2)] assms(3) by (auto simp: row_ext_def)

lemma kept_trans:
  assumes "kept K a b" and "kept K b c"
  shows "kept K a c"
proof -
  from assms have ext: "db_ext a b" "db_ext b c" by (auto simp: kept_def)
  have "(x, cid) \<in> (edge_rel a)\<^sup>*" if r: "row_at a cid = Some r" "pr_revoked_at r \<noteq> None" and x: "(x, cid) \<in> (edge_rel c)\<^sup>*" for cid r x
  proof -
    from db_ext_revoked [OF ext(1) r] obtain r' where "row_at b cid = Some r'" "pr_revoked_at r' \<noteq> None" by blast
    with x assms(2) have "(x, cid) \<in> (edge_rel b)\<^sup>*" unfolding kept_def by blast
    with r assms(1) show ?thesis unfolding kept_def by blast
  qed
  with db_ext_trans [OF ext] assms(2) show ?thesis unfolding kept_def by blast
qed

lemma kept_refl: "store_ok K db \<Longrightarrow> kept K db db"
  by (simp add: kept_def)

lemma path_new_source:
  assumes "(x, y) \<in> (R \<union> {c} \<times> P)\<^sup>*" and "c \<notin> Range R" and "c \<notin> P"
  shows "(x, y) \<in> R\<^sup>* \<or> x = c \<and> (\<exists>p \<in> P. (p, y) \<in> R\<^sup>*)"
  using assms(1)
proof (induction rule: rtrancl_induct)
  case (step y z)
  from step(3) show ?case
  proof
    assume "(x, y) \<in> R\<^sup>*"
    show ?thesis
    proof (cases "(y, z) \<in> R")
      case False
      with step(2) have yz: "y = c" "z \<in> P" by auto
      with \<open>(x, y) \<in> R\<^sup>*\<close> assms(2) have "x = c" by (metis RangeI rtranclE)
      with yz show ?thesis by blast
    qed (use \<open>(x, y) \<in> R\<^sup>*\<close> in \<open>auto intro: rtrancl_into_rtrancl\<close>)
  next
    assume x: "x = c \<and> (\<exists>p \<in> P. (p, y) \<in> R\<^sup>*)"
    then obtain p where p: "p \<in> P" "(p, y) \<in> R\<^sup>*" by blast
    with assms(2,3) have "y \<noteq> c" by (metis RangeI rtranclE)
    with step(2) have "(y, z) \<in> R" by auto
    with p x show ?thesis by (auto intro: rtrancl_into_rtrancl)
  qed
qed simp

lemma grows_kept:
  assumes ok: "store_ok K db" and grows: "grows K db db'"
  shows "kept K db db'"
proof -
  have "(x, cid) \<in> (edge_rel db)\<^sup>*" if r: "row_at db cid = Some r" "pr_revoked_at r \<noteq> None" and x: "(x, cid) \<in> (edge_rel db')\<^sup>*" for cid r x
  proof (cases "edge_rel db' = edge_rel db")
    case False
    with grows obtain c P where fresh: "row_at db c = None" and edges: "edge_rel db' = edge_rel db \<union> {c} \<times> P"
      and live: "\<forall>p \<in> P. \<forall>x. (p, x) \<in> (edge_rel db)\<^sup>* \<longrightarrow> (\<exists>t. live K db x t)" unfolding grows_def by blast
    have "c \<notin> Range (edge_rel db)" using store_okD(3) [OF ok] fresh by (fastforce simp: edge_rel_def)
    moreover have "c \<notin> P" using live fresh by (fastforce simp: live_def)
    moreover have "(p, cid) \<notin> (edge_rel db)\<^sup>*" if "p \<in> P" for p
    proof
      assume "(p, cid) \<in> (edge_rel db)\<^sup>*"
      with live that obtain t where "live K db cid t" by blast
      from live_not_revoked [OF this r(1)] r(2) show False by simp
    qed
    ultimately show ?thesis using path_new_source [of x cid "edge_rel db" c P] x edges by auto
  qed (use x in simp)
  with grows show ?thesis unfolding grows_def kept_def by blast
qed

lemma same_edges_grow: "db_ext db db' \<Longrightarrow> store_ok K db' \<Longrightarrow> pdb_edges db' = pdb_edges db \<Longrightarrow> grows K db db'"
  by (simp add: grows_def edge_rel_def)

lemma new_source_grows:
  assumes "db_ext db db'" and "store_ok K db'" and "row_at db c = None" and "edge_rel db' = edge_rel db \<union> {c} \<times> P"
    and "\<And>p x. p \<in> P \<Longrightarrow> (p, x) \<in> (edge_rel db)\<^sup>* \<Longrightarrow> live K db x t"
  shows "grows K db db'"
  using assms unfolding grows_def by blast

lemma authority_leaf:
  assumes ok: "store_ok K db" and a: "artifact_on K db cid = Inr a" and role: "\<not> is_session a"
  shows "(cid, x) \<in> (edge_rel db)\<^sup>* \<longleftrightarrow> x = cid"
proof -
  from a obtain r where r: "row_at db cid = Some r" "artifact_from_model K r = Inr a" by auto
  then have "pr_artifact r = a" "pr_cid r = cid" using row_at_cid by (auto simp: artifact_from_model_ok)
  with store_okD(1) [OF ok r(1)] role have "filter (\<lambda>e. pe_child e = cid) (pdb_edges db) = []"
    by (cases "dg_role a") (auto simp: row_good_def expected_edges_def is_session_def)
  then have "edge_rel db `` {cid} = {}" by (auto simp: edge_rel_def filter_empty_conv)
  then show ?thesis by (metis Image_singleton_iff converse_rtranclE empty_iff rtrancl.rtrancl_refl)
qed

lemma issue_grows:
  assumes ok: "store_ok K db" and stored: "artifact_on K db (dg_cid p) = Inr p" "artifact_on K db (dg_cid e) = Inr e"
    and pair: "validate_authority_pair K p e ps node = Inr ()"
    and root: "validate_root K p e ps challenge r binding decision b node = Inr audit"
    and persist: "persist_root_in_transaction K r audit chid t db = Inr db'"
  shows "grows K db db'"
proof -
  note facts = validate_root_facts [OF root]
  then have r: "dg_proofs r = [dg_cid p, dg_cid e]" "dg_role r = PolicySessionRoot" "validate_wire_shape K r = Inr ()" by auto
  note persisted = persist_root_ok [OF persist r(1,2)]
  then have added: "added_row K r (initial_status t) db db'" by blast
  note ext = added_row_ext(1) [OF added] and own = added_row_ext(2) [OF added r(3)]
  have parents: "pe_parent ` set (expected_edges r) = {dg_cid p, dg_cid e}"
    by (simp add: expected_edges_def r authority_edge_def)
  note edges = added_row_ext(3) [OF added, unfolded parents]
  from facts obtain m where m: "depth_of r = Inr m" by blast
  have "grounded_session K db' r"
    unfolding grounded_session_def
  proof (intro conjI exI)
    show "artifact_on K db' (dg_cid p) = Inr p" "artifact_on K db' (dg_cid e) = Inr e" by (rule db_ext_artifact [OF ext]; fact stored)+
    show "session_within K r p e" by (rule root_within [OF root pair])
    show "(dg_cid r, dg_cid p) \<in> (edge_rel db')\<^sup>+" "(dg_cid r, dg_cid e) \<in> (edge_rel db')\<^sup>+" by (auto simp: edges)
    show "(dg_cid r, dg_cid r) \<in> edge_rel db' ^^ 0" by simp
    show "artifact_on K db' (dg_cid r) = Inr r" by (rule own)
    show "m + int 0 \<le> 8" using depth_of_bound [OF m] by simp
  qed (use r m in auto)
  with added_row_ok [OF ok added r(3)] have "store_ok K db'" by blast
  moreover have "row_at db (dg_cid r) = None" using added by (simp add: added_row_def)
  moreover have "live K db x t" if "q \<in> {dg_cid p, dg_cid e}" and x: "(q, x) \<in> (edge_rel db)\<^sup>*" for q x
  proof -
    have "\<not> is_session p" "\<not> is_session e" using validate_authority_pair_ok [OF pair] by (auto simp: is_session_def)
    with that authority_leaf [OF ok stored(1)] authority_leaf [OF ok stored(2)] have "x = q" by auto
    with that persisted show ?thesis by auto
  qed
  ultimately show ?thesis using ext edges by (intro new_source_grows)
qed

lemma descend_grows:
  assumes ok: "store_ok K db" and seen: "store_ok K seen" and ext: "db_ext seen db"
    and persist: "persist_descendant K d now seen db = Inr db'"
  shows "grows K db db'"
proof -
  from persist obtain cp ancestry parent r where cp: "artifact_on K seen cp = Inr parent"
    and valid: "validate_descendant K d parent r = Inr ()" and proofs: "\<exists>cs. dg_proofs d = cp # cs"
    and atomic: "persist_descendant_atomic K d now ancestry db = Inr db'"
    unfolding persist_descendant_def by (auto split: if_splits list.splits simp del: artifact_on_ok)
  note facts = validate_descendant_facts [OF valid]
  then have d: "dg_proofs d = [dg_cid parent]" "dg_role d = PolicySessionDescendant" "validate_wire_shape K d = Inr ()"
    and session: "is_session parent" by auto
  from proofs d have cid: "cp = dg_cid parent" by simp
  note persisted = persist_descendant_atomic_ok [OF atomic d(1,2)]
  then have added: "added_row K d (initial_status now) db db'" by blast
  note ext' = added_row_ext(1) [OF added] and own = added_row_ext(2) [OF added d(3)]
  have parents: "pe_parent ` set (expected_edges d) = {dg_cid parent}" by (simp add: expected_edges_def d immediate_edge_def)
  note edges = added_row_ext(3) [OF added, unfolded parents]
  from cp obtain row where row: "row_at seen cp = Some row" "artifact_from_model K row = Inr parent" by auto
  then have "pr_artifact row = parent" by (simp add: artifact_from_model_ok)
  with store_okD(1) [OF seen row(1)] session have "grounded_session K seen parent" by (simp add: row_good_def)
  then have "grounded_session K db' parent" by (rule grounded_session_mono [OF db_ext_trans [OF ext ext']])
  then obtain p e n r0 m where g: "artifact_on K db' (dg_cid p) = Inr p" "artifact_on K db' (dg_cid e) = Inr e"
      "session_within K parent p e" "(dg_cid parent, dg_cid p) \<in> (edge_rel db')\<^sup>+" "(dg_cid parent, dg_cid e) \<in> (edge_rel db')\<^sup>+"
    and chain: "(dg_cid parent, dg_cid r0) \<in> edge_rel db' ^^ n" "artifact_on K db' (dg_cid r0) = Inr r0"
      "dg_role r0 = PolicySessionRoot" "depth_of parent = Inr m" "m + int n \<le> 8"
    unfolding grounded_session_def by blast
  have link: "(dg_cid d, dg_cid parent) \<in> edge_rel db'" by (simp add: edges)
  from facts chain(4) obtain k where k: "depth_of d = Inr k" "m = k + 1" by auto
  have "grounded_session K db' d"
    unfolding grounded_session_def
  proof (intro conjI exI)
    show "artifact_on K db' (dg_cid p) = Inr p" "artifact_on K db' (dg_cid e) = Inr e" by (fact g)+
    show "session_within K d p e" by (rule descendant_within [OF valid g(3)])
    show "(dg_cid d, dg_cid p) \<in> (edge_rel db')\<^sup>+" "(dg_cid d, dg_cid e) \<in> (edge_rel db')\<^sup>+"
      using link g(4,5) by (auto intro: trancl_into_trancl2)
    show "(dg_cid d, dg_cid r0) \<in> edge_rel db' ^^ (Suc n)" using link chain(1) by (rule relpow_Suc_I2)
    show "artifact_on K db' (dg_cid r0) = Inr r0" "dg_role r0 = PolicySessionRoot" by (fact chain)+
    show "depth_of d = Inr k" by (fact k)
    show "k + int (Suc n) \<le> 8" using chain(5) k by simp
  qed
  with added_row_ok [OF ok added d(3)] have "store_ok K db'" by blast
  moreover have "row_at db (dg_cid d) = None" using added by (simp add: added_row_def)
  moreover have "live K db x now" if "q \<in> {dg_cid parent}" "(q, x) \<in> (edge_rel db)\<^sup>*" for q x
    using that persisted by simp
  ultimately show ?thesis using ext' edges by (intro new_source_grows)
qed

section \<open>Every run\<close>

lemma admit_grows:
  assumes ok: "store_ok K db" and wire: "validate_wire_shape K a = Inr ()" and role: "\<not> is_session a"
    and admit: "admit_verified_authority_in_transaction K a observation now db = Inr db'"
  shows "grows K db db'"
proof (cases "row_at db (dg_cid a)")
  case (Some r)
  with admit have "apply_status_in_transaction K (dg_cid a) observation now db = Inr db'"
    by (auto simp: admit_verified_authority_in_transaction_def row_at_def split: if_splits)
  from apply_status_changes [OF this] ok show ?thesis by (blast intro: same_edges_grow)
next
  case None
  with admit obtain row where row: "artifact_model K a observation = Inr row" "insert_delegation row db = Inr db'"
    by (auto simp: admit_verified_authority_in_transaction_def row_at_def [symmetric] split: if_splits)
  from role have none: "expected_edges a = []" by (cases "dg_role a") (auto simp: expected_edges_def is_session_def)
  from row have added: "added_row K a observation db db'"
    using artifact_model_ok(2) [OF row(1)] by (auto simp: added_row_def none challenge_at_def)
  from added_row_ok [OF ok added wire] role have "store_ok K db'" by blast
  with added_row_ext(1,3) [OF added] show ?thesis by (simp add: grows_def none)
qed

lemma challenge_grows:
  assumes ok: "store_ok K db" and "insert_challenge K c db = Inr db' \<or> insert_challenge_in_transaction K c db = Inr db'"
  shows "grows K db db'"
proof -
  from assms(2) obtain row where db': "db' = db\<lparr>pdb_challenges := pdb_challenges db @ [row]\<rparr>"
    by (auto simp: insert_challenge_def insert_challenge_in_transaction_def insert_challenge_row_def split: if_splits)
  have rows: "row_at db' cid = row_at db cid" for cid by (simp add: db' row_at_def)
  have edges: "edge_rel db' = edge_rel db" by (simp add: db' edge_rel_def)
  have "challenge_at db cid = Some c \<Longrightarrow> challenge_at db' cid = Some c" for cid c
    by (simp add: db' challenge_at_def find_append)
  moreover have "pdb_edges db' = pdb_edges db" "pdb_audits db' = pdb_audits db" by (simp_all add: db')
  ultimately have ext: "db_ext db db'" unfolding db_ext_def rows by (auto intro: row_ext_refl)
  have "row_good K db' r" if "row_good K db r" for r
    using that grounded_session_mono [OF ext] by (simp add: row_good_def db')
  then have "store_ok K db'" using ok edges unfolding store_ok_def rows by (simp add: db')
  with ext edges show ?thesis by (simp add: grows_def)
qed

lemma issue_root_in_transaction_parts:
  assumes "issue_root_in_transaction K node p e ps r binding decision b db = Inr db'"
  shows "validate_authority_pair K p e ps node = Inr () \<and>
    (\<exists>challenge audit. validate_root K p e ps challenge r binding decision b node = Inr audit \<and>
       persist_root_in_transaction K r audit (ib_challenge b) (ib_now b) db = Inr db')"
  using assms by (auto simp: issue_root_in_transaction_def split: if_splits)

lemma issue_root_parts:
  assumes "issue_root K node p e ps r binding decision b seen db = Inr db'"
  shows "validate_authority_pair K p e ps node = Inr () \<and>
    (\<exists>challenge audit. validate_root K p e ps challenge r binding decision b node = Inr audit \<and>
       persist_root_in_transaction K r audit (ib_challenge b) (ib_now b) db = Inr db')"
  using assms by (auto simp: issue_root_def split: if_splits)

theorem evolves_kept: "evolves K db0 db \<Longrightarrow> store_ok K db0 \<Longrightarrow> kept K db0 db"
proof (induction rule: evolves.induct)
  case (evolves_refl db)
  then show ?case by (rule kept_refl)
next
  case (evolves_admit db0 db policy enforcement ps enforcer a observation now db')
  then have kept: "kept K db0 db" by blast
  then have ok: "store_ok K db" by (simp add: kept_def)
  have "validate_wire_shape K a = Inr ()" "\<not> is_session a"
    using validate_authority_pair_ok [OF evolves_admit(2)] evolves_admit(3) by (auto simp: is_session_def)
  from kept_trans [OF kept grows_kept [OF ok admit_grows [OF ok this evolves_admit(4)]]] show ?case .
next
  case (evolves_apply db0 db cid observation now db')
  then have kept: "kept K db0 db" by blast
  then have ok: "store_ok K db" by (simp add: kept_def)
  from apply_status_changes [OF evolves_apply(2)] ok have "grows K db db'" by (blast intro: same_edges_grow)
  from kept_trans [OF kept grows_kept [OF ok this]] show ?case .
next
  case (evolves_status attempts db0 cid status db')
  from set_status_changes [OF evolves_status(2)] obtain x where x: "x \<in> set attempts" "db_ext (snd (snd x)) db'"
    "pdb_edges db' = pdb_edges (snd (snd x))" "store_ok K (snd (snd x)) \<longrightarrow> store_ok K db'" by blast
  with evolves_status have kept: "kept K db0 (snd (snd x))" by blast
  then have ok: "store_ok K (snd (snd x))" by (simp add: kept_def)
  with x have "grows K (snd (snd x)) db'" by (blast intro: same_edges_grow)
  from kept_trans [OF kept grows_kept [OF ok this]] show ?case .
next
  case (evolves_challenge db0 db c db')
  then have kept: "kept K db0 db" by blast
  then have ok: "store_ok K db" by (simp add: kept_def)
  from kept_trans [OF kept grows_kept [OF ok challenge_grows [OF ok evolves_challenge(2)]]] show ?case .
next
  case (evolves_issue_in_transaction db0 db policy enforcement node ps session_root binding decision b db')
  then have kept: "kept K db0 db" by blast
  then have ok: "store_ok K db" by (simp add: kept_def)
  from issue_root_in_transaction_parts [OF evolves_issue_in_transaction(4)] obtain challenge audit where
      pair: "validate_authority_pair K policy enforcement ps node = Inr ()"
    and r: "validate_root K policy enforcement ps challenge session_root binding decision b node = Inr audit"
      "persist_root_in_transaction K session_root audit (ib_challenge b) (ib_now b) db = Inr db'" by blast
  from issue_grows [OF ok evolves_issue_in_transaction(2,3) pair r] have "grows K db db'" .
  from kept_trans [OF kept grows_kept [OF ok this]] show ?case .
next
  case (evolves_issue db0 seen db policy enforcement node ps session_root binding decision b db')
  then have seen: "kept K db0 seen" by blast
  then have "store_ok K seen" by (simp add: kept_def)
  with evolves_issue have kept: "kept K seen db" by blast
  then have ok: "store_ok K db" and ext: "db_ext seen db" by (simp_all add: kept_def)
  from issue_root_parts [OF evolves_issue(5)] obtain challenge audit where
      pair: "validate_authority_pair K policy enforcement ps node = Inr ()"
    and r: "validate_root K policy enforcement ps challenge session_root binding decision b node = Inr audit"
      "persist_root_in_transaction K session_root audit (ib_challenge b) (ib_now b) db = Inr db'" by blast
  from issue_grows [OF ok db_ext_artifact [OF ext evolves_issue(3)] db_ext_artifact [OF ext evolves_issue(4)] pair r]
  have "grows K db db'" .
  from kept_trans [OF kept_trans [OF seen kept] grows_kept [OF ok this]] show ?case .
next
  case (evolves_descend db0 seen db descendant now db')
  then have seen: "kept K db0 seen" by blast
  then have sok: "store_ok K seen" by (simp add: kept_def)
  with evolves_descend have kept: "kept K seen db" by blast
  then have ok: "store_ok K db" and ext: "db_ext seen db" by (simp_all add: kept_def)
  from descend_grows [OF ok sok ext evolves_descend(3)] have "grows K db db'" .
  from kept_trans [OF kept_trans [OF seen kept] grows_kept [OF ok this]] show ?case .
qed

lemma evolves_ok: "evolves K empty_policy_db db \<Longrightarrow> store_ok K db"
  using evolves_kept store_ok_empty by (auto simp: kept_def)

end
