(* ===== verification/Policy_Exact.thy ===== *)
theory Policy_Exact
  imports Policy_Sessions
begin

text \<open>
  Validation is exact on the tables of every run: it succeeds when all ancestors are live, so the bound on the
  depth of the walk and the test for repeated vertices never refuse a session, and the store agrees with the
  reference kernel in memory.
\<close>

section \<open>Edges of a stored artifact\<close>

lemma wire_proofs:
  assumes "validate_wire_shape K a = Inr u"
  shows "dg_role a = PolicySessionRoot \<Longrightarrow> \<exists>p e. dg_proofs a = [p, e] \<and> p \<noteq> e"
    and "dg_role a = PolicySessionDescendant \<Longrightarrow> \<exists>p. dg_proofs a = [p]"
  using assms by (auto simp: validate_wire_shape_def Let_def numeral_2_eq_2 length_Suc_conv split: if_splits)

definition stored_edges :: "PolicyDelegation \<Rightarrow> VerifiedEdge list" where
  "stored_edges a =
     (case dg_role a of
        PolicySessionRoot \<Rightarrow>
          [\<lparr>ve_child = dg_cid a, ve_parent = dg_proofs a ! 0, ve_kind = EdgeAuthority, ve_position = 0\<rparr>,
           \<lparr>ve_child = dg_cid a, ve_parent = dg_proofs a ! 1, ve_kind = EdgeAuthority, ve_position = 1\<rparr>]
      | PolicySessionDescendant \<Rightarrow>
          [\<lparr>ve_child = dg_cid a, ve_parent = dg_proofs a ! 0, ve_kind = EdgeImmediate, ve_position = 0\<rparr>]
      | _ \<Rightarrow> [])"

lemma expected_edges_stored: "try_map edge_from_model (sort_key pe_position (expected_edges a)) = Inr (stored_edges a)"
  by (cases "dg_role a")
    (simp_all add: expected_edges_def stored_edges_def authority_edge_def immediate_edge_def edge_from_model_def)

lemma stored_edges_shape: "validate_persisted_edges a (stored_edges a) = Inr ()"
  by (cases "dg_role a") (simp_all add: validate_persisted_edges_def validate_persisted_edge_shape_def stored_edges_def)

lemma edges_on_stored:
  assumes ok: "store_ok K db" and a: "artifact_on K db cid = Inr a"
  shows "edges_on db cid = Inr (stored_edges a)" and "dg_cid a = cid" and "validate_wire_shape K a = Inr ()"
    and "is_session a \<Longrightarrow> grounded_session K db a"
proof -
  from a obtain r where r: "row_at db cid = Some r" "artifact_from_model K r = Inr a" by auto
  then have static: "pr_artifact r = a" "pr_cid r = cid" "dg_cid a = cid" "validate_wire_shape K a = Inr ()"
    using row_at_cid by (auto simp: artifact_from_model_ok)
  with store_okD(1) [OF ok r(1)] have "filter (\<lambda>e. pe_child e = cid) (pdb_edges db) = expected_edges a"
    and "is_session a \<Longrightarrow> grounded_session K db a" by (simp_all add: row_good_def)
  then show "edges_on db cid = Inr (stored_edges a)" "is_session a \<Longrightarrow> grounded_session K db a"
    by (simp_all add: edges_on_def expected_edges_stored)
  from static show "dg_cid a = cid" "validate_wire_shape K a = Inr ()" by auto
qed

lemma live_stored:
  assumes "store_ok K db" and "row_at db cid = Some r"
  shows "artifact_on K db cid = Inr (pr_artifact r)"
  using store_okD(1) [OF assms] assms(2) by (simp add: row_good_def)

lemma parent_stored:
  assumes ok: "store_ok K db" and "(cid, x) \<in> edge_rel db"
  shows "\<exists>a. artifact_on K db x = Inr a"
proof -
  from assms(2) store_okD(3) [OF ok] obtain r where "row_at db x = Some r" by (fastforce simp: edge_rel_def)
  from live_stored [OF ok this] show ?thesis by blast
qed

section \<open>The walk succeeds\<close>

lemma unsigned_digits_nonneg: "unsigned_digits bound acc s = Some n \<Longrightarrow> 0 \<le> acc \<Longrightarrow> 0 \<le> n"
  by (induction s arbitrary: acc) (auto simp: Let_def split: option.splits if_splits)

lemma parse_unsigned_nonneg: "parse_unsigned bound s = Some n \<Longrightarrow> 0 \<le> n"
  by (auto simp: parse_unsigned_def Let_def simp del: unsigned_digits.simps split: if_splits list.splits dest: unsigned_digits_nonneg)

lemma validate_loop_visit:
  assumes ok: "store_ok K db" and a: "artifact_on K db cid = Inr a" and live: "live K db cid now"
    and depth: "depth \<le> MAX_ANCESTRY_DEPTH" and new: "cid \<notin> fst ` set ancestry"
  shows "validate_loop K db now ((cid, ancestor, depth) # stack) ancestry =
    validate_loop K db now (map (\<lambda>e. (ve_parent e, True, depth + 1)) (stored_edges a) @ stack) ((cid, a) # ancestry)"
proof -
  from a live have "ensure_live_on K db cid now ancestor = Inr a" by (simp add: ensure_live_on_ok)
  with edges_on_stored(1) [OF ok a] stored_edges_shape [of a] depth new show ?thesis by simp
qed

lemma leaf_edges: "\<not> is_session a \<Longrightarrow> stored_edges a = []"
  by (cases "dg_role a") (auto simp: is_session_def stored_edges_def)

lemma root_complete:
  assumes ok: "store_ok K db" and a: "artifact_on K db cid = Inr a" "dg_role a = PolicySessionRoot"
    and live: "\<And>x. (cid, x) \<in> (edge_rel db)\<^sup>* \<Longrightarrow> live K db x now"
    and depth: "depth + 1 \<le> MAX_ANCESTRY_DEPTH" and above: "\<And>v. v \<in> fst ` set ancestry \<Longrightarrow> (v, cid) \<in> (edge_rel db)\<^sup>+"
  shows "\<exists>visited. validate_loop K db now [(cid, ancestor, depth)] ancestry = Inr visited"
proof -
  note stored = edges_on_stored [OF ok a(1)]
  from wire_proofs(1) [OF stored(3) a(2)] obtain p e where pe: "dg_proofs a = [p, e]" "p \<noteq> e" by blast
  have es: "map ve_parent (stored_edges a) = [p, e]" by (simp add: stored_edges_def a(2) pe)
  have links: "(cid, p) \<in> edge_rel db" "(cid, e) \<in> edge_rel db"
    using edges_on_rel [OF stored(1)] es by (metis Image_singleton_iff list.set_intros set_map)+
  have acyc: "(x, x) \<notin> (edge_rel db)\<^sup>+" for x using store_okD(4) [OF ok] by (simp add: acyclic_def)
  have new: "cid \<notin> fst ` set ancestry" using above acyc by blast
  from stored(4) a(2) obtain p' e' where grounds: "artifact_on K db (dg_cid p') = Inr p'" "artifact_on K db (dg_cid e') = Inr e'"
      "session_within K a p' e'" by (auto simp: grounded_session_def is_session_def simp del: artifact_on_ok)
  with a(2) pe have cids: "dg_cid p' = p" "dg_cid e' = e" by (auto simp: session_within_def)
  have leaves: "\<not> is_session p'" "\<not> is_session e'" using grounds(3) by (auto simp: session_within_def is_session_def)
  have unseen: "x \<notin> fst ` set ancestry" "x \<noteq> cid" if "(cid, x) \<in> edge_rel db" for x
    using above acyc that by (metis r_into_trancl trancl_into_trancl)+
  have step: "validate_loop K db now [(cid, ancestor, depth)] ancestry =
      validate_loop K db now [(p, True, depth + 1), (e, True, depth + 1)] ((cid, a) # ancestry)"
    using validate_loop_visit [OF ok a(1) live _ new, of depth ancestor "[]"] depth
    by (simp add: stored_edges_def a(2) pe del: validate_loop.simps)
  also have "\<dots> = validate_loop K db now [(e, True, depth + 1)] ((p, p') # (cid, a) # ancestry)"
    using validate_loop_visit [OF ok grounds(1) [unfolded cids] live, of "depth + 1" "(cid, a) # ancestry" True "[(e, True, depth + 1)]"]
      depth links(1) unseen(1,2) [OF links(1)] by (simp add: leaf_edges [OF leaves(1)] r_into_rtrancl del: validate_loop.simps)
  also have "\<dots> = validate_loop K db now [] ((e, e') # (p, p') # (cid, a) # ancestry)"
    using validate_loop_visit [OF ok grounds(2) [unfolded cids] live, of "depth + 1" "(p, p') # (cid, a) # ancestry" True "[]"]
      depth links(2) pe(2) unseen(1,2) [OF links(2)] by (simp add: leaf_edges [OF leaves(2)] r_into_rtrancl del: validate_loop.simps)
  finally show ?thesis by simp
qed

lemma descendant_step:
  assumes ok: "store_ok K db" and a: "artifact_on K db cid = Inr a" "dg_role a = PolicySessionDescendant"
    and chain: "(cid, dg_cid r) \<in> edge_rel db ^^ Suc n" and r: "artifact_on K db (dg_cid r) = Inr r" "dg_role r = PolicySessionRoot"
  obtains y b where "(cid, y) \<in> edge_rel db" and "(y, dg_cid r) \<in> edge_rel db ^^ n" and "artifact_on K db y = Inr b"
    and "is_session b" and "map ve_parent (stored_edges a) = [y]"
proof -
  from chain obtain y where y: "(cid, y) \<in> edge_rel db" "(y, dg_cid r) \<in> edge_rel db ^^ n" by (rule relpow_Suc_E2)
  from parent_stored [OF ok y(1)] obtain b where b: "artifact_on K db y = Inr b" by blast
  have es: "map ve_parent (stored_edges a) = [dg_proofs a ! 0]" by (simp add: stored_edges_def a)
  with edges_on_rel [OF edges_on_stored(1) [OF ok a(1)]] y(1) have parent: "dg_proofs a ! 0 = y"
    by (metis Image_singleton_iff empty_iff list.set(1) list.set(2) set_map singletonD)
  have "is_session b"
  proof (rule ccontr)
    assume leaf: "\<not> is_session b"
    from relpow_imp_rtrancl [OF y(2)] have "dg_cid r = y" using authority_leaf [OF ok b leaf] by simp
    with b r have "b = r" by auto
    with r leaf show False by (simp add: is_session_def)
  qed
  with that y b es parent show thesis by simp
qed

lemma session_complete:
  assumes ok: "store_ok K db" and "artifact_on K db cid = Inr a" and "is_session a"
    and "(cid, dg_cid r) \<in> edge_rel db ^^ n" and r: "artifact_on K db (dg_cid r) = Inr r" "dg_role r = PolicySessionRoot"
    and "\<And>x. (cid, x) \<in> (edge_rel db)\<^sup>* \<Longrightarrow> live K db x now"
    and "depth + n + 1 \<le> MAX_ANCESTRY_DEPTH" and "\<And>v. v \<in> fst ` set ancestry \<Longrightarrow> (v, cid) \<in> (edge_rel db)\<^sup>+"
  shows "\<exists>visited. validate_loop K db now [(cid, ancestor, depth)] ancestry = Inr visited"
  using assms(2-4,7-)
proof (induction n arbitrary: cid a depth ancestor ancestry)
  case 0
  then have "cid = dg_cid r" by simp
  with 0(1) r have "a = r" by simp
  with root_complete [OF ok 0(1) _ 0(4) _ 0(6)] r(2) 0(5) show ?case by simp
next
  case (Suc n)
  have acyc: "(x, x) \<notin> (edge_rel db)\<^sup>+" for x using store_okD(4) [OF ok] by (simp add: acyclic_def)
  show ?case
  proof (cases "dg_role a = PolicySessionRoot")
    case True
    with root_complete [OF ok Suc.prems(1) True Suc.prems(4) _ Suc.prems(6)] Suc.prems(5) show ?thesis by simp
  next
    case False
    with Suc.prems(2) have desc: "dg_role a = PolicySessionDescendant" by (simp add: is_session_def)
    from ok Suc.prems(1) desc Suc.prems(3) r obtain y b where y: "(cid, y) \<in> edge_rel db"
        "(y, dg_cid r) \<in> edge_rel db ^^ n" and b: "artifact_on K db y = Inr b" and session: "is_session b"
      and es: "map ve_parent (stored_edges a) = [y]" by (rule descendant_step)
    have new: "cid \<notin> fst ` set ancestry" using Suc.prems(6) acyc by blast
    have below: "live K db x now" if "(y, x) \<in> (edge_rel db)\<^sup>*" for x
      using Suc.prems(4) y(1) that by (meson converse_rtrancl_into_rtrancl)
    have above: "(v, y) \<in> (edge_rel db)\<^sup>+" if "v \<in> fst ` set ((cid, a) # ancestry)" for v
      using that Suc.prems(6) [of v] y(1) by (auto intro: trancl_into_trancl)
    have "validate_loop K db now [(cid, ancestor, depth)] ancestry = validate_loop K db now [(y, True, depth + 1)] ((cid, a) # ancestry)"
      using validate_loop_visit [OF ok Suc.prems(1) Suc.prems(4) _ new, of depth ancestor "[]"] Suc.prems(5)
      using es by (simp add: stored_edges_def desc del: validate_loop.simps)
    moreover have "\<exists>visited. validate_loop K db now [(y, True, depth + 1)] ((cid, a) # ancestry) = Inr visited"
      by (rule Suc.IH [OF b session y(2) below _ above]) (use Suc.prems(5) in simp_all)
    ultimately show ?thesis by simp
  qed
qed

lemma session_chain:
  assumes "store_ok K db" and "artifact_on K db cid = Inr a" and "is_session a"
  shows "\<exists>n r. (cid, dg_cid r) \<in> edge_rel db ^^ n \<and> artifact_on K db (dg_cid r) = Inr r \<and> dg_role r = PolicySessionRoot \<and> n \<le> 8"
proof -
  note stored = edges_on_stored [OF assms(1,2)]
  from stored(4) [OF assms(3)] obtain n r m where chain: "(cid, dg_cid r) \<in> edge_rel db ^^ n" "artifact_on K db (dg_cid r) = Inr r"
      "dg_role r = PolicySessionRoot" "depth_of a = Inr m" "m + int n \<le> 8"
    unfolding grounded_session_def stored(2) by blast
  have "m \<ge> 0" using chain(4) parse_unsigned_nonneg by (auto simp: depth_of_def split: bind_splits if_splits)
  with chain show ?thesis by (intro exI [of _ n] exI [of _ r]) auto
qed

theorem validate_exact:
  assumes ok: "store_ok K db" and a: "artifact_on K db cid = Inr a"
  shows "validate_for_invocation K db cid now = Inr () \<longleftrightarrow> (\<forall>x. (cid, x) \<in> (edge_rel db)\<^sup>* \<longrightarrow> live K db x now)"
proof
  assume "validate_for_invocation K db cid now = Inr ()"
  then show "\<forall>x. (cid, x) \<in> (edge_rel db)\<^sup>* \<longrightarrow> live K db x now" using validate_for_invocation_live by blast
next
  assume live: "\<forall>x. (cid, x) \<in> (edge_rel db)\<^sup>* \<longrightarrow> live K db x now"
  have "\<exists>visited. validate_loop K db now [(cid, False, 0)] [] = Inr visited"
  proof (cases "is_session a")
    case True
    from session_chain [OF ok a True] obtain n r where chain: "(cid, dg_cid r) \<in> edge_rel db ^^ n" "artifact_on K db (dg_cid r) = Inr r"
        "dg_role r = PolicySessionRoot" "n \<le> 8" by blast
    from chain(4) have short: "0 + n + 1 \<le> MAX_ANCESTRY_DEPTH" by (simp add: MAX_ANCESTRY_DEPTH_def)
    show ?thesis by (rule session_complete [OF ok a True chain(1-3) _ short]) (use live in auto)
  next
    case False
    from live have "live K db cid now" by blast
    from validate_loop_visit [OF ok a this, of 0 "[]" False "[]"] have "validate_loop K db now [(cid, False, 0)] [] = Inr [(cid, a)]"
      by (simp add: leaf_edges [OF False] del: validate_loop.simps(2))
    then show ?thesis by blast
  qed
  then show "validate_for_invocation K db cid now = Inr ()" by (auto simp: validate_for_invocation_def simp del: validate_loop.simps)
qed

section \<open>The reference kernel\<close>

definition memory_of :: "kernel_ext \<Rightarrow> policy_db \<Rightarrow> MemoryState" where
  "memory_of K db =
     \<lparr>ms_artifacts = (\<lambda>cid. case artifact_on K db cid of Inr a \<Rightarrow> Some a | Inl _ \<Rightarrow> None),
      ms_edges = List.map_filter (\<lambda>e. case edge_from_model e of Inr v \<Rightarrow> Some v | Inl _ \<Rightarrow> None) (pdb_edges db),
      ms_challenges = (\<lambda>cid. case challenge_on K db cid of Inr c \<Rightarrow> Some c | Inl _ \<Rightarrow> None),
      ms_audits = (\<lambda>cid. case audit_on db cid of Inr a \<Rightarrow> Some a | Inl _ \<Rightarrow> None),
      ms_statuses = (\<lambda>cid. case rbind (authority_row db cid) (status_from_model K) of Inr s \<Rightarrow> Some s | Inl _ \<Rightarrow> None),
      ms_fail_next = False\<rparr>"

lemma memory_artifact [simp]: "ms_artifacts (memory_of K db) cid = Some a \<longleftrightarrow> artifact_on K db cid = Inr a"
  by (auto simp: memory_of_def artifact_on_def split: sum.splits)

lemma memory_status [simp]:
  "ms_statuses (memory_of K db) cid = Some s \<longleftrightarrow> (\<exists>row. row_at db cid = Some row \<and> status_from_model K row = Inr s)"
  by (auto simp: memory_of_def split: sum.splits)

lemma memory_live: "ensure_live_in_memory K (memory_of K db) cid now ancestor = Inr u \<longleftrightarrow> live K db cid now"
proof
  assume "ensure_live_in_memory K (memory_of K db) cid now ancestor = Inr u"
  then obtain a since til row status where a: "artifact_on K db cid = Inr a" "dg_starts K a = Inr since" "dg_ends K a = Inr til"
      "since \<le> now" "now < til" and row: "row_at db cid = Some row" "status_from_model K row = Inr status" "st_checked status \<le> now"
      "now \<le> st_checked status + MAX_STATUS_AGE" "now < st_fresh_until status"
    and revoked: "\<not> (\<exists>r \<in> set_option (st_revoked status). r \<le> now)"
    by (auto simp: ensure_live_in_memory_def not_less not_le split: if_splits)
  from status_from_model_ok(2) [OF row(2)] row(3) revoked have "st_revoked status = None" by (cases "st_revoked status") auto
  with a row show "live K db cid now" unfolding live_def live_row_def by auto
next
  assume "live K db cid now"
  then obtain row a since til status where row: "row_at db cid = Some row" and a: "artifact_from_model K row = Inr a"
      "dg_starts K a = Inr since" "dg_ends K a = Inr til" "since \<le> now" "now < til"
    and status: "status_from_model K row = Inr status" "st_checked status \<le> now"
      "now \<le> st_checked status + MAX_STATUS_AGE" "now < st_fresh_until status" "st_revoked status = None"
    unfolding live_def live_row_def by auto
  have "ms_artifacts (memory_of K db) cid = Some a" "ms_statuses (memory_of K db) cid = Some status" using row a status by auto
  with a status status_from_model_ok(1) [OF status(1)] show "ensure_live_in_memory K (memory_of K db) cid now ancestor = Inr u"
    by (simp add: ensure_live_in_memory_def not_less not_le del: memory_artifact memory_status)
qed

lemma memory_edges:
  assumes ok: "store_ok K db" and a: "artifact_on K db cid = Inr a"
  shows "edges_of cid (ms_edges (memory_of K db)) = stored_edges a"
proof -
  let ?g = "\<lambda>e. case edge_from_model e of Inr v \<Rightarrow> Some v | Inl _ \<Rightarrow> None"
  have child: "?g e = Some v \<Longrightarrow> ve_child v = pe_child e" for e v by (auto simp: edge_from_model_ok split: sum.splits)
  have swap: "edges_of cid (List.map_filter ?g es) = List.map_filter ?g (filter (\<lambda>e. pe_child e = cid) es)" for es
    by (induction es) (auto simp: edges_of_def map_filter_simps dest: child split: option.splits)
  have "List.map_filter ?g (expected_edges a) = stored_edges a"
    by (cases "dg_role a") (simp_all add: expected_edges_def stored_edges_def authority_edge_def immediate_edge_def
        edge_from_model_def map_filter_simps)
  moreover from a obtain r where r: "row_at db cid = Some r" "artifact_from_model K r = Inr a" by auto
  then have "pr_artifact r = a" "pr_cid r = cid" using row_at_cid by (auto simp: artifact_from_model_ok)
  with store_okD(1) [OF ok r(1)] have "filter (\<lambda>e. pe_child e = cid) (pdb_edges db) = expected_edges a" by (simp add: row_good_def)
  ultimately show ?thesis by (simp add: memory_of_def swap)
qed

lemma stored_edges_verified: "verified_edge_shape a (stored_edges a) = Inr ()"
  by (cases "dg_role a") (simp_all add: verified_edge_shape_def validate_persisted_edge_shape_def stored_edges_def)

lemma memory_walk_step:
  assumes ok: "store_ok K db"
  shows "walk_verified_edges (Suc n) K (memory_of K db) now cid ancestor visiting = Inr u \<longleftrightarrow>
    live K db cid now \<and> cid \<notin> set visiting \<and>
    (\<exists>a. artifact_on K db cid = Inr a \<and>
       (\<forall>e \<in> set (stored_edges a). walk_verified_edges n K (memory_of K db) now (ve_parent e) True (cid # visiting) = Inr ()))"
proof -
  have "live K db cid now \<Longrightarrow> \<exists>a. artifact_on K db cid = Inr a" by (auto simp: live_def live_row_def)
  moreover have "ok_or (ms_artifacts (memory_of K db) cid) AuthorityStateUnavailable = Inr a \<longleftrightarrow> artifact_on K db cid = Inr a" for a by simp
  ultimately show ?thesis
    using memory_edges [OF ok] stored_edges_verified
    by (auto simp: memory_live try_all_ok is_ok_iff Let_def simp del: artifact_on_ok)
qed

lemma memory_walk_sound:
  assumes ok: "store_ok K db" and "walk_verified_edges n K (memory_of K db) now cid ancestor visiting = Inr u"
    and "(cid, x) \<in> (edge_rel db)\<^sup>*"
  shows "live K db x now"
  using assms(2,3)
proof (induction n arbitrary: cid ancestor visiting u)
  case (Suc n)
  note step = memory_walk_step [OF ok, THEN iffD1, OF Suc.prems(1)]
  then obtain a where a: "artifact_on K db cid = Inr a"
    and below: "\<forall>e \<in> set (stored_edges a). walk_verified_edges n K (memory_of K db) now (ve_parent e) True (cid # visiting) = Inr ()" by blast
  from Suc.prems(2) show ?case
  proof (cases rule: converse_rtranclE)
    case base with step show ?thesis by simp
  next
    case (step y)
    then have "y \<in> ve_parent ` set (stored_edges a)" using edges_on_rel [OF edges_on_stored(1) [OF ok a]] by blast
    then obtain e where "e \<in> set (stored_edges a)" "ve_parent e = y" by blast
    with below Suc.IH step(2) show ?thesis by blast
  qed
qed simp

lemma memory_leaf:
  assumes ok: "store_ok K db" and "artifact_on K db cid = Inr a" "\<not> is_session a" "live K db cid now" "cid \<notin> set visiting"
  shows "walk_verified_edges (Suc n) K (memory_of K db) now cid ancestor visiting = Inr ()"
  using assms leaf_edges [OF assms(3)] unfolding memory_walk_step [OF ok] by (auto simp del: artifact_on_ok)

lemma memory_root:
  assumes ok: "store_ok K db" and a: "artifact_on K db cid = Inr a" "dg_role a = PolicySessionRoot"
    and live: "\<And>x. (cid, x) \<in> (edge_rel db)\<^sup>* \<Longrightarrow> live K db x now" and fuel: "2 \<le> fuel"
    and above: "\<And>v. v \<in> set visiting \<Longrightarrow> (v, cid) \<in> (edge_rel db)\<^sup>+"
  shows "walk_verified_edges fuel K (memory_of K db) now cid ancestor visiting = Inr ()"
proof -
  have acyc: "(x, x) \<notin> (edge_rel db)\<^sup>+" for x using store_okD(4) [OF ok] by (simp add: acyclic_def)
  from fuel obtain m where fuel: "fuel = Suc (Suc m)" by (metis Suc_le_D numeral_2_eq_2 Suc_le_mono)
  note stored = edges_on_stored [OF ok a(1)]
  have session: "is_session a" by (simp add: is_session_def a)
  from stored(4) [OF session] obtain p e where g: "artifact_on K db (dg_cid p) = Inr p" "artifact_on K db (dg_cid e) = Inr e"
    "session_within K a p e" unfolding grounded_session_def by blast
  with a have proofs: "dg_proofs a = [dg_cid p, dg_cid e]" by (simp add: session_within_def)
  have leaves: "\<not> is_session p" "\<not> is_session e" using g(3) by (auto simp: session_within_def is_session_def)
  have links: "(cid, dg_cid p) \<in> edge_rel db" "(cid, dg_cid e) \<in> edge_rel db"
    using edges_on_rel [OF stored(1)] a proofs by (auto simp: stored_edges_def)
  have "x \<notin> set (cid # visiting)" if "(cid, x) \<in> edge_rel db" for x
    using that above [of x] acyc by (auto intro: r_into_trancl trancl_into_trancl)
  with links have "dg_cid p \<notin> set (cid # visiting)" "dg_cid e \<notin> set (cid # visiting)" by blast+
  then have
    "walk_verified_edges (Suc m) K (memory_of K db) now (dg_cid p) True (cid # visiting) = Inr ()"
    "walk_verified_edges (Suc m) K (memory_of K db) now (dg_cid e) True (cid # visiting) = Inr ()"
    using memory_leaf [OF ok g(1) leaves(1) live [OF r_into_rtrancl [OF links(1)]]]
      memory_leaf [OF ok g(2) leaves(2) live [OF r_into_rtrancl [OF links(2)]]] by blast+
  moreover have "live K db cid now" using live by blast
  moreover have "cid \<notin> set visiting" using above acyc by blast
  ultimately show ?thesis
    unfolding fuel memory_walk_step [OF ok] using a proofs
    by (auto simp: stored_edges_def simp del: artifact_on_ok walk_verified_edges.simps)
qed

lemma memory_session:
  assumes ok: "store_ok K db" and "artifact_on K db cid = Inr a" and "is_session a"
    and "(cid, dg_cid r) \<in> edge_rel db ^^ n" and r: "artifact_on K db (dg_cid r) = Inr r" "dg_role r = PolicySessionRoot"
    and "\<And>x. (cid, x) \<in> (edge_rel db)\<^sup>* \<Longrightarrow> live K db x now" and "n + 2 \<le> fuel"
    and "\<And>v. v \<in> set visiting \<Longrightarrow> (v, cid) \<in> (edge_rel db)\<^sup>+"
  shows "walk_verified_edges fuel K (memory_of K db) now cid ancestor visiting = Inr ()"
  using assms(2-4,7-)
proof (induction n arbitrary: cid a ancestor visiting fuel)
  case 0
  then have "cid = dg_cid r" by simp
  with 0(1) r have "dg_role a = PolicySessionRoot" by auto
  then show ?case by (rule memory_root [OF ok 0(1) _ 0(4) _ 0(6)]) (use 0(5) in simp_all)
next
  case (Suc n)
  have acyc: "(x, x) \<notin> (edge_rel db)\<^sup>+" for x using store_okD(4) [OF ok] by (simp add: acyclic_def)
  from Suc.prems(5) obtain m where fuel: "fuel = Suc m" "n + 2 \<le> m" by (metis add_Suc Suc_le_D Suc_le_mono)
  have live: "live K db cid now" using Suc.prems(4) by blast
  have new: "cid \<notin> set visiting" using Suc.prems(6) acyc by blast
  show ?case
  proof (cases "dg_role a = PolicySessionRoot")
    case True
    have "walk_verified_edges fuel K (memory_of K db) now cid ancestor visiting = Inr ()"
      by (rule memory_root [OF ok Suc.prems(1) True Suc.prems(4) _ Suc.prems(6)]) (use Suc.prems(5) in simp_all)
    then show ?thesis .
  next
    case False
    with Suc.prems(2) have desc: "dg_role a = PolicySessionDescendant" by (simp add: is_session_def)
    from ok Suc.prems(1) desc Suc.prems(3) r obtain y b where y: "(cid, y) \<in> edge_rel db"
        "(y, dg_cid r) \<in> edge_rel db ^^ n" and b: "artifact_on K db y = Inr b" and session: "is_session b"
      and es: "map ve_parent (stored_edges a) = [y]" by (rule descendant_step)
    have below: "live K db x now" if "(y, x) \<in> (edge_rel db)\<^sup>*" for x
      using Suc.prems(4) y(1) that by (meson converse_rtrancl_into_rtrancl)
    have above: "(v, y) \<in> (edge_rel db)\<^sup>+" if "v \<in> set (cid # visiting)" for v
      using that Suc.prems(6) [of v] y(1) by (auto intro: trancl_into_trancl)
    have "walk_verified_edges m K (memory_of K db) now y True (cid # visiting) = Inr ()"
      by (rule Suc.IH [OF b session y(2) below fuel(2) above])
    moreover have "ve_parent ` set (stored_edges a) = {y}" using es by (metis list.set(1) list.simps(15) set_map)
    ultimately show ?thesis
      unfolding fuel(1) memory_walk_step [OF ok] using Suc.prems(1) live new by (auto simp del: artifact_on_ok)
  qed
qed

text \<open>The store in the database and the reference store in memory accept the same invocations.\<close>

theorem store_agrees:
  assumes ok: "store_ok K db"
  shows "mem_validate_for_invocation K (memory_of K db) cid now = Inr () \<longleftrightarrow> validate_for_invocation K db cid now = Inr ()"
proof (cases "\<exists>a. artifact_on K db cid = Inr a")
  case True
  then obtain a where a: "artifact_on K db cid = Inr a" by blast
  have "mem_validate_for_invocation K (memory_of K db) cid now = Inr () \<longleftrightarrow> (\<forall>x. (cid, x) \<in> (edge_rel db)\<^sup>* \<longrightarrow> live K db x now)"
  proof
    assume "mem_validate_for_invocation K (memory_of K db) cid now = Inr ()"
    then show "\<forall>x. (cid, x) \<in> (edge_rel db)\<^sup>* \<longrightarrow> live K db x now"
      using memory_walk_sound [OF ok] unfolding mem_validate_for_invocation_def by blast
  next
    assume live: "\<forall>x. (cid, x) \<in> (edge_rel db)\<^sup>* \<longrightarrow> live K db x now"
    show "mem_validate_for_invocation K (memory_of K db) cid now = Inr ()"
    proof (cases "is_session a")
      case True
      from session_chain [OF ok a True] obtain n r where chain: "(cid, dg_cid r) \<in> edge_rel db ^^ n" "artifact_on K db (dg_cid r) = Inr r"
          "dg_role r = PolicySessionRoot" "n \<le> 8" by blast
      show ?thesis
        unfolding mem_validate_for_invocation_def
        by (rule memory_session [OF ok a True chain(1-3)]) (use live chain(4) in \<open>auto simp: MAX_ANCESTRY_DEPTH_def\<close>)
    next
      case False
      from live have "live K db cid now" by blast
      from memory_leaf [OF ok a False this] show ?thesis by (simp add: mem_validate_for_invocation_def del: walk_verified_edges.simps)
    qed
  qed
  with validate_exact [OF ok a] show ?thesis by simp
next
  case False
  then have "\<not> live K db cid now" by (auto simp: live_def live_row_def)
  then show ?thesis
    using memory_walk_sound [OF ok, of _ now cid _ _ _ cid] validate_for_invocation_live [of K db cid now _ cid]
    unfolding mem_validate_for_invocation_def by blast
qed

end
