(* ===== verification/Sample_Policy.thy ===== *)
theory Sample_Policy
  imports Policy_Sessions
begin

text \<open>
  A policy store with one policy, its enforcement delegation and one session, for the concrete runs of the
  properties. Times are those of one hour, written and read as RFC 3339 texts.
\<close>

section \<open>Times, facts and the parameters\<close>

definition demo_digit :: "string \<Rightarrow> nat \<Rightarrow> int" where
  "demo_digit s i = (of_char (s ! i) :: int) - 48"

definition demo_parse_time :: "string \<Rightarrow> time option" where
  "demo_parse_time s =
     (if length s = 20 then
        Some (((demo_digit s 14 * 10 + demo_digit s 15) * 60 + demo_digit s 17 * 10 + demo_digit s 18) * SECOND)
      else None)"

definition demo_two :: "int \<Rightarrow> string" where
  "demo_two n = [char_of (n div 10 + 48), char_of (n mod 10 + 48)]"

definition demo_format_time :: "time \<Rightarrow> string option" where
  "demo_format_time t =
     Some (''1970-01-01T00:'' @ demo_two (t div SECOND div 60) @ '':'' @ demo_two (t div SECOND mod 60) @ ''Z'')"

definition demo_kernel :: kernel_ext where
  "demo_kernel =
     \<lparr>k_nfc = (\<lambda>s. s), k_sha256 = (\<lambda>_. ''#''), k_ryu = (\<lambda>_. ''0''), k_parse_time = demo_parse_time,
      k_format_time = demo_format_time, k_json_parse = (\<lambda>_. (RawError, True)), k_artifact_text = (\<lambda>_. []),
      k_artifact_from_value = (\<lambda>_. None), k_base64url = (\<lambda>s. s), k_base64url_decode = Some, k_hex_decode = Some,
      k_multibase_decode = Some, k_ed25519_verify = (\<lambda>_ _ _. True), k_recover_key = (\<lambda>_ _ _. None)\<rparr>"

definition minute :: "int \<Rightarrow> time" where
  "minute n = n * 60 * SECOND"

definition policy_facts :: "(string \<times> string) list \<Rightarrow> (string, string) btree" where
  "policy_facts es = map (\<lambda>(name, v). (POLICY_PREFIX @ name, v)) es"

lemma map_of_policy_facts: "map_of (policy_facts es) (POLICY_PREFIX @ name) = map_of es name"
  by (induction es) (auto simp: policy_facts_def)

lemma keys_policy_facts: "fst ` set (policy_facts es) = (\<lambda>name. POLICY_PREFIX @ name) ` fst ` set es"
  by (force simp: policy_facts_def)

definition OWNER :: string where "OWNER = ''did:pkh:eip155:1:0xa''"
definition NODE :: string where "NODE = ''did:key:zNode''"
definition NODE_AUDIENCE :: string where "NODE_AUDIENCE = ''did:web:node''"
definition CLAIMANT :: string where "CLAIMANT = ''did:key:zClaimant''"

definition demo_capability :: json where
  "demo_capability = JObject
     [(''actions'', JArray [JString ''tinycloud.kv/get'']), (''path'', JString ''docs/''),
      (''service'', JString ''tinycloud.kv''), (''space'', JString ''space'')]"

section \<open>The artifacts\<close>

definition demo_policy :: PolicyDelegation where
  "demo_policy =
     \<lparr>dg_schema = DELEGATION_SCHEMA, dg_role = PolicyAuthority, dg_cid = ''p'', dg_issuer = OWNER, dg_audience = NODE_AUDIENCE,
      dg_capabilities = [demo_capability], dg_proofs = [], dg_not_before = ''1970-01-01T00:00:00Z'',
      dg_expires_at = ''1970-01-01T00:30:00Z'', dg_mode = PolicySource,
      dg_facts = policy_facts
        [(''capabilityCeilingHashHex'', ''23''), (''ownerDid'', OWNER), (''policyDigestHex'', ''aa''), (''policyId'', ''pol_1'')],
      dg_suite = EIP191_SUITE, dg_signature = []\<rparr>"

definition demo_enforcement :: PolicyDelegation where
  "demo_enforcement =
     \<lparr>dg_schema = DELEGATION_SCHEMA, dg_role = PolicyEnforcement, dg_cid = ''e'', dg_issuer = OWNER, dg_audience = NODE,
      dg_capabilities = [demo_capability], dg_proofs = [], dg_not_before = ''1970-01-01T00:00:00Z'',
      dg_expires_at = ''1970-01-01T00:30:00Z'', dg_mode = ConditionalMint,
      dg_facts = policy_facts
        [(''attestationBindingDigestHex'', ''bb''), (''auditProfile'', ''vp-digest-v1''), (''capabilityCeilingHashHex'', ''23''),
         (''enforcerDid'', NODE), (''maxRedelegationDepth'', ''1''), (''maxSessionTtlSeconds'', ''300''),
         (''nodeAudience'', NODE_AUDIENCE), (''ownerDid'', OWNER), (''policyDigestHex'', ''aa''), (''policyId'', ''pol_1''),
         (''sessionMode'', ''attenuable'')],
      dg_suite = EIP191_SUITE, dg_signature = []\<rparr>"

definition demo_root :: PolicyDelegation where
  "demo_root =
     \<lparr>dg_schema = DELEGATION_SCHEMA, dg_role = PolicySessionRoot, dg_cid = ''r'', dg_issuer = NODE, dg_audience = CLAIMANT,
      dg_capabilities = [demo_capability], dg_proofs = [''p'', ''e''], dg_not_before = ''1970-01-01T00:05:00Z'',
      dg_expires_at = ''1970-01-01T00:09:00Z'', dg_mode = ModeAttenuable,
      dg_facts = policy_facts
        [(''attestationBindingDigestHex'', ''bb''), (''auditProfile'', ''vp-digest-v1''), (''capabilityCeilingHashHex'', ''23''),
         (''capabilityHashHex'', ''23''), (''claimInvocationDigestHex'', ''cc''), (''decisionContextDigestHex'', ''23''),
         (''enforcementDelegationCid'', ''e''), (''enforcerDid'', NODE), (''issuanceAuditDigestHex'', ''23''),
         (''issuanceId'', ''peiss_aaaaaaaaaaaaaaaaaaaaaaaaaa''), (''nodeAudience'', NODE_AUDIENCE), (''ownerDid'', OWNER),
         (''policyDelegationCid'', ''p''), (''policyDigestHex'', ''aa''), (''policyId'', ''pol_1''),
         (''remainingRedelegationDepth'', ''1''), (''rootClaimantDid'', CLAIMANT), (''sessionSubjectDid'', CLAIMANT),
         (''vpDigestHex'', ''dd'')],
      dg_suite = ED25519_SUITE, dg_signature = []\<rparr>"

definition demo_state :: VerifiedPolicyState where
  "demo_state =
     \<lparr>vp_owner = OWNER, vp_policy_id = ''pol_1'', vp_digest_hex = ''aa'', vp_ceiling_hex = ''23'', vp_grant_mode = GrantAttenuable,
      vp_max_ttl = 300, vp_checked = minute 5, vp_expires = minute 30\<rparr>"

definition demo_challenge :: ChallengeState where
  "demo_challenge =
     \<lparr>ch_id = ''c'', ch_nonce_hash = ''ee'', ch_owner = OWNER, ch_policy_id = ''pol_1'', ch_policy_digest = ''aa'',
      ch_policy_cid = ''p'', ch_enforcement_cid = ''e'', ch_enforcer = NODE, ch_audience = NODE_AUDIENCE, ch_claimant = CLAIMANT,
      ch_requested = ''23'', ch_issued = minute 4, ch_expires = minute 9, ch_consumed = None\<rparr>"

definition demo_binding :: VerifiedAttestedEnforcerBinding where
  "demo_binding = \<lparr>eb_digest_hex = ''bb'', eb_enforcer = NODE, eb_audience = NODE_AUDIENCE, eb_expires = minute 30\<rparr>"

definition demo_bindings :: IssuanceBindings where
  "demo_bindings =
     \<lparr>ib_now = minute 5, ib_claim_issued = minute 5, ib_claim_expires = minute 9, ib_challenge = ''c'', ib_nonce_hash = ''ee'',
      ib_claimant = CLAIMANT, ib_requested = ''23'', ib_claim_digest = ''cc'', ib_vp_digest = ''dd''\<rparr>"

definition demo_context :: DecisionContext where
  "demo_context =
     \<lparr>dc_owner = OWNER, dc_policy_id = ''pol_1'', dc_policy_digest = ''aa'', dc_ceiling = ''23'', dc_enforcer = NODE,
      dc_audience = NODE_AUDIENCE, dc_claimant = CLAIMANT, dc_challenge = ''c'', dc_nonce_hash = ''ee'', dc_requested = ''23'',
      dc_claim_digest = ''cc'', dc_vp_digest = ''dd''\<rparr>"

definition demo_decision :: TrustedPolicyDecision where
  "demo_decision = from_evaluation demo_kernel demo_context (minute 5) (minute 30)"

definition demo_observation :: AuthorityStatus where
  "demo_observation = \<lparr>st_checked = minute 5, st_fresh_until = minute 10, st_sequence = 1, st_revoked = None\<rparr>"

definition demo_revocation :: AuthorityStatus where
  "demo_revocation = \<lparr>st_checked = minute 6, st_fresh_until = minute 10, st_sequence = 2, st_revoked = Some (minute 6)\<rparr>"

section \<open>The tables\<close>

definition demo_row :: "PolicyDelegation \<Rightarrow> int \<Rightarrow> policy_delegation_row" where
  "demo_row a n =
     \<lparr>pr_cid = dg_cid a, pr_role = role_wire (dg_role a), pr_mode = mode_wire (dg_mode a), pr_artifact = a,
      pr_not_before = dg_not_before a, pr_expires_at = dg_expires_at a, pr_checked_at = ''1970-01-01T00:05:00Z'',
      pr_fresh_until = Some ''1970-01-01T00:10:00Z'', pr_sequence = n, pr_revoked_at = None\<rparr>"

definition demo_challenge_row :: policy_challenge_row where
  "demo_challenge_row =
     \<lparr>pk_id = ''c'',
      pk_challenge = \<lparr>sc_id = ''c'', sc_nonce_hash = ''ee'', sc_owner = OWNER, sc_policy_id = ''pol_1'', sc_policy_digest = ''aa'',
        sc_policy_cid = ''p'', sc_enforcement_cid = ''e'', sc_enforcer = NODE, sc_audience = NODE_AUDIENCE, sc_claimant = CLAIMANT,
        sc_requested = ''23'', sc_issued_at = ''1970-01-01T00:04:00Z'', sc_expires_at = ''1970-01-01T00:09:00Z''\<rparr>,
      pk_nonce_hash = ''ee'', pk_issued_at = ''1970-01-01T00:04:00Z'', pk_expires_at = ''1970-01-01T00:09:00Z'', pk_consumed_at = None\<rparr>"

definition demo_admitted :: policy_db where
  "demo_admitted =
     \<lparr>pdb_delegations = [demo_row demo_policy 1, demo_row demo_enforcement 1],
      pdb_challenges = [], pdb_audits = [], pdb_edges = []\<rparr>"

definition demo_challenged :: policy_db where
  "demo_challenged = demo_admitted\<lparr>pdb_challenges := [demo_challenge_row]\<rparr>"

definition demo_audit :: IssuanceAudit where
  "demo_audit = root_audit demo_kernel demo_policy demo_enforcement demo_challenge demo_root demo_decision
     demo_bindings NODE ''peiss_aaaaaaaaaaaaaaaaaaaaaaaaaa'' OWNER ''pol_1'' ''aa'' NODE_AUDIENCE ''23''"

definition demo_issued :: policy_db where
  "demo_issued =
     \<lparr>pdb_delegations = [demo_row demo_policy 1, demo_row demo_enforcement 1, demo_row demo_root 0],
      pdb_challenges = [demo_challenge_row\<lparr>pk_consumed_at := Some ''1970-01-01T00:05:00Z''\<rparr>],
      pdb_audits = [\<lparr>pa_issuance = ''peiss_aaaaaaaaaaaaaaaaaaaaaaaaaa'', pa_session = ''r'', pa_audit = demo_audit\<rparr>],
      pdb_edges = [\<lparr>pe_child = ''r'', pe_position = 0, pe_parent = ''p'', pe_kind = ''authority''\<rparr>,
        \<lparr>pe_child = ''r'', pe_position = 1, pe_parent = ''e'', pe_kind = ''authority''\<rparr>]\<rparr>"

definition demo_revoked_policy :: policy_delegation_row where
  "demo_revoked_policy = (demo_row demo_policy 2)
     \<lparr>pr_checked_at := ''1970-01-01T00:06:00Z'', pr_revoked_at := Some ''1970-01-01T00:06:00Z''\<rparr>"

definition demo_closed :: policy_db where
  "demo_closed = demo_issued
     \<lparr>pdb_delegations := [demo_revoked_policy, demo_row demo_enforcement 1, demo_row demo_root 0]\<rparr>"

section \<open>The run\<close>

lemma demo_times [simp]:
  "canonical_time demo_kernel ''1970-01-01T00:00:00Z'' = Inr 0"
  "canonical_time demo_kernel ''1970-01-01T00:05:00Z'' = Inr 300000000000"
  "canonical_time demo_kernel ''1970-01-01T00:09:00Z'' = Inr 540000000000"
  "canonical_time demo_kernel ''1970-01-01T00:30:00Z'' = Inr 1800000000000"
  "db_time_parse demo_kernel ''1970-01-01T00:04:00Z'' = Inr 240000000000"
  "db_time_parse demo_kernel ''1970-01-01T00:05:00Z'' = Inr 300000000000"
  "db_time_parse demo_kernel ''1970-01-01T00:06:00Z'' = Inr 360000000000"
  "db_time_parse demo_kernel ''1970-01-01T00:09:00Z'' = Inr 540000000000"
  "db_time_parse demo_kernel ''1970-01-01T00:10:00Z'' = Inr 600000000000"
  "db_time demo_kernel 240000000000 = Inr ''1970-01-01T00:04:00Z''"
  "db_time demo_kernel 300000000000 = Inr ''1970-01-01T00:05:00Z''"
  "db_time demo_kernel 360000000000 = Inr ''1970-01-01T00:06:00Z''"
  "db_time demo_kernel 540000000000 = Inr ''1970-01-01T00:09:00Z''"
  "db_time demo_kernel 600000000000 = Inr ''1970-01-01T00:10:00Z''"
  by code_simp+

lemma demo_minute [simp]: "minute n = n * 60000000000" "SECOND = 1000000000" "MAX_STATUS_AGE = 300000000000"
  by (simp_all add: minute_def SECOND_def MAX_STATUS_AGE_def)

lemma demo_capabilities [simp]:
  "canonical_capabilities demo_kernel [demo_capability] =
     Inr [\<lparr>pc_service = ''tinycloud.kv'', pc_space = ''space'', pc_path = ''docs/'', pc_actions = [''tinycloud.kv/get''], pc_caveats = None\<rparr>]"
  by code_simp

lemma demo_contained [simp]: "capability_set_contained demo_kernel [demo_capability] [demo_capability] = Inr True"
  by code_simp

lemma demo_digest [simp]:
  "k_sha256 demo_kernel bytes = ''#''" "hex_encode ''#'' = ''23''"
  by (simp add: demo_kernel_def) code_simp

lemma demo_wire [simp]:
  "validate_wire_shape demo_kernel demo_policy = Inr ()"
  "validate_wire_shape demo_kernel demo_enforcement = Inr ()"
  "validate_wire_shape demo_kernel demo_root = Inr ()"
  by (simp_all add: set_eq_subset validate_wire_shape_def demo_policy_def demo_enforcement_def demo_root_def keys_policy_facts
      AUTHORITY_FACTS_def ENFORCEMENT_FACTS_def SESSION_FACTS_def OWNER_def NODE_def NODE_AUDIENCE_def CLAIMANT_def)

lemma demo_policy_fields [simp]:
  "dg_role demo_policy = PolicyAuthority" "dg_cid demo_policy = ''p''" "dg_issuer demo_policy = OWNER"
  "dg_audience demo_policy = NODE_AUDIENCE" "dg_capabilities demo_policy = [demo_capability]"
  "dg_proofs demo_policy = []" "dg_not_before demo_policy = ''1970-01-01T00:00:00Z''"
  "dg_expires_at demo_policy = ''1970-01-01T00:30:00Z''" "dg_mode demo_policy = PolicySource"
  "fact demo_policy name = ok_or (map_of
     [(''capabilityCeilingHashHex'', ''23''), (''ownerDid'', OWNER), (''policyDigestHex'', ''aa''), (''policyId'',
      ''pol_1'')] name) FactsMismatch"
  by (simp_all add: demo_policy_def fact_def map_of_policy_facts)

lemma demo_enforcement_fields [simp]:
  "dg_role demo_enforcement = PolicyEnforcement" "dg_cid demo_enforcement = ''e''" "dg_issuer demo_enforcement = OWNER"
  "dg_audience demo_enforcement = NODE" "dg_capabilities demo_enforcement = [demo_capability]"
  "dg_proofs demo_enforcement = []" "dg_not_before demo_enforcement = ''1970-01-01T00:00:00Z''"
  "dg_expires_at demo_enforcement = ''1970-01-01T00:30:00Z''" "dg_mode demo_enforcement = ConditionalMint"
  "fact demo_enforcement name = ok_or (map_of
     [(''attestationBindingDigestHex'', ''bb''), (''auditProfile'', ''vp-digest-v1''), (''capabilityCeilingHashHex'',
      ''23''), (''enforcerDid'', NODE), (''maxRedelegationDepth'', ''1''), (''maxSessionTtlSeconds'', ''300''),
      (''nodeAudience'', NODE_AUDIENCE), (''ownerDid'', OWNER), (''policyDigestHex'', ''aa''), (''policyId'', ''pol_1''),
      (''sessionMode'', ''attenuable'')] name) FactsMismatch"
  by (simp_all add: demo_enforcement_def fact_def map_of_policy_facts)

lemma demo_root_fields [simp]:
  "dg_role demo_root = PolicySessionRoot" "dg_cid demo_root = ''r''" "dg_issuer demo_root = NODE"
  "dg_audience demo_root = CLAIMANT" "dg_capabilities demo_root = [demo_capability]"
  "dg_proofs demo_root = [''p'', ''e'']" "dg_not_before demo_root = ''1970-01-01T00:05:00Z''"
  "dg_expires_at demo_root = ''1970-01-01T00:09:00Z''" "dg_mode demo_root = ModeAttenuable"
  "fact demo_root name = ok_or (map_of
     [(''attestationBindingDigestHex'', ''bb''), (''auditProfile'', ''vp-digest-v1''), (''capabilityCeilingHashHex'',
      ''23''), (''capabilityHashHex'', ''23''), (''claimInvocationDigestHex'', ''cc''), (''decisionContextDigestHex'',
      ''23''), (''enforcementDelegationCid'', ''e''), (''enforcerDid'', NODE), (''issuanceAuditDigestHex'', ''23''),
      (''issuanceId'', ''peiss_aaaaaaaaaaaaaaaaaaaaaaaaaa''), (''nodeAudience'', NODE_AUDIENCE), (''ownerDid'', OWNER),
      (''policyDelegationCid'', ''p''), (''policyDigestHex'', ''aa''), (''policyId'', ''pol_1''),
      (''remainingRedelegationDepth'', ''1''), (''rootClaimantDid'', CLAIMANT), (''sessionSubjectDid'', CLAIMANT),
      (''vpDigestHex'', ''dd'')] name) FactsMismatch"
  by (simp_all add: demo_root_def fact_def map_of_policy_facts)


lemma demo_row_artifact [simp]:
  "a \<in> {demo_policy, demo_enforcement, demo_root} \<Longrightarrow> artifact_from_model demo_kernel (demo_row a n) = Inr a"
  by (auto simp: artifact_from_model_def demo_row_def)

lemma demo_decimals [simp]:
  "decimal_fact demo_enforcement ''maxSessionTtlSeconds'' = Inr 300"
  "decimal_fact demo_enforcement ''maxRedelegationDepth'' = Inr 1"
  "depth_of demo_root = Inr 1"
proof -
  have "parse_unsigned 18446744073709551616 ''300'' = Some 300" "parse_unsigned 18446744073709551616 ''1'' = Some 1"
    "parse_unsigned 256 ''1'' = Some 1" "\<not> starts_with ''300'' ''0''" "\<not> starts_with ''1'' ''0''" by code_simp+
  then show "decimal_fact demo_enforcement ''maxSessionTtlSeconds'' = Inr 300"
    "decimal_fact demo_enforcement ''maxRedelegationDepth'' = Inr 1" "depth_of demo_root = Inr 1"
    by (simp_all add: decimal_fact_def depth_of_def)
qed

lemma demo_hash [simp]:
  "capability_hash demo_kernel demo_policy = Inr ''23''" "capability_hash demo_kernel demo_root = Inr ''23''"
  by (simp_all add: capability_hash_def requested_capabilities_hash_hex_def)

lemma demo_pair [simp]:
  "validate_authority_pair demo_kernel demo_policy demo_enforcement demo_state NODE = Inr ()"
  by (simp add: validate_authority_pair_def demo_state_def starts_with_def try_all_ok is_ok_iff del: try_all.simps)

lemma demo_dates [simp]:
  "dg_starts demo_kernel demo_policy = Inr 0" "dg_ends demo_kernel demo_policy = Inr 1800000000000"
  "dg_starts demo_kernel demo_enforcement = Inr 0" "dg_ends demo_kernel demo_enforcement = Inr 1800000000000"
  "dg_starts demo_kernel demo_root = Inr 300000000000" "dg_ends demo_kernel demo_root = Inr 540000000000"
  by (simp_all add: dg_starts_def dg_ends_def)

lemma demo_issuance [simp]: "valid_prefixed_base32 ''peiss_aaaaaaaaaaaaaaaaaaaaaaaaaa'' ''peiss_'' 26"
  by code_simp

lemma demo_root_valid [simp]:
  "validate_root demo_kernel demo_policy demo_enforcement demo_state demo_challenge demo_root demo_binding
     demo_decision demo_bindings NODE = Inr demo_audit"
proof -
  have "root_parties demo_kernel demo_policy demo_enforcement demo_state demo_challenge demo_root demo_bindings NODE = Inr ()"
    by (simp add: root_parties_def validate_challenge_def demo_state_def demo_challenge_def demo_bindings_def session_mode_def)
  moreover have "root_claims demo_kernel demo_policy demo_enforcement demo_root demo_binding demo_decision demo_bindings NODE =
      Inr (OWNER, ''pol_1'', ''aa'', ''23'')"
    by (simp add: root_claims_def demo_binding_def demo_bindings_def demo_decision_def from_evaluation_def context_digest_hex_def
        try_all_ok is_ok_iff del: try_all.simps)
  moreover have "root_decision demo_kernel demo_decision demo_bindings NODE NODE_AUDIENCE (OWNER, ''pol_1'', ''aa'', ''23'') = Inr ()"
    by (simp add: root_decision_def demo_decision_def demo_bindings_def demo_context_def from_evaluation_def context_digest_hex_def)
  moreover have "root_times demo_kernel demo_policy demo_enforcement demo_state demo_challenge demo_root demo_decision
      demo_bindings = Inr ()"
    by (simp add: root_times_def demo_state_def demo_challenge_def demo_decision_def demo_bindings_def from_evaluation_def)
  moreover have "ia_digest_hex demo_audit = ''23''"
    by (simp add: demo_audit_def root_audit_def Let_def recompute_digest_hex_def)
  ultimately show ?thesis by (simp add: validate_root_def demo_audit_def [symmetric])
qed

lemma demo_challenge_row_ok [simp]:
  "challenge_from_model demo_kernel demo_challenge_row = Inr demo_challenge"
  by (simp add: challenge_from_model_def demo_challenge_row_def loaded_challenge_def demo_challenge_def
      validate_challenge_lifetime_for_read_def)

lemma demo_row_live [simp]:
  assumes "a \<in> {demo_policy, demo_enforcement, demo_root}" and "n \<ge> 0" and "now = 300000000000"
  shows "ensure_live_model demo_kernel (demo_row a n) now ancestor = Inr a"
proof -
  have "status_from_model demo_kernel (demo_row a n) =
      Inr \<lparr>st_checked = 300000000000, st_fresh_until = 600000000000, st_sequence = nat n, st_revoked = None\<rparr>"
    using assms(2) by (simp add: status_from_model_def demo_row_def)
  with assms show ?thesis by (auto simp: ensure_live_model_def)
qed

lemma demo_admit: "\<exists>db. admit_verified_authority_in_transaction demo_kernel demo_policy demo_observation (minute 5) empty_policy_db = Inr db \<and>
    admit_verified_authority_in_transaction demo_kernel demo_enforcement demo_observation (minute 5) db = Inr demo_admitted"
  by (simp add: admit_verified_authority_in_transaction_def empty_policy_db_def demo_observation_def artifact_model_def
      status_columns_of_def i64_of_def insert_delegation_def demo_admitted_def demo_row_def)

lemma demo_challenge_step: "insert_challenge demo_kernel demo_challenge demo_admitted = Inr demo_challenged"
  by (simp add: insert_challenge_def validate_challenge_lifetime_def validate_challenge_lifetime_for_read_def stored_challenge_def
      demo_challenge_def insert_challenge_row_def demo_challenged_def demo_admitted_def demo_challenge_row_def)

lemma demo_row_cid [simp]: "pr_cid (demo_row a n) = dg_cid a" "pr_revoked_at (demo_row a n) = None"
  by (simp_all add: demo_row_def)

lemma demo_admitted_valid [simp]:
  assumes "cid = ''p'' \<or> cid = ''e''"
  shows "validate_for_invocation demo_kernel demo_challenged cid 300000000000 = Inr ()"
  using assms by (auto simp: validate_for_invocation_def ensure_live_on_def row_at_def demo_challenged_def demo_admitted_def
      edges_on_def validate_persisted_edges_def validate_persisted_edge_shape_def)

lemma demo_persist:
  "persist_root_in_transaction demo_kernel demo_root demo_audit ''c'' 300000000000 demo_challenged = Inr demo_issued"
proof -
  have "dedup (sort [''p'', ''e'']) = [''e'', ''p'']" by code_simp
  moreover have "ensure_live_on demo_kernel demo_challenged ''p'' 300000000000 False = Inr demo_policy"
    "ensure_live_on demo_kernel demo_challenged ''e'' 300000000000 False = Inr demo_enforcement"
    by (simp_all add: ensure_live_on_def row_at_def demo_challenged_def demo_admitted_def)
  moreover have "artifact_model demo_kernel demo_root (initial_status 300000000000) = Inr (demo_row demo_root 0)"
    by (simp add: artifact_model_def status_columns_of_def initial_status_def i64_of_def demo_row_def)
  moreover have "ia_issuance demo_audit = ''peiss_aaaaaaaaaaaaaaaaaaaaaaaaaa''" "ia_session demo_audit = ''r''"
    by (simp_all add: demo_audit_def root_audit_def Let_def)
  moreover have "pk_id demo_challenge_row = ''c''" "pk_consumed_at demo_challenge_row = None"
    "ch_issued demo_challenge = 240000000000" "ch_expires demo_challenge = 540000000000"
    by (simp_all add: demo_challenge_row_def demo_challenge_def)
  ultimately show ?thesis
    by (simp add: persist_root_in_transaction_def consume_challenge_def demo_challenged_def demo_admitted_def demo_issued_def
        row_at_def authority_edge_def insert_edge_def upt_rec)
qed

lemma demo_issue:
  "issue_root demo_kernel NODE demo_policy demo_enforcement demo_state demo_root demo_binding demo_decision
     demo_bindings demo_challenged demo_challenged = Inr demo_issued"
proof -
  have "challenge_on demo_kernel demo_challenged ''c'' = Inr demo_challenge"
    by (simp add: challenge_on_def demo_challenged_def demo_challenge_row_def [THEN arg_cong [of _ _ pk_id]])
  moreover have "ch_consumed demo_challenge = None" by (simp add: demo_challenge_def)
  moreover have "ib_challenge demo_bindings = ''c''" "ib_now demo_bindings = 300000000000" by (simp_all add: demo_bindings_def)
  ultimately show ?thesis using demo_persist by (simp add: issue_root_def)
qed

lemma demo_revoke:
  "set_status demo_kernel ''p'' demo_revocation [(demo_issued, Answered, demo_issued)] = Inr demo_closed"
proof -
  have "status_from_model demo_kernel (demo_row demo_policy 1) = Inr demo_observation"
    by (simp add: status_from_model_def demo_row_def demo_observation_def)
  then show ?thesis
    by (simp add: set_status_def MAX_ATTEMPTS_def row_at_def demo_issued_def demo_revocation_def demo_observation_def
        validate_status_transition_def status_columns_of_def i64_of_def update_status_def unchanged_since_def same_freshness_def
        demo_row_def [of demo_policy] with_status_def demo_closed_def demo_revoked_policy_def)
qed

lemma demo_evolves:
  "evolves demo_kernel empty_policy_db demo_challenged" "evolves demo_kernel empty_policy_db demo_issued"
  "evolves demo_kernel demo_issued demo_closed"
proof -
  from demo_admit obtain db where db:
      "admit_verified_authority_in_transaction demo_kernel demo_policy demo_observation (minute 5) empty_policy_db = Inr db"
      "admit_verified_authority_in_transaction demo_kernel demo_enforcement demo_observation (minute 5) db = Inr demo_admitted" by blast
  have "evolves demo_kernel empty_policy_db db" by (rule evolves_admit [OF evolves_refl demo_pair _ db(1)]) simp
  then have "evolves demo_kernel empty_policy_db demo_admitted" by (rule evolves_admit [OF _ demo_pair _ db(2)]) simp
  then show "evolves demo_kernel empty_policy_db demo_challenged" by (rule evolves_challenge [OF _ disjI1 [OF demo_challenge_step]])
  then show "evolves demo_kernel empty_policy_db demo_issued"
    by (rule evolves_issue [OF _ evolves_refl _ _ demo_issue]) (simp_all add: row_at_def demo_challenged_def demo_admitted_def)
  show "evolves demo_kernel demo_issued demo_closed" by (rule evolves_status [OF _ demo_revoke]) (simp add: evolves_refl)
qed

lemma demo_stored:
  "artifact_on demo_kernel demo_challenged ''p'' = Inr demo_policy"
  "artifact_on demo_kernel demo_challenged ''e'' = Inr demo_enforcement"
  by (simp_all add: row_at_def demo_challenged_def demo_admitted_def)

lemma demo_session: "artifact_on demo_kernel demo_issued ''r'' = Inr demo_root"
  by (simp add: row_at_def demo_issued_def)

lemma demo_is_session: "is_session demo_root"
  by (simp add: is_session_def)

lemma demo_session_valid: "validate_for_invocation demo_kernel demo_issued ''r'' 300000000000 = Inr ()"
proof -
  have "edges_on demo_issued ''r'' = Inr [\<lparr>ve_child = ''r'', ve_parent = ''p'', ve_kind = EdgeAuthority, ve_position = 0\<rparr>,
      \<lparr>ve_child = ''r'', ve_parent = ''e'', ve_kind = EdgeAuthority, ve_position = 1\<rparr>]"
    "edges_on demo_issued ''p'' = Inr []" "edges_on demo_issued ''e'' = Inr []"
    by (simp_all add: edges_on_def demo_issued_def edge_from_model_def)
  moreover have "ensure_live_on demo_kernel demo_issued ''r'' 300000000000 ancestor = Inr demo_root"
    "ensure_live_on demo_kernel demo_issued ''p'' 300000000000 ancestor = Inr demo_policy"
    "ensure_live_on demo_kernel demo_issued ''e'' 300000000000 ancestor = Inr demo_enforcement" for ancestor
    by (simp_all add: ensure_live_on_def row_at_def demo_issued_def)
  ultimately show ?thesis
    by (simp add: validate_for_invocation_def validate_persisted_edges_def validate_persisted_edge_shape_def MAX_ANCESTRY_DEPTH_def)
qed

lemma demo_revoke_retried:
  "set_status demo_kernel ''p'' demo_revocation
     [(demo_challenged, Conflict, demo_issued), (demo_issued, Answered, demo_issued)] = Inr demo_closed"
proof -
  have "status_from_model demo_kernel (demo_row demo_policy 1) = Inr demo_observation"
    by (simp add: status_from_model_def demo_row_def demo_observation_def)
  moreover have "row_at demo_challenged ''p'' = Some (demo_row demo_policy 1)"
    by (simp add: row_at_def demo_challenged_def demo_admitted_def)
  moreover have "validate_status_transition demo_observation demo_revocation = Inr ()"
    "is_ok (status_columns_of demo_kernel AuthorityStateUnavailable demo_revocation)"
    by (simp_all add: validate_status_transition_def status_columns_of_def i64_of_def demo_observation_def demo_revocation_def)
  ultimately show ?thesis using demo_revoke by (auto simp: set_status_def MAX_ATTEMPTS_def is_ok_iff)
qed

end
