(* ===== verification/Policy_Kernel_Properties.thy ===== *)
theory Policy_Kernel_Properties
  imports Policy_Exact Sample_Policy
begin

text \<open>
  What the policy authority kernel promises of the tables it keeps, for every sequence from an empty store of
  the operations the node uses, with reads that other requests have overtaken.
\<close>

text \<open>C21: Every session that passes \<open>validate_for_invocation\<close> stands on a stored policy delegation and a stored
  enforcement delegation that are both live at that moment; its capabilities are contained in both, its
  lifetime lies inside both, and its facts name the same owner, policy, ceiling and enforcer.\<close>

theorem validated_session_grounded:
  assumes "evolves K empty_policy_db db" and "artifact_on K db cid = Inr d" and "is_session d"
    and "validate_for_invocation K db cid now = Inr ()"
  shows "\<exists>p e. artifact_on K db (dg_cid p) = Inr p \<and> artifact_on K db (dg_cid e) = Inr e \<and> session_within K d p e \<and>
    live K db (dg_cid p) now \<and> live K db (dg_cid e) now"
proof -
  note ok = evolves_ok [OF assms(1)]
  note stored = edges_on_stored [OF ok assms(2)]
  from stored(4) [OF assms(3)] obtain p e where pe: "artifact_on K db (dg_cid p) = Inr p" "artifact_on K db (dg_cid e) = Inr e"
      "session_within K d p e" "(cid, dg_cid p) \<in> (edge_rel db)\<^sup>+" "(cid, dg_cid e) \<in> (edge_rel db)\<^sup>+"
    unfolding grounded_session_def stored(2) by blast
  with validate_for_invocation_live [of K db cid now "()"] assms(4) show ?thesis by (meson trancl_into_rtrancl)
qed

theorem validated_session_grounded_witness:
  "\<exists>p e. artifact_on demo_kernel demo_issued (dg_cid p) = Inr p \<and> artifact_on demo_kernel demo_issued (dg_cid e) = Inr e \<and>
    session_within demo_kernel demo_root p e \<and> live demo_kernel demo_issued (dg_cid p) 300000000000 \<and>
    live demo_kernel demo_issued (dg_cid e) 300000000000"
  by (rule validated_session_grounded [OF demo_evolves(2) demo_session demo_is_session demo_session_valid])

text \<open>C22: Validation is exact. On the tables of any run, a stored artifact passes \<open>validate_for_invocation\<close> if and
  only if the artifact and every one of its ancestors is live: the bound on the depth and the check against
  repeated vertices refuse no stored session.\<close>

theorem validation_exact:
  assumes "evolves K empty_policy_db db" and "artifact_on K db cid = Inr a"
  shows "validate_for_invocation K db cid now = Inr () \<longleftrightarrow> (\<forall>x. (cid, x) \<in> (edge_rel db)\<^sup>* \<longrightarrow> live K db x now)"
  by (rule validate_exact [OF evolves_ok [OF assms(1)] assms(2)])

theorem validation_exact_witness:
  "validate_for_invocation demo_kernel demo_issued ''r'' 300000000000 = Inr () \<longleftrightarrow>
    (\<forall>x. (''r'', x) \<in> (edge_rel demo_issued)\<^sup>* \<longrightarrow> live demo_kernel demo_issued x 300000000000)"
  by (rule validation_exact [OF demo_evolves(2) demo_session])

text \<open>C23: A revocation closes the subtree for ever. Once a row carries a revocation, in every later state of the store
  every artifact below it fails \<open>validate_for_invocation\<close>, and nothing is ever added below it.\<close>

theorem revocation_closes_subtree:
  assumes "evolves K empty_policy_db before" and "evolves K before db" and "row_at before x = Some r" and "pr_revoked_at r \<noteq> None"
    and "(cid, x) \<in> (edge_rel db)\<^sup>*"
  shows "\<not> is_ok (validate_for_invocation K db cid now) \<and> (cid, x) \<in> (edge_rel before)\<^sup>*"
proof -
  from evolves_kept [OF assms(2) evolves_ok [OF assms(1)]] have kept: "db_ext before db"
    "(cid, x) \<in> (edge_rel db)\<^sup>* \<Longrightarrow> (cid, x) \<in> (edge_rel before)\<^sup>*" using assms(3,4) unfolding kept_def by blast+
  from db_ext_revoked [OF kept(1) assms(3,4)] obtain r' where r': "row_at db x = Some r'" "pr_revoked_at r' \<noteq> None" by blast
  then have "\<not> live K db x now" by (auto dest: live_not_revoked)
  with validate_for_invocation_live [of K db cid now _ x] assms(5) have "\<not> is_ok (validate_for_invocation K db cid now)"
    by (auto simp: is_ok_iff)
  with kept(2) assms(5) show ?thesis by blast
qed

theorem revocation_closes_subtree_witness:
  "\<not> is_ok (validate_for_invocation demo_kernel demo_closed ''r'' 360000000000) \<and> (''r'', ''p'') \<in> (edge_rel demo_closed)\<^sup>*"
proof -
  have "evolves demo_kernel empty_policy_db demo_closed"
    by (rule evolves_status [OF _ demo_revoke]) (simp add: demo_evolves)
  moreover have "row_at demo_closed ''p'' = Some demo_revoked_policy" "pr_revoked_at demo_revoked_policy \<noteq> None"
    by (simp_all add: row_at_def demo_closed_def demo_revoked_policy_def)
  moreover have "(''r'', ''p'') \<in> (edge_rel demo_closed)\<^sup>*"
    by (rule r_into_rtrancl) (simp add: edge_rel_def demo_closed_def demo_issued_def)
  ultimately show ?thesis by (rule revocation_closes_subtree [OF _ evolves_refl])
qed

text \<open>C24: What \<open>issue_root\<close> commits. The session is stored as it was validated and lies within the policy and
  enforcement delegations it was issued under, which are live on the very tables it commits on; the
  challenge was open and is now consumed; and one audit record is added, whose recomputed digest is the one
  the session carries.\<close>

theorem issuance_committed:
  assumes "issue_root K node p e ps r binding decision b seen db = Inr db'"
  shows "artifact_on K db' (dg_cid r) = Inr r \<and> session_within K r p e \<and>
    live K db (dg_cid p) (ib_now b) \<and> live K db (dg_cid e) (ib_now b) \<and>
    (\<exists>c. challenge_at db (ib_challenge b) = Some c \<and> pk_consumed_at c = None) \<and>
    (\<exists>c. challenge_at db' (ib_challenge b) = Some c \<and> pk_consumed_at c \<noteq> None) \<and>
    (\<exists>audit. pdb_audits db' = pdb_audits db @ [audit_row_of audit] \<and> ia_session audit = dg_cid r \<and>
       fact r ''issuanceAuditDigestHex'' = Inr (recompute_digest_hex K audit))"
proof -
  from issue_root_parts [OF assms] obtain challenge audit where pair: "validate_authority_pair K p e ps node = Inr ()"
    and root: "validate_root K p e ps challenge r binding decision b node = Inr audit"
    and persist: "persist_root_in_transaction K r audit (ib_challenge b) (ib_now b) db = Inr db'" by blast
  note facts = validate_root_facts [OF root]
  with persist_root_ok [OF persist] have parts: "added_row K r (initial_status (ib_now b)) db db'" "live K db (dg_cid p) (ib_now b)"
      "live K db (dg_cid e) (ib_now b)" "pdb_audits db' = pdb_audits db @ [audit_row_of audit]"
      "\<exists>c. challenge_at db (ib_challenge b) = Some c \<and> pk_consumed_at c = None"
      "\<exists>c. challenge_at db' (ib_challenge b) = Some c \<and> pk_consumed_at c \<noteq> None" by blast+
  from added_row_ext(2) [OF parts(1)] facts have "artifact_on K db' (dg_cid r) = Inr r" by blast
  with parts(2-6) root_within [OF root pair] validate_root_audit [OF root] show ?thesis by blast
qed

theorem issuance_committed_witness:
  "artifact_on demo_kernel demo_issued ''r'' = Inr demo_root \<and>
   session_within demo_kernel demo_root demo_policy demo_enforcement"
  using issuance_committed [OF demo_issue] by simp

text \<open>C25: A challenge issues one session. After a committed \<open>issue_root\<close>, no later issuance of either kind commits with
  the same challenge, whatever it read before.\<close>

theorem challenge_issues_once:
  assumes "evolves K empty_policy_db seen" and "evolves K seen db"
    and "artifact_on K seen (dg_cid p) = Inr p" and "artifact_on K seen (dg_cid e) = Inr e"
    and "issue_root K node p e ps r binding decision b seen db = Inr db'" and "evolves K db' later" and "ib_challenge b2 = ib_challenge b"
  shows "\<not> is_ok (issue_root K node2 p2 e2 ps2 r2 binding2 decision2 b2 seen2 later) \<and>
    \<not> is_ok (issue_root_in_transaction K node2 p2 e2 ps2 r2 binding2 decision2 b2 later)"
proof -
  have "evolves K empty_policy_db db'" by (rule evolves_issue [OF assms(1-5)])
  from evolves_kept [OF assms(6) evolves_ok [OF this]] have ext: "db_ext db' later" by (simp add: kept_def)
  from issue_root_parts [OF assms(5)] obtain challenge audit where
      root: "validate_root K p e ps challenge r binding decision b node = Inr audit"
    and persist: "persist_root_in_transaction K r audit (ib_challenge b) (ib_now b) db = Inr db'" by blast
  from validate_root_facts [OF root] persist_root_ok [OF persist] obtain c where
      "challenge_at db' (ib_challenge b) = Some c" "pk_consumed_at c \<noteq> None" by blast
  from db_extD(3) [OF ext this] obtain c' where c': "challenge_at later (ib_challenge b2) = Some c'" "pk_consumed_at c' \<noteq> None"
    using assms(7) by auto
  have "\<not> is_ok (persist_root_in_transaction K r2 audit2 (ib_challenge b2) t later)" for audit2 t
    using c' by (auto simp: persist_root_in_transaction_def Let_def is_ok_iff challenge_at_def)
  then show ?thesis
    using issue_root_parts [of K node2 p2 e2 ps2 r2 binding2 decision2 b2 seen2 later]
      issue_root_in_transaction_parts [of K node2 p2 e2 ps2 r2 binding2 decision2 b2 later]
    by (fastforce simp: is_ok_iff)
qed

theorem challenge_issues_once_witness:
  "\<not> is_ok (issue_root demo_kernel NODE demo_policy demo_enforcement demo_state (demo_root\<lparr>dg_cid := ''s''\<rparr>) demo_binding
     demo_decision demo_bindings demo_challenged demo_issued)"
  using challenge_issues_once [OF demo_evolves(1) evolves_refl _ _ demo_issue evolves_refl refl] demo_stored by simp

text \<open>C26: Concurrent status updates are atomic. When \<open>set_status\<close> succeeds, after any number of attempts that lost a race or
  met a conflict, its result is that of one undisturbed update of the tables it committed on, whose status
  at that moment allowed the transition.\<close>

theorem set_status_atomic:
  assumes "\<forall>x \<in> set attempts. evolves K empty_policy_db (snd (snd x))" and "set_status K cid status attempts = Inr db'"
  shows "\<exists>x \<in> set attempts. set_status K cid status [(snd (snd x), Answered, snd (snd x))] = Inr db' \<and>
    (\<exists>row previous. row_at (snd (snd x)) cid = Some row \<and> status_from_model K row = Inr previous \<and>
       validate_status_transition previous status = Inr ())"
proof -
  from assms(2) set_status_loop_commits obtain seen answer current row previous c where
      x: "(seen, answer, current) \<in> set (take MAX_ATTEMPTS attempts)" and row: "row_at seen cid = Some row"
    and status: "status_from_model K row = Inr previous" "validate_status_transition previous status = Inr ()"
      "status_columns_of K AuthorityStateUnavailable status = Inr c"
    and u: "update_status (unchanged_since cid row) c current = (db', 1)"
    unfolding set_status_def by blast
  from x have x: "(seen, answer, current) \<in> set attempts" by (rule in_set_takeD)
  with assms(1) have "store_ok K current" using evolves_ok by fastforce
  from unchanged_row [OF this u] obtain r where r: "row_at current cid = Some r" "unchanged_since cid row r" by blast
  have same: "unchanged_since cid r = unchanged_since cid row" "status_from_model K r = status_from_model K row"
    using r(2) by (auto simp: unchanged_since_def same_freshness_def status_from_model_def)
  have "set_status K cid status [(current, Answered, current)] = Inr db'"
    using r status u by (simp add: set_status_def MAX_ATTEMPTS_def same)
  with x r status same show ?thesis by (intro bexI [of _ "(seen, answer, current)"]) auto
qed

theorem set_status_atomic_witness:
  "\<exists>x \<in> {(demo_challenged, Conflict, demo_issued), (demo_issued, Answered, demo_issued)}.
     set_status demo_kernel ''p'' demo_revocation [(snd (snd x), Answered, snd (snd x))] = Inr demo_closed"
proof -
  have "set_status demo_kernel ''p'' demo_revocation
      [(demo_challenged, Conflict, demo_issued), (demo_issued, Answered, demo_issued)] = Inr demo_closed"
    by (rule demo_revoke_retried)
  from set_status_atomic [OF _ this] demo_evolves(2) show ?thesis by auto
qed

text \<open>C27: The validation that locks its rows inside a transaction and the plain one give the same answer on every
  table, errors included.\<close>

theorem locked_walk_agrees:
  "validate_for_invocation_in_transaction K db cid now = validate_for_invocation K db cid now"
proof (cases "validate_loop K db now [(cid, False, 0)] []")
  case (Inr visited)
  with validate_loop_keeps [OF Inr] have "distinct (map fst visited)" by auto
  from locked_loop_agrees [OF Inr this] Inr show ?thesis
    by (simp add: validate_for_invocation_in_transaction_def validate_for_invocation_def validate_locked_ancestry_def
        del: validate_loop.simps locked_loop.simps)
qed (simp add: validate_for_invocation_in_transaction_def validate_for_invocation_def del: validate_loop.simps)
text \<open>C28: The database store accepts the invocations the reference kernel in memory accepts, on the tables of any run.\<close>

theorem store_refines_reference:
  assumes "evolves K empty_policy_db db"
  shows "mem_validate_for_invocation K (memory_of K db) cid now = Inr () \<longleftrightarrow> validate_for_invocation K db cid now = Inr ()"
  by (rule store_agrees [OF evolves_ok [OF assms]])

theorem store_refines_reference_witness:
  "mem_validate_for_invocation demo_kernel (memory_of demo_kernel demo_issued) ''r'' 300000000000 = Inr ()"
  using store_refines_reference [OF demo_evolves(2)] demo_session_valid by blast

end
