(* ===== verification/Spec2Isabelle.thy ===== *)
theory Spec2Isabelle
  imports Authority_History Node_Properties Account_Properties Policy_Properties Encryption_Properties Hook_Properties
    Policy_Kernel_Properties
begin

text \<open>
  A verification development for the TinyCloud node (\<open>src/\<close>): a server that keeps spaces of data for
  their owners and lets others act on them under signed, delegated capabilities.

  \<^bold>\<open>The program.\<close> An owner signs a delegation; its holder may delegate a part of it further. A request
  is an invocation that cites the delegations it stands on. The node checks a token when it arrives,
  records it as an event of the spaces it concerns, and serves key-value data, webhooks, encryption
  keys and policy sessions under the recorded authority. The state is a relational database and a
  store of content-addressed blocks.

  \<^bold>\<open>Theories and sources.\<close> Every theory opens with the files and functions it models. Definitions keep
  the names of the source, with a prefix or suffix where a name is taken.

    \<^item> \<open>Tc_Prelude\<close>, \<open>Json\<close>, \<open>Externals\<close>: Rust's results, strings and maps; \<open>serde_json::Value\<close>; and the
      record of the published crates the node calls, which every definition takes as an argument.
    \<^item> \<open>Identity\<close>, \<open>Resource_Id\<close>, \<open>Resource_Type\<close>, \<open>Capability_Registry\<close>, \<open>Sql_Caveat\<close>, \<open>Events\<close>: principals,
      spaces and resources (\<open>tinycloud-auth\<close>, \<open>types/resource.rs\<close>), the registry of actions, the caveats of the
      SQL service, and the tokens and events (\<open>util.rs\<close>, \<open>events\<close>, \<open>hash.rs\<close>).
    \<^item> \<open>Space_Db\<close>, \<open>Column_Encryption\<close>: the tables of \<open>models\<close> and \<open>relationships\<close> with their primary and foreign
      keys, one list of records per table, and the encryption of stored tokens.
    \<^item> \<open>Revocation_Chain\<close>, \<open>Authority\<close>, \<open>Delegation\<close>, \<open>Invocation\<close>, \<open>Revocation\<close>: the walk over the proof graph and the
      processing of the three kinds of token (\<open>models/delegation.rs\<close>, \<open>invocation.rs\<close>, \<open>revocation.rs\<close>).
    \<^item> \<open>Transact\<close>, \<open>Kv_Store\<close>, \<open>Kv_History\<close>, \<open>Epoch_History\<close>, \<open>Authority_History\<close>: the transaction of \<open>db.rs\<close>, the reads of the
      key-value tables, and the invariants of the databases a node can reach.
    \<^item> \<open>Block_Store\<close>, \<open>Node_Api\<close>, \<open>Delegation_Queries\<close>, \<open>Account_Queries\<close>: block stores (\<open>storage\<close>), the operations
      \<open>delegate\<close>, \<open>revoke\<close> and \<open>invoke\<close>, capability reads, and the delegations of an account.
    \<^item> \<open>Write_Hooks\<close>, \<open>Webhook_Delivery\<close>, \<open>Webhook_History\<close>, \<open>Hook_Routes\<close>: subscriptions, the dispatcher
      (\<open>webhook_dispatcher.rs\<close>) and the hook endpoints.
    \<^item> \<open>Jcs\<close>, \<open>Policy_Capability\<close>: the two canonical JSON writers and policy capabilities.
    \<^item> \<open>Policy_Delegation\<close>, \<open>Policy_Kernel\<close>, \<open>Policy_Store\<close>, \<open>Policy_Graph\<close>, \<open>Policy_History\<close>, \<open>Policy_Sessions\<close>, \<open>Policy_Exact\<close>: the
      signed artifacts, the equations and the store of the policy authority kernel (\<open>policy_authority\<close>), and
      its runs.
    \<^item> \<open>Encryption_Network\<close>, \<open>Encryption_History\<close>, \<open>Encryption_Routes\<close>: encryption networks
      (\<open>encryption_network\<close>), what their service keeps, and the endpoints (\<open>routes/encryption.rs\<close>).
    \<^item> \<open>Sample_Node\<close>, \<open>Sample_Policy\<close>: small concrete nodes on which the hypotheses of the properties hold.
  \<^bold>\<open>State and operations.\<close> The database is one record of tables; an operation takes it and returns it
  updated, or an error, in which case the transaction is rolled back. Where the code writes outside a
  transaction (block stores, the encryption service, webhook marks) the changed state is returned
  in the error case too. A machine clock is an argument: an operation reads it once, as nanoseconds.
  Operations of the node are steps of \<open>node_step\<close>, of the encryption service of \<open>enc_step\<close>, of the
  webhook tables of \<open>wh_step\<close>, of the policy store of \<open>evolves\<close>; properties of reachable states are
  invariants of these relations, through the locales \<open>event_invariant\<close> and \<open>transition_invariant\<close>.

  \<^bold>\<open>Concurrency.\<close> \<open>node_step\<close> runs transactions one after the other, as SQLite does. On PostgreSQL the
  node uses READ COMMITTED: two transactions may append epochs to the same current epoch. The property
  on the log therefore assumes only the keys of the tables and shows that the next transaction merges
  such tips; the other properties of reachable databases are about serialised transactions. The
  operations of the policy store that read before they lock are given the two states separately.

  \<^bold>\<open>What is shown.\<close> In this theory: authority is only narrowed and goes back to the owner, revocation is
  final and reaches descendants, who may revoke, who creates a space, the key-value tables refine a
  map, listing agrees with reading, and the log merges its tips. \<open>Node_Properties\<close>: requests refine the
  map, reads return what was written, preconditions hold, no \<open>unwrap\<close> fails, queries end and are exact.
  \<open>Account_Properties\<close>: reported status, privacy, and pages that neither repeat nor skip and end.
  \<open>Policy_Properties\<close>: containment narrows and composes, hashes bind, printing and parsing agree.
  \<open>Policy_Kernel_Properties\<close>: sessions stand on live authority exactly, revocation closes the subtree,
  challenges issue once, status updates are atomic, and the store agrees with the reference kernel.
  \<open>Encryption_Properties\<close>: who gets a key and who administers a network, nonces are used once, revocation
  is final, released keys are readable. \<open>Hook_Properties\<close>: posts are bounded and signed, deliveries
  settle, tickets keep to their scope.

  \<^bold>\<open>Bounds.\<close> The walk over the proof graph stops at \<open>MAX_CHAIN_TRAVERSAL_NODES\<close> = 32 nodes as in the code; it and
  every other loop is a terminating function with its measure, except the chain query, whose walk may
  run in a cycle of colliding digests: it is a partial function, and shown to return where digests do
  not collide. The account's sessions are found in as many levels as the code allows nodes, 256, and the
  walk of the policy store in the depth the code allows.

  \<^bold>\<open>Simplifications.\<close> Sequence numbers, attempts and times are unbounded integers where the code has \<open>i64\<close>
  and \<open>OffsetDateTime\<close>. \<open>ORDER BY\<close> on texts is the order of bytes, SQLite's. Columns that hold JSON hold the
  value. A failing database connection is modelled where the code does not just return the error (the
  webhook dispatcher).

  \<^bold>\<open>Not modelled.\<close> Request decoding and rendering in \<open>routes/mod.rs\<close>, the SQL and DuckDB services, whose
  meaning is that of their engines, public reads and signed URLs, quotas, node control, link and tunnel,
  S3, enclave services, configuration, metrics, migrations, the client SDKs and the WebAssembly
  bindings: input and output, calls to services, or wiring. Signatures, hashes, CBOR, Base64, URI and
  date formats come from crates and are fields of \<open>externals\<close> and of the records beside it, with what a
  theorem needs of them as named laws.
\<close>

section \<open>Authority\<close>

text \<open>C1: Attenuation. When a delegation is accepted, each of its capabilities is either on a resource
  whose owner is the delegator, or is contained (resource, ability and caveats) in an ability of a
  cited delegation that was given to the delegator, may be redelegated, is valid for at least as
  long, and whose walk over the proof graph meets no revoked delegation.\<close>

theorem delegation_attenuates:
  assumes "delegation_process X now db (d, ser) = Inr (h, db')" and "c \<in> set (di_capabilities d)"
  shows "is_root_authority X (cap_resource c) (di_delegator d) \<or>
    (\<exists>p pc ids. supports X db d c p pc \<and> ancestor_chain_ids db (d_id p) = Inr ids \<and>
       (\<forall>a \<in> set ids. \<not> is_revoked db a))"
proof (cases "is_root_authority X (cap_resource c) (di_delegator d)")
  case False
  from assms(1) have "delegation_validate X db d = Inr ()" by (simp add: delegation_process_ok)
  from delegation_validate_ok [OF this assms(2) False] show ?thesis
    using first_revoked_ancestor_None by blast
qed simp

theorem delegation_attenuates_witness:
  "is_ok (delegation_process sample_ext 10 sample_db1 (second_delegation, ''d2'')) \<and>
   (\<exists>p pc ids. supports sample_ext sample_db1 second_delegation
       (sample_cap ''kv'' (Some ''docs/a'') ''tinycloud.kv/put'') p pc \<and>
     ancestor_chain_ids sample_db1 (d_id p) = Inr ids \<and> (\<forall>a \<in> set ids. \<not> is_revoked sample_db1 a))"
proof -
  let ?c = "sample_cap ''kv'' (Some ''docs/a'') ''tinycloud.kv/put''"
  have ok: "is_ok (delegation_process sample_ext 10 sample_db1 (second_delegation, ''d2''))" by code_simp
  then obtain h db' where run: "delegation_process sample_ext 10 sample_db1 (second_delegation, ''d2'') = Inr (h, db')"
    unfolding is_ok_iff by (metis prod.exhaust)
  have c: "?c \<in> set (di_capabilities second_delegation)" by code_simp
  have "\<not> is_root_authority sample_ext (cap_resource ?c) (di_delegator second_delegation)" by code_simp
  with delegation_attenuates [OF run c] ok show ?thesis by simp
qed

text \<open>C2: Provenance. In every database a node can reach, every stored ability leads through cited
  proofs to a delegation by the owner of its resource, is contained in what that delegation
  grants, and belongs to a delegation valid for no longer than that one.\<close>

theorem stored_authority_rooted:
  assumes "reachable X db" and "a \<in> set (abilities db)"
  shows "\<exists>d rt. d_id d = ab_delegation a \<and> rooted X db d rt (row_grant a)"
  using reachable_grounded [OF assms(1)] reachable_ids_ok [OF assms(1)] assms(2) grounded_rooted
  unfolding abilities_grounded_def by blast

theorem stored_authority_rooted_witness:
  "\<exists>d rt. d_id d = Hash 30 ''d2'' \<and> rooted sample_ext sample_db2 d rt
     (row_grant (sample_ability ''d2'' (sample_cap ''kv'' (Some ''docs/a'') ''tinycloud.kv/put'')))"
proof -
  let ?a = "sample_ability ''d2'' (sample_cap ''kv'' (Some ''docs/a'') ''tinycloud.kv/put'')"
  have "?a \<in> set (abilities sample_db2)" by code_simp
  from stored_authority_rooted [OF sample_reachable(3) this] show ?thesis
    by (simp add: sample_ability_def)
qed

text \<open>C3: Invocation soundness. When an invocation is accepted on a reachable database, each of its
  capabilities is on a resource the invoker owns, or an ability of a cited delegation given to the
  invoker contains it, that delegation and every delegation its walk visits is unrevoked and inside
  its validity window, and the authority goes back to a grant by the owner of the resource.\<close>

theorem invocation_authorised:
  assumes "reachable X db" and "invocation_process X now db (i, ser) ops = Inr (h, db')"
    and "c \<in> set (ii_capabilities i)"
  shows "is_root_authority X (cap_resource c) (ii_invoker i) \<or>
    (\<exists>p pc d rt. authorises X db now i c p pc \<and> d_id d = d_id p \<and> rooted X db d rt (row_grant pc) \<and>
       is_root_authority X (cap_resource c) (delegator rt))"
proof (cases "is_root_authority X (cap_resource c) (ii_invoker i)")
  case False
  from assms(2) have "invocation_validate X db now i = Inr ()" by (simp add: invocation_process_ok)
  from invocation_validate_parents(3) [OF this assms(3) False]
  obtain p pc where auth: "authorises X db now i c p pc" by blast
  then have "pc \<in> set (abilities db)" "ab_delegation pc = d_id p"
    and ext: "resource_extends X (cap_resource c) (ab_resource pc)"
    by (simp_all add: authorises_def grant_within_def cap_within_def)
  with reachable_grounded [OF assms(1)] reachable_ids_ok [OF assms(1)] grounded_rooted
  obtain d rt where "d_id d = d_id p" and rt: "rooted X db d rt (row_grant pc)"
    unfolding abilities_grounded_def by metis
  moreover have "is_root_authority X (cap_resource c) (delegator rt)"
    using rt is_root_authority_extends [OF ext] by (simp add: rooted_def)
  ultimately show ?thesis using auth by blast
qed simp

theorem invocation_authorised_witness:
  "\<exists>p pc d rt. authorises sample_ext sample_db2 10 sample_write
     (sample_cap ''kv'' (Some ''docs/a'') ''tinycloud.kv/put'') p pc \<and>
     d_id d = d_id p \<and> rooted sample_ext sample_db2 d rt (row_grant pc)"
proof -
  let ?c = "sample_cap ''kv'' (Some ''docs/a'') ''tinycloud.kv/put''"
  have "is_ok (invocation_process sample_ext 10 sample_db2 (sample_write, ''i1'') [])" by code_simp
  then obtain h db' where run: "invocation_process sample_ext 10 sample_db2 (sample_write, ''i1'') [] = Inr (h, db')"
    unfolding is_ok_iff by (metis prod.exhaust)
  have c: "?c \<in> set (ii_capabilities sample_write)" by code_simp
  have "\<not> is_root_authority sample_ext (cap_resource ?c) (ii_invoker sample_write)" by code_simp
  with invocation_authorised [OF sample_reachable(3) run c] show ?thesis by blast
qed

text \<open>C4: Revocation is final. Once a transaction has revoked a delegation, in no later database of the
  node does an invocation that cites it and needs its authority pass validation, at any time.\<close>

theorem revocation_final:
  assumes "reachable X db" and "transact X now db [ERevocation (rv, ser)] = Inr (r, db1)"
    and "hash_bytes X ser \<notin> r_id ` set (revocations db)"
    and "(node_step X)\<^sup>*\<^sup>* db1 db2"
    and "p \<in> set (ii_parents i)" and "cid_hash p = cid_hash (ri_revoked rv)"
    and "c \<in> set (ii_capabilities i)" and "\<not> is_root_authority X (cap_resource c) (ii_invoker i)"
  shows "\<exists>e. invocation_validate X db2 now' i = Inl e"
proof (rule ccontr)
  assume "\<not> ?thesis"
  then obtain u where ok: "invocation_validate X db2 now' i = Inr u"
    by (cases "invocation_validate X db2 now' i") auto
  have "is_revoked db1 (cid_hash (ri_revoked rv))"
    using assms(2) by (rule transact_revokes) (use assms(3) in \<open>blast intro: image_eqI [OF sym]\<close>)
  with steps_grow [OF assms(4)] have "is_revoked db2 (cid_hash p)" by (simp add: is_revoked_mono assms(6))
  moreover have "ids_ok db2"
    using reachable_ids_ok [OF reachable_tx [OF assms(1,2)]] assms(4) ids_db.holds_steps by blast
  ultimately show False using validate_cited_clean [OF ok _ assms(7,8,5)] by blast
qed

theorem revocation_final_witness:
  "\<exists>e. invocation_validate sample_ext sample_db4 20 (sample_write\<lparr>ii_parents := [raw_cid ''d1'']\<rparr>) = Inl e"
proof (rule revocation_final [OF sample_reachable(4) sample_tx4])
  show "hash_bytes sample_ext ''r1'' \<notin> r_id ` set (revocations sample_db3)" by code_simp
  show "raw_cid ''d1'' \<in> set (ii_parents (sample_write\<lparr>ii_parents := [raw_cid ''d1'']\<rparr>))" by simp
  show "cid_hash (raw_cid ''d1'') = cid_hash (ri_revoked sample_revocation)" by code_simp
  show "sample_cap ''kv'' (Some ''docs/a'') ''tinycloud.kv/put'' \<in>
      set (ii_capabilities (sample_write\<lparr>ii_parents := [raw_cid ''d1'']\<rparr>))" by code_simp
  show "\<not> is_root_authority sample_ext (cap_resource (sample_cap ''kv'' (Some ''docs/a'') ''tinycloud.kv/put''))
      (ii_invoker (sample_write\<lparr>ii_parents := [raw_cid ''d1'']\<rparr>))" by code_simp
qed simp

text \<open>C5: Revocation and expiry reach descendants. When an invocation passes validation on a
  capability the invoker does not own, then no delegation reachable over the proof graph from a
  cited one is revoked or outside its validity window, provided that every delegation the walk
  visits has no more parents than the walk still may visit.\<close>

theorem ancestors_checked:
  assumes "ids_ok db" and "invocation_validate X db now i = Inr u"
    and "c \<in> set (ii_capabilities i)" and "\<not> is_root_authority X (cap_resource c) (ii_invoker i)"
    and "p \<in> set (ii_parents i)" and "(cid_hash p, a) \<in> (parent_rel db)\<^sup>*"
    and "\<forall>ids. ancestor_chain_ids db (cid_hash p) = Inr ids \<longrightarrow> links_fit db ids 0"
  shows "\<not> is_revoked db a \<and> (\<forall>d \<in> set (delegations db). d_id d = a \<longrightarrow> within_window now d)"
  using validate_cited_clean [OF assms(2,1,3,4,5)] assms(6,7) chain_clean_exact by blast

theorem ancestors_checked_witness:
  "\<not> is_revoked sample_db2 (Hash 30 ''d1'') \<and>
   within_window 10 (sample_row ''d1'' owner_did0 first_did 100)"
proof -
  have "\<not> is_revoked sample_db2 (Hash 30 ''d1'') \<and>
   (\<forall>d \<in> set (delegations sample_db2). d_id d = Hash 30 ''d1'' \<longrightarrow> within_window 10 d)"
  proof (rule ancestors_checked)
    show "ids_ok sample_db2" by (rule reachable_ids_ok [OF sample_reachable(3)])
    show "invocation_validate sample_ext sample_db2 10 sample_write = Inr ()" by code_simp
    show "sample_cap ''kv'' (Some ''docs/a'') ''tinycloud.kv/put'' \<in> set (ii_capabilities sample_write)" by code_simp
    show "\<not> is_root_authority sample_ext (cap_resource (sample_cap ''kv'' (Some ''docs/a'') ''tinycloud.kv/put''))
        (ii_invoker sample_write)" by code_simp
    show "raw_cid ''d2'' \<in> set (ii_parents sample_write)" by code_simp
    have "(cid_hash (raw_cid ''d2''), Hash 30 ''d1'') \<in> parent_rel sample_db2"
      by (simp add: parent_rel_def sample_db2_def raw_cid_def)
    then show "(cid_hash (raw_cid ''d2''), Hash 30 ''d1'') \<in> (parent_rel sample_db2)\<^sup>*" by simp
    have "ancestor_chain_ids sample_db2 (cid_hash (raw_cid ''d2'')) = Inr [Hash 30 ''d2'', Hash 30 ''d1'']" by code_simp
    moreover have "length (parent_links sample_db2 h) \<le> 1" for h
      by (simp add: parent_links_def sample_db2_def)
    then have "links_fit sample_db2 [Hash 30 ''d2'', Hash 30 ''d1''] 0"
      unfolding links_fit_def
      by (auto simp: MAX_CHAIN_TRAVERSAL_NODES_def intro: order.trans [where b = 1])
    ultimately show "\<forall>ids. ancestor_chain_ids sample_db2 (cid_hash (raw_cid ''d2'')) = Inr ids \<longrightarrow> links_fit sample_db2 ids 0"
      by simp
  qed
  moreover have "sample_row ''d1'' owner_did0 first_did 100 \<in> set (delegations sample_db2)" by code_simp
  moreover have "d_id (sample_row ''d1'' owner_did0 first_did 100) = Hash 30 ''d1''" by code_simp
  ultimately show ?thesis by blast
qed

text \<open>The walk over the proof graph always ends, and when it succeeds it has visited at most 64
  delegations, each once, all of them reachable from the roots, with every root among them.\<close>

theorem walk_bounded:
  "(\<exists>e. ancestor_chain_ids_for_roots db roots = Inl e) \<or>
   (\<exists>ids. ancestor_chain_ids_for_roots db roots = Inr ids \<and> distinct ids \<and>
      length ids \<le> MAX_CHAIN_TRAVERSAL_NODES \<and> set roots \<subseteq> set ids \<and>
      set ids \<subseteq> (parent_rel db)\<^sup>* `` set roots)"
proof (cases "ancestor_chain_ids_for_roots db roots")
  case (Inr ids)
  with chain_ids_bounded chain_ids_roots chain_ids_sound show ?thesis by blast
qed blast

text \<open>C6: Who may revoke. An accepted new revocation names a stored delegation, which is revoked
  afterwards, and changes the state of no other delegation. Its signer, or the delegator of the one
  delegation it cites as a control proof, is one of the revokers the comments of the source allow: the
  delegator, the owner of a space the delegation touches, or the delegatee of the delegation or of
  one of its ancestors. A control proof was given to the signer, is in its window, has no revoked
  node in its walk, and grants the ability to revoke.\<close>

theorem revoker_authorised:
  assumes "revocation_process X now db (rv, ser) = Inr (h, db')"
    and "hash_bytes X ser \<notin> r_id ` set (revocations db)"
  shows "is_revoked db' (cid_hash (ri_revoked rv)) \<and>
    (\<forall>g. g \<noteq> cid_hash (ri_revoked rv) \<longrightarrow> is_revoked db' g = is_revoked db g) \<and>
    (\<exists>d \<in> set (delegations db). d_id d = cid_hash (ri_revoked rv) \<and>
      ((ri_parents rv = [] \<and> documented_revoker X db d (ri_revoker rv)) \<or>
       (\<exists>proof_cid p ids. ri_parents rv = [proof_cid] \<and> p \<in> set (delegations db) \<and> d_id p = cid_hash proof_cid \<and>
          did_principal_matches X (delegatee p) (ri_revoker rv) \<and> within_window now p \<and>
          ancestor_chain_ids db (d_id p) = Inr ids \<and> (\<forall>a \<in> set ids. \<not> is_revoked db a) \<and>
          (\<exists>a \<in> set (abilities db). ab_delegation a = d_id p \<and> ab_ability a = ''tinycloud.delegation/revoke'' \<and>
             is_control_ability X (d_id d) p a) \<and>
          documented_revoker X db d (delegator p))))"
proof (intro conjI)
  show "is_revoked db' (cid_hash (ri_revoked rv))"
    using assms(1) by (rule revocation_process_revokes) (use assms(2) in \<open>blast intro: image_eqI [OF sym]\<close>)
  show "\<forall>g. g \<noteq> cid_hash (ri_revoked rv) \<longrightarrow> is_revoked db' g = is_revoked db g"
    using revocation_process_only [OF assms(1)] by blast
  from assms(1) obtain d where d: "find_delegation db (cid_hash (ri_revoked rv)) = Some d"
    "revoker_is_authorized X db now d (ri_revoker rv) (ri_parents rv) = Inr True"
    by (rule revocation_process_cases) blast+
  note found = find_delegation_Some [OF d(1)]
  with revoker_is_authorized_cases [OF d(2)] party_documented [of X db d]
  show "\<exists>d \<in> set (delegations db). d_id d = cid_hash (ri_revoked rv) \<and>
      ((ri_parents rv = [] \<and> documented_revoker X db d (ri_revoker rv)) \<or>
       (\<exists>proof_cid p ids. ri_parents rv = [proof_cid] \<and> p \<in> set (delegations db) \<and> d_id p = cid_hash proof_cid \<and>
          did_principal_matches X (delegatee p) (ri_revoker rv) \<and> within_window now p \<and>
          ancestor_chain_ids db (d_id p) = Inr ids \<and> (\<forall>a \<in> set ids. \<not> is_revoked db a) \<and>
          (\<exists>a \<in> set (abilities db). ab_delegation a = d_id p \<and> ab_ability a = ''tinycloud.delegation/revoke'' \<and>
             is_control_ability X (d_id d) p a) \<and>
          documented_revoker X db d (delegator p)))" by blast
qed

theorem revoker_authorised_witness:
  "\<exists>d \<in> set (delegations sample_db3). d_id d = Hash 30 ''d1'' \<and> documented_revoker sample_ext sample_db3 d owner_did0"
proof -
  have "is_ok (revocation_process sample_ext 10 sample_db3 (sample_revocation, ''r1''))" by code_simp
  then obtain h db' where run: "revocation_process sample_ext 10 sample_db3 (sample_revocation, ''r1'') = Inr (h, db')"
    unfolding is_ok_iff by (metis prod.exhaust)
  have new: "hash_bytes sample_ext ''r1'' \<notin> r_id ` set (revocations sample_db3)" by code_simp
  show ?thesis
    using revoker_authorised [OF run new] by (auto simp: sample_revocation_def raw_cid_def)
qed

text \<open>C7: Spaces belong to their owners. A transaction on a reachable database creates a space only when
  one of its delegations hosts it, and then the delegator is the owner of the space or a proof
  the delegation cites leads to a delegation by the owner.\<close>

theorem new_space_by_owner:
  assumes "reachable X db" and "transact X now db events = Inr (r, db')"
    and "s \<in> set (spaces db')" and "s \<notin> set (spaces db)"
  shows "\<exists>d ser c. EDelegation (d, ser) \<in> set events \<and> c \<in> set (di_capabilities d) \<and>
    hosted_space c = Some s \<and> backed_by_owner X db' d (cap_resource c)"
proof -
  from transact_spaces [OF assms(2)] assms(3,4) obtain ev where ev: "ev \<in> set events" "s \<in> set (event_new_spaces ev)"
    by auto
  obtain d ser where evd: "ev = EDelegation (d, ser)" using ev(2) by (metis event_new_spaces.elims empty_iff empty_set prod.exhaust)
  with ev(2) obtain c where c: "c \<in> set (di_capabilities d)" "hosted_space c = Some s"
    by (auto simp: map_filter_def)
  from event_processed [OF assms(2) ev(1) reachable_grounded [OF assms(1)] reachable_ids_ok [OF assms(1)]]
  obtain orders dbk cids dbk' cids' where
    step: "process_event X now orders (dbk, cids) (event_hash X ev, ev) = Inr (dbk', cids')"
    and "abilities_grounded X dbk" "authority_grows dbk' db'" by blast
  with process_delegation_backed [of X now orders dbk cids _ d ser dbk' cids' c] c evd
  have "backed_by_owner X db' d (cap_resource c)"
    using backed_by_owner_mono authority_grows_trans by blast
  with c ev evd show ?thesis by blast
qed

theorem new_space_by_owner_witness:
  "\<exists>d ser c. EDelegation (d, ser) \<in> set [EDelegation (first_delegation, ''d1'')] \<and> c \<in> set (di_capabilities d) \<and>
    hosted_space c = Some sample_space \<and> backed_by_owner sample_ext sample_db1 d (cap_resource c)"
  by (rule new_space_by_owner [OF sample_reachable(1) sample_tx1]) (simp_all add: sample_db1_def empty_db_def)

section \<open>Key-value store\<close>

text \<open>C8: Refinement. On a reachable database, a transaction with one new invocation changes the
  key-value map that clients see exactly by the operations of the invocation, in their order: a
  write sets its key, a delete of the current version clears it, and nothing else changes.\<close>

theorem kv_refines_map:
  assumes "reachable X db" and "transact X now db [EInvocation (i, ser) ops] = Inr (r, db')"
    and "hash_bytes X ser \<notin> i_id ` set (invocations db)" and "list_all deletes_current ops"
    and "op_space ` set ops \<subseteq> set (info_spaces (ii_capabilities i))"
  shows "kv_view db' = fold apply_op ops (kv_view db)"
  using assms(2) reachable_kv_ok [OF assms(1)] assms(3-5) by (rule invocation_refines)

theorem kv_refines_map_witness:
  "kv_view sample_db3 = fold apply_op [sample_put] (kv_view sample_db2)"
  by (rule kv_refines_map [OF sample_reachable(3) sample_tx3]) code_simp+

text \<open>C9: Listing agrees with reading. On a reachable database, the list of a space under a prefix has
  exactly the keys with that prefix (as the database compares them) that reading finds, sorted,
  and a limit cuts it and says so exactly when there are more.\<close>

theorem list_agrees_with_get:
  assumes "reachable X db"
  shows "set (fst (list_bounded X db s pre None)) = {k. like_prefix X k pre \<and> kv_view db (s, k) \<noteq> None} \<and>
    sorted (fst (list_bounded X db s pre None)) \<and>
    list_bounded X db s pre (Some n) =
      (take n (fst (list_bounded X db s pre None)), length (fst (list_bounded X db s pre None)) > n)"
proof -
  note ok = reachable_kv_ok [OF assms]
  have "k \<in> set (list_rows X db s pre) \<longleftrightarrow> like_prefix X k pre \<and> kv_view db (s, k) \<noteq> None" for k
    using list_rows_iff [OF kv_ok_versions_unique [OF ok] kv_ok_blake3 [OF ok], of k X s pre]
    by (auto simp: kv_view_def)
  then have "set (list_rows X db s pre) = {k. like_prefix X k pre \<and> kv_view db (s, k) \<noteq> None}" by blast
  moreover have "sorted (list_rows X db s pre)" by (simp add: list_rows_def)
  ultimately show ?thesis
    by (auto simp: list_bounded_def Let_def min_def not_less)
qed

theorem list_agrees_with_get_witness:
  "set (fst (list_bounded sample_ext sample_db3 sample_space ''docs'' None)) =
     {k. like_prefix sample_ext k ''docs'' \<and> kv_view sample_db3 (sample_space, k) \<noteq> None} \<and>
   fst (list_bounded sample_ext sample_db3 sample_space ''docs'' None) = [''docs/a'']"
proof -
  have "fst (list_bounded sample_ext sample_db3 sample_space ''docs'' None) = [''docs/a'']" by code_simp
  with list_agrees_with_get [OF sample_reachable(4), of sample_space "''docs''" 0] show ?thesis by simp
qed

text \<open>Replays have no effect on data. An invocation that is already recorded can be processed again,
  but then it leaves every key-value row, every ability and every delegation as it is.\<close>

theorem replay_changes_nothing:
  assumes "invocation_process X now db (i, ser) ops = Inr (h, db')"
    and "hash_bytes X ser \<in> i_id ` set (invocations db)"
  shows "db' = save_actors [ii_invoker i] db \<and> kv_view db' = kv_view db"
proof -
  have "invocation_save X db i now ser ops = Inr (h, db')" using assms(1) by (simp add: invocation_process_ok)
  then have "db' = save_actors [ii_invoker i] db"
    by (cases rule: invocation_save_cases) (use assms(2) in simp_all)
  then show ?thesis by (auto intro: kv_view_same_tables)
qed

theorem replay_changes_nothing_witness:
  "\<exists>db'. db' = save_actors [second_did] sample_db3 \<and> kv_view db' = kv_view sample_db3"
proof -
  have "is_ok (invocation_process sample_ext 11 sample_db3 (sample_write, ''i1'') [])" by code_simp
  then obtain h db' where run: "invocation_process sample_ext 11 sample_db3 (sample_write, ''i1'') [] = Inr (h, db')"
    unfolding is_ok_iff by (metis prod.exhaust)
  have "hash_bytes sample_ext ''i1'' \<in> i_id ` set (invocations sample_db3)" by code_simp
  from replay_changes_nothing [OF run this] show ?thesis by (auto simp: sample_write_def)
qed

section \<open>Transactions\<close>

text \<open>C10: Tips are merged. Whatever was committed before, also when transactions that ran side by side
  left a space with several current epochs, a transaction gives each space it commits to one new
  epoch that consumes all the epochs it finds current, becomes the only current one, and has a
  sequence number above that of every event it finds in the space; the other spaces keep their
  current epochs. The hypothesis on the database is the primary key of the epochs and the foreign key
  of their order, and both hold again afterwards.\<close>

theorem tips_merged:
  assumes "epoch_keys db" and "transact X now db events = Inr (r, db')"
  shows "epoch_keys db' \<and>
    (\<forall>(s, c) \<in> set (commits r). most_recent db' s = [commit_rev c] \<and> consumed_epochs c = most_recent db s \<and>
       (\<forall>e \<in> set (event_orders db). ev_space e = s \<longrightarrow> ev_seq e < commit_seq c)) \<and>
    (\<forall>s. s \<notin> fst ` set (commits r) \<longrightarrow> most_recent db' s = most_recent db s)"
proof -
  have "ev_seq e < next_seq db (ev_space e)" if "e \<in> set (event_orders db)" for e
    using that by (rule next_seq_greater)
  then show ?thesis using transact_epochs [OF assms(2,1)] by auto
qed

theorem tips_merged_witness:
  "length (most_recent forked_db sample_space) = 2 \<and>
   (\<exists>r db'. transact sample_ext 10 forked_db [ERevocation (sample_revocation, ''r1'')] = Inr (r, db') \<and>
      length (most_recent db' sample_space) = 1)"
proof -
  let ?run = "transact sample_ext 10 forked_db [ERevocation (sample_revocation, ''r1'')]"
  have two: "length (most_recent forked_db sample_space) = 2" by code_simp
  have "is_ok ?run" by code_simp
  then obtain r db' where run: "?run = Inr (r, db')" unfolding is_ok_iff by (metis prod.exhaust)
  have "map fst (commits (fst (projr ?run))) = [sample_space]" by code_simp
  with run obtain c where "(sample_space, c) \<in> set (commits r)" by (cases "commits r") auto
  with tips_merged [OF forked_keys run] run two show ?thesis by fastforce
qed

text \<open>No panic. The lookup of the order of an operation, which the code unwraps, always succeeds when
  every operation of an invocation is on a space of one of its capabilities.\<close>

theorem transact_never_panics:
  assumes "\<forall>i ops op. EInvocation i ops \<in> set events \<longrightarrow> op \<in> set ops \<longrightarrow>
      op_space op \<in> set (info_spaces (ii_capabilities (fst i)))"
  shows "transact X now db events \<noteq> Inl TxPanic"
  using assms by (intro transact_no_panic) blast

theorem transact_never_panics_witness:
  "transact sample_ext 10 empty_db [EInvocation (sample_write, ''i1'') [sample_put]] \<noteq> Inl TxPanic"
proof (rule transact_never_panics)
  have "op_space sample_put \<in> set (info_spaces (ii_capabilities sample_write))" by code_simp
  then show "\<forall>i ops op. EInvocation i ops \<in> set [EInvocation (sample_write, ''i1'') [sample_put]] \<longrightarrow> op \<in> set ops \<longrightarrow>
      op_space op \<in> set (info_spaces (ii_capabilities (fst i)))" by simp
qed

end
